(* ===== verification/Prelude.thy ===== *)
theory Prelude
  imports Main "HOL-Library.AList" "HOL-Library.Sublist" "HOL-Library.Char_ord"
    "HOL-Library.List_Lexorder"
begin

text \<open>
  Shared vocabulary of the development: Python's strings, dictionaries, exceptions and
  decoded JSON values, with the generic lemmas the component theories rest on.

  Python strings are modelled as \<open>string\<close>: ASCII characters are themselves, any other
  character is its UTF-8 bytes. Case folding, white space and line breaks follow Python on the
  ASCII characters; text with other cased letters or Unicode spaces is outside the model. A
  Python dictionary is an association list without repeated keys: it keeps insertion
  order, an assignment to a present key replaces the value in place, an assignment to a new
  key appends. A fallible function returns a value of a sum type, \<open>Inl\<close> for the exception.
\<close>

named_theorems py_simps \<open>unfolding rules for the small Python operations\<close>
named_theorems dict_simps \<open>lookup and update laws of dictionaries\<close>

section \<open>Results\<close>

definition bindE :: "'e + 'a \<Rightarrow> ('a \<Rightarrow> 'e + 'b) \<Rightarrow> 'e + 'b" where
  "bindE m f = (case m of Inl e \<Rightarrow> Inl e | Inr a \<Rightarrow> f a)"

lemma bindE_simps [simp]:
  "bindE (Inl e) f = Inl e"
  "bindE (Inr a) f = f a"
  by (simp_all add: bindE_def)

lemma bindE_Inr_iff: "bindE m f = Inr b \<longleftrightarrow> (\<exists>a. m = Inr a \<and> f a = Inr b)"
  by (cases m) simp_all

lemma bindE_Inr_E:
  assumes "bindE m f = Inr b"
  obtains a where "m = Inr a" and "f a = Inr b"
  using assms by (auto simp: bindE_Inr_iff)

definition is_ok :: "'e + 'a \<Rightarrow> bool" where
  "is_ok m = (case m of Inl _ \<Rightarrow> False | Inr _ \<Rightarrow> True)"

lemma is_ok_simps [simp]: "is_ok (Inl e) = False" "is_ok (Inr a) = True"
  by (simp_all add: is_ok_def)

lemma is_ok_E:
  assumes "is_ok m"
  obtains a where "m = Inr a"
  using assms by (cases m) auto

section \<open>Strings\<close>

definition starts_with :: "string \<Rightarrow> string \<Rightarrow> bool" where
  "starts_with s p = (take (length p) s = p)"

definition ends_with :: "string \<Rightarrow> string \<Rightarrow> bool" where
  "ends_with s p = (length p \<le> length s \<and> drop (length s - length p) s = p)"

text \<open>\<open>sub in s\<close> on strings.\<close>

fun str_contains :: "string \<Rightarrow> string \<Rightarrow> bool" where
  "str_contains [] sub = (sub = [])"
| "str_contains (c # s) sub = (starts_with (c # s) sub \<or> str_contains s sub)"

lemma starts_with_prefix: "starts_with s p \<longleftrightarrow> prefix p s"
  by (metis append_eq_conv_conj append_take_drop_id prefix_def starts_with_def)

lemma ends_with_suffix: "ends_with s p \<longleftrightarrow> suffix p s"
  unfolding ends_with_def suffix_def
  by (metis append_eq_conv_conj append_take_drop_id diff_diff_cancel length_append
      length_drop le_add2 add_diff_cancel_right')

lemma str_contains_sublist: "str_contains s sub \<longleftrightarrow> sublist sub s"
  by (induction s) (auto simp: starts_with_prefix sublist_Cons_right)

lemma str_contains_infix: "str_contains (xs @ sub @ ys) sub"
  by (auto simp: str_contains_sublist sublist_def)

lemma starts_with_append [simp]: "starts_with (p @ s) p"
  by (simp add: starts_with_def)

lemma ends_with_append [simp]: "ends_with (s @ p) p"
  by (simp add: ends_with_def)

definition is_space :: "char \<Rightarrow> bool" where
  "is_space c = (c \<in> {CHR '' '', CHR 0x09, CHR 0x0A, CHR 0x0B, CHR 0x0C, CHR 0x0D,
     CHR 0x1C, CHR 0x1D, CHR 0x1E, CHR 0x1F})"

definition is_digit :: "char \<Rightarrow> bool" where
  "is_digit c = (48 \<le> (of_char c :: nat) \<and> (of_char c :: nat) \<le> 57)"

definition digit_val :: "char \<Rightarrow> nat" where
  "digit_val c = (of_char c :: nat) - 48"

definition is_upper :: "char \<Rightarrow> bool" where
  "is_upper c = (65 \<le> (of_char c :: nat) \<and> (of_char c :: nat) \<le> 90)"

definition is_lower :: "char \<Rightarrow> bool" where
  "is_lower c = (97 \<le> (of_char c :: nat) \<and> (of_char c :: nat) \<le> 122)"

definition lower_char :: "char \<Rightarrow> char" where
  "lower_char c = (if is_upper c then char_of ((of_char c :: nat) + 32) else c)"

definition upper_char :: "char \<Rightarrow> char" where
  "upper_char c = (if is_lower c then char_of ((of_char c :: nat) - 32) else c)"

definition str_lower :: "string \<Rightarrow> string" where
  "str_lower s = map lower_char s"

definition str_upper :: "string \<Rightarrow> string" where
  "str_upper s = map upper_char s"

definition str_strip :: "string \<Rightarrow> string" where
  "str_strip s = rev (dropWhile is_space (rev (dropWhile is_space s)))"

lemma length_str_lower [simp]: "length (str_lower s) = length s"
  by (simp add: str_lower_def)

lemma upper_char_idem [simp]: "upper_char (upper_char c) = upper_char c"
  by (auto simp: upper_char_def is_lower_def of_char_of)

lemma str_upper_idem [simp]: "str_upper (str_upper s) = str_upper s"
  by (simp add: str_upper_def)

lemma is_upper_upper_char: "is_upper c \<Longrightarrow> upper_char c = c"
  by (auto simp: upper_char_def is_lower_def is_upper_def)

text \<open>\<open>s.split()\<close>: the maximal runs of non-space characters.\<close>

fun split_ws_aux :: "string \<Rightarrow> string \<Rightarrow> string list" where
  "split_ws_aux acc [] = (if acc = [] then [] else [rev acc])"
| "split_ws_aux acc (c # s) =
     (if is_space c then (if acc = [] then split_ws_aux [] s else rev acc # split_ws_aux [] s)
      else split_ws_aux (c # acc) s)"

definition split_ws :: "string \<Rightarrow> string list" where
  "split_ws s = split_ws_aux [] s"

text \<open>\<open>s.split(sep)\<close> for a one-character separator.\<close>

fun split_on_aux :: "char \<Rightarrow> string \<Rightarrow> string \<Rightarrow> string list" where
  "split_on_aux d acc [] = [rev acc]"
| "split_on_aux d acc (c # s) =
     (if c = d then rev acc # split_on_aux d [] s else split_on_aux d (c # acc) s)"

definition split_on :: "char \<Rightarrow> string \<Rightarrow> string list" where
  "split_on d s = split_on_aux d [] s"

lemma split_on_nonempty: "split_on d s \<noteq> []"
proof -
  have "split_on_aux d acc s \<noteq> []" for acc
    by (induction s arbitrary: acc) auto
  then show ?thesis by (simp add: split_on_def)
qed

text \<open>\<open>s.splitlines()\<close>: a carriage return and a line feed together end one line.\<close>

definition is_line_break :: "char \<Rightarrow> bool" where
  "is_line_break c \<longleftrightarrow> c \<in> {CHR 0x0A, CHR 0x0B, CHR 0x0C, CHR 0x0D, CHR 0x1C, CHR 0x1D, CHR 0x1E}"

fun splitlines_aux :: "string \<Rightarrow> string \<Rightarrow> string list" where
  "splitlines_aux acc [] = (if acc = [] then [] else [rev acc])"
| "splitlines_aux acc (c # s) =
     (if c = CHR 0x0D \<and> s \<noteq> [] \<and> hd s = CHR 0x0A then rev acc # splitlines_aux [] (tl s)
      else if is_line_break c then rev acc # splitlines_aux [] s
      else splitlines_aux (c # acc) s)"

definition splitlines :: "string \<Rightarrow> string list" where
  "splitlines s = splitlines_aux [] s"

text \<open>\<open>s.partition(sep)\<close>: the text before the first separator and the text after it.\<close>

fun partition_aux :: "string \<Rightarrow> string \<Rightarrow> string \<Rightarrow> (string \<times> string) option" where
  "partition_aux sep acc [] = (if sep = [] then Some (rev acc, []) else None)"
| "partition_aux sep acc (c # s) =
     (if starts_with (c # s) sep then Some (rev acc, drop (length sep) (c # s))
      else partition_aux sep (c # acc) s)"

definition str_partition :: "string \<Rightarrow> string \<Rightarrow> string \<times> string" where
  "str_partition sep s = (case partition_aux sep [] s of None \<Rightarrow> (s, []) | Some p \<Rightarrow> p)"

lemma partition_aux_Some:
  "partition_aux sep acc s = Some (a, b) \<Longrightarrow> rev acc @ s = a @ sep @ b"
proof (induction sep acc s rule: partition_aux.induct)
  case (1 sep acc)
  then show ?case by (simp split: if_splits)
next
  case (2 sep acc c s)
  then show ?case
    by (auto simp: starts_with_def split: if_splits) (metis append_take_drop_id)
qed

text \<open>\<open>str(n)\<close> of an integer.\<close>

fun nat_digits :: "nat \<Rightarrow> string" where
  "nat_digits n = (if n < 10 then [char_of (48 + n)]
     else nat_digits (n div 10) @ [char_of (48 + n mod 10)])"

declare nat_digits.simps [simp del]

lemma digit_chars [simp]:
  "char_of (48 :: nat) = CHR ''0''" "char_of (49 :: nat) = CHR ''1''" "char_of (50 :: nat) = CHR ''2''"
  "char_of (51 :: nat) = CHR ''3''" "char_of (52 :: nat) = CHR ''4''" "char_of (53 :: nat) = CHR ''5''"
  "char_of (54 :: nat) = CHR ''6''" "char_of (55 :: nat) = CHR ''7''" "char_of (56 :: nat) = CHR ''8''"
  "char_of (57 :: nat) = CHR ''9''"
  by (simp_all add: char_of_def bit_Suc_0_iff)

lemmas nat_digits_numeral = nat_digits.simps [of 0] nat_digits.simps [of 1]
  nat_digits.simps [of "numeral k" for k]

definition str_of_int :: "int \<Rightarrow> string" where
  "str_of_int i = (if i < 0 then ''-'' @ nat_digits (nat (- i)) else nat_digits (nat i))"

text \<open>
  Strings compare by code points, as Python's \<open><\<close> does: the lexicographic order of
  \<open>List_Lexorder\<close> over the order of characters, so that \<open>sorted(xs, key=f)\<close> is the
  library's stable \<open>sort_key f xs\<close> and \<open>sorted(set(xs))\<close> is \<open>sorted_set xs\<close>.
\<close>

definition sorted_set :: "string list \<Rightarrow> string list" where
  "sorted_set xs = sort (remdups xs)"

lemma set_sorted_set [simp]: "set (sorted_set xs) = set xs"
  by (simp add: sorted_set_def)

lemma distinct_sorted_set [simp]: "distinct (sorted_set xs)"
  by (simp add: sorted_set_def)

lemma sorted_sorted_set [simp]: "sorted (sorted_set xs)"
  by (simp add: sorted_set_def)

lemma sorted_set_eq: "sorted_set xs = sorted_list_of_set (set xs)"
  by (simp add: sorted_set_def sorted_list_of_set_sort_remdups)

lemma sorted_set_cong: "set xs = set ys \<Longrightarrow> sorted_set xs = sorted_set ys"
  by (simp add: sorted_set_eq)

section \<open>Dictionaries\<close>

type_synonym ('k, 'v) dict = "('k \<times> 'v) list"

definition dict_set :: "'k \<Rightarrow> 'v \<Rightarrow> ('k, 'v) dict \<Rightarrow> ('k, 'v) dict" where
  "dict_set k v d = AList.update k v d"

definition dict_get :: "('k, 'v) dict \<Rightarrow> 'k \<Rightarrow> 'v option" where
  "dict_get d k = map_of d k"

definition dict_has :: "('k, 'v) dict \<Rightarrow> 'k \<Rightarrow> bool" where
  "dict_has d k = (k \<in> set (map fst d))"

definition dict_default :: "('k, 'v) dict \<Rightarrow> 'k \<Rightarrow> 'v \<Rightarrow> 'v" where
  "dict_default d k v = (case dict_get d k of None \<Rightarrow> v | Some w \<Rightarrow> w)"

definition dict_pop :: "'k \<Rightarrow> ('k, 'v) dict \<Rightarrow> ('k, 'v) dict" where
  "dict_pop k d = filter (\<lambda>p. fst p \<noteq> k) d"

definition dict_update :: "('k, 'v) dict \<Rightarrow> ('k, 'v) dict \<Rightarrow> ('k, 'v) dict" where
  "dict_update d e = foldl (\<lambda>m p. dict_set (fst p) (snd p) m) d e"

definition dict_ok :: "('k, 'v) dict \<Rightarrow> bool" where
  "dict_ok d = distinct (map fst d)"

lemma dict_get_set [dict_simps, simp]:
  "dict_get (dict_set k v d) j = (if j = k then Some v else dict_get d j)"
  by (simp add: dict_get_def dict_set_def update_conv')

lemma dict_get_Nil [simp]: "dict_get [] k = None"
  by (simp add: dict_get_def)

lemma dict_get_pop [dict_simps, simp]:
  "dict_get (dict_pop k d) j = (if j = k then None else dict_get d j)"
  by (induction d) (auto simp: dict_get_def dict_pop_def)

lemma dict_has_iff: "dict_has d k \<longleftrightarrow> dict_get d k \<noteq> None"
  by (auto simp: dict_has_def dict_get_def map_of_eq_None_iff)

lemma dict_ok_Nil [simp]: "dict_ok []"
  by (simp add: dict_ok_def)

lemma dict_ok_set [simp]: "dict_ok d \<Longrightarrow> dict_ok (dict_set k v d)"
  by (simp add: dict_ok_def dict_set_def distinct_update)

lemma dict_ok_pop [simp]: "dict_ok d \<Longrightarrow> dict_ok (dict_pop k d)"
  by (simp add: dict_ok_def dict_pop_def distinct_map_filter)

lemma keys_dict_set [simp]: "fst ` set (dict_set k v d) = insert k (fst ` set d)"
  using dom_update [of k v d] by (simp add: dict_set_def dom_map_of_conv_image_fst update_conv')

lemma vals_dict_set: "v' \<in> snd ` set (dict_set k v d) \<Longrightarrow> v' = v \<or> v' \<in> snd ` set d"
proof -
  have "set (dict_set k v d) \<subseteq> insert (k, v) (set d)"
    unfolding dict_set_def by (induction d) auto
  then show "v' \<in> snd ` set (dict_set k v d) \<Longrightarrow> v' = v \<or> v' \<in> snd ` set d" by auto
qed

lemma dict_set_new: "k \<notin> fst ` set d \<Longrightarrow> dict_set k v d = d @ [(k, v)]"
  unfolding dict_set_def by (induction d) auto

lemma dict_get_in: "dict_ok d \<Longrightarrow> (k, v) \<in> set d \<Longrightarrow> dict_get d k = Some v"
  by (simp add: dict_ok_def dict_get_def)

lemma dict_get_SomeD: "dict_get d k = Some v \<Longrightarrow> (k, v) \<in> set d"
  by (simp add: dict_get_def map_of_SomeD)

lemma dict_get_update: "dict_get (dict_update d e) k =
    (case dict_get (rev e) k of None \<Rightarrow> dict_get d k | Some v \<Rightarrow> Some v)"
proof (induction e arbitrary: d)
  case Nil
  then show ?case by (simp add: dict_update_def)
next
  case (Cons p e)
  have "dict_update d (p # e) = dict_update (dict_set (fst p) (snd p) d) e"
    by (simp add: dict_update_def)
  then show ?case
    using Cons.IH [of "dict_set (fst p) (snd p) d"]
    by (auto simp: dict_get_def map_of_append map_add_def dict_set_def update_conv'
        split: option.splits)
qed

text \<open>
  The contract of a dictionary, as the components use it: what a lookup returns after an
  assignment, and that an assignment keeps the keys unique.
\<close>

locale dictionary =
  fixes look :: "'m \<Rightarrow> 'k \<Rightarrow> 'v option"
    and upd :: "'k \<Rightarrow> 'v \<Rightarrow> 'm \<Rightarrow> 'm"
    and ok :: "'m \<Rightarrow> bool"
  assumes look_upd: "look (upd k v m) j = (if j = k then Some v else look m j)"
    and ok_upd: "ok m \<Longrightarrow> ok (upd k v m)"
begin

lemma look_same: "look (upd k v m) k = Some v"
  by (simp add: look_upd)

lemma look_foldl_notin:
  "k \<notin> f ` set xs \<Longrightarrow> look (foldl (\<lambda>m x. upd (f x) (g x) m) m xs) k = look m k"
  by (induction xs arbitrary: m) (simp_all add: look_upd)

lemma look_foldl_in:
  "k \<in> f ` set xs \<Longrightarrow> \<exists>x \<in> set xs. f x = k \<and> look (foldl (\<lambda>m x. upd (f x) (g x) m) m xs) k = Some (g x)"
proof (induction xs arbitrary: m)
  case Nil
  then show ?case by simp
next
  case (Cons x xs)
  show ?case
  proof (cases "k \<in> f ` set xs")
    case True
    then show ?thesis using Cons.IH by auto
  next
    case False
    then show ?thesis using Cons.prems by (auto simp: look_foldl_notin look_upd)
  qed
qed

lemma look_foldl_dom:
  "look (foldl (\<lambda>m x. upd (f x) (g x) m) m xs) k \<noteq> None \<longleftrightarrow> look m k \<noteq> None \<or> k \<in> f ` set xs"
  by (induction xs arbitrary: m) (auto simp: look_upd)

lemma ok_foldl: "ok m \<Longrightarrow> ok (foldl (\<lambda>m x. upd (f x) (g x) m) m xs)"
  by (induction xs arbitrary: m) (simp_all add: ok_upd)

end

interpretation pydict: dictionary dict_get dict_set dict_ok
  by unfold_locales simp_all

lemma dict_get_foldl_set:
  "dict_get (foldl (\<lambda>d n. dict_set n (h n) d) d0 ns) k = (if k \<in> set ns then Some (h k) else dict_get d0 k)"
  using pydict.look_foldl_in [of k "\<lambda>n. n" ns h d0] pydict.look_foldl_notin [of k "\<lambda>n. n" ns h d0]
  by auto

section \<open>Lists\<close>

definition first_that :: "('a \<Rightarrow> bool) \<Rightarrow> 'a list \<Rightarrow> 'a option" where
  "first_that P xs = List.find P xs"

lemma count_filter_le: "length (filter P xs) \<le> length xs"
  by simp

text \<open>Keeping the first occurrence of each key, as the \<open>seen\<close> idiom does.\<close>

fun dedup_by :: "('a \<Rightarrow> 'k) \<Rightarrow> 'k list \<Rightarrow> 'a list \<Rightarrow> 'a list" where
  "dedup_by f seen [] = []"
| "dedup_by f seen (x # xs) =
     (if f x \<in> set seen then dedup_by f seen xs else x # dedup_by f (f x # seen) xs)"

lemma dedup_by_keys: "f ` set (dedup_by f seen xs) = f ` set xs - set seen"
  by (induction xs arbitrary: seen) auto

lemma dedup_by_subset: "set (dedup_by f seen xs) \<subseteq> set xs"
  by (induction xs arbitrary: seen) (auto split: if_splits)

lemma dedup_by_distinct: "distinct (map f (dedup_by f seen xs))"
proof (induction xs arbitrary: seen)
  case (Cons x xs)
  then show ?case using dedup_by_keys [of f "f x # seen" xs] by auto
qed simp

end
