(* ===== verification/PyFloat.thy ===== *)
theory PyFloat
  imports Prelude Complex_Main
begin

text \<open>
  Python's \<open>float\<close> arithmetic as the code uses it: IEEE 754 binary64 with rounding to
  nearest, ties to even. A finite float is the rational it stands for; \<open>fl x\<close> is the
  float nearest to the rational \<open>x\<close>, with the gradual underflow of subnormals, and an
  operation is the exact rational operation followed by \<open>fl\<close>. Overflow to an infinity
  and the sign of zero are not represented: no quantity of the modelled code comes near
  \<open>2 ^ 1024\<close>. \<open>round(x, 1)\<close> rounds the exact value of \<open>x\<close> to the nearest
  multiple of a tenth, ties to even, and returns the float nearest to that.
\<close>

named_theorems fl_intros \<open>bounds of rounded operations\<close>

section \<open>Rounding to an integer\<close>

definition rhe :: "rat \<Rightarrow> int" where
  "rhe x = (let n = \<lfloor>x\<rfloor>; r = x - of_int n in
     if r < 1 / 2 then n else if 1 / 2 < r then n + 1 else if even n then n else n + 1)"

lemma rhe_of_int [simp]: "rhe (of_int n) = n"
  by (simp add: rhe_def)

lemma rhe_near: "\<bar>of_int (rhe x) - x\<bar> \<le> 1 / 2"
proof -
  have "of_int \<lfloor>x\<rfloor> \<le> x" "x < of_int \<lfloor>x\<rfloor> + 1" by linarith+
  then show ?thesis by (auto simp: rhe_def Let_def)
qed

lemma rhe_mono:
  assumes "x \<le> y"
  shows "rhe x \<le> rhe y"
proof -
  have m: "\<lfloor>x\<rfloor> \<le> \<lfloor>y\<rfloor>" using assms by (rule floor_mono)
  have hi: "rhe x \<le> \<lfloor>x\<rfloor> + 1" by (simp add: rhe_def Let_def)
  have lo: "\<lfloor>y\<rfloor> \<le> rhe y" by (simp add: rhe_def Let_def)
  show ?thesis
  proof (cases "\<lfloor>x\<rfloor> = \<lfloor>y\<rfloor>")
    case True
    then show ?thesis using assms by (auto simp: rhe_def Let_def)
  next
    case False
    then show ?thesis using m hi lo by linarith
  qed
qed

lemma rhe_le_of_int: "x \<le> of_int n \<Longrightarrow> rhe x \<le> n"
  using rhe_mono [of x "of_int n"] by simp

lemma rhe_ge_of_int: "of_int n \<le> x \<Longrightarrow> n \<le> rhe x"
  using rhe_mono [of "of_int n" x] by simp

lemma rhe_uminus: "rhe (- x) = - rhe x"
proof (cases "x = of_int \<lfloor>x\<rfloor>")
  case True
  then have "rhe (- x) = rhe (of_int (- \<lfloor>x\<rfloor>))" by simp
  also have "\<dots> = - \<lfloor>x\<rfloor>" by (rule rhe_of_int)
  also have "\<dots> = - rhe x" using True rhe_of_int by metis
  finally show ?thesis .
next
  case False
  then have f: "\<lfloor>- x\<rfloor> = - \<lfloor>x\<rfloor> - 1" by linarith
  show ?thesis by (auto simp: rhe_def Let_def f)
qed

section \<open>The binary exponent\<close>

fun bit_len :: "nat \<Rightarrow> nat" where
  "bit_len n = (if n = 0 then 0 else Suc (bit_len (n div 2)))"

declare bit_len.simps [simp del]

lemma bit_len_bounds: "0 < n \<Longrightarrow> 2 ^ (bit_len n - 1) \<le> n \<and> n < 2 ^ bit_len n"
proof (induction n rule: bit_len.induct)
  case (1 n)
  show ?case
  proof (cases "n div 2 = 0")
    case True
    with 1 have "n = Suc 0" by auto
    moreover have "bit_len (Suc 0) = Suc 0"
      by (subst bit_len.simps) (simp add: bit_len.simps [of 0])
    ultimately show ?thesis by simp
  next
    case False
    with 1 have ih: "2 ^ (bit_len (n div 2) - 1) \<le> n div 2" "n div 2 < 2 ^ bit_len (n div 2)"
      by auto
    have pos: "0 < bit_len (n div 2)" using False by (subst bit_len.simps) simp
    have "bit_len n = Suc (bit_len (n div 2))" using 1 by (subst bit_len.simps) simp
    moreover have "(2::nat) ^ bit_len (n div 2) = 2 * 2 ^ (bit_len (n div 2) - 1)"
      using pos by (cases "bit_len (n div 2)") simp_all
    moreover have "2 * (n div 2) \<le> n" "n < 2 * (n div 2) + 2" by auto
    ultimately show ?thesis using ih by (simp; linarith)
  qed
qed

lemma bit_len_pos: "0 < n \<Longrightarrow> 0 < bit_len n"
  by (subst bit_len.simps) simp

abbreviation pow2 :: "int \<Rightarrow> rat" where
  "pow2 e \<equiv> 2 powi e"

lemma pow2_53: "pow2 53 = of_int (2 ^ 53)" and pow2_52: "pow2 52 = of_int (2 ^ 52)"
  by (simp_all add: power_int_def)

definition ilog2 :: "rat \<Rightarrow> int" where
  "ilog2 x = (let (n, d) = quotient_of x; e = int (bit_len (nat n)) - int (bit_len (nat d))
     in if pow2 e \<le> x then e else e - 1)"

lemma pow2_pos [simp]: "0 < pow2 e"
  by (simp add: zero_less_power_int)

lemma pow2_mono: "a \<le> b \<Longrightarrow> pow2 a \<le> pow2 b"
  by (simp add: power_int_increasing)

lemma pow2_le_iff [simp]: "pow2 a \<le> pow2 b \<longleftrightarrow> a \<le> b"
  by (meson linorder_not_less one_less_numeral_iff pow2_mono power_int_strict_increasing semiring_norm(76))

lemma pow2_less_iff [simp]: "pow2 a < pow2 b \<longleftrightarrow> a < b"
  by (meson linorder_not_less pow2_le_iff)

lemma pow2_add: "pow2 (a + b) = pow2 a * pow2 b"
  by (simp add: power_int_add)

lemma pow2_diff: "pow2 (a - b) = pow2 a / pow2 b"
  by (simp add: power_int_diff)

lemma pow2_nat: "0 \<le> e \<Longrightarrow> pow2 e = 2 ^ nat e"
  by (simp add: power_int_def)

lemma ilog2_bounds:
  assumes "0 < x"
  shows "pow2 (ilog2 x) \<le> x" "x < pow2 (ilog2 x + 1)"
proof -
  obtain n d where q: "quotient_of x = (n, d)" by (cases "quotient_of x")
  have d: "0 < d" using q by (rule quotient_of_denom_pos)
  have x: "x = of_int n / of_int d" using q by (rule quotient_of_div)
  have n: "0 < n" using assms d x by (simp add: zero_less_divide_iff)
  let ?a = "bit_len (nat n)" and ?b = "bit_len (nat d)"
  let ?e = "int ?a - int ?b"
  have pos: "0 < nat n" "0 < nat d" using n d by simp_all
  have a: "2 ^ (?a - 1) \<le> nat n" "nat n < 2 ^ ?a" and b: "2 ^ (?b - 1) \<le> nat d" "nat d < 2 ^ ?b"
    using bit_len_bounds [of "nat n"] bit_len_bounds [of "nat d"] pos by blast+
  have ap: "0 < ?a" "0 < ?b" using n d by (simp_all add: bit_len_pos)
  have toq: "(of_nat (2 ^ k) :: rat) = pow2 (int k)" for k by (simp add: power_int_def)
  have nq: "(of_nat (nat n) :: rat) = of_int n" and dq: "(of_nat (nat d) :: rat) = of_int d"
    using n d by simp_all
  have n1: "pow2 (int ?a - 1) \<le> of_int n"
  proof -
    have "(of_nat (2 ^ (?a - 1)) :: rat) \<le> of_nat (nat n)" using a(1) by (simp only: of_nat_le_iff)
    then show ?thesis using ap by (simp only: toq nq) (simp add: of_nat_diff)
  qed
  have n2: "of_int n < pow2 (int ?a)"
  proof -
    have "(of_nat (nat n) :: rat) < of_nat (2 ^ ?a)" using a(2) by (simp only: of_nat_less_iff)
    then show ?thesis by (simp only: toq nq)
  qed
  have d1: "pow2 (int ?b - 1) \<le> of_int d"
  proof -
    have "(of_nat (2 ^ (?b - 1)) :: rat) \<le> of_nat (nat d)" using b(1) by (simp only: of_nat_le_iff)
    then show ?thesis using ap by (simp only: toq dq) (simp add: of_nat_diff)
  qed
  have d2: "of_int d < pow2 (int ?b)"
  proof -
    have "(of_nat (nat d) :: rat) < of_nat (2 ^ ?b)" using b(2) by (simp only: of_nat_less_iff)
    then show ?thesis by (simp only: toq dq)
  qed
  have dp: "(0::rat) < of_int d" using d by simp
  have up: "x < pow2 (?e + 1)"
  proof -
    have "of_int n < pow2 (?e + 1) * pow2 (int ?b - 1)"
      using n2 by (simp add: pow2_add [symmetric])
    also have "\<dots> \<le> pow2 (?e + 1) * of_int d" using d1 by simp
    finally show ?thesis using dp by (simp only: x pos_divide_less_eq)
  qed
  have low: "pow2 (?e - 1) \<le> x"
  proof -
    have "pow2 (?e - 1) * of_int d \<le> pow2 (?e - 1) * pow2 (int ?b)" using d2 by simp
    also have "\<dots> = pow2 (?e - 1 + int ?b)" by (simp only: pow2_add)
    also have "\<dots> = pow2 (int ?a - 1)" by (simp add: algebra_simps)
    also have "\<dots> \<le> of_int n" by (rule n1)
    finally show ?thesis using dp by (simp only: x pos_le_divide_eq)
  qed
  have il: "ilog2 x = (if pow2 ?e \<le> x then ?e else ?e - 1)"
    by (simp add: ilog2_def q Let_def)
  show "pow2 (ilog2 x) \<le> x" using low by (simp add: il)
  show "x < pow2 (ilog2 x + 1)" using up by (simp add: il not_le)
qed

lemma ilog2_mono:
  assumes "0 < x" "x \<le> y"
  shows "ilog2 x \<le> ilog2 y"
proof -
  have "pow2 (ilog2 x) \<le> x" using assms by (simp add: ilog2_bounds)
  also have "\<dots> \<le> y" by (rule assms)
  also have "\<dots> < pow2 (ilog2 y + 1)" using assms by (simp add: ilog2_bounds)
  finally show ?thesis by simp
qed

lemma ilog2_less: "0 < x \<Longrightarrow> x < pow2 e \<Longrightarrow> ilog2 x < e"
  using ilog2_bounds(1) [of x] by (meson le_less_trans pow2_less_iff)

section \<open>Rounding to binary64\<close>

definition ulp_exp :: "rat \<Rightarrow> int" where
  "ulp_exp x = max (ilog2 \<bar>x\<bar> - 52) (- 1074)"

definition fl :: "rat \<Rightarrow> rat" where
  "fl x = (if x = 0 then 0 else of_int (rhe (x / pow2 (ulp_exp x))) * pow2 (ulp_exp x))"

lemma fl_0 [simp]: "fl 0 = 0"
  by (simp add: fl_def)

lemma fl_uminus: "fl (- x) = - fl x"
proof -
  have "ulp_exp (- x) = ulp_exp x" by (simp add: ulp_exp_def)
  then show ?thesis by (simp add: fl_def rhe_uminus)
qed

lemma fl_nonneg: "0 \<le> x \<Longrightarrow> 0 \<le> fl x"
  by (auto simp: fl_def intro!: mult_nonneg_nonneg rhe_ge_of_int [of 0, simplified])

text \<open>Multiples of a power of two with at most 53 significant bits are floats.\<close>

lemma fl_exact_pos:
  assumes "0 < m" "m < 2 ^ 53" "- 1074 \<le> e"
  shows "fl (of_int m * pow2 e) = of_int m * pow2 e"
proof -
  let ?x = "of_int m * pow2 e :: rat"
  let ?k = "ulp_exp ?x"
  have pos: "0 < ?x" using assms(1) by simp
  have "(of_int m :: rat) < of_int (2 ^ 53)" using assms(2) by (simp only: of_int_less_iff)
  then have "?x < pow2 53 * pow2 e" by (simp add: power_int_def)
  also have "\<dots> = pow2 (53 + e)" by (simp only: pow2_add)
  finally have "ilog2 ?x < 53 + e" using pos by (intro ilog2_less) simp_all
  then have ke: "?k \<le> e" using assms(3) pos by (simp add: ulp_exp_def)
  have "?x / pow2 ?k = of_int m * pow2 (e - ?k)" by (simp add: pow2_diff)
  also have "\<dots> = of_int (m * 2 ^ nat (e - ?k))" using ke by (simp add: pow2_nat)
  finally have "rhe (?x / pow2 ?k) = m * 2 ^ nat (e - ?k)" by (simp only: rhe_of_int)
  then have "fl ?x = of_int (m * 2 ^ nat (e - ?k)) * pow2 ?k"
    using pos by (simp add: fl_def)
  also have "\<dots> = of_int m * (pow2 (e - ?k) * pow2 ?k)" using ke by (simp add: pow2_nat)
  also have "\<dots> = ?x" by (simp add: pow2_add [symmetric])
  finally show ?thesis .
qed

lemma fl_pow2: "- 1074 \<le> e \<Longrightarrow> fl (pow2 e) = pow2 e"
  using fl_exact_pos [of 1 e] by simp

lemma fl_exact:
  assumes "\<bar>m\<bar> \<le> 2 ^ 53" "- 1074 \<le> e"
  shows "fl (of_int m * pow2 e) = of_int m * pow2 e"
proof -
  have main: "fl (of_int n * pow2 e) = of_int n * pow2 e" if "0 \<le> n" "n \<le> 2 ^ 53" for n
  proof (cases "n = 0 \<or> n = 2 ^ 53")
    case True
    then show ?thesis
    proof
      assume "n = 2 ^ 53"
      then have "of_int n * pow2 e = pow2 (53 + e)" by (simp only: pow2_add) (simp add: power_int_def)
      then show ?thesis using assms(2) by (simp only: fl_pow2)
    qed simp
  next
    case False
    then show ?thesis using that assms(2) by (intro fl_exact_pos) auto
  qed
  show ?thesis
  proof (cases "0 \<le> m")
    case True
    then show ?thesis using assms by (intro main) auto
  next
    case False
    then have "fl (of_int (- m) * pow2 e) = of_int (- m) * pow2 e"
      using assms by (intro main) auto
    then show ?thesis by (simp add: fl_uminus)
  qed
qed

lemma fl_of_int: "\<bar>m\<bar> \<le> 2 ^ 53 \<Longrightarrow> fl (of_int m) = of_int m"
  using fl_exact [of m 0] by simp

lemma fl_half_int: "\<bar>m\<bar> \<le> 2 ^ 53 \<Longrightarrow> fl (of_int m / 2) = of_int m / 2"
  using fl_exact [of m "- 1"] by (simp add: power_int_def)

lemma fl_of_nat: "n \<le> 2 ^ 53 \<Longrightarrow> fl (of_nat n) = of_nat n"
  using fl_of_int [of "int n"] by simp

lemma fl_numeral:
  "(numeral k :: int) \<le> 2 ^ 53 \<Longrightarrow> fl (numeral k) = numeral k"
  using fl_of_int [of "numeral k"] by simp

lemma fl_1 [simp]: "fl 1 = 1"
  using fl_of_int [of 1] by simp

lemma fl_mono_pos:
  assumes "0 < x" "x \<le> y"
  shows "fl x \<le> fl y"
proof (cases "ulp_exp x = ulp_exp y")
  case True
  have "x / pow2 (ulp_exp y) \<le> y / pow2 (ulp_exp y)"
    using assms by (intro divide_right_mono) simp_all
  then show ?thesis using assms True by (auto simp: fl_def intro!: mult_right_mono rhe_mono)
next
  case False
  have "ulp_exp x \<le> ulp_exp y"
    using ilog2_mono [OF assms] assms by (simp add: ulp_exp_def)
  with False have lt: "ulp_exp x < ulp_exp y" by simp
  then have ky: "ulp_exp y = ilog2 y - 52" using assms by (simp add: ulp_exp_def max_def split: if_splits)
  let ?k = "ulp_exp x"
  have "ilog2 x - 52 \<le> ?k" using assms by (simp add: ulp_exp_def)
  then have xk: "x < pow2 (?k + 53)"
    using ilog2_bounds(2) [OF assms(1)] pow2_mono [of "ilog2 x + 1" "?k + 53"] by linarith
  have "x / pow2 ?k \<le> pow2 53" using xk by (simp add: field_simps pow2_add)
  then have "x / pow2 ?k \<le> of_int (2 ^ 53)" by (simp add: power_int_def)
  then have "rhe (x / pow2 ?k) \<le> 2 ^ 53" by (rule rhe_le_of_int)
  then have "fl x \<le> of_int (2 ^ 53) * pow2 ?k"
    using assms by (simp only: fl_def) (auto intro!: mult_right_mono simp del: of_int_power of_int_numeral)
  also have "\<dots> = pow2 (?k + 53)" by (simp only: pow2_add pow2_53 mult.commute)
  also have "\<dots> \<le> pow2 (ulp_exp y + 52)" using lt by simp
  also have "\<dots> = of_int (2 ^ 52) * pow2 (ulp_exp y)"
    by (simp only: pow2_add pow2_52 mult.commute)
  also have "\<dots> \<le> fl y"
  proof -
    have "pow2 (ulp_exp y + 52) \<le> y" using ilog2_bounds(1) [of y] assms ky by simp
    then have "of_int (2 ^ 52) \<le> y / pow2 (ulp_exp y)"
      by (simp only: pow2_add pow2_52 pos_le_divide_eq [OF pow2_pos] mult.commute)
    then have "2 ^ 52 \<le> rhe (y / pow2 (ulp_exp y))" by (rule rhe_ge_of_int)
    then show ?thesis
      using assms by (simp only: fl_def) (auto intro!: mult_right_mono simp del: of_int_power of_int_numeral)
  qed
  finally show ?thesis .
qed

lemma fl_mono:
  assumes "x \<le> y"
  shows "fl x \<le> fl y"
proof -
  consider "0 < x" | "x \<le> 0" "0 \<le> y" | "y < 0" by linarith
  then show ?thesis
  proof cases
    case 1
    then show ?thesis using assms by (rule fl_mono_pos)
  next
    case 2
    then have "0 \<le> fl (- x)" "0 \<le> fl y" by (auto intro: fl_nonneg)
    then show ?thesis by (simp add: fl_uminus)
  next
    case 3
    then have "fl (- y) \<le> fl (- x)" using assms by (intro fl_mono_pos) auto
    then show ?thesis by (simp add: fl_uminus)
  qed
qed

text \<open>A rounded value is a float: rounding it again changes nothing.\<close>

lemma fl_significand:
  assumes "0 < x"
  shows "0 \<le> rhe (x / pow2 (ulp_exp x)) \<and> rhe (x / pow2 (ulp_exp x)) \<le> 2 ^ 53"
proof -
  let ?k = "ulp_exp x"
  have "ilog2 x - 52 \<le> ?k" using assms by (simp add: ulp_exp_def)
  then have "x < pow2 (?k + 53)"
    using ilog2_bounds(2) [OF assms] pow2_mono [of "ilog2 x + 1" "?k + 53"] by linarith
  then have "x / pow2 ?k \<le> pow2 53" by (simp add: field_simps pow2_add)
  then have "x / pow2 ?k \<le> of_int (2 ^ 53)" by (simp only: pow2_53)
  moreover have "of_int 0 \<le> x / pow2 ?k" using assms by simp
  ultimately show ?thesis by (blast intro: rhe_le_of_int rhe_ge_of_int)
qed

lemma fl_idem [simp]: "fl (fl x) = fl x"
proof -
  have pos: "fl (fl y) = fl y" if "0 < y" for y
  proof -
    have "fl y = of_int (rhe (y / pow2 (ulp_exp y))) * pow2 (ulp_exp y)"
      using that by (simp add: fl_def)
    moreover have "- 1074 \<le> ulp_exp y" by (simp add: ulp_exp_def)
    ultimately show ?thesis using fl_significand [OF that] by (metis abs_of_nonneg fl_exact)
  qed
  consider "0 < x" | "x = 0" | "0 < - x" by linarith
  then show ?thesis
  proof cases
    case 3
    then have "fl (fl (- x)) = fl (- x)" by (rule pos)
    then show ?thesis by (simp add: fl_uminus)
  qed (simp_all add: pos)
qed

section \<open>Operations\<close>

definition fadd :: "rat \<Rightarrow> rat \<Rightarrow> rat" where "fadd a b = fl (a + b)"
definition fsub :: "rat \<Rightarrow> rat \<Rightarrow> rat" where "fsub a b = fl (a - b)"
definition fmul :: "rat \<Rightarrow> rat \<Rightarrow> rat" where "fmul a b = fl (a * b)"
definition fdiv :: "rat \<Rightarrow> rat \<Rightarrow> rat" where "fdiv a b = fl (a / b)"

definition round1 :: "rat \<Rightarrow> rat" where
  "round1 x = fl (of_int (rhe (10 * x)) / 10)"

text \<open>
  What the components rely on: a monotone rounding that leaves small integers alone. The
  bounds of every score follow from these two laws, whatever the precision.
\<close>

locale rounding =
  fixes rnd :: "rat \<Rightarrow> rat" and bound :: int
  assumes rnd_mono: "x \<le> y \<Longrightarrow> rnd x \<le> rnd y"
    and rnd_of_int: "\<bar>n\<bar> \<le> bound \<Longrightarrow> rnd (of_int n) = of_int n"
begin

lemma rnd_le: "x \<le> of_int n \<Longrightarrow> \<bar>n\<bar> \<le> bound \<Longrightarrow> rnd x \<le> of_int n"
  using rnd_mono [of x "of_int n"] rnd_of_int [of n] by simp

lemma rnd_ge: "of_int n \<le> x \<Longrightarrow> \<bar>n\<bar> \<le> bound \<Longrightarrow> of_int n \<le> rnd x"
  using rnd_mono [of "of_int n" x] rnd_of_int [of n] by simp

lemma rnd_range:
  "of_int a \<le> x \<Longrightarrow> x \<le> of_int b \<Longrightarrow> \<bar>a\<bar> \<le> bound \<Longrightarrow> \<bar>b\<bar> \<le> bound \<Longrightarrow>
   of_int a \<le> rnd x \<and> rnd x \<le> of_int b"
  using rnd_le rnd_ge by blast

lemma rnd_add_mono: "a \<le> b \<Longrightarrow> c \<le> d \<Longrightarrow> rnd (a + c) \<le> rnd (b + d)"
  by (rule rnd_mono) (rule add_mono)

lemma rnd_mult_mono: "a \<le> b \<Longrightarrow> c \<le> d \<Longrightarrow> 0 \<le> b \<Longrightarrow> 0 \<le> c \<Longrightarrow> rnd (a * c) \<le> rnd (b * d)"
  by (rule rnd_mono) (rule mult_mono)

end

interpretation b64: rounding fl "2 ^ 53"
  by unfold_locales (auto simp: fl_mono fl_of_int)

lemma fl_le_numeral: "x \<le> numeral k \<Longrightarrow> (numeral k :: int) \<le> 2 ^ 53 \<Longrightarrow> fl x \<le> numeral k"
  using b64.rnd_le [of x "numeral k"] by simp

lemma fl_le_1: "x \<le> 1 \<Longrightarrow> fl x \<le> 1"
  using b64.rnd_le [of x 1] by simp

lemma fl_ge_0 [fl_intros]: "0 \<le> x \<Longrightarrow> 0 \<le> fl x"
  by (rule fl_nonneg)

lemma fadd_mono [fl_intros]: "a \<le> b \<Longrightarrow> c \<le> d \<Longrightarrow> fadd a c \<le> fadd b d"
  by (simp add: fadd_def b64.rnd_add_mono)

lemma fmul_mono: "a \<le> b \<Longrightarrow> c \<le> d \<Longrightarrow> 0 \<le> b \<Longrightarrow> 0 \<le> c \<Longrightarrow> fmul a c \<le> fmul b d"
  by (simp add: fmul_def b64.rnd_mult_mono)

lemma fsub_mono [fl_intros]: "a \<le> b \<Longrightarrow> fsub a c \<le> fsub b c"
  by (simp add: fsub_def fl_mono)

lemma fdiv_mono [fl_intros]: "a \<le> b \<Longrightarrow> 0 < c \<Longrightarrow> fdiv a c \<le> fdiv b c"
  by (simp add: fdiv_def fl_mono divide_right_mono)

lemma fadd_nonneg [fl_intros]: "0 \<le> a \<Longrightarrow> 0 \<le> b \<Longrightarrow> 0 \<le> fadd a b"
  by (simp add: fadd_def fl_nonneg)

lemma fmul_nonneg [fl_intros]: "0 \<le> a \<Longrightarrow> 0 \<le> b \<Longrightarrow> 0 \<le> fmul a b"
  by (simp add: fmul_def fl_nonneg)

lemma fdiv_nonneg [fl_intros]: "0 \<le> a \<Longrightarrow> 0 \<le> b \<Longrightarrow> 0 \<le> fdiv a b"
  by (simp add: fdiv_def fl_nonneg)

lemma fsub_le: "0 \<le> b \<Longrightarrow> fl a = a \<Longrightarrow> fsub a b \<le> a"
  using fl_mono [of "a - b" a] by (simp add: fsub_def)

lemma fl_fdiv [simp]: "fl (fdiv a b) = fdiv a b"
  by (simp add: fdiv_def)

lemma round1_mono [fl_intros]: "x \<le> y \<Longrightarrow> round1 x \<le> round1 y"
  by (auto simp: round1_def intro!: fl_mono divide_right_mono rhe_mono)

lemma round1_of_int:
  assumes "\<bar>n\<bar> \<le> 2 ^ 53"
  shows "round1 (of_int n) = of_int n"
proof -
  have "10 * (of_int n :: rat) = of_int (10 * n)" by simp
  then have "rhe (10 * of_int n) = 10 * n" by (simp only: rhe_of_int)
  then show ?thesis using assms by (simp add: round1_def fl_of_int)
qed

interpretation tenth: rounding round1 "2 ^ 53"
  by unfold_locales (auto simp: round1_mono round1_of_int)

lemma round1_0 [simp]: "round1 0 = 0"
  using round1_of_int [of 0] by simp

lemma round1_nonneg [fl_intros]: "0 \<le> x \<Longrightarrow> 0 \<le> round1 x"
  using tenth.rnd_ge [of 0 x] by simp

section \<open>Non-finite values\<close>

text \<open>A decoded JSON or YAML number may be an infinity or a NaN.\<close>

datatype pyfloat = Fin rat | PInf | NInf | NaN

fun pf_mul100 :: "pyfloat \<Rightarrow> pyfloat" where
  "pf_mul100 (Fin x) = Fin (fmul x 100)"
| "pf_mul100 PInf = PInf"
| "pf_mul100 NInf = NInf"
| "pf_mul100 NaN = NaN"

fun pf_is_finite :: "pyfloat \<Rightarrow> bool" where
  "pf_is_finite (Fin x) = True"
| "pf_is_finite _ = False"

end
