(* ===== verification/PyJson.thy ===== *)
theory PyJson
  imports PyFloat
begin

text \<open>
  Decoded JSON and YAML values and the coercions the code applies to them: truthiness,
  \<open>isinstance\<close> tests, \<open>float(v)\<close>, \<open>int(v)\<close> and \<open>str(v)\<close>. Each coercion returns
  the exception it raises, since the callers catch some of them and not others.
\<close>

datatype json =
    JNull
  | JBool bool
  | JInt int
  | JFloat pyfloat
  | JStr string
  | JList "json list"
  | JObj "(string \<times> json) list"

datatype coercion_error = TypeErr | ValueErr | OverflowErr

fun truthy :: "json \<Rightarrow> bool" where
  "truthy JNull = False"
| "truthy (JBool b) = b"
| "truthy (JInt i) = (i \<noteq> 0)"
| "truthy (JFloat f) = (f \<noteq> Fin 0)"
| "truthy (JStr s) = (s \<noteq> [])"
| "truthy (JList xs) = (xs \<noteq> [])"
| "truthy (JObj d) = (d \<noteq> [])"

text \<open>\<open>obj.get(k)\<close> and \<open>obj.get(k, v)\<close>.\<close>

definition jget :: "(string, json) dict \<Rightarrow> string \<Rightarrow> json" where
  "jget d k = dict_default d k JNull"

text \<open>\<open>a or b\<close> on decoded values.\<close>

definition jor :: "json \<Rightarrow> json \<Rightarrow> json" where
  "jor a b = (if truthy a then a else b)"

section \<open>Numbers from strings\<close>

text \<open>A run of digits in which single underscores may separate digits.\<close>

fun more_digits :: "string \<Rightarrow> string \<times> string" where
  "more_digits [] = ([], [])"
| "more_digits [c] = (if is_digit c then ([c], []) else ([], [c]))"
| "more_digits (c # d # s) =
     (if is_digit c then (let (ds, r) = more_digits (d # s) in (c # ds, r))
      else if c = CHR ''_'' \<and> is_digit d then more_digits (d # s)
      else ([], c # d # s))"

definition digitpart :: "string \<Rightarrow> (string \<times> string) option" where
  "digitpart s = (case s of [] \<Rightarrow> None | c # _ \<Rightarrow> if is_digit c then Some (more_digits s) else None)"

definition digits_val :: "string \<Rightarrow> nat" where
  "digits_val ds = foldl (\<lambda>n c. 10 * n + digit_val c) 0 ds"

fun strip_sign :: "string \<Rightarrow> bool \<times> string" where
  "strip_sign [] = (False, [])"
| "strip_sign (c # s) =
     (if c = CHR ''-'' then (True, s) else if c = CHR ''+'' then (False, s) else (False, c # s))"

text \<open>
  \<open>int(s)\<close> in base ten; \<open>None\<close> is the \<open>ValueError\<close>. CPython refuses more than 4300
  digits.
\<close>

definition int_of_str :: "string \<Rightarrow> int option" where
  "int_of_str s =
     (let (neg, r) = strip_sign (str_strip s) in
      case digitpart r of
        None \<Rightarrow> None
      | Some (ds, rest) \<Rightarrow>
          if rest \<noteq> [] \<or> 4300 < length ds then None
          else Some (if neg then - int (digits_val ds) else int (digits_val ds)))"

definition exponent_part :: "string \<Rightarrow> int option" where
  "exponent_part s = (case s of
       [] \<Rightarrow> Some 0
     | c # r \<Rightarrow>
         if c = CHR ''e'' \<or> c = CHR ''E'' then
           (let (neg, t) = strip_sign r in
            case digitpart t of
              None \<Rightarrow> None
            | Some (ds, rest) \<Rightarrow>
                if rest \<noteq> [] then None
                else Some (if neg then - int (digits_val ds) else int (digits_val ds)))
         else None)"

definition pow10 :: "int \<Rightarrow> rat" where
  "pow10 e = 10 powi e"

text \<open>The nearest float of a rational, an infinity beyond the range.\<close>

definition to_float :: "rat \<Rightarrow> pyfloat" where
  "to_float x = (let y = fl x in
     if pow2 1024 \<le> y then PInf else if y \<le> - pow2 1024 then NInf else Fin y)"

definition decimal_float :: "bool \<Rightarrow> string \<Rightarrow> string \<Rightarrow> string \<Rightarrow> pyfloat option" where
  "decimal_float neg ip fp rest = map_option
     (\<lambda>e. let x = of_nat (digits_val (ip @ fp)) * pow10 (e - int (length fp))
          in to_float (if neg then - x else x))
     (exponent_part rest)"

definition fraction_part :: "string \<Rightarrow> (string \<times> string) option" where
  "fraction_part s = (case s of
       [] \<Rightarrow> Some ([], [])
     | c # r \<Rightarrow> if c = CHR ''.''
         then (case digitpart r of None \<Rightarrow> Some ([], r) | Some (ds, rest) \<Rightarrow> Some (ds, rest))
         else Some ([], c # r))"

text \<open>\<open>float(s)\<close>; \<open>None\<close> is the \<open>ValueError\<close>.\<close>

definition float_of_str :: "string \<Rightarrow> pyfloat option" where
  "float_of_str s =
     (let (neg, r) = strip_sign (str_strip s); l = str_lower r in
      if l = ''inf'' \<or> l = ''infinity'' then Some (if neg then NInf else PInf)
      else if l = ''nan'' then Some NaN
      else case digitpart r of
             Some (ip, rest) \<Rightarrow>
               (case fraction_part rest of None \<Rightarrow> None
                | Some (fp, rest') \<Rightarrow> decimal_float neg ip fp rest')
           | None \<Rightarrow>
               (case r of [] \<Rightarrow> None
                | c # t \<Rightarrow> if c = CHR ''.''
                    then (case digitpart t of None \<Rightarrow> None
                          | Some (fp, rest) \<Rightarrow> decimal_float neg [] fp rest)
                    else None))"

section \<open>Coercions\<close>

fun float_of_int :: "int \<Rightarrow> coercion_error + pyfloat" where
  "float_of_int i = (case to_float (of_int i) of Fin x \<Rightarrow> Inr (Fin x) | _ \<Rightarrow> Inl OverflowErr)"

fun float_of_json :: "json \<Rightarrow> coercion_error + pyfloat" where
  "float_of_json JNull = Inl TypeErr"
| "float_of_json (JBool b) = Inr (Fin (if b then 1 else 0))"
| "float_of_json (JInt i) = float_of_int i"
| "float_of_json (JFloat f) = Inr f"
| "float_of_json (JStr s) = (case float_of_str s of None \<Rightarrow> Inl ValueErr | Some f \<Rightarrow> Inr f)"
| "float_of_json (JList xs) = Inl TypeErr"
| "float_of_json (JObj d) = Inl TypeErr"

fun int_of_float :: "pyfloat \<Rightarrow> coercion_error + int" where
  "int_of_float (Fin x) = Inr (if 0 \<le> x then \<lfloor>x\<rfloor> else - \<lfloor>- x\<rfloor>)"
| "int_of_float PInf = Inl OverflowErr"
| "int_of_float NInf = Inl OverflowErr"
| "int_of_float NaN = Inl ValueErr"

fun int_of_json :: "json \<Rightarrow> coercion_error + int" where
  "int_of_json JNull = Inl TypeErr"
| "int_of_json (JBool b) = Inr (if b then 1 else 0)"
| "int_of_json (JInt i) = Inr i"
| "int_of_json (JFloat f) = int_of_float f"
| "int_of_json (JStr s) = (case int_of_str s of None \<Rightarrow> Inl ValueErr | Some i \<Rightarrow> Inr i)"
| "int_of_json (JList xs) = Inl TypeErr"
| "int_of_json (JObj d) = Inl TypeErr"

text \<open>
  \<open>str(v)\<close>. The printed form of floats, lists and dictionaries is an argument: the code
  stores such a string and never looks into it.
\<close>

fun str_of_json :: "(json \<Rightarrow> string) \<Rightarrow> json \<Rightarrow> string" where
  "str_of_json rp JNull = ''None''"
| "str_of_json rp (JBool b) = (if b then ''True'' else ''False'')"
| "str_of_json rp (JInt i) = str_of_int i"
| "str_of_json rp (JStr s) = s"
| "str_of_json rp v = rp v"

lemma float_of_json_errors:
  "float_of_json v = Inl OverflowErr \<Longrightarrow> \<exists>i. v = JInt i"
  by (cases v) (auto split: option.splits pyfloat.splits)

lemma truthy_jor: "truthy a \<Longrightarrow> jor a b = a"
  by (simp add: jor_def)

lemma jget_absent [simp]: "dict_get d k = None \<Longrightarrow> jget d k = JNull"
  by (simp add: jget_def dict_default_def)

lemma jget_present [simp]: "dict_get d k = Some v \<Longrightarrow> jget d k = v"
  by (simp add: jget_def dict_default_def)

end
