(* ===== verification/Subcategories.thy ===== *)
theory Subcategories
  imports Prelude
begin

text \<open>
  \<open>censprobe_core/subcategories.py\<close>: the family name of a test, derived from its name by
  an ordered list of rules. The rule tables are the source's, in the source's order.
\<close>

definition SUFFIX_RULES :: "(string \<times> string) list" where
  "SUFFIX_RULES =
    [(''_sni_blocked'', ''tls_sni_blocked''),
     (''_sni_neutral'', ''tls_sni_neutral''),
     (''_ech'', ''tls_ech''),
     (''_no_ip'', ''tls_meta'')]"

definition PREFIX_RULES :: "(string \<times> string) list" where
  "PREFIX_RULES =
    [(''doh_access_'', ''doh''),
     (''dot_access_'', ''dot''),
     (''dns_'', ''dns''),
     (''cloudflare_quic_'', ''cloudflare_quic''),
     (''cloudflare_warp_'', ''cloudflare_warp''),
     (''cloudflare_http_'', ''cloudflare_http''),
     (''cloudflare_'', ''cloudflare''),
     (''telegram_dc'', ''telegram_dc''),
     (''telegram_health'', ''telegram_health''),
     (''telegram_ipv6'', ''telegram_meta''),
     (''telegram_web_'', ''telegram_web''),
     (''telegram_aux_'', ''telegram_aux''),
     (''telegram_cdn_'', ''telegram_cdn''),
     (''telegram_'', ''telegram''),
     (''throttling_'', ''throttling''),
     (''middlebox_'', ''middlebox''),
     (''tls_'', ''tls''),
     (''tcp_'', ''tcp''),
     (''http_'', ''http'')]"

definition SUBSTRING_RULES :: "(string \<times> string) list" where
  "SUBSTRING_RULES =
    [(''_warp_masque_udp'', ''cloudflare_warp_udp_masque''),
     (''_warp_wg_udp'', ''cloudflare_warp_udp_wg'')]"

definition NAME_OVERRIDES :: "(string, string) dict" where
  "NAME_OVERRIDES =
    [(''telegram_health_score'', ''telegram_health''),
     (''telegram_ipv6_skipped'', ''telegram_meta''),
     (''throttling_youtube_sni_probe_method_b'', ''throttling''),
     (''google_quic_dns'', ''cloudflare_quic''),
     (''quad9_quic_dns'', ''cloudflare_quic'')]"

text \<open>One \<open>for key, sub in rules: if test: return sub\<close> loop.\<close>

fun first_rule :: "(string \<Rightarrow> bool) \<Rightarrow> (string \<times> string) list \<Rightarrow> string option" where
  "first_rule hit [] = None"
| "first_rule hit ((key, sub) # rules) = (if hit key then Some sub else first_rule hit rules)"

definition derive :: "string \<Rightarrow> string option \<Rightarrow> string" where
  "derive test_name category =
    (case dict_get NAME_OVERRIDES test_name of
       Some sub \<Rightarrow> sub
     | None \<Rightarrow>
    (case first_rule (ends_with test_name) SUFFIX_RULES of
       Some sub \<Rightarrow> sub
     | None \<Rightarrow>
    (case first_rule (str_contains test_name) SUBSTRING_RULES of
       Some sub \<Rightarrow> sub
     | None \<Rightarrow>
    (case first_rule (starts_with test_name) PREFIX_RULES of
       Some sub \<Rightarrow> sub
     | None \<Rightarrow>
    (case category of
       Some c \<Rightarrow> if c \<noteq> [] then c else ''unknown''
     | None \<Rightarrow> ''unknown'')))))"

section \<open>Lemmas\<close>

lemma first_rule_SomeD:
  "first_rule hit rules = Some sub \<Longrightarrow> \<exists>key. (key, sub) \<in> set rules \<and> hit key"
  by (induction hit rules rule: first_rule.induct) (auto split: if_splits)

lemma first_rule_None: "first_rule hit rules = None \<longleftrightarrow> (\<forall>r \<in> set rules. \<not> hit (fst r))"
  by (induction hit rules rule: first_rule.induct) auto

lemma first_rule_in: "first_rule hit rules = Some sub \<Longrightarrow> sub \<in> snd ` set rules"
  by (induction hit rules rule: first_rule.induct) (auto split: if_splits)

text \<open>Where a rule earlier in the list also matches, it wins.\<close>

lemma first_rule_append:
  "first_rule hit (r1 @ r2) =
     (case first_rule hit r1 of None \<Rightarrow> first_rule hit r2 | Some s \<Rightarrow> Some s)"
  by (induction hit r1 rule: first_rule.induct) auto

definition families :: "string list" where
  "families = map snd NAME_OVERRIDES @ map snd SUFFIX_RULES @ map snd SUBSTRING_RULES
     @ map snd PREFIX_RULES"

lemma derive_cases:
  "derive t c \<in> set families \<or> (\<exists>cat. c = Some cat \<and> cat \<noteq> [] \<and> derive t c = cat)
   \<or> derive t c = ''unknown''"
proof -
  have "dict_get NAME_OVERRIDES t = Some s \<Longrightarrow> s \<in> set families" for s
    by (auto dest!: dict_get_SomeD simp: families_def intro: rev_image_eqI)
  moreover have "first_rule h SUFFIX_RULES = Some s \<Longrightarrow> s \<in> set families"
    "first_rule h SUBSTRING_RULES = Some s \<Longrightarrow> s \<in> set families"
    "first_rule h PREFIX_RULES = Some s \<Longrightarrow> s \<in> set families" for h s
    by (auto dest!: first_rule_in simp: families_def)
  ultimately show ?thesis
    by (auto simp: derive_def split: option.splits)
qed

lemma families_nonempty: "\<forall>s \<in> set families. s \<noteq> []"
proof -
  have "list_all (\<lambda>s. s \<noteq> []) families" by code_simp
  then show ?thesis by (simp add: list_all_iff)
qed

lemma derive_nonempty: "derive t c \<noteq> []"
  using derive_cases [of t c] families_nonempty by auto

text \<open>A name that matches no rule at all.\<close>

definition unruled :: "string \<Rightarrow> bool" where
  "unruled t = (dict_get NAME_OVERRIDES t = None
     \<and> first_rule (ends_with t) SUFFIX_RULES = None
     \<and> first_rule (str_contains t) SUBSTRING_RULES = None
     \<and> first_rule (starts_with t) PREFIX_RULES = None)"

lemma derive_unruled: "unruled t \<Longrightarrow> c \<noteq> [] \<Longrightarrow> derive t (Some c) = c"
  by (simp add: unruled_def derive_def)

lemma derive_ignores_category: "\<not> unruled t \<Longrightarrow> derive t c = derive t d"
  by (auto simp: unruled_def derive_def split: option.splits)

text \<open>
  No suffix of the table is a suffix of another entry of it, so on this table the order of
  the suffix rules does not matter.
\<close>

lemma suffix_table:
  "list_all (\<lambda>(p, _). list_all (\<lambda>(q, _). ends_with q p \<longrightarrow> p = q) SUFFIX_RULES) SUFFIX_RULES"
  by code_simp

lemma suffix_rules_exclusive:
  assumes "(p, a) \<in> set SUFFIX_RULES" "(q, b) \<in> set SUFFIX_RULES"
    "ends_with t p" "ends_with t q"
  shows "p = q"
proof -
  have "suffix p q \<or> suffix q p"
    using assms(3,4) by (auto simp: ends_with_suffix dest: suffix_same_cases)
  then have "ends_with q p \<or> ends_with p q" by (simp add: ends_with_suffix)
  then show ?thesis using suffix_table assms(1,2) unfolding list_all_iff by fast
qed

lemma suffix_rules_functional:
  "(p, a) \<in> set SUFFIX_RULES \<Longrightarrow> (p, b) \<in> set SUFFIX_RULES \<Longrightarrow> a = b"
proof -
  have "distinct (map fst SUFFIX_RULES)" by code_simp
  then show "(p, a) \<in> set SUFFIX_RULES \<Longrightarrow> (p, b) \<in> set SUFFIX_RULES \<Longrightarrow> a = b"
    by (meson eq_key_imp_eq_value)
qed

lemma derive_suffix:
  assumes "(p, a) \<in> set SUFFIX_RULES" "ends_with t p" "dict_get NAME_OVERRIDES t = None"
  shows "derive t c = a"
proof -
  have "first_rule (ends_with t) SUFFIX_RULES \<noteq> None"
    using assms(1,2) first_rule_None [of "ends_with t" SUFFIX_RULES] by fastforce
  then obtain b where b: "first_rule (ends_with t) SUFFIX_RULES = Some b" by auto
  then obtain q where q: "(q, b) \<in> set SUFFIX_RULES" "ends_with t q"
    by (auto dest: first_rule_SomeD)
  then have "p = q" using assms suffix_rules_exclusive by blast
  then have "a = b" using assms(1) q(1) suffix_rules_functional by blast
  then show ?thesis using b assms(3) by (simp add: derive_def)
qed

lemma derive_tls_role:
  "derive (''tls_'' @ d @ ''_sni_blocked'') c = ''tls_sni_blocked''"
  "derive (''tls_'' @ d @ ''_sni_neutral'') c = ''tls_sni_neutral''"
proof -
  have no: "dict_get NAME_OVERRIDES (''tls_'' @ s) = None" for s
    by (simp add: NAME_OVERRIDES_def dict_get_def)
  show "derive (''tls_'' @ d @ ''_sni_blocked'') c = ''tls_sni_blocked''"
    using ends_with_append [of "''tls_'' @ d" "''_sni_blocked''"]
    by (intro derive_suffix [of "''_sni_blocked''"]) (simp_all add: SUFFIX_RULES_def no [simplified])
  show "derive (''tls_'' @ d @ ''_sni_neutral'') c = ''tls_sni_neutral''"
    using ends_with_append [of "''tls_'' @ d" "''_sni_neutral''"]
    by (intro derive_suffix [of "''_sni_neutral''"]) (simp_all add: SUFFIX_RULES_def no [simplified])
qed

end
