(* ===== verification/Models.thy ===== *)
theory Models
  imports PyJson Subcategories
begin

text \<open>
  \<open>censprobe_core/models.py\<close>: the verdict and method enumerations, the result records
  and \<open>ProtocolResult.finalize\<close>. A timestamp is an instant in microseconds.
\<close>

section \<open>Enumerations\<close>

datatype verdict =
    OK | BLOCKED | HANDSHAKE_ONLY | SERVER_REFUSED | ANOMALY | INCONCLUSIVE | ERROR | THROTTLED

fun verdict_str :: "verdict \<Rightarrow> string" where
  "verdict_str OK = ''OK''"
| "verdict_str BLOCKED = ''BLOCKED''"
| "verdict_str HANDSHAKE_ONLY = ''HANDSHAKE_ONLY''"
| "verdict_str SERVER_REFUSED = ''SERVER_REFUSED''"
| "verdict_str ANOMALY = ''ANOMALY''"
| "verdict_str INCONCLUSIVE = ''INCONCLUSIVE''"
| "verdict_str ERROR = ''ERROR''"
| "verdict_str THROTTLED = ''THROTTLED''"

definition all_verdicts :: "verdict list" where
  "all_verdicts = [OK, BLOCKED, HANDSHAKE_ONLY, SERVER_REFUSED, ANOMALY, INCONCLUSIVE, ERROR, THROTTLED]"

datatype blocking_method =
    DNS_POISONING | DNS_BLOCKED_NXDOMAIN | DOH_BLOCKED | IP_DROPPED | TCP_RST_INJECTION
  | TCP_RST_AFTER_TLS_CH | TCP_REFUSED | TLS_HANDSHAKE_FAILURE | ECH_BLOCKED | SNI_THROTTLING
  | QUIC_DROPPED | OPENVPN_SIGNATURE_BLOCKED | WIREGUARD_SIGNATURE_BLOCKED
  | SHADOWSOCKS_ACTIVE_PROBED | VPN_DATA_PHASE_BLOCKED | MIDDLEBOX_HTTP_MANIPULATION

fun method_str :: "blocking_method \<Rightarrow> string" where
  "method_str DNS_POISONING = ''dns_poisoning''"
| "method_str DNS_BLOCKED_NXDOMAIN = ''dns_blocked_nxdomain''"
| "method_str DOH_BLOCKED = ''doh_blocked''"
| "method_str IP_DROPPED = ''ip_dropped''"
| "method_str TCP_RST_INJECTION = ''tcp_rst_injection''"
| "method_str TCP_RST_AFTER_TLS_CH = ''tcp_rst_after_tls_ch''"
| "method_str TCP_REFUSED = ''tcp_refused''"
| "method_str TLS_HANDSHAKE_FAILURE = ''tls_handshake_failure''"
| "method_str ECH_BLOCKED = ''ech_blocked''"
| "method_str SNI_THROTTLING = ''sni_throttling''"
| "method_str QUIC_DROPPED = ''quic_dropped''"
| "method_str OPENVPN_SIGNATURE_BLOCKED = ''openvpn_signature_blocked''"
| "method_str WIREGUARD_SIGNATURE_BLOCKED = ''wireguard_signature_blocked''"
| "method_str SHADOWSOCKS_ACTIVE_PROBED = ''shadowsocks_active_probed''"
| "method_str VPN_DATA_PHASE_BLOCKED = ''vpn_data_phase_blocked''"
| "method_str MIDDLEBOX_HTTP_MANIPULATION = ''middlebox_http_manipulation''"

section \<open>Records\<close>

record test_result =
  tr_test :: string
  tr_category :: string
  tr_subcategory :: string
  tr_target :: string
  tr_verdict :: verdict
  tr_method :: "blocking_method option"
  tr_confidence :: rat
  tr_evidence :: "(string, json) dict"
  tr_rtt_ms :: "rat option"
  tr_elapsed_ms :: "rat option"
  tr_attempts :: int
  tr_timestamp :: int
  tr_notes :: "string option"

text \<open>The model validator that fills an empty \<open>subcategory\<close>.\<close>

definition populate_subcategory :: "test_result \<Rightarrow> test_result" where
  "populate_subcategory r =
     (if tr_subcategory r = [] then r\<lparr>tr_subcategory := derive (tr_test r) (Some (tr_category r))\<rparr>
      else r)"

record asn_info =
  asn_asn :: int
  asn_descr :: "string option"
  asn_org :: "string option"
  asn_domain :: "string option"
  asn_route :: "string option"

text \<open>\<open>CompanyInfo\<close> and \<open>DatacenterInfo\<close> have the same fields.\<close>

record org_info =
  org_name :: "string option"
  org_domain :: "string option"
  org_network :: "string option"

record location_info =
  loc_country_code :: "string option"
  loc_city :: "string option"

record endpoint_meta =
  em_is_mobile :: bool
  em_is_datacenter :: bool
  em_asn :: "asn_info option"
  em_company :: "org_info option"
  em_datacenter :: "org_info option"
  em_location :: "location_info option"

record live_snapshot =
  ls_handshake_count :: int
  ls_data_transfer_ok :: bool
  ls_data_packets :: "int option"
  ls_bytes_received :: "int option"
  ls_responder_self_test_ok :: "bool option"
  ls_dc_reach_ok :: "bool option"
  ls_data_counters_available :: "bool option"

definition LiveSnapshot_default :: live_snapshot where
  "LiveSnapshot_default = \<lparr>ls_handshake_count = 0, ls_data_transfer_ok = False,
     ls_data_packets = None, ls_bytes_received = None, ls_responder_self_test_ok = None,
     ls_dc_reach_ok = None, ls_data_counters_available = None\<rparr>"

record protocol_result =
  pr_verdict :: verdict
  pr_handshake_count :: int
  pr_data_transfer_ok :: bool
  pr_avg_throughput_mbps :: "rat option"
  pr_client_avg_throughput_mbps :: "rat option"
  pr_throughput_throttled :: bool
  pr_note :: "string option"
  pr_responder_self_test_ok :: "bool option"

definition ProtocolResult_default :: protocol_result where
  "ProtocolResult_default = \<lparr>pr_verdict = BLOCKED, pr_handshake_count = 0,
     pr_data_transfer_ok = False, pr_avg_throughput_mbps = None,
     pr_client_avg_throughput_mbps = None, pr_throughput_throttled = False, pr_note = None,
     pr_responder_self_test_ok = None\<rparr>"

record listener_report =
  lr_test_id :: string
  lr_session_id :: string
  lr_listener_started_at :: int
  lr_listener_stopped_at :: "int option"
  lr_duration_sec :: "rat option"
  lr_client_connected :: bool
  lr_client :: "endpoint_meta option"
  lr_is_mobile :: bool
  lr_is_whitelist :: bool
  lr_results :: "(string, protocol_result) dict"

record server_scores =
  ss_entry_score :: rat
  ss_exit_score :: rat
  ss_relay_score :: rat
  ss_overall :: rat
  ss_listener_session_count :: nat
  ss_telegram_health :: "pyfloat option"
  ss_dns_integrity :: "rat option"
  ss_tls_integrity :: "rat option"
  ss_throttling_detected :: bool
  ss_recommended_protocols :: "string list"
  ss_detected_techniques :: "string list"

section \<open>The verdict ladder and finalize\<close>

definition verdict_rank :: "verdict \<Rightarrow> nat" where
  "verdict_rank v = (case v of OK \<Rightarrow> 2 | HANDSHAKE_ONLY \<Rightarrow> 1 | _ \<Rightarrow> 0)"

text \<open>The \<open>if\<close> chain of \<open>finalize\<close>, before the cap.\<close>

definition derived_verdict :: "int \<Rightarrow> bool \<Rightarrow> bool option \<Rightarrow> verdict" where
  "derived_verdict handshake_count data_transfer_ok data_counters_available =
     (if data_transfer_ok then OK
      else if data_counters_available = Some False \<and> 0 < handshake_count then OK
      else if 0 < handshake_count then HANDSHAKE_ONLY
      else BLOCKED)"

definition apply_cap :: "verdict option \<Rightarrow> verdict \<Rightarrow> verdict" where
  "apply_cap cap_at v = (case cap_at of
       None \<Rightarrow> v
     | Some c \<Rightarrow> if verdict_rank c < verdict_rank v then c else v)"

definition finalize :: "verdict option \<Rightarrow> bool option \<Rightarrow> protocol_result \<Rightarrow> protocol_result" where
  "finalize cap_at data_counters_available pr =
     pr\<lparr>pr_verdict := apply_cap cap_at
          (derived_verdict (pr_handshake_count pr) (pr_data_transfer_ok pr) data_counters_available)\<rparr>"

section \<open>Lemmas\<close>

lemma verdict_str_inject: "verdict_str v = verdict_str w \<longleftrightarrow> v = w"
  by (cases v; cases w) simp_all

lemma method_str_inject: "method_str m = method_str n \<longleftrightarrow> m = n"
  by (cases m; cases n) simp_all

lemma method_str_nonempty: "method_str m \<noteq> []"
  by (cases m) simp_all

lemma all_verdicts_complete: "v \<in> set all_verdicts"
  by (cases v) (simp_all add: all_verdicts_def)

lemma populate_subcategory_nonempty: "tr_subcategory (populate_subcategory r) \<noteq> []"
  by (simp add: populate_subcategory_def derive_nonempty)

lemma populate_subcategory_idem [simp]:
  "populate_subcategory (populate_subcategory r) = populate_subcategory r"
  using populate_subcategory_nonempty [of r] by (simp add: populate_subcategory_def)

text \<open>
  A usability ladder: a rank of the verdicts, and a cap that can only lower. The laws are
  those the listener and the client both rely on when each caps on its own side.
\<close>

locale ladder =
  fixes rank :: "'v \<Rightarrow> nat" and cap :: "'v option \<Rightarrow> 'v \<Rightarrow> 'v"
  assumes cap_None: "cap None v = v"
    and cap_Some: "cap (Some c) v = (if rank c < rank v then c else v)"
begin

lemma cap_lowers: "rank (cap c v) \<le> rank v"
  by (cases c) (simp_all add: cap_None cap_Some)

lemma cap_bound: "rank (cap (Some c) v) \<le> rank c"
  by (simp add: cap_Some)

lemma cap_idem: "cap c (cap c v) = cap c v"
  by (cases c) (simp_all add: cap_None cap_Some)

lemma cap_pass: "rank v \<le> rank c \<Longrightarrow> cap (Some c) v = v"
  by (simp add: cap_Some)

end

interpretation usability: ladder verdict_rank apply_cap
  by unfold_locales (simp_all add: apply_cap_def)

lemma derived_verdict_range: "derived_verdict h d a \<in> {OK, HANDSHAKE_ONLY, BLOCKED}"
  by (simp add: derived_verdict_def)

lemma finalize_frame [simp]:
  "pr_handshake_count (finalize c a pr) = pr_handshake_count pr"
  "pr_data_transfer_ok (finalize c a pr) = pr_data_transfer_ok pr"
  "pr_avg_throughput_mbps (finalize c a pr) = pr_avg_throughput_mbps pr"
  "pr_note (finalize c a pr) = pr_note pr"
  "pr_responder_self_test_ok (finalize c a pr) = pr_responder_self_test_ok pr"
  by (simp_all add: finalize_def)

lemma finalize_verdict:
  "pr_verdict (finalize c a pr) =
     apply_cap c (derived_verdict (pr_handshake_count pr) (pr_data_transfer_ok pr) a)"
  by (simp add: finalize_def)

lemma derived_OK_iff:
  "derived_verdict h d a = OK \<longleftrightarrow> d \<or> (a = Some False \<and> 0 < h)"
  by (simp add: derived_verdict_def)

lemma derived_BLOCKED_iff: "derived_verdict h d a = BLOCKED \<longleftrightarrow> \<not> d \<and> h \<le> 0"
  by (auto simp: derived_verdict_def)

lemma derived_mono:
  assumes "h \<le> h'" "d \<longrightarrow> d'"
  shows "verdict_rank (derived_verdict h d a) \<le> verdict_rank (derived_verdict h' d' a)"
  using assms by (auto simp: derived_verdict_def verdict_rank_def)

lemma cap_handshake:
  "apply_cap (Some HANDSHAKE_ONLY) v = (if v = OK then HANDSHAKE_ONLY else v)"
  by (cases v) (simp_all add: apply_cap_def verdict_rank_def)

lemmas finalize_simps = finalize_verdict cap_handshake derived_verdict_def

end
