(* ===== verification/Registry.thy ===== *)
theory Registry
  imports Prelude
begin

text \<open>
  \<open>censprobe_core/protocol_registry.py\<close>, \<open>module_registry.py\<close> (the static tables) and
  \<open>echo_ports.py\<close>: the single list of protocols every other component keys off, its
  lookups, the module table with its execution phases, and the echo-port dictionaries.
\<close>

section \<open>Protocols\<close>

datatype transport = tcp | udp

record protocol_spec =
  ps_name :: string
  ps_label :: string
  ps_transport :: transport
  ps_uses_socks_echo :: bool
  ps_is_mtg_protocol :: bool
  ps_requires_telegram_dc :: bool
  ps_uses_iptables_counter :: bool

definition PROTOCOLS :: "protocol_spec list" where
  "PROTOCOLS =
    [\<lparr>ps_name = ''openvpn'', ps_label = ''OpenVPN'', ps_transport = udp,
       ps_uses_socks_echo = False, ps_is_mtg_protocol = False,
       ps_requires_telegram_dc = False, ps_uses_iptables_counter = True\<rparr>,
     \<lparr>ps_name = ''wireguard'', ps_label = ''WireGuard'', ps_transport = udp,
       ps_uses_socks_echo = False, ps_is_mtg_protocol = False,
       ps_requires_telegram_dc = False, ps_uses_iptables_counter = False\<rparr>,
     \<lparr>ps_name = ''amneziawg'', ps_label = ''AmneziaWG'', ps_transport = udp,
       ps_uses_socks_echo = False, ps_is_mtg_protocol = False,
       ps_requires_telegram_dc = False, ps_uses_iptables_counter = False\<rparr>,
     \<lparr>ps_name = ''shadowsocks'', ps_label = ''Shadowsocks 2022'', ps_transport = tcp,
       ps_uses_socks_echo = True, ps_is_mtg_protocol = False,
       ps_requires_telegram_dc = False, ps_uses_iptables_counter = False\<rparr>,
     \<lparr>ps_name = ''vless_reality'', ps_label = ''VLESS+Reality'', ps_transport = tcp,
       ps_uses_socks_echo = True, ps_is_mtg_protocol = False,
       ps_requires_telegram_dc = False, ps_uses_iptables_counter = False\<rparr>,
     \<lparr>ps_name = ''hysteria2'', ps_label = ''Hysteria 2'', ps_transport = udp,
       ps_uses_socks_echo = True, ps_is_mtg_protocol = False,
       ps_requires_telegram_dc = False, ps_uses_iptables_counter = False\<rparr>,
     \<lparr>ps_name = ''mtproto_proxy'', ps_label = ''MTProto Proxy'', ps_transport = tcp,
       ps_uses_socks_echo = False, ps_is_mtg_protocol = True,
       ps_requires_telegram_dc = True, ps_uses_iptables_counter = True\<rparr>,
     \<lparr>ps_name = ''mtproto_proxy_alt'', ps_label = ''MTProto Proxy (alt port)'', ps_transport = tcp,
       ps_uses_socks_echo = False, ps_is_mtg_protocol = True,
       ps_requires_telegram_dc = True, ps_uses_iptables_counter = True\<rparr>,
     \<lparr>ps_name = ''mtproto_orig'', ps_label = ''MTProto Proxy (original C)'', ps_transport = tcp,
       ps_uses_socks_echo = False, ps_is_mtg_protocol = False,
       ps_requires_telegram_dc = True, ps_uses_iptables_counter = True\<rparr>]"

text \<open>\<open>_BY_NAME\<close> and the functions that read it.\<close>

definition BY_NAME :: "(string, protocol_spec) dict" where
  "BY_NAME = foldl (\<lambda>m p. dict_set (ps_name p) p m) [] PROTOCOLS"

definition all_protocols :: "protocol_spec list" where
  "all_protocols = PROTOCOLS"

definition get_protocol :: "string \<Rightarrow> protocol_spec option" where
  "get_protocol name = dict_get BY_NAME name"

fun enabled_protocols :: "string list \<Rightarrow> protocol_spec list" where
  "enabled_protocols [] = []"
| "enabled_protocols (name # names) =
     (case dict_get BY_NAME name of
        Some spec \<Rightarrow> spec # enabled_protocols names
      | None \<Rightarrow> enabled_protocols names)"

definition known_names :: "string list" where
  "known_names = map ps_name PROTOCOLS"

definition is_mtg_protocol :: "string \<Rightarrow> bool" where
  "is_mtg_protocol name =
     (case dict_get BY_NAME name of None \<Rightarrow> False | Some spec \<Rightarrow> ps_is_mtg_protocol spec)"

definition requires_telegram_dc :: "string \<Rightarrow> bool" where
  "requires_telegram_dc name =
     (case dict_get BY_NAME name of None \<Rightarrow> False | Some spec \<Rightarrow> ps_requires_telegram_dc spec)"

definition uses_iptables_counter :: "string \<Rightarrow> bool" where
  "uses_iptables_counter name =
     (case dict_get BY_NAME name of None \<Rightarrow> False | Some spec \<Rightarrow> ps_uses_iptables_counter spec)"

section \<open>Echo ports\<close>

definition SOCKS_ECHO_PORTS :: "(string, int) dict" where
  "SOCKS_ECHO_PORTS = [(''shadowsocks'', 9991), (''vless_reality'', 9992), (''hysteria2'', 9993)]"

definition TUN_ECHO_PORTS :: "(string, int) dict" where
  "TUN_ECHO_PORTS = [(''openvpn'', 9994), (''wireguard'', 9995), (''amneziawg'', 9996)]"

definition VPN_TUN_LISTENER_IPS :: "(string, string) dict" where
  "VPN_TUN_LISTENER_IPS =
    [(''openvpn'', ''10.200.0.1''), (''wireguard'', ''10.202.0.1''), (''amneziawg'', ''10.201.0.1'')]"

definition ECHO_PORTS :: "(string, int) dict" where
  "ECHO_PORTS = dict_update (dict_update [] SOCKS_ECHO_PORTS) TUN_ECHO_PORTS"

section \<open>Lemmas\<close>

text \<open>The registry as a lookup table: what the components may assume of a name.\<close>

locale name_registry =
  fixes specs :: "'s list" and nm :: "'s \<Rightarrow> string" and look :: "string \<Rightarrow> 's option"
  assumes look_Some: "look n = Some s \<longleftrightarrow> s \<in> set specs \<and> nm s = n"
begin

lemma names_unique: "s \<in> set specs \<Longrightarrow> t \<in> set specs \<Longrightarrow> nm s = nm t \<Longrightarrow> s = t"
  using look_Some [of "nm s" s] look_Some [of "nm s" t] by auto

lemma look_known: "look n \<noteq> None \<longleftrightarrow> n \<in> nm ` set specs"
  by (auto simp: look_Some)

lemma look_name: "look n = Some s \<Longrightarrow> nm s = n"
  by (simp add: look_Some)

lemma resolve_filter:
  "map nm (List.map_filter look ns) = filter (\<lambda>n. n \<in> nm ` set specs) ns"
proof (induction ns)
  case Nil
  then show ?case by (simp add: List.map_filter_simps)
next
  case (Cons n ns)
  then show ?case
    by (cases "look n") (use look_known [of n] look_name [of n] in \<open>auto simp: List.map_filter_simps\<close>)
qed

end

lemma BY_NAME_eq: "BY_NAME = map (\<lambda>p. (ps_name p, p)) PROTOCOLS"
  by (simp add: BY_NAME_def PROTOCOLS_def dict_set_def)

lemma known_names_eq: "known_names =
   [''openvpn'', ''wireguard'', ''amneziawg'', ''shadowsocks'', ''vless_reality'', ''hysteria2'',
    ''mtproto_proxy'', ''mtproto_proxy_alt'', ''mtproto_orig'']"
  by (simp add: known_names_def PROTOCOLS_def)

lemma distinct_known_names: "distinct known_names"
  by (simp add: known_names_eq)

lemma by_name_iff: "dict_get BY_NAME n = Some s \<longleftrightarrow> s \<in> set PROTOCOLS \<and> ps_name s = n"
proof -
  have "distinct (map fst BY_NAME)"
    using distinct_known_names by (simp add: BY_NAME_eq known_names_def comp_def)
  then have "dict_get BY_NAME n = Some s \<longleftrightarrow> (n, s) \<in> set BY_NAME"
    by (simp add: dict_get_def)
  then show ?thesis by (auto simp: BY_NAME_eq)
qed

interpretation protocols: name_registry PROTOCOLS ps_name "dict_get BY_NAME"
  by unfold_locales (rule by_name_iff)

lemma enabled_protocols_map_filter:
  "enabled_protocols ns = List.map_filter (dict_get BY_NAME) ns"
  by (induction ns) (auto simp: List.map_filter_simps split: option.splits)

lemma enabled_protocols_names:
  "map ps_name (enabled_protocols ns) = filter (\<lambda>n. n \<in> set known_names) ns"
  using protocols.resolve_filter [of ns]
  by (simp add: enabled_protocols_map_filter known_names_def)

lemma enabled_protocols_subset: "set (enabled_protocols ns) \<subseteq> set PROTOCOLS"
  by (induction ns) (auto simp: by_name_iff split: option.splits)

lemma mtg_requires_dc: "is_mtg_protocol n \<Longrightarrow> requires_telegram_dc n"
  by (auto simp: is_mtg_protocol_def requires_telegram_dc_def by_name_iff PROTOCOLS_def
      split: option.splits)

lemma dc_uses_iptables: "requires_telegram_dc n \<Longrightarrow> uses_iptables_counter n"
  by (auto simp: uses_iptables_counter_def requires_telegram_dc_def by_name_iff PROTOCOLS_def
      split: option.splits)

lemma echo_ports_eq: "ECHO_PORTS = SOCKS_ECHO_PORTS @ TUN_ECHO_PORTS"
  by (simp add: ECHO_PORTS_def dict_update_def dict_set_def SOCKS_ECHO_PORTS_def TUN_ECHO_PORTS_def)

lemma echo_ports_keys: "map fst ECHO_PORTS =
   [''shadowsocks'', ''vless_reality'', ''hysteria2'', ''openvpn'', ''wireguard'', ''amneziawg'']"
  by (simp add: echo_ports_eq SOCKS_ECHO_PORTS_def TUN_ECHO_PORTS_def)

end
