(* ===== verification/Config.thy ===== *)
theory Config
  imports PyJson Registry
begin

text \<open>
  \<open>censprobe_core/config.py\<close>: the configuration records, the validators the code writes
  itself (country codes, the cross-checks of \<open>protocols\<close>) and the module-global that
  \<open>load_config\<close> sets. The YAML parser and pydantic's field-by-field decoding of the raw
  mapping are arguments of \<open>load_config\<close>; the decoded object then goes through the
  validators modelled here, and any violation is the \<open>ValueError\<close> of the source.
\<close>

section \<open>Configuration records\<close>

record vantage_config =
  vc_censoring_countries :: "string list"
  vc_override :: "string option"

record module_base =
  mb_enabled :: bool

record dns_module = module_base +
  dm_doh_resolvers :: "string list"
  dm_doh_timeout_sec :: rat
  dm_asn_lookup_backoff_sec :: rat

record tcp_module = module_base +
  tm_repeats :: int
  tm_syn_timeout_sec :: rat
  tm_fast_rst_threshold_ms :: int
  tm_max_parallel :: int

record tls_module = module_base +
  lm_repeats :: int
  lm_timeout_sec :: rat
  lm_max_parallel :: int

record http_module = module_base +
  hm_repeats :: int
  hm_body_cap_bytes :: int
  hm_timeout_connect_sec :: rat
  hm_timeout_read_sec :: rat
  hm_max_parallel :: int

record telegram_module = module_base +
  gm_targets_file :: string
  gm_timeout_sec :: rat

record throttling_module = module_base +
  rm_require_censoring_vantage :: bool
  rm_target_url :: string
  rm_correct_sni :: string
  rm_typo_sni :: string
  rm_trigger_sni :: string
  rm_sequential_runs :: int
  rm_bandwidth_ratio_threshold :: rat
  rm_curl_timeout_sec :: rat

record cloudflare_module = module_base +
  cm_targets_file :: string

record modules_config =
  mc_dns :: dns_module
  mc_tcp :: tcp_module
  mc_tls :: tls_module
  mc_http :: http_module
  mc_telegram :: telegram_module
  mc_throttling :: throttling_module
  mc_cloudflare :: cloudflare_module
  mc_middlebox :: module_base

record protocols_config =
  pc_enabled :: "string list"
  pc_priority :: "string list"
  pc_ports :: "(string, int) dict"
  pc_sni :: "(string, string) dict"

record throughput_config =
  tp_enabled :: bool
  tp_target_bytes :: int
  tp_timeout_sec :: rat

record entry_score_weights =
  we_protocol :: rat
  we_uplink :: rat
  we_latency :: rat

record exit_score_weights =
  wx_uplink :: rat
  wx_censorship :: rat

record relay_score_weights =
  wr_tcp :: rat
  wr_latency :: rat

record scoring_config =
  sc_entry :: entry_score_weights
  sc_exit :: exit_score_weights
  sc_relay :: relay_score_weights

record targets_config =
  tc_directory :: string
  tc_files :: "string list"
  tc_module_owned :: "string list"

record censprobe_config =
  cc_vantage :: vantage_config
  cc_modules :: modules_config
  cc_protocols :: protocols_config
  cc_throughput :: throughput_config
  cc_scoring :: scoring_config
  cc_targets :: targets_config

section \<open>Validators\<close>

datatype violation =
    BadCountryCodes "string list"
  | BadOverride string
  | UnknownEnabled "string list"
  | UnknownPriority "string list"
  | MissingPorts "string list"
  | UnknownPorts "string list"
  | BadPorts "(string \<times> int) list"
  | SniMissing "string list"
  | SniOrphan "string list"
  | BadSni "(string \<times> string) list"

text \<open>
  \<open>_ISO_3166_ALPHA2_RE.match\<close> with the pattern \<open>^[A-Z]{2}$\<close>: Python's \<open>$\<close> also
  matches before a final newline.
\<close>

definition iso_alpha2_match :: "string \<Rightarrow> bool" where
  "iso_alpha2_match s =
     (2 \<le> length s \<and> list_all is_upper (take 2 s) \<and> (drop 2 s = [] \<or> drop 2 s = [CHR 0x0A]))"

definition check_country_codes :: "string list \<Rightarrow> violation + string list" where
  "check_country_codes v =
     (let bad = filter (\<lambda>cc. \<not> iso_alpha2_match cc) v in
      if bad \<noteq> [] then Inl (BadCountryCodes bad) else Inr v)"

definition check_override_code :: "string option \<Rightarrow> violation + string option" where
  "check_override_code v = (case v of
       None \<Rightarrow> Inr None
     | Some s \<Rightarrow> if \<not> iso_alpha2_match s then Inl (BadOverride s) else Inr v)"

definition SNI_USING_PROTOCOLS :: "string list" where
  "SNI_USING_PROTOCOLS = [''vless_reality'', ''mtproto_proxy'', ''mtproto_proxy_alt'']"

definition check_ports_cover_enabled :: "protocols_config \<Rightarrow> violation + protocols_config" where
  "check_ports_cover_enabled c =
    (let known = known_names;
         unknown_enabled = filter (\<lambda>n. n \<notin> set known) (pc_enabled c) in
     if unknown_enabled \<noteq> [] then Inl (UnknownEnabled unknown_enabled) else
     let unknown_priority = filter (\<lambda>n. n \<notin> set known) (pc_priority c) in
     if unknown_priority \<noteq> [] then Inl (UnknownPriority unknown_priority) else
     let missing = filter (\<lambda>n. \<not> dict_has (pc_ports c) n) (pc_enabled c) in
     if missing \<noteq> [] then Inl (MissingPorts missing) else
     let unknown_ports = filter (\<lambda>n. n \<notin> set known) (map fst (pc_ports c)) in
     if unknown_ports \<noteq> [] then Inl (UnknownPorts unknown_ports) else
     let bad_ports = filter (\<lambda>(n, p). \<not> (1 \<le> p \<and> p \<le> 65535)) (pc_ports c) in
     if bad_ports \<noteq> [] then Inl (BadPorts bad_ports) else
     let sni_required = filter (\<lambda>n. n \<in> set (pc_enabled c)) SNI_USING_PROTOCOLS;
         sni_missing = filter (\<lambda>n. \<not> dict_has (pc_sni c) n) (sort sni_required) in
     if sni_missing \<noteq> [] then Inl (SniMissing sni_missing) else
     let sni_orphan = filter (\<lambda>n. n \<notin> set SNI_USING_PROTOCOLS) (map fst (pc_sni c)) in
     if sni_orphan \<noteq> [] then Inl (SniOrphan sni_orphan) else
     let bad_sni = filter (\<lambda>(n, v). v = []) (pc_sni c) in
     if bad_sni \<noteq> [] then Inl (BadSni bad_sni) else
     Inr c)"

text \<open>Construction of the whole object: the nested models validate before it exists.\<close>

definition validate_config :: "censprobe_config \<Rightarrow> violation + censprobe_config" where
  "validate_config c =
     bindE (check_country_codes (vc_censoring_countries (cc_vantage c))) (\<lambda>_.
     bindE (check_override_code (vc_override (cc_vantage c))) (\<lambda>_.
     bindE (check_ports_cover_enabled (cc_protocols c)) (\<lambda>_. Inr c)))"

section \<open>Loading\<close>

text \<open>What the file system holds at the path of the configuration file.\<close>

datatype file_content = Absent | Unreadable | Content string

datatype config_error =
    ConfigNotFound | ConfigUnreadable | ConfigBadYaml | ConfigNotMapping
  | ConfigSchema | ConfigInvalid violation | ConfigNotLoaded

text \<open>
  \<open>load_config\<close>: \<open>yaml_load\<close> is \<open>yaml.safe_load\<close> (\<open>None\<close> its \<open>YAMLError\<close>) and
  \<open>decode\<close> pydantic's decoding (\<open>None\<close> a missing, extra or mistyped field). The result
  is the outcome with the new value of the module-global \<open>_CONFIG\<close>.
\<close>

definition load_config ::
  "(string \<Rightarrow> json option) \<Rightarrow> ((string, json) dict \<Rightarrow> censprobe_config option) \<Rightarrow>
   file_content \<Rightarrow> censprobe_config option \<Rightarrow>
   (config_error + censprobe_config) \<times> censprobe_config option" where
  "load_config yaml_load decode file CONFIG =
     (case file of
        Absent \<Rightarrow> (Inl ConfigNotFound, CONFIG)
      | Unreadable \<Rightarrow> (Inl ConfigUnreadable, CONFIG)
      | Content txt \<Rightarrow>
        (case yaml_load txt of
           None \<Rightarrow> (Inl ConfigBadYaml, CONFIG)
         | Some v \<Rightarrow>
           (case jor v (JObj []) of
              JObj raw \<Rightarrow>
                (case decode raw of
                   None \<Rightarrow> (Inl ConfigSchema, CONFIG)
                 | Some c \<Rightarrow>
                   (case validate_config c of
                      Inl e \<Rightarrow> (Inl (ConfigInvalid e), CONFIG)
                    | Inr c' \<Rightarrow> (Inr c', Some c')))
            | _ \<Rightarrow> (Inl ConfigNotMapping, CONFIG))))"

definition get_config :: "censprobe_config option \<Rightarrow> config_error + censprobe_config" where
  "get_config CONFIG = (case CONFIG of None \<Rightarrow> Inl ConfigNotLoaded | Some c \<Rightarrow> Inr c)"

definition set_config :: "censprobe_config \<Rightarrow> censprobe_config option \<Rightarrow> censprobe_config option" where
  "set_config c CONFIG = Some c"

definition reset_config :: "censprobe_config option \<Rightarrow> censprobe_config option" where
  "reset_config CONFIG = None"

section \<open>Lemmas\<close>

text \<open>What an accepted \<open>protocols\<close> section guarantees, as one predicate.\<close>

definition protocols_ok :: "protocols_config \<Rightarrow> bool" where
  "protocols_ok c \<longleftrightarrow>
     set (pc_enabled c) \<subseteq> set known_names \<and> set (pc_priority c) \<subseteq> set known_names
     \<and> set (pc_enabled c) \<subseteq> fst ` set (pc_ports c) \<and> fst ` set (pc_ports c) \<subseteq> set known_names
     \<and> (\<forall>(n, p) \<in> set (pc_ports c). 1 \<le> p \<and> p \<le> 65535)
     \<and> set SNI_USING_PROTOCOLS \<inter> set (pc_enabled c) \<subseteq> fst ` set (pc_sni c)
     \<and> fst ` set (pc_sni c) \<subseteq> set SNI_USING_PROTOCOLS
     \<and> (\<forall>(n, v) \<in> set (pc_sni c). v \<noteq> [])"

lemma filter_eq_Nil_set: "filter P xs = [] \<longleftrightarrow> (\<forall>x \<in> set xs. \<not> P x)"
  by (simp add: filter_empty_conv)

lemma check_ports_iff: "check_ports_cover_enabled c = Inr d \<longleftrightarrow> d = c \<and> protocols_ok c"
  unfolding check_ports_cover_enabled_def Let_def protocols_ok_def dict_has_def
  by (auto simp: filter_eq_Nil_set subset_eq split: if_splits)

lemma check_ports_total: "check_ports_cover_enabled c = Inr c \<or> (\<exists>e. check_ports_cover_enabled c = Inl e)"
  by (cases "check_ports_cover_enabled c") (auto simp: check_ports_iff)

lemma validate_config_Inr: "validate_config c = Inr d \<longleftrightarrow>
    d = c \<and> list_all iso_alpha2_match (vc_censoring_countries (cc_vantage c))
    \<and> (case vc_override (cc_vantage c) of None \<Rightarrow> True | Some s \<Rightarrow> iso_alpha2_match s)
    \<and> protocols_ok (cc_protocols c)"
  by (auto simp: validate_config_def bindE_Inr_iff check_country_codes_def check_override_code_def
      check_ports_iff Let_def filter_eq_Nil_set list_all_iff split: option.splits if_splits)

lemma load_config_Inr:
  assumes "load_config yl dc file C = (Inr c, C')"
  shows "C' = Some c" "validate_config c = Inr c"
  using assms
  by (auto simp: load_config_def validate_config_Inr
      split: file_content.splits option.splits json.splits sum.splits)

lemma load_config_Inl: "load_config yl dc file C = (Inl e, C') \<Longrightarrow> C' = C"
  by (auto simp: load_config_def split: file_content.splits option.splits json.splits sum.splits)

lemma protocols_ok_port:
  assumes "protocols_ok c" "n \<in> set (pc_enabled c)"
  obtains p where "dict_get (pc_ports c) n = Some p" "1 \<le> p" "p \<le> 65535"
proof -
  have "n \<in> fst ` set (pc_ports c)" using assms by (auto simp: protocols_ok_def)
  then obtain p where p: "dict_get (pc_ports c) n = Some p"
    by (auto simp: dict_get_def dest: weak_map_of_SomeI)
  then have "(n, p) \<in> set (pc_ports c)" by (rule dict_get_SomeD)
  then show ?thesis using assms(1) p that by (auto simp: protocols_ok_def)
qed

lemma protocols_ok_sni:
  assumes "protocols_ok c" "n \<in> set (pc_enabled c)" "n \<in> set SNI_USING_PROTOCOLS"
  obtains v where "dict_get (pc_sni c) n = Some v" "v \<noteq> []"
proof -
  have "n \<in> fst ` set (pc_sni c)" using assms by (auto simp: protocols_ok_def)
  then obtain v where v: "dict_get (pc_sni c) n = Some v"
    by (auto simp: dict_get_def dest: weak_map_of_SomeI)
  then have "(n, v) \<in> set (pc_sni c)" by (rule dict_get_SomeD)
  then show ?thesis using assms(1) v that by (auto simp: protocols_ok_def)
qed

end
