(* ===== verification/Scoring.thy ===== *)
theory Scoring
  imports Models Config "HOL-Library.Multiset"
begin

text \<open>
  \<open>censprobe_core/scoring.py\<close>. Scores are computed in the code's order with binary64
  rounding after every operation. The iteration order of Python's set of protocol names is
  not determined by the language: it is the argument \<open>iter\<close> of the functions that walk it.
\<close>

section \<open>Verdict sets\<close>

definition BLOCKING_VERDICTS :: "verdict list" where
  "BLOCKING_VERDICTS = [BLOCKED, THROTTLED]"

definition BLOCKING_VERDICT_STRINGS :: "string list" where
  "BLOCKING_VERDICT_STRINGS = map verdict_str BLOCKING_VERDICTS"

definition NON_SCORING_VERDICTS :: "verdict list" where
  "NON_SCORING_VERDICTS = [SERVER_REFUSED, INCONCLUSIVE]"

definition THROTTLING_DETECTED_PENALTY :: rat where
  "THROTTLING_DETECTED_PENALTY = fl (2 / 10)"

section \<open>Helpers\<close>

definition scoring_relevant :: "test_result list \<Rightarrow> test_result list" where
  "scoring_relevant results = filter (\<lambda>r. tr_verdict r \<notin> set NON_SCORING_VERDICTS) results"

definition ok_pct :: "test_result list \<Rightarrow> rat" where
  "ok_pct results =
     (if results = [] then 0
      else let relevant = scoring_relevant results in
        if relevant = [] then 100
        else let ok = length (filter (\<lambda>r. tr_verdict r = OK) relevant)
          in fmul (fdiv (of_nat ok) (of_nat (length relevant))) 100)"

definition reach_score :: "verdict \<Rightarrow> rat" where
  "reach_score v = (if v = OK then 1 else if v = HANDSHAKE_ONLY then 1 / 2 else 0)"

text \<open>The two nested loops, over the sessions and over the protocols of each.\<close>

fun reach_protocols :: "(string, protocol_result) dict \<Rightarrow> rat \<times> rat \<Rightarrow> rat \<times> rat" where
  "reach_protocols [] acc = acc"
| "reach_protocols ((_, pr) # rest) (total_score, total_weight) =
     (let weight = 1; score = reach_score (pr_verdict pr) in
      reach_protocols rest (fadd total_score (fmul score weight), fadd total_weight weight))"

fun reach_reports :: "listener_report list \<Rightarrow> rat \<times> rat \<Rightarrow> rat \<times> rat" where
  "reach_reports [] acc = acc"
| "reach_reports (report # rest) acc = reach_reports rest (reach_protocols (lr_results report) acc)"

definition protocol_reachability :: "listener_report list \<Rightarrow> rat" where
  "protocol_reachability listener_reports =
     (if listener_reports = [] then 1 / 2
      else let (total_score, total_weight) = reach_reports listener_reports (0, 0) in
        if total_weight = 0 then 1 / 2 else fdiv total_score total_weight)"

definition latency_to_score :: "rat list \<Rightarrow> rat" where
  "latency_to_score rtts =
     (if rtts = [] then 50
      else let median_rtt = sort rtts ! (length rtts div 2) in
        if median_rtt < 10 then 100
        else if median_rtt < 50 then 90
        else if median_rtt < 100 then 75
        else if median_rtt < 200 then 50
        else if median_rtt < 500 then 25
        else 0)"

section \<open>Recommended protocols\<close>

text \<open>
  \<open>_resolve_priority_order\<close>: the registered names of the operator's list, then every
  registered name not there yet, in the order the set is walked.
\<close>

fun append_missing :: "string list \<Rightarrow> string list \<Rightarrow> string list" where
  "append_missing order [] = order"
| "append_missing order (n # ns) =
     (if n \<notin> set order then append_missing (order @ [n]) ns else append_missing order ns)"

definition resolve_priority_order :: "string list \<Rightarrow> string list \<Rightarrow> string list" where
  "resolve_priority_order priority iter =
     append_missing (filter (\<lambda>n. n \<in> set iter) priority) iter"

text \<open>\<open>_solo_blocked_protocols\<close>: the loop body on one result, then the union over the run.\<close>

definition blocked_names :: "string list \<Rightarrow> test_result \<Rightarrow> string list" where
  "blocked_names iter r =
     (if tr_category r \<noteq> ''protocols'' \<or> tr_verdict r \<noteq> BLOCKED then []
      else case tr_method r of
             None \<Rightarrow> []
           | Some m \<Rightarrow> filter (\<lambda>name. str_contains (method_str m) name) iter)"

definition solo_blocked_protocols :: "test_result list \<Rightarrow> string list \<Rightarrow> string list" where
  "solo_blocked_protocols solo_results iter = concat (map (blocked_names iter) solo_results)"

text \<open>The sets \<open>confirmed_ok\<close> and \<open>confirmed_hs\<close>, as lists of their members.\<close>

definition confirmed :: "verdict \<Rightarrow> listener_report list \<Rightarrow> string list \<Rightarrow> string list" where
  "confirmed v listener_reports blocked =
     concat (map (\<lambda>report. map fst (filter (\<lambda>(n, pr). n \<notin> set blocked \<and> pr_verdict pr = v)
       (lr_results report))) listener_reports)"

definition handshake_label :: "string \<Rightarrow> string" where
  "handshake_label proto = proto @ '' (handshake only)''"

text \<open>
  \<open>recommended.extend(...)\<close> with a generator that tests membership in the list it extends:
  each element is appended before the next test.
\<close>

fun extend_handshake :: "string list \<Rightarrow> string list \<Rightarrow> string list \<Rightarrow> string list" where
  "extend_handshake confirmed_hs recommended [] = recommended"
| "extend_handshake confirmed_hs recommended (p # ps) =
     (if p \<in> set confirmed_hs \<and> p \<notin> set recommended
      then extend_handshake confirmed_hs (recommended @ [handshake_label p]) ps
      else extend_handshake confirmed_hs recommended ps)"

definition recommend_protocols ::
  "string list \<Rightarrow> string list \<Rightarrow> test_result list \<Rightarrow> listener_report list \<Rightarrow> string list" where
  "recommend_protocols priority iter solo_results listener_reports =
     (let priority_order = resolve_priority_order priority iter;
          blocked = solo_blocked_protocols solo_results iter in
      if listener_reports = [] then filter (\<lambda>p. p \<notin> set blocked) priority_order
      else let confirmed_ok = confirmed OK listener_reports blocked;
               confirmed_hs = confirmed HANDSHAKE_ONLY listener_reports blocked
           in extend_handshake confirmed_hs (filter (\<lambda>p. p \<in> set confirmed_ok) priority_order)
                priority_order)"

section \<open>The scores\<close>

definition clamp_score :: "rat \<Rightarrow> rat" where
  "clamp_score x = max 0 (min 100 (round1 x))"

definition of_category :: "string \<Rightarrow> test_result list \<Rightarrow> test_result list" where
  "of_category c rs = filter (\<lambda>r. tr_category r = c) rs"

definition entry_formula :: "entry_score_weights \<Rightarrow> rat \<Rightarrow> rat \<Rightarrow> rat \<Rightarrow> rat" where
  "entry_formula w proto_ok uplink_quality latency_score = clamp_score
     (fmul (fadd (fadd (fmul proto_ok (we_protocol w)) (fmul uplink_quality (we_uplink w)))
       (fmul latency_score (we_latency w))) 100)"

definition exit_formula :: "exit_score_weights \<Rightarrow> rat \<Rightarrow> bool \<Rightarrow> rat" where
  "exit_formula w uplink_quality throttling_detected =
     (let censorship_low =
        (if throttling_detected then max 0 (fsub uplink_quality THROTTLING_DETECTED_PENALTY)
         else uplink_quality)
      in clamp_score
        (fmul (fadd (fmul uplink_quality (wx_uplink w)) (fmul censorship_low (wx_censorship w))) 100))"

definition relay_formula :: "relay_score_weights \<Rightarrow> rat \<Rightarrow> rat \<Rightarrow> rat" where
  "relay_formula w tcp_ok latency_score = clamp_score
     (fmul (fadd (fmul tcp_ok (wr_tcp w)) (fmul latency_score (wr_latency w))) 100)"

definition overall_formula :: "nat \<Rightarrow> rat \<Rightarrow> rat \<Rightarrow> rat \<Rightarrow> rat" where
  "overall_formula session_count entry exit relay =
     (if 0 < session_count then round1 (fdiv (fadd (fadd entry exit) relay) 3)
      else round1 (fdiv (fadd exit relay) 2))"

definition telegram_health_of :: "test_result list \<Rightarrow> coercion_error + pyfloat option" where
  "telegram_health_of solo_results =
     (case List.find (\<lambda>r. tr_test r = ''telegram_health_score'') solo_results of
        None \<Rightarrow> Inr None
      | Some tg \<Rightarrow>
          if tr_evidence tg = [] then Inr None
          else bindE (float_of_json (dict_default (tr_evidence tg) ''health_score'' (JFloat (Fin 0))))
                 (\<lambda>f. Inr (Some (pf_mul100 f))))"

definition techniques_of :: "test_result list \<Rightarrow> string list" where
  "techniques_of solo_results = sorted_set (concat (map (\<lambda>r.
     case tr_method r of
       Some m \<Rightarrow> if tr_verdict r \<in> set BLOCKING_VERDICTS then [method_str m] else []
     | None \<Rightarrow> []) solo_results))"

definition tcp_rtts :: "test_result list \<Rightarrow> rat list" where
  "tcp_rtts solo_results =
     List.map_filter (\<lambda>r. if tr_category r = ''tcp'' then tr_rtt_ms r else None) solo_results"

text \<open>
  \<open>compute_scores\<close>. \<open>listener_reports\<close> is the empty list where the caller passed
  \<open>None\<close>: every use in the code is a truth test. The only exception is that of
  \<open>float(...)\<close> on a malformed health score.
\<close>

definition compute_scores ::
  "scoring_config \<Rightarrow> string list \<Rightarrow> string list \<Rightarrow> test_result list \<Rightarrow> listener_report list \<Rightarrow>
   coercion_error + server_scores" where
  "compute_scores weights priority iter solo_results listener_reports =
    (let dns_results = of_category ''dns'' solo_results;
         tls_results = of_category ''tls'' solo_results;
         throttled = list_ex (\<lambda>r. tr_verdict r = THROTTLED) (of_category ''throttling'' solo_results)
     in bindE (telegram_health_of solo_results) (\<lambda>tg.
     let uplink_quality = fdiv (ok_pct (of_category ''http'' solo_results)) 100;
         proto_ok = protocol_reachability listener_reports;
         rtts = tcp_rtts solo_results;
         latency_score = (if rtts \<noteq> [] then fdiv (latency_to_score rtts) 100 else 1 / 2);
         entry = entry_formula (sc_entry weights) proto_ok uplink_quality latency_score;
         exit = exit_formula (sc_exit weights) uplink_quality throttled;
         tcp_ok = fdiv (ok_pct (of_category ''tcp'' solo_results)) 100;
         relay = relay_formula (sc_relay weights) tcp_ok latency_score;
         count = length listener_reports
     in Inr \<lparr>ss_entry_score = entry, ss_exit_score = exit, ss_relay_score = relay,
             ss_overall = overall_formula count entry exit relay,
             ss_listener_session_count = count,
             ss_telegram_health = tg,
             ss_dns_integrity = (if dns_results \<noteq> [] then Some (ok_pct dns_results) else None),
             ss_tls_integrity = (if tls_results \<noteq> [] then Some (ok_pct tls_results) else None),
             ss_throttling_detected = throttled,
             ss_recommended_protocols = recommend_protocols priority iter solo_results listener_reports,
             ss_detected_techniques = techniques_of solo_results\<rparr>))"

section \<open>Bounds\<close>

lemma ok_pct_range: "0 \<le> ok_pct rs \<and> ok_pct rs \<le> 100"
proof -
  define rel where "rel = scoring_relevant rs"
  define k where "k = length (filter (\<lambda>r. tr_verdict r = OK) rel)"
  have k: "k \<le> length rel" by (simp add: k_def)
  have frac: "(of_nat k :: rat) / of_nat (length rel) \<le> 1"
    using k by (cases "rel = []") (simp_all add: divide_le_eq)
  have "0 \<le> fdiv (of_nat k) (of_nat (length rel))" by (rule fdiv_nonneg) simp_all
  moreover have "fdiv (of_nat k) (of_nat (length rel)) \<le> 1"
    unfolding fdiv_def by (rule fl_le_1 [OF frac])
  ultimately have "0 \<le> fmul (fdiv (of_nat k) (of_nat (length rel))) 100 \<and>
      fmul (fdiv (of_nat k) (of_nat (length rel))) 100 \<le> 100"
    by (auto simp: fmul_def intro!: fl_nonneg fl_le_numeral)
  then show ?thesis by (simp add: ok_pct_def Let_def rel_def k_def)
qed

lemma unit_of_pct: "0 \<le> x \<Longrightarrow> x \<le> 100 \<Longrightarrow> 0 \<le> fdiv x 100 \<and> fdiv x 100 \<le> 1"
  by (auto simp: fdiv_def intro!: fl_nonneg fl_le_1)

lemma latency_range: "0 \<le> latency_to_score rtts \<and> latency_to_score rtts \<le> 100"
  by (simp add: latency_to_score_def Let_def)

lemma clamp_range: "0 \<le> clamp_score x \<and> clamp_score x \<le> 100"
  by (simp add: clamp_score_def)

lemma clamp_mono: "x \<le> y \<Longrightarrow> clamp_score x \<le> clamp_score y"
  unfolding clamp_score_def by (intro max.mono min.mono order_refl round1_mono)

lemma overall_range:
  assumes "0 \<le> a" "a \<le> 100" "0 \<le> b" "b \<le> 100" "0 \<le> c" "c \<le> 100"
  shows "0 \<le> overall_formula n a b c \<and> overall_formula n a b c \<le> 100"
proof -
  have two: "fadd b c \<le> 200" using assms by (auto simp: fadd_def intro!: fl_le_numeral)
  have "fadd a b \<le> 200" using assms by (auto simp: fadd_def intro!: fl_le_numeral)
  then have three: "fadd (fadd a b) c \<le> 300"
    unfolding fadd_def [of "fadd a b"] using assms by (intro fl_le_numeral) simp_all
  have r100: "x \<le> 100 \<Longrightarrow> round1 x \<le> 100" for x
    using tenth.rnd_le [of x 100] by simp
  have "fdiv (fadd (fadd a b) c) 3 \<le> 100" "fdiv (fadd b c) 2 \<le> 100"
    unfolding fdiv_def using two three by (auto intro!: fl_le_numeral)
  moreover have "0 \<le> fdiv (fadd (fadd a b) c) 3" "0 \<le> fdiv (fadd b c) 2"
    using assms by (auto intro!: fdiv_nonneg fadd_nonneg)
  ultimately show ?thesis by (auto simp: overall_formula_def intro!: round1_nonneg r100)
qed

section \<open>Exactness of the reachability average\<close>

text \<open>Twice the score is an integer, so the sums are exact far beyond any session count.\<close>

definition reach2 :: "verdict \<Rightarrow> nat" where
  "reach2 v = (if v = OK then 2 else if v = HANDSHAKE_ONLY then 1 else 0)"

lemma reach_score_half: "reach_score v = of_nat (reach2 v) / 2"
  by (simp add: reach_score_def reach2_def)

lemma reach2_le: "reach2 v \<le> 2"
  by (simp add: reach2_def)

lemma sum_reach2_le: "sum_list (map (\<lambda>x. reach2 (f x)) xs) \<le> 2 * length xs"
proof (induction xs)
  case (Cons x xs)
  then show ?case using reach2_le [of "f x"] by simp
qed simp

abbreviation proto_verdicts :: "listener_report list \<Rightarrow> verdict list" where
  "proto_verdicts reports \<equiv> concat (map (\<lambda>r. map (\<lambda>p. pr_verdict (snd p)) (lr_results r)) reports)"

lemma fl_half_nat: "n \<le> 2 ^ 53 \<Longrightarrow> fl (of_nat n / 2) = of_nat n / 2"
  using fl_half_int [of "int n"] by simp

lemma reach_step:
  assumes "a + 2 \<le> 2 ^ 53" "b + 1 \<le> 2 ^ 53"
  shows "fadd (of_nat a / 2) (fmul (reach_score v) 1) = of_nat (a + reach2 v) / 2"
    "fadd (of_nat b) 1 = of_nat (b + 1)"
proof -
  have s: "fmul (reach_score v) 1 = of_nat (reach2 v) / 2"
    using reach2_le [of v] fl_half_nat [of "reach2 v"] by (simp add: fmul_def reach_score_half)
  have "fl (of_nat (a + reach2 v) / 2) = of_nat (a + reach2 v) / 2"
    using reach2_le [of v] assms(1) by (intro fl_half_nat) linarith
  then show "fadd (of_nat a / 2) (fmul (reach_score v) 1) = of_nat (a + reach2 v) / 2"
    by (simp add: fadd_def s add_divide_distrib)
  show "fadd (of_nat b) 1 = of_nat (b + 1)"
    using fl_of_nat [of "b + 1"] assms(2) by (simp add: fadd_def add.commute)
qed

lemma reach_protocols_exact:
  assumes "a + 2 * length d \<le> 2 ^ 53" "b + length d \<le> 2 ^ 53"
  shows "reach_protocols d (of_nat a / 2, of_nat b) =
    (of_nat (a + sum_list (map (\<lambda>p. reach2 (pr_verdict (snd p))) d)) / 2, of_nat (b + length d))"
  using assms
proof (induction d arbitrary: a b)
  case Nil
  then show ?case by simp
next
  case (Cons p d)
  obtain n pr where p: "p = (n, pr)" by (cases p)
  have r: "reach2 (pr_verdict pr) \<le> 2" by (rule reach2_le)
  have "reach_protocols (p # d) (of_nat a / 2, of_nat b) =
      reach_protocols d (of_nat (a + reach2 (pr_verdict pr)) / 2, of_nat (b + 1))"
  proof -
    have "a + 2 \<le> 2 ^ 53" "b + 1 \<le> 2 ^ 53" using Cons.prems by simp_all
    then show ?thesis
      by (simp only: p reach_protocols.simps Let_def reach_step)
  qed
  also have "\<dots> = (of_nat (a + reach2 (pr_verdict pr) + sum_list (map (\<lambda>p. reach2 (pr_verdict (snd p))) d)) / 2,
      of_nat (b + 1 + length d))"
    using Cons.prems r by (intro Cons.IH) simp_all
  finally show ?case by (simp add: p add.assoc)
qed

lemma reach_reports_exact:
  assumes "a + 2 * length (proto_verdicts rs) \<le> 2 ^ 53" "b + length (proto_verdicts rs) \<le> 2 ^ 53"
  shows "reach_reports rs (of_nat a / 2, of_nat b) =
    (of_nat (a + sum_list (map reach2 (proto_verdicts rs))) / 2, of_nat (b + length (proto_verdicts rs)))"
  using assms
proof (induction rs arbitrary: a b)
  case Nil
  then show ?case by simp
next
  case (Cons r rs)
  let ?d = "lr_results r"
  let ?s = "sum_list (map (\<lambda>p. reach2 (pr_verdict (snd p))) ?d)"
  have s: "?s \<le> 2 * length ?d" by (rule sum_reach2_le)
  have "reach_reports (r # rs) (of_nat a / 2, of_nat b) =
      reach_reports rs (of_nat (a + ?s) / 2, of_nat (b + length ?d))"
    using reach_protocols_exact [of a ?d b] Cons.prems by simp
  also have "\<dots> = (of_nat (a + ?s + sum_list (map reach2 (proto_verdicts rs))) / 2,
      of_nat (b + length ?d + length (proto_verdicts rs)))"
    using Cons.prems s by (intro Cons.IH) simp_all
  finally show ?case by (simp add: add.assoc comp_def)
qed

lemma protocol_reachability_exact:
  assumes "2 * length (proto_verdicts rs) \<le> 2 ^ 53" "proto_verdicts rs \<noteq> []"
  shows "protocol_reachability rs =
    fdiv (of_nat (sum_list (map reach2 (proto_verdicts rs))) / 2) (of_nat (length (proto_verdicts rs)))"
proof -
  define vs where "vs = proto_verdicts rs"
  have "rs \<noteq> []" using assms(2) by auto
  moreover have "reach_reports rs (0, 0) = (of_nat (sum_list (map reach2 vs)) / 2, of_nat (length vs))"
    using reach_reports_exact [of 0 rs 0] assms(1) by (simp add: vs_def)
  moreover have "(of_nat (length vs) :: rat) \<noteq> 0"
    using assms(2) by (simp only: of_nat_eq_0_iff length_0_conv vs_def) simp
  ultimately show ?thesis by (simp add: protocol_reachability_def Let_def vs_def [symmetric])
qed

section \<open>Monotonicity\<close>

text \<open>One result of a run is repaired: a penalised verdict becomes \<open>OK\<close>, the rest stays.\<close>

definition improves :: "test_result \<Rightarrow> test_result \<Rightarrow> bool" where
  "improves r r' = (r' = r \<or> (tr_verdict r \<notin> set NON_SCORING_VERDICTS \<and> r' = r\<lparr>tr_verdict := OK\<rparr>))"

lemma OK_scoring [simp]: "OK \<notin> set NON_SCORING_VERDICTS"
  by (simp add: NON_SCORING_VERDICTS_def)

lemma improves_frame:
  "improves r r' \<Longrightarrow> tr_category r' = tr_category r \<and> tr_rtt_ms r' = tr_rtt_ms r"
  by (auto simp: improves_def)

lemma improves_category:
  "list_all2 improves xs ys \<Longrightarrow> list_all2 improves (of_category c xs) (of_category c ys)"
  unfolding of_category_def
  by (induction xs ys rule: list_all2_induct) (auto dest: improves_frame)

lemma improves_relevant:
  assumes "list_all2 improves xs ys"
  shows "length (scoring_relevant ys) = length (scoring_relevant xs)
    \<and> length (filter (\<lambda>r. tr_verdict r = OK) (scoring_relevant xs))
      \<le> length (filter (\<lambda>r. tr_verdict r = OK) (scoring_relevant ys))"
  using assms unfolding scoring_relevant_def
  by (induction xs ys rule: list_all2_induct) (auto simp: improves_def)

lemma ok_pct_mono:
  assumes "list_all2 improves xs ys"
  shows "ok_pct xs \<le> ok_pct ys"
proof -
  have len: "length (scoring_relevant ys) = length (scoring_relevant xs)"
    and ok: "length (filter (\<lambda>r. tr_verdict r = OK) (scoring_relevant xs))
      \<le> length (filter (\<lambda>r. tr_verdict r = OK) (scoring_relevant ys))"
    using improves_relevant [OF assms] by auto
  have "xs = [] \<longleftrightarrow> ys = []" using assms list_all2_lengthD by fastforce
  moreover have "scoring_relevant xs = [] \<longleftrightarrow> scoring_relevant ys = []" using len by force
  moreover have "fmul (fdiv (of_nat a) (of_nat n)) 100 \<le> fmul (fdiv (of_nat b) (of_nat n)) 100"
    if "a \<le> b" "0 < n" for a b n
    using that by (intro fmul_mono fdiv_mono fdiv_nonneg) simp_all
  ultimately show ?thesis using ok len by (auto simp: ok_pct_def Let_def)
qed

lemma throttled_improves:
  assumes "list_all2 improves xs ys" "list_ex (\<lambda>r. tr_verdict r = THROTTLED) ys"
  shows "list_ex (\<lambda>r. tr_verdict r = THROTTLED) xs"
  using assms by (induction xs ys rule: list_all2_induct) (auto simp: improves_def)

lemma tcp_rtts_improves:
  "list_all2 improves xs ys \<Longrightarrow> tcp_rtts ys = tcp_rtts xs"
  unfolding tcp_rtts_def
proof (induction xs ys rule: list_all2_induct)
  case (Cons x xs y ys)
  then show ?case using improves_frame [of x y] by (simp add: List.map_filter_simps split: option.split)
qed simp

definition nonneg_weights :: "scoring_config \<Rightarrow> bool" where
  "nonneg_weights w \<longleftrightarrow> 0 \<le> we_protocol (sc_entry w) \<and> 0 \<le> we_uplink (sc_entry w)
     \<and> 0 \<le> we_latency (sc_entry w) \<and> 0 \<le> wx_uplink (sc_exit w) \<and> 0 \<le> wx_censorship (sc_exit w)
     \<and> 0 \<le> wr_tcp (sc_relay w) \<and> 0 \<le> wr_latency (sc_relay w)"

lemma penalty_nonneg: "0 \<le> THROTTLING_DETECTED_PENALTY"
  by (simp add: THROTTLING_DETECTED_PENALTY_def fl_nonneg)

lemma censorship_low_mono:
  assumes "u \<le> v" "0 \<le> u" "fl u = u" "t' \<longrightarrow> t"
  shows "(if t then max 0 (fsub u THROTTLING_DETECTED_PENALTY) else u)
    \<le> (if t' then max 0 (fsub v THROTTLING_DETECTED_PENALTY) else v)"
proof -
  have "fsub u THROTTLING_DETECTED_PENALTY \<le> fsub v THROTTLING_DETECTED_PENALTY"
    using assms(1) by (rule fsub_mono)
  moreover have "fsub u THROTTLING_DETECTED_PENALTY \<le> u"
    using penalty_nonneg assms(3) by (rule fsub_le)
  ultimately show ?thesis using assms by auto
qed

lemma exit_formula_mono:
  assumes "u \<le> v" "0 \<le> u" "fl u = u" "t' \<longrightarrow> t" "0 \<le> wx_uplink w" "0 \<le> wx_censorship w"
  shows "exit_formula w u t \<le> exit_formula w v t'"
  using censorship_low_mono [OF assms(1-4)] assms
  unfolding exit_formula_def Let_def
  by (intro clamp_mono fmul_mono fadd_mono fadd_nonneg fmul_nonneg order_refl) simp_all

lemma entry_formula_mono:
  assumes "u \<le> v" "0 \<le> u" "0 \<le> p" "0 \<le> l" "0 \<le> we_protocol w" "0 \<le> we_uplink w" "0 \<le> we_latency w"
  shows "entry_formula w p u l \<le> entry_formula w p v l"
  using assms unfolding entry_formula_def
  by (intro clamp_mono fmul_mono fadd_mono fadd_nonneg fmul_nonneg order_refl) simp_all

lemma relay_formula_mono:
  assumes "u \<le> v" "0 \<le> u" "0 \<le> l" "0 \<le> wr_tcp w" "0 \<le> wr_latency w"
  shows "relay_formula w u l \<le> relay_formula w v l"
  using assms unfolding relay_formula_def
  by (intro clamp_mono fmul_mono fadd_mono fadd_nonneg fmul_nonneg order_refl) simp_all

lemma overall_mono:
  "a \<le> a' \<Longrightarrow> b \<le> b' \<Longrightarrow> c \<le> c' \<Longrightarrow> overall_formula n a b c \<le> overall_formula n a' b' c'"
  by (auto simp: overall_formula_def intro!: round1_mono fdiv_mono fadd_mono)

lemma reach_protocols_nonneg:
  "0 \<le> fst acc \<Longrightarrow> 0 \<le> snd acc \<Longrightarrow> 0 \<le> fst (reach_protocols d acc) \<and> 0 \<le> snd (reach_protocols d acc)"
proof (induction d acc rule: reach_protocols.induct)
  case (2 n pr rest total_score total_weight)
  have "0 \<le> reach_score (pr_verdict pr)" by (simp add: reach_score_def)
  with 2 show ?case by (simp add: Let_def fadd_nonneg fmul_nonneg)
qed simp

lemma reach_reports_nonneg:
  "0 \<le> fst acc \<Longrightarrow> 0 \<le> snd acc \<Longrightarrow> 0 \<le> fst (reach_reports rs acc) \<and> 0 \<le> snd (reach_reports rs acc)"
  by (induction rs acc rule: reach_reports.induct) (simp_all add: reach_protocols_nonneg)

lemma protocol_reachability_nonneg: "0 \<le> protocol_reachability rs"
  using reach_reports_nonneg [of "(0, 0)" rs]
  by (auto simp: protocol_reachability_def Let_def split: prod.splits intro!: fdiv_nonneg)

section \<open>Recommendation lemmas\<close>

lemma append_missing_set: "set (append_missing order ns) = set order \<union> set ns"
  by (induction order ns rule: append_missing.induct) auto

lemma append_missing_nothing: "set ns \<subseteq> set order \<Longrightarrow> append_missing order ns = order"
  by (induction order ns rule: append_missing.induct) auto

lemma resolve_set: "set (resolve_priority_order priority iter) = set iter"
  by (auto simp: resolve_priority_order_def append_missing_set)

lemma resolve_complete:
  assumes "set iter \<subseteq> set priority"
  shows "resolve_priority_order priority iter = filter (\<lambda>n. n \<in> set iter) priority"
  unfolding resolve_priority_order_def using assms by (intro append_missing_nothing) auto

lemma solo_blocked_iff:
  "n \<in> set (solo_blocked_protocols rs iter) \<longleftrightarrow> n \<in> set iter \<and>
     (\<exists>r \<in> set rs. tr_category r = ''protocols'' \<and> tr_verdict r = BLOCKED
        \<and> (\<exists>m. tr_method r = Some m \<and> str_contains (method_str m) n))"
proof -
  have "n \<in> set (blocked_names iter r) \<longleftrightarrow> n \<in> set iter \<and> tr_category r = ''protocols''
      \<and> tr_verdict r = BLOCKED \<and> (\<exists>m. tr_method r = Some m \<and> str_contains (method_str m) n)" for r
    by (cases "tr_method r") (auto simp: blocked_names_def)
  then show ?thesis by (auto simp: solo_blocked_protocols_def)
qed

lemma confirmed_iff:
  "n \<in> set (confirmed v reports blocked) \<longleftrightarrow>
     n \<notin> set blocked \<and> (\<exists>rep \<in> set reports. \<exists>pr. (n, pr) \<in> set (lr_results rep) \<and> pr_verdict pr = v)"
  by (force simp: confirmed_def)

text \<open>No name is another one with its label, so the growing list never suppresses a later name.\<close>

lemma extend_handshake_eq:
  assumes "\<forall>p \<in> set ps. \<forall>q \<in> set ps. handshake_label p \<noteq> q"
  shows "extend_handshake hs rec ps = rec @ map handshake_label (filter (\<lambda>p. p \<in> set hs \<and> p \<notin> set rec) ps)"
  using assms
proof (induction hs rec ps rule: extend_handshake.induct)
  case (2 hs rec p ps)
  show ?case
  proof (cases "p \<in> set hs \<and> p \<notin> set rec")
    case True
    have "filter (\<lambda>q. q \<in> set hs \<and> q \<notin> set (rec @ [handshake_label p])) ps = filter (\<lambda>q. q \<in> set hs \<and> q \<notin> set rec) ps"
      using "2.prems" by (intro filter_cong) auto
    then show ?thesis using True "2.IH"(1) "2.prems" by simp
  next
    case False
    then show ?thesis using "2.IH"(2) "2.prems" by auto
  qed
qed simp

lemma label_not_known: "handshake_label p \<notin> set known_names"
proof -
  have "list_all (\<lambda>n. CHR ''('' \<notin> set n) known_names" by code_simp
  moreover have "CHR ''('' \<in> set (handshake_label p)" by (simp add: handshake_label_def)
  ultimately show ?thesis by (auto simp: list_all_iff)
qed

section \<open>Properties\<close>

text \<open>A small run, for the witnesses: the weights of \<open>censprobe.yaml\<close>'s shape, a few results.\<close>

definition example_weights :: scoring_config where
  "example_weights = \<lparr>sc_entry = \<lparr>we_protocol = 1 / 2, we_uplink = 1 / 4, we_latency = 1 / 4\<rparr>,
     sc_exit = \<lparr>wx_uplink = 1 / 2, wx_censorship = 1 / 2\<rparr>,
     sc_relay = \<lparr>wr_tcp = 3 / 4, wr_latency = 1 / 4\<rparr>\<rparr>"

definition example_result :: "string \<Rightarrow> verdict \<Rightarrow> blocking_method option \<Rightarrow> test_result" where
  "example_result c v m = \<lparr>tr_test = c, tr_category = c, tr_subcategory = c, tr_target = ''x'',
     tr_verdict = v, tr_method = m, tr_confidence = 1, tr_evidence = [], tr_rtt_ms = Some 5,
     tr_elapsed_ms = None, tr_attempts = 1, tr_timestamp = 0, tr_notes = None\<rparr>"

definition example_session :: "(string \<times> verdict) list \<Rightarrow> listener_report" where
  "example_session rs = \<lparr>lr_test_id = ''t'', lr_session_id = ''s'', lr_listener_started_at = 0,
     lr_listener_stopped_at = None, lr_duration_sec = None, lr_client_connected = True,
     lr_client = None, lr_is_mobile = False, lr_is_whitelist = False,
     lr_results = map (\<lambda>(n, v). (n, ProtocolResult_default\<lparr>pr_verdict := v\<rparr>)) rs\<rparr>"

text \<open>
  C4. Whatever the weights, the results and the sessions, a run that is scored has all four
  scores between 0 and 100, and the two integrity percentages too: no rounding step of the
  binary64 computation escapes the range.
\<close>

theorem scores_in_range:
  assumes "compute_scores w prio iter rs ls = Inr s"
  shows "{ss_entry_score s, ss_exit_score s, ss_relay_score s, ss_overall s} \<subseteq> {0..100}
    \<and> set_option (ss_dns_integrity s) \<union> set_option (ss_tls_integrity s) \<subseteq> {0..100}"
proof -
  have f: "0 \<le> entry_formula a b c d" "entry_formula a b c d \<le> 100"
    "0 \<le> exit_formula e u t" "exit_formula e u t \<le> 100"
    "0 \<le> relay_formula g u l" "relay_formula g u l \<le> 100" for a b c d e u t g l
    using clamp_range by (simp_all add: entry_formula_def exit_formula_def relay_formula_def Let_def)
  from assms show ?thesis
    using ok_pct_range
    by (auto simp: compute_scores_def Let_def overall_range f elim!: bindE_Inr_E split: if_splits)
qed

theorem scores_in_range_witness:
  "\<exists>s. compute_scores example_weights [] known_names [example_result ''http'' OK None,
       example_result ''http'' BLOCKED (Some IP_DROPPED), example_result ''dns'' ERROR None] [] = Inr s
     \<and> ss_exit_score s \<in> {0..100} \<and> ss_overall s \<in> {0..100}"
proof -
  let ?run = "compute_scores example_weights [] known_names [example_result ''http'' OK None,
       example_result ''http'' BLOCKED (Some IP_DROPPED), example_result ''dns'' ERROR None] []"
  have "is_ok ?run" by code_simp
  then obtain s where s: "?run = Inr s" by (rule is_ok_E)
  show ?thesis using s scores_in_range [OF s] by auto
qed

text \<open>
  C9. Repairing targets never lowers a score: with non-negative weights, when some penalised
  results of a run become \<open>OK\<close> (their other fields kept), the entry, exit, relay and
  overall scores of the repaired run are at least those of the original one. The throttling
  penalty and every rounding step are included.
\<close>

theorem repairs_never_lower_scores:
  assumes w: "nonneg_weights w" and imp: "list_all2 improves xs ys"
    and s: "compute_scores w prio iter xs ls = Inr s"
    and t: "compute_scores w prio iter ys ls = Inr t"
  shows "ss_entry_score s \<le> ss_entry_score t \<and> ss_exit_score s \<le> ss_exit_score t
    \<and> ss_relay_score s \<le> ss_relay_score t \<and> ss_overall s \<le> ss_overall t"
proof -
  let ?u = "\<lambda>c rs. fdiv (ok_pct (of_category c rs)) 100"
  let ?l = "if tcp_rtts xs \<noteq> [] then fdiv (latency_to_score (tcp_rtts xs)) 100 else 1 / 2"
  let ?thr = "\<lambda>rs. list_ex (\<lambda>r. tr_verdict r = THROTTLED) (of_category ''throttling'' rs)"
  have u: "?u c xs \<le> ?u c ys" for c
    using improves_category [OF imp] by (intro fdiv_mono ok_pct_mono) simp_all
  have u0: "0 \<le> ?u c xs" for c using ok_pct_range unit_of_pct by blast
  have l0: "0 \<le> ?l" using latency_range unit_of_pct by auto
  have thr: "?thr ys \<longrightarrow> ?thr xs" using throttled_improves improves_category [OF imp] by blast
  note nn = w [unfolded nonneg_weights_def] protocol_reachability_nonneg [of ls] u u0 l0
  have e: "entry_formula (sc_entry w) (protocol_reachability ls) (?u ''http'' xs) ?l
      \<le> entry_formula (sc_entry w) (protocol_reachability ls) (?u ''http'' ys) ?l"
    using nn by (intro entry_formula_mono) simp_all
  have x: "exit_formula (sc_exit w) (?u ''http'' xs) (?thr xs) \<le> exit_formula (sc_exit w) (?u ''http'' ys) (?thr ys)"
    using nn thr by (intro exit_formula_mono) simp_all
  have r: "relay_formula (sc_relay w) (?u ''tcp'' xs) ?l \<le> relay_formula (sc_relay w) (?u ''tcp'' ys) ?l"
    using nn by (intro relay_formula_mono) simp_all
  show ?thesis
    using s t e x r overall_mono [OF e x r, of "length ls"]
    by (auto simp: compute_scores_def Let_def tcp_rtts_improves [OF imp] elim!: bindE_Inr_E)
qed

theorem repairs_never_lower_scores_witness:
  "\<exists>s t. compute_scores example_weights [] known_names [example_result ''http'' BLOCKED None] [] = Inr s
     \<and> compute_scores example_weights [] known_names [example_result ''http'' OK None] [] = Inr t
     \<and> ss_exit_score s \<le> ss_exit_score t"
proof -
  let ?a = "example_result ''http'' BLOCKED None" and ?b = "example_result ''http'' OK None"
  let ?run = "\<lambda>r. compute_scores example_weights [] known_names [r] []"
  have "is_ok (?run ?a)" "is_ok (?run ?b)" by code_simp+
  then obtain s t where s: "?run ?a = Inr s" and t: "?run ?b = Inr t" by (metis is_ok_E)
  have imp: "list_all2 improves [?a] [?b]"
    by (simp add: improves_def example_result_def NON_SCORING_VERDICTS_def)
  have w: "nonneg_weights example_weights"
    by (simp add: nonneg_weights_def example_weights_def)
  show ?thesis using s t repairs_never_lower_scores [OF w imp s t] by blast
qed

text \<open>
  C13. The reachability average is exact up to one final rounding and does not depend on how the
  results are spread over sessions or ordered within them: with at most \<open>2 ^ 52\<close> protocol
  results in all, it is the float nearest to (number of OK + half the number of
  HANDSHAKE_ONLY) / number of results.
\<close>

theorem reachability_is_the_mean:
  assumes "mset (proto_verdicts rs) = mset vs" "vs \<noteq> []" "2 * length vs \<le> 2 ^ 53"
  shows "protocol_reachability rs =
    fdiv (of_nat (2 * count_list vs OK + count_list vs HANDSHAKE_ONLY) / 2) (of_nat (length vs))"
proof -
  have len: "length (proto_verdicts rs) = length vs"
    using assms(1) by (metis size_mset)
  have "mset (map reach2 (proto_verdicts rs)) = mset (map reach2 vs)"
    by (simp only: mset_map assms(1))
  then have "sum_list (map reach2 (proto_verdicts rs)) = sum_list (map reach2 vs)"
    by (simp only: sum_mset_sum_list [symmetric])
  also have "\<dots> = 2 * count_list vs OK + count_list vs HANDSHAKE_ONLY"
    by (induction vs) (simp_all add: reach2_def)
  finally have "sum_list (map reach2 (proto_verdicts rs)) = \<dots>" .
  then show ?thesis
    using protocol_reachability_exact [of rs] assms(2,3) len by (metis length_0_conv)
qed

theorem reachability_is_the_mean_witness:
  "protocol_reachability [example_session [(''a'', OK), (''b'', BLOCKED)],
     example_session [(''c'', HANDSHAKE_ONLY)]] = fdiv (3 / 2) 3"
proof -
  let ?rs = "[example_session [(''a'', OK), (''b'', BLOCKED)], example_session [(''c'', HANDSHAKE_ONLY)]]"
  let ?vs = "[OK, BLOCKED, HANDSHAKE_ONLY]"
  have m: "mset (proto_verdicts ?rs) = mset ?vs" by (simp add: example_session_def)
  have "protocol_reachability ?rs =
      fdiv (of_nat (2 * count_list ?vs OK + count_list ?vs HANDSHAKE_ONLY) / 2) (of_nat (length ?vs))"
    using m by (rule reachability_is_the_mean) simp_all
  also have "\<dots> = fdiv (3 / 2) 3" by simp
  finally show ?thesis .
qed

definition reached :: "test_result list \<Rightarrow> listener_report list \<Rightarrow> verdict \<Rightarrow> string \<Rightarrow> bool" where
  "reached rs ls v p \<longleftrightarrow> p \<in> set known_names \<and> p \<notin> set (solo_blocked_protocols rs known_names)
     \<and> (\<exists>rep \<in> set ls. \<exists>pr. (p, pr) \<in> set (lr_results rep) \<and> pr_verdict pr = v)"



end
