(* ===== verification/Targets.thy ===== *)
theory Targets
  imports PyJson
begin

text \<open>
  \<open>censprobe_core/targets.py\<close>: the per-entry models with the validators the code writes,
  \<open>TargetSet\<close> and its views, and the loader. The file system is a function from paths
  (relative to the targets directory) to what is found there; the YAML parser and pydantic's
  decoding of a mapping into fields are arguments, and the decoded file then goes through the
  validators modelled here.
\<close>

section \<open>Per-entry models\<close>

record target =
  tg_domain :: "string option"
  tg_ip :: "string option"
  tg_port :: "int option"
  tg_name :: "string option"
  tg_category :: "string option"
  tg_urls :: "string list"
  tg_expected_status :: "int option"
  tg_ech_advertised :: bool
  tg_notes :: "string option"
  tg_probes :: "string list"
  tg_extra :: "(string, json) dict"

record tcp_target =
  tt_ip :: string
  tt_port :: int
  tt_name :: "string option"
  tt_category :: "string option"
  tt_notes :: "string option"

record cf_quic_target =
  cq_host :: string
  cq_port :: int
  cq_name :: "string option"
  cq_category :: "string option"
  cq_notes :: "string option"

record cf_warp_tcp_target =
  cw_host :: string
  cw_port_tcp :: int
  cw_expected_status :: "int option"
  cw_name :: "string option"
  cw_category :: "string option"
  cw_notes :: "string option"

record cf_warp_udp_target =
  cu_host :: string
  cu_port_udp :: int
  cu_protocol :: "string option"
  cu_name :: "string option"
  cu_category :: "string option"
  cu_notes :: "string option"

record cf_http_target =
  ch_host :: "string option"
  ch_domain :: "string option"
  ch_expected_status :: int
  ch_name :: "string option"
  ch_category :: "string option"
  ch_notes :: "string option"

definition coerce_host_from_domain :: "cf_http_target \<Rightarrow> cf_http_target option" where
  "coerce_host_from_domain t =
     (let t = (if ch_host t = None then t\<lparr>ch_host := ch_domain t\<rparr> else t) in
      if ch_host t = None then None else Some t)"

text \<open>A Telegram DC as decoded, its address lists still the values of the YAML file.\<close>

record raw_dc =
  rd_id :: int
  rd_location :: "string option"
  rd_ipv4 :: json
  rd_ipv6 :: json
  rd_ports :: "int list"

record telegram_dc =
  dc_id :: int
  dc_location :: "string option"
  dc_ipv4 :: "string list"
  dc_ipv6 :: "string list"
  dc_ports :: "int list"

fun coerce_ip_list :: "json \<Rightarrow> json list option" where
  "coerce_ip_list JNull = Some []"
| "coerce_ip_list (JStr s) = Some [JStr s]"
| "coerce_ip_list (JList xs) = Some xs"
| "coerce_ip_list (JObj d) = Some (map (\<lambda>p. JStr (fst p)) d)"
| "coerce_ip_list _ = None"

text \<open>Pydantic's \<open>list[str]\<close>, applied to what the validator returns.\<close>

fun str_list :: "json list \<Rightarrow> string list option" where
  "str_list [] = Some []"
| "str_list (JStr s # xs) = map_option ((#) s) (str_list xs)"
| "str_list (_ # xs) = None"

definition ip_list :: "json \<Rightarrow> string list option" where
  "ip_list v = Option.bind (coerce_ip_list v) str_list"

definition validate_dc :: "raw_dc \<Rightarrow> telegram_dc option" where
  "validate_dc r =
     (case (ip_list (rd_ipv4 r), ip_list (rd_ipv6 r)) of
        (Some v4, Some v6) \<Rightarrow>
          if rd_ports r = [] then None
          else Some \<lparr>dc_id = rd_id r, dc_location = rd_location r, dc_ipv4 = v4, dc_ipv6 = v6,
                 dc_ports = rd_ports r\<rparr>
      | _ \<Rightarrow> None)"

section \<open>Files and the aggregated set\<close>

record ('h, 'd) target_file_of =
  tf_targets :: "target list"
  tf_tcp_targets :: "tcp_target list"
  tf_quic_targets :: "cf_quic_target list"
  tf_warp_targets :: "cf_warp_tcp_target list"
  tf_warp_tunnel_udp_targets :: "cf_warp_udp_target list"
  tf_http_targets :: "'h list"
  tf_api_datacenters :: "'d list"
  tf_web :: "string list"
  tf_auxiliary :: "string list"
  tf_cdn :: "string list"
  tf_owned_cert_patterns :: "string list"
  tf_health_weights :: "(string, rat) dict"

type_synonym raw_target_file = "(cf_http_target, raw_dc) target_file_of"
type_synonym target_file = "(cf_http_target, telegram_dc) target_file_of"

fun all_some :: "'a option list \<Rightarrow> 'a list option" where
  "all_some [] = Some []"
| "all_some (None # xs) = None"
| "all_some (Some x # xs) = map_option ((#) x) (all_some xs)"

definition validate_target_file :: "raw_target_file \<Rightarrow> target_file option" where
  "validate_target_file f =
     (case (all_some (map coerce_host_from_domain (tf_http_targets f)),
            all_some (map validate_dc (tf_api_datacenters f))) of
        (Some hs, Some dcs) \<Rightarrow> Some
          \<lparr>tf_targets = tf_targets f, tf_tcp_targets = tf_tcp_targets f,
           tf_quic_targets = tf_quic_targets f, tf_warp_targets = tf_warp_targets f,
           tf_warp_tunnel_udp_targets = tf_warp_tunnel_udp_targets f, tf_http_targets = hs,
           tf_api_datacenters = dcs, tf_web = tf_web f, tf_auxiliary = tf_auxiliary f,
           tf_cdn = tf_cdn f, tf_owned_cert_patterns = tf_owned_cert_patterns f,
           tf_health_weights = tf_health_weights f\<rparr>
      | _ \<Rightarrow> None)"

record target_set =
  ts_files :: "(string, target_file) dict"
  ts_module_owned :: "string list"

definition generic_files :: "target_set \<Rightarrow> target_file list" where
  "generic_files ts = map snd (filter (\<lambda>(name, _). name \<notin> set (ts_module_owned ts)) (ts_files ts))"

definition all_generic_targets :: "target_set \<Rightarrow> target list" where
  "all_generic_targets ts = concat (map tf_targets (generic_files ts))"

text \<open>Truthiness of an optional string: present and not empty.\<close>

definition named :: "string option \<Rightarrow> bool" where
  "named d \<longleftrightarrow> d \<noteq> None \<and> d \<noteq> Some []"

definition generic_domains :: "target_set \<Rightarrow> string list" where
  "generic_domains ts = map the (filter named (map tg_domain (all_generic_targets ts)))"

definition domains :: "target_set \<Rightarrow> string list" where
  "domains ts =
     (let web = (case dict_get (ts_files ts) ''telegram'' of None \<Rightarrow> [] | Some tg \<Rightarrow> tf_web tg)
      in sort (dedup_by id [] (generic_domains ts @ web)))"

definition tcp_targets :: "target_set \<Rightarrow> (string \<times> int) list" where
  "tcp_targets ts = dedup_by id []
     (concat (map (\<lambda>(_, f). map (\<lambda>t. (tt_ip t, tt_port t)) (tf_tcp_targets f)) (ts_files ts)))"

record tls_target =
  tl_domain :: string
  tl_blocked_sni :: json
  tl_url :: string
  tl_ech_advertised :: bool

definition tls_entry :: "target \<Rightarrow> tls_target" where
  "tls_entry t = (let d = the (tg_domain t) in
     \<lparr>tl_domain = d,
      tl_blocked_sni = dict_default (tg_extra t) ''blocked_sni'' (JStr d),
      tl_url = (case tg_urls t of u # _ \<Rightarrow> u | [] \<Rightarrow> ''https://'' @ d),
      tl_ech_advertised = tg_ech_advertised t\<rparr>)"

definition tls_targets :: "target_set \<Rightarrow> tls_target list" where
  "tls_targets ts = map tls_entry (dedup_by tg_domain []
     (filter (\<lambda>t. named (tg_domain t)) (all_generic_targets ts)))"

definition jopt :: "('a \<Rightarrow> json) \<Rightarrow> 'a option \<Rightarrow> json" where
  "jopt f v = (case v of None \<Rightarrow> JNull | Some x \<Rightarrow> f x)"

text \<open>\<open>Target.model_dump(exclude_none=False)\<close>: the fields in order, then the extra keys.\<close>

definition target_dump :: "target \<Rightarrow> (string, json) dict" where
  "target_dump t =
     [(''domain'', jopt JStr (tg_domain t)), (''ip'', jopt JStr (tg_ip t)),
      (''port'', jopt JInt (tg_port t)), (''name'', jopt JStr (tg_name t)),
      (''category'', jopt JStr (tg_category t)), (''urls'', JList (map JStr (tg_urls t))),
      (''expected_status'', jopt JInt (tg_expected_status t)),
      (''ech_advertised'', JBool (tg_ech_advertised t)), (''notes'', jopt JStr (tg_notes t)),
      (''probes'', JList (map JStr (tg_probes t)))] @ tg_extra t"

definition http_targets :: "target_set \<Rightarrow> (string, json) dict list" where
  "http_targets ts = map target_dump (all_generic_targets ts)"

definition file_view :: "target_set \<Rightarrow> string \<Rightarrow> target_file option" where
  "file_view ts basename = dict_get (ts_files ts) basename"

section \<open>Loader\<close>

datatype path_state = Missing | Symlink | ReadError | Text string

datatype targets_error =
    NoDirectory | ListedMissing string | CouldNotRead string | InvalidYaml string
  | NotMapping string | InvalidSchema string | OrphanOwned "string list"

text \<open>\<open>Path.stem\<close> of a path that ends in \<open>.yaml\<close>.\<close>

definition path_stem :: "string \<Rightarrow> string" where
  "path_stem path = (let b = last (split_on (CHR ''/'') path) in
     if length b \<le> 5 then b else take (length b - 5) b)"

definition load_one_target_file ::
  "(string \<Rightarrow> json option) \<Rightarrow> ((string, json) dict \<Rightarrow> raw_target_file option) \<Rightarrow>
   (string \<Rightarrow> path_state) \<Rightarrow> bool \<Rightarrow> string \<Rightarrow> targets_error + target_file option" where
  "load_one_target_file yaml_load decode fs files_explicit path =
     (case fs path of
        Symlink \<Rightarrow> Inr None
      | Missing \<Rightarrow> if files_explicit then Inl (ListedMissing path) else Inr None
      | ReadError \<Rightarrow> Inl (CouldNotRead path)
      | Text text \<Rightarrow>
        (case yaml_load text of
           None \<Rightarrow> Inl (InvalidYaml path)
         | Some v \<Rightarrow>
           (case jor v (JObj []) of
              JObj raw \<Rightarrow>
                (case Option.bind (decode raw) validate_target_file of
                   None \<Rightarrow> Inl (InvalidSchema path)
                 | Some tf \<Rightarrow> Inr (Some tf))
            | _ \<Rightarrow> Inl (NotMapping path))))"

fun load_candidates ::
  "(string \<Rightarrow> targets_error + target_file option) \<Rightarrow> string list \<Rightarrow> target_set \<Rightarrow>
   targets_error + target_set" where
  "load_candidates load_one [] out = Inr out"
| "load_candidates load_one (path # rest) out =
     bindE (load_one path) (\<lambda>loaded. case loaded of
         None \<Rightarrow> load_candidates load_one rest out
       | Some tf \<Rightarrow> load_candidates load_one rest
           (out\<lparr>ts_files := dict_set (path_stem path) tf (ts_files out)\<rparr>))"

definition validate_module_owned :: "target_set \<Rightarrow> targets_error + target_set" where
  "validate_module_owned out =
     (let orphan_owned = filter (\<lambda>name. \<not> dict_has (ts_files out) name) (ts_module_owned out) in
      if orphan_owned \<noteq> [] then Inl (OrphanOwned orphan_owned) else Inr out)"

text \<open>
  \<open>load_targets\<close>: \<open>listing\<close> is \<open>None\<close> when the directory does not exist, and otherwise
  the \<open>*.yaml\<close> names the glob finds in it, in any order. \<open>files\<close> is the explicit list
  (\<open>None\<close> and the empty list both ask for discovery).
\<close>

definition load_targets ::
  "(string \<Rightarrow> json option) \<Rightarrow> ((string, json) dict \<Rightarrow> raw_target_file option) \<Rightarrow>
   (string \<Rightarrow> path_state) \<Rightarrow> string list option \<Rightarrow> string list \<Rightarrow> string list \<Rightarrow>
   targets_error + target_set" where
  "load_targets yaml_load decode fs listing files module_owned =
     (case listing of
        None \<Rightarrow> Inl NoDirectory
      | Some found \<Rightarrow>
          let candidates =
            (if files \<noteq> [] then map (\<lambda>name. name @ ''.yaml'') files else sort found) in
          bindE (load_candidates (load_one_target_file yaml_load decode fs (files \<noteq> []))
                   candidates \<lparr>ts_files = [], ts_module_owned = module_owned\<rparr>)
            validate_module_owned)"

section \<open>Lemmas\<close>

lemma dedup_by_filter_map:
  "map f (dedup_by f seen xs) = dedup_by id seen (map f xs)"
  by (induction xs arbitrary: seen) auto

lemma dedup_id_set: "set (dedup_by id seen xs) = set xs - set seen"
  using dedup_by_keys [of id seen xs] by simp

lemma dedup_id_distinct: "distinct (dedup_by id seen xs)"
  using dedup_by_distinct [of id seen xs] by simp

lemma distinct_map_inj: "inj_on f (set xs) \<Longrightarrow> distinct (map f xs) = distinct xs"
  by (auto simp: distinct_map)

lemma all_some_eq: "all_some xs = Some ys \<longleftrightarrow> xs = map Some ys"
proof (induction xs arbitrary: ys)
  case (Cons x xs)
  then show ?case by (cases x; cases ys) auto
qed auto

lemma coerce_host_some: "coerce_host_from_domain t = Some u \<Longrightarrow> ch_host u \<noteq> None"
  by (auto simp: coerce_host_from_domain_def Let_def split: if_splits)

lemma validate_dc_ports: "validate_dc r = Some dc \<Longrightarrow> dc_ports dc \<noteq> [] \<and> dc_ports dc = rd_ports r"
  by (auto simp: validate_dc_def split: option.splits if_splits)

lemma ip_list_str [simp]: "ip_list JNull = Some []" "ip_list (JStr s) = Some [s]"
  by (simp_all add: ip_list_def)

definition file_ok :: "target_file \<Rightarrow> bool" where
  "file_ok f \<longleftrightarrow> (\<forall>h \<in> set (tf_http_targets f). ch_host h \<noteq> None)
     \<and> (\<forall>d \<in> set (tf_api_datacenters f). dc_ports d \<noteq> [])"

lemma all_some_map_all:
  assumes "all_some (map f xs) = Some ys" "\<And>x y. f x = Some y \<Longrightarrow> P y"
  shows "\<forall>y \<in> set ys. P y"
proof -
  have "map f xs = map Some ys" using assms(1) by (simp add: all_some_eq)
  then have "\<forall>y \<in> set ys. \<exists>x. f x = Some y"
    by (metis (no_types, lifting) imageE image_eqI list.set_map)
  then show ?thesis using assms(2) by blast
qed

lemma validate_target_file_ok:
  assumes "validate_target_file f = Some g" shows "file_ok g"
proof -
  obtain hs dcs where h: "all_some (map coerce_host_from_domain (tf_http_targets f)) = Some hs"
    and d: "all_some (map validate_dc (tf_api_datacenters f)) = Some dcs"
    and g: "tf_http_targets g = hs" "tf_api_datacenters g = dcs"
    using assms by (auto simp: validate_target_file_def split: option.splits)
  have "\<forall>y \<in> set hs. ch_host y \<noteq> None"
    using h coerce_host_some by (rule all_some_map_all)
  moreover have "\<forall>y \<in> set dcs. dc_ports y \<noteq> []"
    using d by (rule all_some_map_all) (use validate_dc_ports in blast)
  ultimately show ?thesis by (simp add: file_ok_def g)
qed

lemma load_one_cases:
  assumes "load_one_target_file yl dec fs ex path = Inr r"
  shows "fs path \<noteq> ReadError \<and> (ex \<longrightarrow> fs path \<noteq> Missing)
    \<and> (r \<noteq> None \<longleftrightarrow> (\<exists>t. fs path = Text t)) \<and> (\<forall>tf. r = Some tf \<longrightarrow> file_ok tf)"
  using assms validate_target_file_ok
  by (auto simp: load_one_target_file_def bind_eq_Some_conv
      split: path_state.splits option.splits json.splits if_splits)

text \<open>The loop over the candidates, for any per-file loader.\<close>

lemma load_candidates_inv:
  assumes "load_candidates load_one paths out = Inr ts"
  shows "ts_module_owned ts = ts_module_owned out
    \<and> fst ` set (ts_files ts) = fst ` set (ts_files out)
        \<union> path_stem ` {p \<in> set paths. \<exists>tf. load_one p = Inr (Some tf)}
    \<and> (\<forall>p \<in> set paths. is_ok (load_one p))
    \<and> (\<forall>f \<in> set (map snd (ts_files ts)). f \<in> set (map snd (ts_files out))
          \<or> (\<exists>p \<in> set paths. load_one p = Inr (Some f)))"
  using assms
proof (induction paths arbitrary: out)
  case Nil
  then show ?case by simp
next
  case (Cons p ps)
  obtain r where r: "load_one p = Inr r" using Cons.prems by (auto elim: bindE_Inr_E)
  define out' where "out' = (case r of None \<Rightarrow> out
    | Some tf \<Rightarrow> out\<lparr>ts_files := dict_set (path_stem p) tf (ts_files out)\<rparr>)"
  have "load_candidates load_one ps out' = Inr ts"
    using Cons.prems r by (cases r) (simp_all add: out'_def bindE_def)
  note IH = Cons.IH [OF this]
  have owned: "ts_module_owned out' = ts_module_owned out"
    by (simp add: out'_def split: option.split)
  have keys: "fst ` set (ts_files out') =
      fst ` set (ts_files out) \<union> path_stem ` {q. q = p \<and> (\<exists>tf. load_one q = Inr (Some tf))}"
    using r by (cases r) (auto simp: out'_def)
  have split: "{q \<in> set (p # ps). \<exists>tf. load_one q = Inr (Some tf)} =
      {q. q = p \<and> (\<exists>tf. load_one q = Inr (Some tf))} \<union> {q \<in> set ps. \<exists>tf. load_one q = Inr (Some tf)}"
    by auto
  have vals: "f \<in> snd ` set (ts_files out') \<Longrightarrow> f \<in> snd ` set (ts_files out) \<or> load_one p = Inr (Some f)" for f
    using r vals_dict_set [of f "path_stem p"] by (cases r) (auto simp: out'_def)
  show ?case
  proof (intro conjI)
    show "ts_module_owned ts = ts_module_owned out" using IH owned by simp
    show "fst ` set (ts_files ts) = fst ` set (ts_files out)
        \<union> path_stem ` {q \<in> set (p # ps). \<exists>tf. load_one q = Inr (Some tf)}"
      using IH by (simp only: split image_Un keys Un_assoc)
    show "\<forall>q \<in> set (p # ps). is_ok (load_one q)" using IH r by simp
    show "\<forall>f \<in> set (map snd (ts_files ts)). f \<in> set (map snd (ts_files out))
          \<or> (\<exists>q \<in> set (p # ps). load_one q = Inr (Some f))"
    proof
      fix f assume "f \<in> set (map snd (ts_files ts))"
      then have "f \<in> snd ` set (ts_files out') \<or> (\<exists>q \<in> set ps. load_one q = Inr (Some f))"
        using IH by auto
      then show "f \<in> set (map snd (ts_files out)) \<or> (\<exists>q \<in> set (p # ps). load_one q = Inr (Some f))"
        using vals [of f] by auto
    qed
  qed
qed

text \<open>
  A successful load is complete and strict: the loaded names are exactly the stems of the
  candidate paths that are regular files, whatever order the directory listing had; every
  module-owned name is among them; no candidate was unreadable, and none the operator listed
  was missing; every loaded file passed the entry validators (a host for each Cloudflare
  target, a port for each Telegram data centre).
\<close>

theorem load_targets_complete:
  assumes "load_targets yl dec fs (Some found) files owned = Inr ts"
  shows "let cands = (if files \<noteq> [] then map (\<lambda>n. n @ ''.yaml'') files else found) in
    fst ` set (ts_files ts) = path_stem ` {p \<in> set cands. \<exists>t. fs p = Text t}
    \<and> ts_module_owned ts = owned \<and> set owned \<subseteq> fst ` set (ts_files ts)
    \<and> (\<forall>p \<in> set cands. fs p \<noteq> ReadError \<and> (files \<noteq> [] \<longrightarrow> fs p \<noteq> Missing))
    \<and> (\<forall>f \<in> snd ` set (ts_files ts). file_ok f)"
proof -
  let ?ex = "files \<noteq> []"
  let ?one = "load_one_target_file yl dec fs ?ex"
  define cs where "cs = (if ?ex then map (\<lambda>n. n @ ''.yaml'') files else sort found)"
  define cands where "cands = (if ?ex then map (\<lambda>n. n @ ''.yaml'') files else found)"
  have same: "set cs = set cands" by (simp add: cs_def cands_def)
  have load: "load_candidates ?one cs \<lparr>ts_files = [], ts_module_owned = owned\<rparr> = Inr ts"
    and val: "validate_module_owned ts = Inr ts"
    using assms by (auto simp: load_targets_def cs_def validate_module_owned_def Let_def
        elim!: bindE_Inr_E split: if_splits)
  note inv = load_candidates_inv [OF load]
  have own: "set owned \<subseteq> fst ` set (ts_files ts)"
    using inv val by (auto simp: validate_module_owned_def dict_has_def filter_empty_conv Let_def split: if_splits)
  have ok: "\<exists>r. ?one p = Inr r" if "p \<in> set cs" for p
    using inv that by (metis is_ok_E)
  have is_text: "(\<exists>tf. ?one p = Inr (Some tf)) \<longleftrightarrow> (\<exists>t. fs p = Text t)" if "p \<in> set cs" for p
    using ok [OF that] load_one_cases by (metis not_Some_eq Inr_inject)
  have "fst ` set (ts_files ts) = path_stem ` {p \<in> set cs. \<exists>tf. ?one p = Inr (Some tf)}"
    using inv by simp
  also have "{p \<in> set cs. \<exists>tf. ?one p = Inr (Some tf)} = {p \<in> set cs. \<exists>t. fs p = Text t}"
    using is_text by blast
  finally have keys: "fst ` set (ts_files ts) = path_stem ` {p \<in> set cands. \<exists>t. fs p = Text t}"
    by (simp add: same)
  have strict: "\<forall>p \<in> set cands. fs p \<noteq> ReadError \<and> (?ex \<longrightarrow> fs p \<noteq> Missing)"
  proof
    fix p assume "p \<in> set cands"
    then obtain r where "?one p = Inr r" using ok same by blast
    then show "fs p \<noteq> ReadError \<and> (?ex \<longrightarrow> fs p \<noteq> Missing)" using load_one_cases by blast
  qed
  have files: "\<forall>f \<in> snd ` set (ts_files ts). file_ok f"
  proof
    fix f assume "f \<in> snd ` set (ts_files ts)"
    then obtain p where "?one p = Inr (Some f)" using inv by auto
    then show "file_ok f" using load_one_cases by blast
  qed
  have "ts_module_owned ts = owned" using inv by simp
  then show ?thesis using keys own strict files by (simp add: cands_def Let_def)
qed

definition empty_file :: raw_target_file where
  "empty_file = \<lparr>tf_targets = [], tf_tcp_targets = [], tf_quic_targets = [], tf_warp_targets = [],
     tf_warp_tunnel_udp_targets = [], tf_http_targets = [], tf_api_datacenters = [], tf_web = [],
     tf_auxiliary = [], tf_cdn = [], tf_owned_cert_patterns = [], tf_health_weights = []\<rparr>"

definition example_fs :: "string \<Rightarrow> path_state" where
  "example_fs p = (if p = ''telegram.yaml'' then Text [] else if p = ''link.yaml'' then Symlink
     else Missing)"

theorem load_targets_complete_witness:
  "\<exists>ts. load_targets (\<lambda>_. Some JNull) (\<lambda>_. Some empty_file) example_fs
       (Some [''telegram.yaml'', ''link.yaml'']) [] [''telegram''] = Inr ts
     \<and> fst ` set (ts_files ts) = path_stem ` {p \<in> {''telegram.yaml'', ''link.yaml''}. \<exists>t. example_fs p = Text t}"
proof -
  let ?run = "load_targets (\<lambda>_. Some JNull) (\<lambda>_. Some empty_file) example_fs
       (Some [''telegram.yaml'', ''link.yaml'']) [] [''telegram'']"
  have "is_ok ?run" by code_simp
  then obtain ts where ts: "?run = Inr ts" by (rule is_ok_E)
  show ?thesis using load_targets_complete [OF ts] ts by (simp add: Let_def)
qed

text \<open>
  What the generic modules are given: the DNS list is the sorted set of the named domains of
  the files no module owns, with the Telegram web hosts; the TLS list has one entry for each
  of the generic domains, built from the first target that names it; and the TCP list has every
  pair of the files once.
\<close>

theorem generic_views:
  "sorted (domains ts) \<and> distinct (domains ts)
   \<and> set (domains ts) = set (generic_domains ts)
       \<union> (case dict_get (ts_files ts) ''telegram'' of None \<Rightarrow> {} | Some tg \<Rightarrow> set (tf_web tg))
   \<and> map tl_domain (tls_targets ts) = dedup_by id [] (generic_domains ts)
   \<and> set (map tl_domain (tls_targets ts)) \<subseteq> set (domains ts)
   \<and> distinct (tcp_targets ts)
   \<and> set (tcp_targets ts) = (\<Union>f \<in> snd ` set (ts_files ts). (\<lambda>t. (tt_ip t, tt_port t)) ` set (tf_tcp_targets f))"
proof -
  let ?ts = "filter (\<lambda>t. named (tg_domain t)) (all_generic_targets ts)"
  have inj: "map the (dedup_by id seen xs) = dedup_by id (map the seen) (map the xs)"
    if "None \<notin> set xs" "None \<notin> set seen" for seen xs :: "string option list"
    using that
  proof (induction xs arbitrary: seen)
    case (Cons x xs)
    then have "the x \<in> the ` set seen \<longleftrightarrow> x \<in> set seen"
      by (metis (no_types, lifting) image_iff list.set_intros(1) option.collapse)
    then show ?case using Cons by (cases x) auto
  qed simp
  have names: "map tg_domain ?ts = filter named (map tg_domain (all_generic_targets ts))"
    by (simp add: filter_map comp_def)
  have "map tl_domain (tls_targets ts) = map the (map tg_domain (dedup_by tg_domain [] ?ts))"
    by (simp add: tls_targets_def tls_entry_def Let_def)
  also have "\<dots> = map the (dedup_by id [] (map tg_domain ?ts))"
    by (simp only: dedup_by_filter_map)
  also have "\<dots> = dedup_by id [] (map the (map tg_domain ?ts))"
  proof -
    have "None \<notin> set (map tg_domain ?ts)" by (auto simp: named_def)
    then show ?thesis using inj [of "map tg_domain ?ts" "[]"] by simp
  qed
  finally have tls: "map tl_domain (tls_targets ts) = dedup_by id [] (generic_domains ts)"
    unfolding names by (simp only: generic_domains_def)
  moreover have "set (domains ts) = set (generic_domains ts)
       \<union> (case dict_get (ts_files ts) ''telegram'' of None \<Rightarrow> {} | Some tg \<Rightarrow> set (tf_web tg))"
    by (simp add: domains_def Let_def dedup_id_set split: option.split)
  moreover have "sorted (domains ts)" "distinct (domains ts)" "distinct (tcp_targets ts)"
    by (simp_all add: domains_def Let_def dedup_id_distinct tcp_targets_def)
  moreover have "set (tcp_targets ts) =
      (\<Union>f \<in> snd ` set (ts_files ts). (\<lambda>t. (tt_ip t, tt_port t)) ` set (tf_tcp_targets f))"
    by (auto simp: tcp_targets_def dedup_id_set)
  ultimately show ?thesis by (simp add: dedup_id_set)
qed

end
