(* ===== verification/Runner.thy ===== *)
theory Runner
  imports Scoring Targets
begin

text \<open>
  \<open>censprobe_core/module_registry.py\<close> and \<open>runner.py\<close>: the module table, the adapters,
  the two-phase run and the report summary. The measurement modules are the argument
  \<open>impls\<close>, one function per module from the inputs its adapter passes to its results or the
  exception it raises. The modules of the parallel phase share no state, and
  \<open>asyncio.gather\<close> returns their outcomes in the order of its arguments, so the phase is
  the list of outcomes in that order whatever the interleaving.
\<close>

section \<open>The module registry\<close>

datatype phase = PARALLEL | SERIAL

datatype probe_module = Dns | Tcp | Tls | Http | Telegram | Cloudflare | Throttling | Middlebox

fun module_str :: "probe_module \<Rightarrow> string" where
  "module_str Dns = ''dns''"
| "module_str Tcp = ''tcp''"
| "module_str Tls = ''tls''"
| "module_str Http = ''http''"
| "module_str Telegram = ''telegram''"
| "module_str Cloudflare = ''cloudflare''"
| "module_str Throttling = ''throttling''"
| "module_str Middlebox = ''middlebox''"

datatype run_error = NoTargetsFile string | ModuleRaised string

type_synonym results_or_error = "run_error + test_result list"

record module_impls =
  mi_dns :: "string list \<Rightarrow> results_or_error"
  mi_tcp :: "(string \<times> int) list \<Rightarrow> int \<Rightarrow> results_or_error"
  mi_tls :: "tls_target list \<Rightarrow> int \<Rightarrow> results_or_error"
  mi_http :: "(string, json) dict list \<Rightarrow> int \<Rightarrow> results_or_error"
  mi_telegram :: "target_file \<Rightarrow> results_or_error"
  mi_cloudflare :: "target_file \<Rightarrow> results_or_error"
  mi_throttling :: "results_or_error"
  mi_middlebox :: "results_or_error"

definition run_telegram :: "module_impls \<Rightarrow> modules_config \<Rightarrow> target_set \<Rightarrow> results_or_error" where
  "run_telegram impls m ts = (let nm = gm_targets_file (mc_telegram m) in
     case file_view ts nm of None \<Rightarrow> Inl (NoTargetsFile nm) | Some tf \<Rightarrow> mi_telegram impls tf)"

definition run_cloudflare :: "module_impls \<Rightarrow> modules_config \<Rightarrow> target_set \<Rightarrow> results_or_error" where
  "run_cloudflare impls m ts = (let nm = cm_targets_file (mc_cloudflare m) in
     case file_view ts nm of None \<Rightarrow> Inl (NoTargetsFile nm) | Some tf \<Rightarrow> mi_cloudflare impls tf)"

fun adapter :: "module_impls \<Rightarrow> probe_module \<Rightarrow> modules_config \<Rightarrow> target_set \<Rightarrow> results_or_error" where
  "adapter impls Dns m ts = mi_dns impls (domains ts)"
| "adapter impls Tcp m ts = mi_tcp impls (tcp_targets ts) (tm_repeats (mc_tcp m))"
| "adapter impls Tls m ts = mi_tls impls (tls_targets ts) (lm_repeats (mc_tls m))"
| "adapter impls Http m ts = mi_http impls (http_targets ts) (hm_repeats (mc_http m))"
| "adapter impls Telegram m ts = run_telegram impls m ts"
| "adapter impls Cloudflare m ts = run_cloudflare impls m ts"
| "adapter impls Throttling m ts = mi_throttling impls"
| "adapter impls Middlebox m ts = mi_middlebox impls"

record module_spec =
  ms_name :: probe_module
  ms_phase :: phase

definition MODULES :: "module_spec list" where
  "MODULES =
     [\<lparr>ms_name = Dns, ms_phase = PARALLEL\<rparr>, \<lparr>ms_name = Tcp, ms_phase = PARALLEL\<rparr>,
      \<lparr>ms_name = Tls, ms_phase = PARALLEL\<rparr>, \<lparr>ms_name = Http, ms_phase = PARALLEL\<rparr>,
      \<lparr>ms_name = Telegram, ms_phase = PARALLEL\<rparr>, \<lparr>ms_name = Cloudflare, ms_phase = PARALLEL\<rparr>,
      \<lparr>ms_name = Throttling, ms_phase = SERIAL\<rparr>, \<lparr>ms_name = Middlebox, ms_phase = SERIAL\<rparr>]"

text \<open>Every module has a section of \<open>modules_config\<close>, so the lookup does not fail.\<close>

fun is_enabled :: "probe_module \<Rightarrow> modules_config \<Rightarrow> bool" where
  "is_enabled Dns m = mb_enabled (mc_dns m)"
| "is_enabled Tcp m = mb_enabled (mc_tcp m)"
| "is_enabled Tls m = mb_enabled (mc_tls m)"
| "is_enabled Http m = mb_enabled (mc_http m)"
| "is_enabled Telegram m = mb_enabled (mc_telegram m)"
| "is_enabled Cloudflare m = mb_enabled (mc_cloudflare m)"
| "is_enabled Throttling m = mb_enabled (mc_throttling m)"
| "is_enabled Middlebox m = mb_enabled (mc_middlebox m)"

definition enabled_modules :: "modules_config \<Rightarrow> module_spec list" where
  "enabled_modules m = filter (\<lambda>s. is_enabled (ms_name s) m) MODULES"

section \<open>The runner\<close>

record probe_runner =
  pr_modules :: modules_config
  pr_targets :: target_set
  pr_module_failures :: "probe_module list"

definition run_one :: "module_impls \<Rightarrow> probe_runner \<Rightarrow> module_spec \<Rightarrow> module_spec \<times> results_or_error" where
  "run_one impls r spec = (spec, adapter impls (ms_name spec) (pr_modules r) (pr_targets r))"

fun absorb_module_outcome ::
  "module_spec \<times> results_or_error \<Rightarrow> probe_runner \<times> test_result list \<Rightarrow> probe_runner \<times> test_result list" where
  "absorb_module_outcome (spec, Inl err) (r, results) =
     (r\<lparr>pr_module_failures := pr_module_failures r @ [ms_name spec]\<rparr>, results)"
| "absorb_module_outcome (spec, Inr mod_results) (r, results) = (r, results @ mod_results)"

definition apply_repeat_override :: "int \<Rightarrow> modules_config \<Rightarrow> modules_config" where
  "apply_repeat_override repeats m =
     m\<lparr>mc_tcp := (mc_tcp m)\<lparr>tm_repeats := repeats\<rparr>, mc_tls := (mc_tls m)\<lparr>lm_repeats := repeats\<rparr>,
       mc_http := (mc_http m)\<lparr>hm_repeats := repeats\<rparr>\<rparr>"

fun serial_phase ::
  "module_impls \<Rightarrow> module_spec list \<Rightarrow> probe_runner \<times> test_result list \<Rightarrow> probe_runner \<times> test_result list" where
  "serial_phase impls [] st = st"
| "serial_phase impls (spec # rest) (r, results) =
     serial_phase impls rest (absorb_module_outcome (run_one impls r spec) (r, results))"

definition run_all ::
  "module_impls \<Rightarrow> int option \<Rightarrow> probe_runner \<Rightarrow> probe_runner \<times> test_result list" where
  "run_all impls repeats r =
     (let r = r\<lparr>pr_module_failures := []\<rparr>;
          r = (case repeats of None \<Rightarrow> r
               | Some n \<Rightarrow> r\<lparr>pr_modules := apply_repeat_override n (pr_modules r)\<rparr>);
          active = enabled_modules (pr_modules r);
          phase_a = filter (\<lambda>m. ms_phase m = PARALLEL) active;
          outcomes = map (run_one impls r) phase_a;
          st = foldl (\<lambda>st o'. absorb_module_outcome o' st) (r, []) outcomes;
          phase_b = filter (\<lambda>m. ms_phase m = SERIAL) active
      in serial_phase impls phase_b st)"

section \<open>The summary\<close>

record summary =
  sm_total :: nat
  sm_by_verdict :: "(string, nat) dict"
  sm_by_category :: "(string, (string, nat) dict) dict"
  sm_detected_techniques :: "string list"
  sm_blocked_count :: nat
  sm_ok_count :: nat
  sm_module_failures :: "probe_module list"

definition bump :: "'k \<Rightarrow> ('k, nat) dict \<Rightarrow> ('k, nat) dict" where
  "bump k d = dict_set k (dict_default d k 0 + 1) d"

text \<open>The body of the loop of \<open>_summarize\<close>; the set of techniques is a list here.\<close>

definition summarize_step :: "summary \<Rightarrow> test_result \<Rightarrow> summary" where
  "summarize_step s r =
     (let v = verdict_str (tr_verdict r); cat = tr_category r in
      s\<lparr>sm_by_verdict := bump v (sm_by_verdict s),
        sm_by_category := dict_set cat (bump v (dict_default (sm_by_category s) cat []))
          (sm_by_category s),
        sm_detected_techniques :=
          (case tr_method r of
             Some m \<Rightarrow> if v \<in> set BLOCKING_VERDICT_STRINGS
               then sm_detected_techniques s @ [method_str m] else sm_detected_techniques s
           | None \<Rightarrow> sm_detected_techniques s),
        sm_blocked_count :=
          sm_blocked_count s + (if v \<in> set BLOCKING_VERDICT_STRINGS then 1 else 0),
        sm_ok_count := sm_ok_count s +
          (if v \<notin> set BLOCKING_VERDICT_STRINGS \<and> v = ''OK'' then 1 else 0)\<rparr>)"

definition summarize :: "test_result list \<Rightarrow> probe_module list \<Rightarrow> summary" where
  "summarize results module_failures =
     (let s = foldl summarize_step
        \<lparr>sm_total = length results, sm_by_verdict = [], sm_by_category = [],
         sm_detected_techniques = [], sm_blocked_count = 0, sm_ok_count = 0,
         sm_module_failures = module_failures\<rparr> results
      in s\<lparr>sm_detected_techniques := sorted_set (sm_detected_techniques s)\<rparr>)"

section \<open>Lemmas\<close>

lemma verdict_str_inj [simp]: "verdict_str v = verdict_str w \<longleftrightarrow> v = w"
  by (cases v; cases w) simp_all

lemma blocking_string_iff [simp]:
  "verdict_str v \<in> set BLOCKING_VERDICT_STRINGS \<longleftrightarrow> v \<in> set BLOCKING_VERDICTS"
  by (auto simp: BLOCKING_VERDICT_STRINGS_def)

lemma bump_default [simp]:
  "dict_default (bump k d) j 0 = dict_default d j 0 + (if j = k then 1 else 0)"
  by (simp add: bump_def dict_default_def)

definition oks :: "(module_spec \<times> results_or_error) list \<Rightarrow> test_result list" where
  "oks outs = concat (map (\<lambda>(_, r). case r of Inr xs \<Rightarrow> xs | Inl _ \<Rightarrow> []) outs)"

definition fails :: "(module_spec \<times> results_or_error) list \<Rightarrow> probe_module list" where
  "fails outs = map (\<lambda>(s, _). ms_name s) (filter (\<lambda>(_, r). \<not> is_ok r) outs)"

lemma oks_append: "oks (a @ b) = oks a @ oks b"
  by (simp add: oks_def)

lemma fails_append: "fails (a @ b) = fails a @ fails b"
  by (simp add: fails_def)

lemma absorb_foldl:
  "foldl (\<lambda>st o'. absorb_module_outcome o' st) (r, xs) outs =
     (r\<lparr>pr_module_failures := pr_module_failures r @ fails outs\<rparr>, xs @ oks outs)"
proof (induction outs arbitrary: r xs)
  case Nil
  then show ?case by (simp add: fails_def oks_def)
next
  case (Cons p outs)
  then show ?case by (cases p; cases "snd p") (auto simp: fails_def oks_def)
qed

lemma run_one_failures [simp]: "run_one impls (r\<lparr>pr_module_failures := f\<rparr>) = run_one impls r"
  by (simp add: run_one_def fun_eq_iff)

lemma serial_phase_eq:
  "serial_phase impls specs (r, xs) =
     (r\<lparr>pr_module_failures := pr_module_failures r @ fails (map (run_one impls r) specs)\<rparr>,
      xs @ oks (map (run_one impls r) specs))"
proof (induction specs arbitrary: r xs)
  case Nil
  then show ?case by (simp add: fails_def oks_def)
next
  case (Cons s specs)
  show ?case
    by (cases "snd (run_one impls r s)")
      (simp_all add: Cons.IH run_one_def [of impls r s] fails_def oks_def)
qed

lemma phases_in_order:
  "filter (\<lambda>m. ms_phase m = PARALLEL) (enabled_modules m) @ filter (\<lambda>m. ms_phase m = SERIAL) (enabled_modules m)
     = enabled_modules m"
  by (simp add: enabled_modules_def MODULES_def)

definition contributes :: "module_impls \<Rightarrow> modules_config \<Rightarrow> target_set \<Rightarrow> probe_module \<Rightarrow> test_result list" where
  "contributes impls m ts p =
     (if is_enabled p m then (case adapter impls p m ts of Inr xs \<Rightarrow> xs | Inl _ \<Rightarrow> []) else [])"

lemma oks_enabled:
  "oks (map (run_one impls r) (filter (\<lambda>s. is_enabled (ms_name s) m) specs)) =
     concat (map (\<lambda>s. contributes impls m (pr_targets r) (ms_name s)) specs)"
  if "pr_modules r = m"
  using that by (induction specs) (auto simp: oks_def run_one_def contributes_def)

lemma fails_enabled:
  "set (fails (map (run_one impls r) (filter (\<lambda>s. is_enabled (ms_name s) m) specs))) =
     {p \<in> ms_name ` set specs. is_enabled p m \<and> \<not> is_ok (adapter impls p m (pr_targets r))}"
  if "pr_modules r = m"
  using that by (auto simp: fails_def run_one_def)

lemma modules_all: "ms_name ` set MODULES = UNIV"
proof -
  have "p \<in> ms_name ` set MODULES" for p by (cases p) (simp_all add: MODULES_def)
  then show ?thesis by blast
qed

lemma two_phases:
  assumes "pr_module_failures q = []"
  shows "serial_phase impls (filter (\<lambda>m. ms_phase m = SERIAL) (enabled_modules m))
      (foldl (\<lambda>st o'. absorb_module_outcome o' st) (q, [])
        (map (run_one impls q) (filter (\<lambda>m. ms_phase m = PARALLEL) (enabled_modules m)))) =
    (q\<lparr>pr_module_failures := fails (map (run_one impls q) (enabled_modules m))\<rparr>,
     oks (map (run_one impls q) (enabled_modules m)))"
proof -
  let ?par = "filter (\<lambda>m. ms_phase m = PARALLEL) (enabled_modules m)"
  let ?ser = "filter (\<lambda>m. ms_phase m = SERIAL) (enabled_modules m)"
  have "map (run_one impls q) ?par @ map (run_one impls q) ?ser = map (run_one impls q) (enabled_modules m)"
    using phases_in_order [of m] by (metis map_append)
  then show ?thesis
    using assms by (simp add: absorb_foldl serial_phase_eq oks_append [symmetric] fails_append [symmetric])
qed

text \<open>
  C16. One module cannot disturb another: a run returns, in registry order, exactly what each
  enabled module returned; a module that raises adds no result and is named once in the
  failures, which hold no other module; nothing of an earlier run's failures is left. The
  targets are untouched, and the settings change only by the override of the repeats.
\<close>

theorem run_all_isolates:
  "let m = (case repeats of None \<Rightarrow> pr_modules r | Some n \<Rightarrow> apply_repeat_override n (pr_modules r));
       (r', xs) = run_all impls repeats r in
     xs = concat (map (contributes impls m (pr_targets r))
            [Dns, Tcp, Tls, Http, Telegram, Cloudflare, Throttling, Middlebox])
     \<and> set (pr_module_failures r') =
         {p. is_enabled p m \<and> \<not> is_ok (adapter impls p m (pr_targets r))}
     \<and> distinct (pr_module_failures r')
     \<and> pr_modules r' = m \<and> pr_targets r' = pr_targets r"
proof -
  define m where "m = (case repeats of None \<Rightarrow> pr_modules r | Some n \<Rightarrow> apply_repeat_override n (pr_modules r))"
  define q where "q = r\<lparr>pr_module_failures := [], pr_modules := m\<rparr>"
  have q: "pr_modules q = m" "pr_targets q = pr_targets r" "pr_module_failures q = []"
    by (simp_all add: q_def)
  let ?outs = "map (run_one impls q) (enabled_modules m)"
  have "run_all impls repeats r = (q\<lparr>pr_module_failures := fails ?outs\<rparr>, oks ?outs)"
    using two_phases [OF q(3), of impls] q
    by (cases repeats; cases r) (simp_all add: run_all_def Let_def q_def m_def)
  moreover have "oks ?outs = concat (map (contributes impls m (pr_targets r))
      [Dns, Tcp, Tls, Http, Telegram, Cloudflare, Throttling, Middlebox])"
    unfolding enabled_modules_def oks_enabled [OF q(1)] by (simp add: MODULES_def q(2))
  moreover have "set (fails ?outs) = {p. is_enabled p m \<and> \<not> is_ok (adapter impls p m (pr_targets r))}"
    unfolding enabled_modules_def fails_enabled [OF q(1)] by (simp add: modules_all q(2))
  moreover have "distinct (fails ?outs)"
  proof -
    have "distinct (map ms_name MODULES)" by (simp add: MODULES_def)
    then show ?thesis
      by (simp add: fails_def enabled_modules_def filter_map comp_def run_one_def distinct_map_filter)
  qed
  ultimately show ?thesis by (simp add: Let_def m_def [symmetric] q)
qed

lemma summarize_foldl:
  "dict_default (sm_by_verdict (foldl summarize_step s rs)) (verdict_str v) 0 =
     dict_default (sm_by_verdict s) (verdict_str v) 0 + count_list (map tr_verdict rs) v"
  "dict_default (dict_default (sm_by_category (foldl summarize_step s rs)) c []) (verdict_str v) 0 =
     dict_default (dict_default (sm_by_category s) c []) (verdict_str v) 0
       + count_list (map tr_verdict (of_category c rs)) v"
  "sm_total (foldl summarize_step s rs) = sm_total s"
  "sm_module_failures (foldl summarize_step s rs) = sm_module_failures s"
  "sm_ok_count (foldl summarize_step s rs) = sm_ok_count s + count_list (map tr_verdict rs) OK"
  "sm_blocked_count (foldl summarize_step s rs) = sm_blocked_count s
     + count_list (map tr_verdict rs) BLOCKED + count_list (map tr_verdict rs) THROTTLED"
  by (induction rs arbitrary: s)
    (auto simp: summarize_step_def Let_def dict_default_def bump_def of_category_def
      BLOCKING_VERDICTS_def verdict_str_inj [of _ OK, simplified])

lemma summarize_techniques:
  "sm_detected_techniques (foldl summarize_step s rs) = sm_detected_techniques s @
     concat (map (\<lambda>r. case tr_method r of
       Some m \<Rightarrow> if tr_verdict r \<in> set BLOCKING_VERDICTS then [method_str m] else []
     | None \<Rightarrow> []) rs)"
  by (induction rs arbitrary: s) (auto simp: summarize_step_def Let_def split: option.splits)

lemma summarize_keys:
  "fst ` set (sm_by_verdict (foldl summarize_step s rs)) =
     fst ` set (sm_by_verdict s) \<union> verdict_str ` tr_verdict ` set rs"
  "dict_ok (sm_by_verdict s) \<Longrightarrow> dict_ok (sm_by_verdict (foldl summarize_step s rs))"
  by (induction rs arbitrary: s) (auto simp: summarize_step_def Let_def bump_def)

lemma bump_total: "dict_ok d \<Longrightarrow> sum_list (map snd (bump k d)) = Suc (sum_list (map snd d))"
proof (induction d)
  case Nil
  then show ?case by (simp add: bump_def dict_default_def dict_set_def)
next
  case (Cons p d)
  show ?case
  proof (cases "fst p = k")
    case True
    then show ?thesis by (cases p) (simp add: bump_def dict_default_def dict_set_def dict_get_def)
  next
    case False
    have "dict_ok d" using Cons.prems by (simp add: dict_ok_def)
    moreover have "bump k (p # d) = p # bump k d"
      using False by (cases p) (simp add: bump_def dict_default_def dict_set_def dict_get_def)
    ultimately show ?thesis using Cons.IH by simp
  qed
qed

lemma summarize_total:
  "dict_ok (sm_by_verdict s) \<Longrightarrow>
     sum_list (map snd (sm_by_verdict (foldl summarize_step s rs))) =
     sum_list (map snd (sm_by_verdict s)) + length rs"
proof (induction rs arbitrary: s)
  case (Cons r rs)
  have "sm_by_verdict (summarize_step s r) = bump (verdict_str (tr_verdict r)) (sm_by_verdict s)"
    by (simp add: summarize_step_def Let_def)
  moreover have "dict_ok (bump (verdict_str (tr_verdict r)) (sm_by_verdict s))"
    using Cons.prems by (simp add: bump_def)
  ultimately show ?case using Cons.IH [of "summarize_step s r"] Cons.prems by (simp add: bump_total)
qed simp

text \<open>
  The summary written into a report agrees with its results and with the scores computed
  from them later: each verdict's count, overall and within each category, is the number of
  results that have it, the overall counts add up to the total, and the detected techniques
  are those \<open>compute_scores\<close> derives.
\<close>

theorem summary_agrees:
  "let s = summarize rs failed in
     sm_total s = length rs
     \<and> (\<forall>v. dict_default (sm_by_verdict s) (verdict_str v) 0 = count_list (map tr_verdict rs) v)
     \<and> (\<forall>c v. dict_default (dict_default (sm_by_category s) c []) (verdict_str v) 0 =
           count_list (map tr_verdict (of_category c rs)) v)
     \<and> sum_list (map snd (sm_by_verdict s)) = sm_total s
     \<and> sm_ok_count s = count_list (map tr_verdict rs) OK
     \<and> sm_blocked_count s = count_list (map tr_verdict rs) BLOCKED + count_list (map tr_verdict rs) THROTTLED
     \<and> sm_detected_techniques s = techniques_of rs
     \<and> sm_module_failures s = failed"
  by (simp add: summarize_def Let_def summarize_foldl summarize_total summarize_techniques
      techniques_of_def)
    (simp add: dict_default_def)

end
