(* ===== verification/Utils.thy ===== *)
theory Utils
  imports Models "HOL-Library.Word"
begin

text \<open>
  Shared helpers of \<open>censprobe_core\<close>: \<open>utils.py\<close> (identifiers, the elapsed-time wrapper,
  subprocess shutdown), \<open>_evidence.py\<close>, \<open>_privsep.py\<close>, \<open>_tcp_kernel_rtt.py\<close> and the
  strings of \<open>diagnostic_notes.py\<close> (a dash is its three UTF-8 bytes).
\<close>

section \<open>Identifiers\<close>

definition safe_char :: "char \<Rightarrow> bool" where
  "safe_char c \<longleftrightarrow> is_upper c \<or> is_lower c \<or> is_digit c \<or> c = CHR ''_'' \<or> c = CHR ''.'' \<or> c = CHR ''-''"

definition safe_id :: "string \<Rightarrow> bool" where
  "safe_id s \<longleftrightarrow> 1 \<le> length s \<and> length s \<le> 64 \<and> list_all safe_char s"

definition validate_id :: "string \<Rightarrow> string \<Rightarrow> string + string" where
  "validate_id field value =
     (if \<not> safe_id value
      then Inl (field @ '' must match [A-Za-z0-9_.-] (1-64 chars); got '' @ value)
      else Inr value)"

section \<open>Elapsed time\<close>

text \<open>
  \<open>stamp_test_elapsed\<close>: \<open>t0\<close> and \<open>t1\<close> are the two readings of the monotonic clock.
\<close>

definition stamp_test_elapsed :: "rat \<Rightarrow> rat \<Rightarrow> test_result option \<Rightarrow> test_result option" where
  "stamp_test_elapsed t0 t1 result =
     (case result of
        None \<Rightarrow> None
      | Some r \<Rightarrow> if tr_elapsed_ms r = None
          then Some (r\<lparr>tr_elapsed_ms := Some (fmul (fsub t1 t0) 1000)\<rparr>) else Some r)"

section \<open>Subprocess shutdown\<close>

datatype signal_step = SigTerm | WaitBounded | SigKill | WaitFinal

text \<open>
  What the operating system does with the process: whether the signals can be delivered and
  whether it exits within the grace period. The result is the sequence of calls made.
\<close>

record proc_env =
  pe_returncode :: "int option"
  pe_term_fails :: bool
  pe_exits_in_time :: bool
  pe_kill_fails :: bool

definition graceful_terminate :: "proc_env \<Rightarrow> signal_step list" where
  "graceful_terminate p =
     (if pe_returncode p \<noteq> None then []
      else if pe_term_fails p then [SigTerm]
      else if pe_exits_in_time p then [SigTerm, WaitBounded]
      else [SigTerm, WaitBounded, SigKill, WaitFinal])"

section \<open>Exceptions as text\<close>

datatype py_exc = PyExc (exc_type: string) (exc_msg: string) (exc_cause: "py_exc option") (exc_context: "py_exc option")

definition describe_exception :: "py_exc \<Rightarrow> string" where
  "describe_exception e =
     (let msg = str_strip (exc_msg e) in
      if msg \<noteq> [] then msg
      else case (case exc_cause e of Some c \<Rightarrow> Some c | None \<Rightarrow> exc_context e) of
             Some cause \<Rightarrow>
               let cause_msg = str_strip (exc_msg cause) in
               if cause_msg \<noteq> [] then exc_type e @ '': '' @ cause_msg
               else exc_type e @ '' (no message)''
           | None \<Rightarrow> exc_type e @ '' (no message)'')"

section \<open>Privilege separation\<close>

definition NOBODY_UID :: int where "NOBODY_UID = 65534"
definition NOBODY_GID :: int where "NOBODY_GID = 65534"

definition with_privsep :: "bool \<Rightarrow> string list \<Rightarrow> bool \<Rightarrow> string list" where
  "with_privsep setpriv_available cmd need_bind_service =
     (if \<not> setpriv_available then cmd
      else let bounds = (if need_bind_service then ''-all,+net_bind_service'' else ''-all'') in
        [''setpriv'', ''--reuid'', str_of_int NOBODY_UID, ''--regid'', str_of_int NOBODY_GID,
         ''--clear-groups'', ''--bounding-set'', bounds, ''--inh-caps'', bounds,
         ''--ambient-caps'', bounds, ''--no-new-privs'', ''--''] @ cmd)"

section \<open>Kernel round-trip time\<close>

definition TCP_INFO_RTT_OFFSET :: nat where "TCP_INFO_RTT_OFFSET = 68"
definition TCP_INFO_SIZE :: nat where "TCP_INFO_SIZE = 104"

text \<open>\<open>struct.unpack_from("I", buf, off)\<close> on a little-endian machine.\<close>

definition unpack_u32 :: "8 word list \<Rightarrow> nat \<Rightarrow> int" where
  "unpack_u32 buf off = uint (buf ! off) + 2 ^ 8 * uint (buf ! (off + 1))
     + 2 ^ 16 * uint (buf ! (off + 2)) + 2 ^ 24 * uint (buf ! (off + 3))"

definition pack_u32 :: "32 word \<Rightarrow> 8 word list" where
  "pack_u32 w = [ucast w, ucast (drop_bit 8 w), ucast (drop_bit 16 w), ucast (drop_bit 24 w)]"

text \<open>
  \<open>sock\<close> is \<open>None\<close> when the transport has no socket, and otherwise what
  \<open>getsockopt(TCP_INFO, size)\<close> gives (\<open>None\<close> an \<open>OSError\<close>).
\<close>

definition read_kernel_rtt_us :: "(nat \<Rightarrow> 8 word list option) option \<Rightarrow> int option" where
  "read_kernel_rtt_us sock =
     (case sock of
        None \<Rightarrow> None
      | Some getsockopt \<Rightarrow>
        (case getsockopt TCP_INFO_SIZE of
           None \<Rightarrow> None
         | Some buf \<Rightarrow>
             if length buf < TCP_INFO_RTT_OFFSET + 4 then None
             else let rtt_us = unpack_u32 buf TCP_INFO_RTT_OFFSET
               in if 0 < rtt_us then Some rtt_us else None))"

section \<open>Diagnostic notes\<close>

definition em_dash :: string where
  "em_dash = [CHR 0xE2, CHR 0x80, CHR 0x94]"

definition NOTE_ASYMMETRIC_DPI :: string where
  "NOTE_ASYMMETRIC_DPI = ''asymmetric DPI: handshake passed, data plane filtered''"

definition NOTE_LISTENER_DC_UNREACHABLE_SHORT :: string where
  "NOTE_LISTENER_DC_UNREACHABLE_SHORT =
     ''listener egress to Telegram DCs blocked '' @ em_dash @ '' no DC relay possible''"

definition NOTE_LISTENER_DC_UNREACHABLE_LONG :: string where
  "NOTE_LISTENER_DC_UNREACHABLE_LONG =
     ''listener egress to Telegram DCs blocked at preflight '' @
     ''(telegram-dc-reach 0/N) '' @ em_dash @ '' mtg accepted the FakeTLS '' @
     ''handshake locally but cannot relay to a real DC, so '' @
     ''client-side resPQ never arrives. The end-to-end protocol '' @
     ''is unusable from this listener vantage, independent of '' @
     ''any client-side DPI.''"

definition NOTE_CLIENT_OVERREAD :: string where
  "NOTE_CLIENT_OVERREAD = ''client overread (listener saw less)''"

definition NOTE_LISTENER_SAW_DATA :: string where
  "NOTE_LISTENER_SAW_DATA = ''listener saw data the client missed''"

section \<open>Lemmas\<close>

lemma safe_id_chars: "safe_id s \<Longrightarrow> c \<in> set s \<Longrightarrow> safe_char c"
  by (simp add: safe_id_def list_all_iff)

lemma validate_id_Inr [simp]: "validate_id f s = Inr t \<longleftrightarrow> t = s \<and> safe_id s"
  by (auto simp: validate_id_def)

lemma safe_id_path:
  assumes "safe_id s"
  shows "CHR ''/'' \<notin> set s" "CHR 0x00 \<notin> set s" "CHR 0x0A \<notin> set s" "CHR 0x5C \<notin> set s" "CHR '' '' \<notin> set s"
  using safe_id_chars [OF assms]
  by (auto simp: safe_char_def is_upper_def is_lower_def is_digit_def dest!: safe_id_chars [OF assms])

lemma stamp_keeps:
  "map_option (\<lambda>r. r\<lparr>tr_elapsed_ms := e\<rparr>) (stamp_test_elapsed t0 t1 x) =
     map_option (\<lambda>r. r\<lparr>tr_elapsed_ms := e\<rparr>) x"
  by (cases x) (simp_all add: stamp_test_elapsed_def)

text \<open>The child is reaped whenever a signal reached it, and is killed only after a wait.\<close>

lemma graceful_reaps:
  assumes "pe_returncode p = None" "\<not> pe_term_fails p"
  shows "last (graceful_terminate p) \<in> {WaitBounded, WaitFinal}"
    "SigKill \<in> set (graceful_terminate p) \<longleftrightarrow> \<not> pe_exits_in_time p"
  using assms by (simp_all add: graceful_terminate_def)

lemma describe_exception_nonempty: "describe_exception e \<noteq> []"
  by (auto simp: describe_exception_def Let_def split: option.splits)

text \<open>Whatever the command holds, setpriv stops reading options before it.\<close>

lemma privsep_command_last:
  "\<exists>opts. with_privsep True cmd b = ''setpriv'' # opts @ [''--''] @ cmd \<and> ''--'' \<notin> set opts
     \<and> [''--reuid'', ''65534''] = take 2 opts \<and> ''--no-new-privs'' \<in> set opts"
proof
  define bs where "bs = (if b then ''-all,+net_bind_service'' else ''-all'')"
  have n: "str_of_int 65534 = ''65534''" by (simp add: str_of_int_def nat_digits_numeral)
  let ?opts = "[''--reuid'', ''65534'', ''--regid'', ''65534'', ''--clear-groups'',
    ''--bounding-set'', bs, ''--inh-caps'', bs, ''--ambient-caps'', bs, ''--no-new-privs'']"
  have "with_privsep True cmd b = ''setpriv'' # ?opts @ [''--''] @ cmd"
    by (simp add: with_privsep_def Let_def NOBODY_UID_def NOBODY_GID_def n bs_def)
  moreover have "bs \<noteq> ''--''" by (simp add: bs_def)
  then have "''--'' \<notin> set ?opts" by simp
  ultimately show "with_privsep True cmd b = ''setpriv'' # ?opts @ [''--''] @ cmd \<and> ''--'' \<notin> set ?opts
     \<and> [''--reuid'', ''65534''] = take 2 ?opts \<and> ''--no-new-privs'' \<in> set ?opts"
    by simp
qed

lemma unpack_u32_range: "0 \<le> unpack_u32 buf off \<and> unpack_u32 buf off < 2 ^ 32"
proof -
  have "0 \<le> uint b \<and> uint b < 256" for b :: "8 word"
    using uint_lt2p [of b] by simp
  from this [of "buf ! off"] this [of "buf ! (off + 1)"] this [of "buf ! (off + 2)"]
    this [of "buf ! (off + 3)"]
  show ?thesis by (simp add: unpack_u32_def)
qed

lemma four_bytes:
  fixes n :: int
  assumes "0 \<le> n" "n < 2 ^ 32"
  shows "n mod 256 + 2 ^ 8 * (n div 2 ^ 8 mod 256) + 2 ^ 16 * (n div 2 ^ 16 mod 256)
    + 2 ^ 24 * (n div 2 ^ 24 mod 256) = n"
proof -
  have a: "n mod 65536 = 256 * (n div 256 mod 256) + n mod 256"
    using zmod_zmult2_eq [of 256 n 256] by simp
  have b: "n mod 16777216 = 65536 * (n div 65536 mod 256) + n mod 65536"
    using zmod_zmult2_eq [of 256 n 65536] by simp
  have "n mod 4294967296 = 16777216 * (n div 16777216 mod 256) + n mod 16777216"
    using zmod_zmult2_eq [of 256 n 16777216] by simp
  moreover have "n mod 4294967296 = n" using assms by (intro mod_pos_pos_trivial) simp_all
  ultimately have "n = 16777216 * (n div 16777216 mod 256) + (65536 * (n div 65536 mod 256)
      + (256 * (n div 256 mod 256) + n mod 256))"
    by (simp only: a b)
  moreover have "(2 :: int) ^ 8 = 256" "(2 :: int) ^ 16 = 65536" "(2 :: int) ^ 24 = 16777216"
    by simp_all
  ultimately show ?thesis by (simp only: ac_simps)
qed

lemma unpack_pack: "unpack_u32 (xs @ pack_u32 w @ ys) (length xs) = uint w"
proof -
  let ?n = "uint w"
  have n: "0 \<le> ?n" "?n < 2 ^ 32" using uint_lt2p [of w] by simp_all
  have "unpack_u32 (xs @ pack_u32 w @ ys) (length xs) = ?n mod 256 + 2 ^ 8 * (?n div 2 ^ 8 mod 256)
      + 2 ^ 16 * (?n div 2 ^ 16 mod 256) + 2 ^ 24 * (?n div 2 ^ 24 mod 256)"
    by (simp add: unpack_u32_def pack_u32_def nth_append unsigned_ucast_eq unsigned_drop_bit_eq
        take_bit_eq_mod drop_bit_eq_div uint_div)
  also have "\<dots> = ?n" using n by (intro four_bytes)
  finally show ?thesis .
qed

lemma read_kernel_rtt_bounds:
  "read_kernel_rtt_us s = Some n \<Longrightarrow> 0 < n \<and> n < 2 ^ 32"
  using unpack_u32_range
  by (auto simp: read_kernel_rtt_us_def Let_def split: option.splits if_splits)

text \<open>
  The kernel's estimate is read back exactly: whatever the 68 bytes before it and the bytes
  after it, a non-zero \<open>tcpi_rtt\<close> stored little-endian in the structure is the value
  returned, a zero is no signal, and no structure gives a value outside 1 to 2^32 - 1.
\<close>

theorem kernel_rtt_exact:
  assumes "length pre = TCP_INFO_RTT_OFFSET"
  shows "read_kernel_rtt_us (Some (\<lambda>size. Some (take size (pre @ pack_u32 w @ post)))) =
      (if w = 0 then None else Some (uint w))
    \<and> (\<forall>s n. read_kernel_rtt_us s = Some n \<longrightarrow> 1 \<le> n \<and> n \<le> 2 ^ 32 - 1)"
proof -
  have "take TCP_INFO_SIZE (pre @ pack_u32 w @ post) =
      pre @ pack_u32 w @ take (TCP_INFO_SIZE - TCP_INFO_RTT_OFFSET - 4) post"
    using assms by (simp add: TCP_INFO_SIZE_def TCP_INFO_RTT_OFFSET_def pack_u32_def)
  moreover have "0 < uint w \<longleftrightarrow> w \<noteq> 0"
    by (metis uint_0_iff uint_ge_0 order_less_le)
  ultimately have "read_kernel_rtt_us (Some (\<lambda>size. Some (take size (pre @ pack_u32 w @ post)))) =
      (if w = 0 then None else Some (uint w))"
    using assms unpack_pack [of pre w] by (simp add: read_kernel_rtt_us_def Let_def pack_u32_def)
  moreover have "1 \<le> n \<and> n \<le> 2 ^ 32 - 1" if "read_kernel_rtt_us s = Some n" for s n
    using read_kernel_rtt_bounds [OF that] by simp
  ultimately show ?thesis by blast
qed

theorem kernel_rtt_exact_witness:
  "read_kernel_rtt_us (Some (\<lambda>size. Some (take size (replicate 68 7 @ pack_u32 1024 @ replicate 40 9)))) = Some 1024"
  using kernel_rtt_exact [of "replicate 68 7" 1024 "replicate 40 9"]
  by (simp add: TCP_INFO_RTT_OFFSET_def)

end
