(* ===== verification/ServerMeta.thy ===== *)
theory ServerMeta
  imports Models Config
begin

text \<open>
  \<open>censprobe_core/server_meta.py\<close>: the vantage country, the mapping of a lookup response
  onto \<open>EndpointMeta\<close>, the exit address and the distribution name. HTTP responses and file
  contents are arguments. An exception the code lets escape is an \<open>Inl\<close>.
\<close>

section \<open>Vantage country\<close>

definition set_vantage_country ::
  "censprobe_config option \<Rightarrow> string option \<Rightarrow> string option \<Rightarrow> config_error + string option" where
  "set_vantage_country CONFIG cc VANTAGE = bindE (get_config CONFIG) (\<lambda>c.
     case vc_override (cc_vantage c) of
       Some ov \<Rightarrow> if ov \<noteq> [] then Inr (Some (str_upper ov))
         else Inr (case cc of Some s \<Rightarrow> if s \<noteq> [] then Some (str_upper s) else None | None \<Rightarrow> None)
     | None \<Rightarrow> Inr (case cc of Some s \<Rightarrow> if s \<noteq> [] then Some (str_upper s) else None | None \<Rightarrow> None))"

definition is_censoring_vantage ::
  "censprobe_config option \<Rightarrow> string option \<Rightarrow> config_error + bool" where
  "is_censoring_vantage CONFIG VANTAGE =
     (case VANTAGE of
        None \<Rightarrow> Inr False
      | Some v \<Rightarrow> bindE (get_config CONFIG) (\<lambda>c.
          Inr (v \<in> str_upper ` set (vc_censoring_countries (cc_vantage c)))))"

definition reset_vantage_country :: "string option \<Rightarrow> string option" where
  "reset_vantage_country VANTAGE = None"

section \<open>Endpoint metadata\<close>

datatype meta_error = NoSuchAttribute | FieldInvalid | IntOverflow

text \<open>\<open>block.get(key)\<close>: any JSON value but an object has no \<open>get\<close>.\<close>

fun block_get :: "json \<Rightarrow> string \<Rightarrow> meta_error + json" where
  "block_get (JObj d) k = Inr (jget d k)"
| "block_get _ k = Inl NoSuchAttribute"

text \<open>Pydantic's \<open>str | None\<close>.\<close>

fun opt_str :: "json \<Rightarrow> meta_error + string option" where
  "opt_str JNull = Inr None"
| "opt_str (JStr s) = Inr (Some s)"
| "opt_str _ = Inl FieldInvalid"

definition str_field :: "json \<Rightarrow> string \<Rightarrow> meta_error + string option" where
  "str_field block k = bindE (block_get block k) opt_str"

definition asn_info_of :: "json \<Rightarrow> json \<Rightarrow> meta_error + asn_info" where
  "asn_info_of block num =
     (case int_of_json num of
        Inl OverflowErr \<Rightarrow> Inl IntOverflow
      | Inl _ \<Rightarrow> Inl FieldInvalid
      | Inr n \<Rightarrow>
          bindE (str_field block ''descr'') (\<lambda>descr.
          bindE (str_field block ''org'') (\<lambda>org.
          bindE (str_field block ''domain'') (\<lambda>dom.
          bindE (str_field block ''route'') (\<lambda>route.
            Inr \<lparr>asn_asn = n, asn_descr = descr, asn_org = org, asn_domain = dom, asn_route = route\<rparr>)))))"

text \<open>The \<open>try\<close> around it: a type or value error leaves the block out.\<close>

definition asn_block_info :: "json \<Rightarrow> meta_error + asn_info option" where
  "asn_block_info block =
     bindE (block_get block ''asn'') (\<lambda>num.
       if num = JNull then Inr None
       else case asn_info_of block num of
              Inl FieldInvalid \<Rightarrow> Inr None
            | Inl e \<Rightarrow> Inl e
            | Inr a \<Rightarrow> Inr (Some a))"

definition org_of :: "json \<Rightarrow> json \<Rightarrow> meta_error + org_info" where
  "org_of nm block =
     bindE (opt_str nm) (\<lambda>n.
     bindE (str_field block ''domain'') (\<lambda>d.
     bindE (str_field block ''network'') (\<lambda>w.
       Inr \<lparr>org_name = n, org_domain = d, org_network = w\<rparr>)))"

definition company_info_of :: "json \<Rightarrow> meta_error + org_info option" where
  "company_info_of company =
     (if truthy company
      then bindE (block_get company ''name'') (\<lambda>nm. bindE (org_of nm company) (\<lambda>c. Inr (Some c)))
      else Inr None)"

definition datacenter_info_of :: "bool \<Rightarrow> json \<Rightarrow> meta_error + org_info option" where
  "datacenter_info_of is_datacenter datacenter =
     (if is_datacenter \<and> truthy datacenter
      then bindE (block_get datacenter ''datacenter'') (\<lambda>a.
           bindE (block_get datacenter ''name'') (\<lambda>b.
           bindE (org_of (jor a b) datacenter) (\<lambda>d. Inr (Some d))))
      else Inr None)"

definition location_info_of :: "json \<Rightarrow> meta_error + location_info option" where
  "location_info_of loc =
     (if truthy loc
      then bindE (str_field loc ''country_code'') (\<lambda>cc.
           bindE (str_field loc ''city'') (\<lambda>city.
             Inr (Some \<lparr>loc_country_code = cc, loc_city = city\<rparr>)))
      else Inr None)"

definition endpoint_from_ipapi :: "json \<Rightarrow> meta_error + endpoint_meta" where
  "endpoint_from_ipapi data =
     bindE (block_get data ''asn'') (\<lambda>asn.
     bindE (block_get data ''company'') (\<lambda>company.
     bindE (block_get data ''datacenter'') (\<lambda>datacenter.
     bindE (block_get data ''location'') (\<lambda>loc.
     bindE (asn_block_info (jor asn (JObj []))) (\<lambda>asn_info.
     bindE (company_info_of company) (\<lambda>company_info.
     bindE (block_get data ''is_datacenter'') (\<lambda>dcflag.
     bindE (datacenter_info_of (truthy dcflag) datacenter) (\<lambda>datacenter_info.
     bindE (location_info_of loc) (\<lambda>location_info.
     bindE (block_get data ''is_mobile'') (\<lambda>mobile.
       Inr \<lparr>em_is_mobile = truthy mobile, em_is_datacenter = truthy dcflag, em_asn = asn_info,
            em_company = company_info, em_datacenter = datacenter_info,
            em_location = location_info\<rparr>))))))))))"

text \<open>
  \<open>_enrich\<close>: the response is \<open>None\<close> when the request or the JSON decoding raised, and the
  status with the decoded body otherwise. The mapping is outside the \<open>try\<close>.
\<close>

definition enrich :: "(int \<times> json) option \<Rightarrow> meta_error + endpoint_meta option" where
  "enrich response =
     (case response of
        None \<Rightarrow> Inr None
      | Some (status, data) \<Rightarrow>
          if status \<noteq> 200 then Inr None
          else bindE (endpoint_from_ipapi data) (\<lambda>e. Inr (Some e)))"

section \<open>Exit address and distribution\<close>

definition trace_ip :: "string \<Rightarrow> string option" where
  "trace_ip body =
     (case first_that (\<lambda>l. starts_with l ''ip='') (splitlines body) of
        None \<Rightarrow> None
      | Some l \<Rightarrow> Some (str_strip (drop 3 l)))"

definition detect_exit_ip :: "(int \<times> string) option \<Rightarrow> (int \<times> string) option \<Rightarrow> string option" where
  "detect_exit_ip trace icanhazip =
     (let fallback = (case icanhazip of
          Some (status, body) \<Rightarrow> if status = 200 then Some (str_strip body) else None
        | None \<Rightarrow> None) in
      case trace of
        Some (status, body) \<Rightarrow>
          if status = 200 then (case trace_ip body of Some ip \<Rightarrow> Some ip | None \<Rightarrow> fallback)
          else fallback
      | None \<Rightarrow> fallback)"

definition strip_quotes :: "string \<Rightarrow> string" where
  "strip_quotes s = rev (dropWhile (\<lambda>c. c = CHR 0x22) (rev (dropWhile (\<lambda>c. c = CHR 0x22) s)))"

fun os_release :: "string list \<Rightarrow> (string, string) dict \<Rightarrow> (string, string) dict" where
  "os_release [] d = d"
| "os_release (line # ls) d =
     (if str_contains line ''=''
      then let (k, v) = str_partition ''='' line
           in os_release ls (dict_set (str_strip k) (strip_quotes (str_strip v)) d)
      else os_release ls d)"

definition detect_distro :: "string \<Rightarrow> string option \<Rightarrow> string" where
  "detect_distro platform_system file =
     (case file of
        None \<Rightarrow> platform_system
      | Some content \<Rightarrow>
          let data = os_release (splitlines content) [];
              pretty = dict_default data ''PRETTY_NAME'' [];
              name = (if pretty \<noteq> [] then pretty else dict_default data ''NAME'' ''Linux'');
              version = dict_default data ''VERSION_ID'' []
          in str_strip (name @ '' '' @ version))"

section \<open>Lemmas\<close>

lemma set_vantage_upper:
  "set_vantage_country C cc v = Inr (Some u) \<Longrightarrow> str_upper u = u"
  by (auto simp: set_vantage_country_def elim!: bindE_Inr_E split: option.splits if_splits)

definition text_block :: "json \<Rightarrow> string list \<Rightarrow> bool" where
  "text_block v ks \<longleftrightarrow> (case v of
       JNull \<Rightarrow> True
     | JObj d \<Rightarrow> list_all (\<lambda>k. is_ok (opt_str (jget d k))) ks
     | _ \<Rightarrow> False)"

text \<open>A response of the documented shape: absent or null blocks, text fields, a usable number.\<close>

definition documented_shape :: "(string, json) dict \<Rightarrow> bool" where
  "documented_shape d \<longleftrightarrow>
     text_block (jget d ''company'') [''name'', ''domain'', ''network'']
     \<and> text_block (jget d ''datacenter'') [''datacenter'', ''name'', ''domain'', ''network'']
     \<and> text_block (jget d ''location'') [''country_code'', ''city'']
     \<and> (case jget d ''asn'' of
          JNull \<Rightarrow> True
        | JObj a \<Rightarrow> int_of_json (jget a ''asn'') \<noteq> Inl OverflowErr
        | _ \<Rightarrow> False)"

lemma str_field_ok: "is_ok (opt_str (jget d k)) \<Longrightarrow> is_ok (str_field (JObj d) k)"
  by (simp add: str_field_def bindE_def)

lemma is_ok_bind: "is_ok (bindE m f) \<longleftrightarrow> (\<exists>a. m = Inr a \<and> is_ok (f a))"
  by (cases m) (simp_all add: bindE_def)

lemma org_of_ok:
  assumes "is_ok (opt_str v)" "is_ok (opt_str (jget d ''domain''))" "is_ok (opt_str (jget d ''network''))"
  shows "\<exists>c. org_of v (JObj d) = Inr c"
  using assms by (auto simp: org_of_def str_field_def bindE_def elim!: is_ok_E)

lemma company_info_ok:
  "text_block v [''name'', ''domain'', ''network''] \<Longrightarrow>
     \<exists>c. company_info_of v = Inr c \<and> (c \<noteq> None \<longleftrightarrow> truthy v)"
  using org_of_ok by (cases v) (fastforce simp: company_info_of_def text_block_def bindE_def)+

lemma datacenter_info_ok:
  "text_block v [''datacenter'', ''name'', ''domain'', ''network''] \<Longrightarrow>
     \<exists>c. datacenter_info_of b v = Inr c \<and> (c \<noteq> None \<longleftrightarrow> b \<and> truthy v)"
  using org_of_ok by (cases v) (fastforce simp: datacenter_info_of_def text_block_def bindE_def jor_def)+

lemma location_info_ok:
  "text_block v [''country_code'', ''city''] \<Longrightarrow>
     \<exists>c. location_info_of v = Inr c \<and> (c \<noteq> None \<longleftrightarrow> truthy v)"
  by (cases v) (auto simp: location_info_of_def text_block_def bindE_def str_field_def elim!: is_ok_E)

lemma str_field_error: "str_field (JObj a) k = Inl e \<Longrightarrow> e = FieldInvalid"
  by (cases "jget a k") (simp_all add: str_field_def bindE_def)

lemma bindE_Inl: "bindE m f = Inl e \<longleftrightarrow> m = Inl e \<or> (\<exists>a. m = Inr a \<and> f a = Inl e)"
  by (cases m) (simp_all add: bindE_def)

lemma asn_info_error:
  "int_of_json n \<noteq> Inl OverflowErr \<Longrightarrow> asn_info_of (JObj a) n = Inl e \<Longrightarrow> e = FieldInvalid"
  by (auto simp: asn_info_of_def bindE_Inl dest: str_field_error
      split: sum.splits coercion_error.splits)

lemma asn_block_ok:
  "int_of_json (jget a ''asn'') \<noteq> Inl OverflowErr \<Longrightarrow> is_ok (asn_block_info (JObj a))"
  by (auto simp: asn_block_info_def bindE_def dest: asn_info_error
      split: sum.splits meta_error.splits)

lemma asn_field_ok:
  assumes "documented_shape d"
  shows "\<exists>asn. asn_block_info (jor (jget d ''asn'') (JObj [])) = Inr asn"
proof -
  let ?a = "jget d ''asn''"
  have "\<exists>b. jor ?a (JObj []) = JObj b \<and> int_of_json (jget b ''asn'') \<noteq> Inl OverflowErr"
  proof (cases ?a)
    case JNull
    then show ?thesis by (intro exI [of _ "[]"]) (simp add: jor_def jget_def dict_default_def)
  next
    case (JObj b)
    then show ?thesis using assms by (intro exI [of _ b]) (simp add: documented_shape_def jor_def)
  qed (use assms in \<open>simp_all add: documented_shape_def\<close>)
  then obtain b where b: "jor ?a (JObj []) = JObj b" "int_of_json (jget b ''asn'') \<noteq> Inl OverflowErr"
    by blast
  show ?thesis using asn_block_ok [OF b(2)] b(1) by (auto elim: is_ok_E)
qed

text \<open>
  A lookup response of the documented shape always yields metadata, however thin: each
  nested block is present only if the response has it, the data-centre block only under its
  flag, and the two flags are the truth values sent.
\<close>

theorem enrich_documented:
  assumes "documented_shape d"
  shows "\<exists>e. enrich (Some (200, JObj d)) = Inr (Some e)
    \<and> em_is_mobile e = truthy (jget d ''is_mobile'')
    \<and> em_is_datacenter e = truthy (jget d ''is_datacenter'')
    \<and> (em_company e \<noteq> None \<longleftrightarrow> truthy (jget d ''company''))
    \<and> (em_location e \<noteq> None \<longleftrightarrow> truthy (jget d ''location''))
    \<and> (em_datacenter e \<noteq> None \<longleftrightarrow> truthy (jget d ''is_datacenter'') \<and> truthy (jget d ''datacenter''))"
proof -
  obtain asn where asn: "asn_block_info (jor (jget d ''asn'') (JObj [])) = Inr asn"
    using asn_field_ok [OF assms] by blast
  obtain c where c: "company_info_of (jget d ''company'') = Inr c"
    "c \<noteq> None \<longleftrightarrow> truthy (jget d ''company'')"
    using assms company_info_ok by (auto simp: documented_shape_def)
  obtain dc where dc: "datacenter_info_of (truthy (jget d ''is_datacenter'')) (jget d ''datacenter'') = Inr dc"
    "dc \<noteq> None \<longleftrightarrow> truthy (jget d ''is_datacenter'') \<and> truthy (jget d ''datacenter'')"
    using assms datacenter_info_ok unfolding documented_shape_def by blast
  obtain l where l: "location_info_of (jget d ''location'') = Inr l"
    "l \<noteq> None \<longleftrightarrow> truthy (jget d ''location'')"
    using assms location_info_ok by (auto simp: documented_shape_def)
  show ?thesis
    using asn c dc l by (simp add: enrich_def endpoint_from_ipapi_def bindE_def)
qed

theorem enrich_documented_witness:
  "\<exists>e. enrich (Some (200, JObj [(''is_mobile'', JBool True), (''asn'', JObj [(''asn'', JInt 47764)])])) = Inr (Some e)
     \<and> em_is_mobile e \<and> em_company e = None"
proof -
  have "documented_shape [(''is_mobile'', JBool True), (''asn'', JObj [(''asn'', JInt 47764)])]"
    by code_simp
  from enrich_documented [OF this] show ?thesis by (auto simp: jget_def dict_default_def dict_get_def)
qed

text \<open>A body that is valid JSON but no object is not covered by the handler of \<open>_enrich\<close>.\<close>

lemma enrich_non_object_escapes: "enrich (Some (200, JList xs)) = Inl NoSuchAttribute"
  by (simp add: enrich_def endpoint_from_ipapi_def bindE_def)

text \<open>
  The validator lets a country code with a final newline through, and the vantage then
  matches no configured country.
\<close>

lemma newline_override_accepted:
  "check_override_code (Some (''RU'' @ [CHR 0x0A])) = Inr (Some (''RU'' @ [CHR 0x0A]))"
  by code_simp

text \<open>
  The vantage gate: after a country is recorded, the censoring-vantage heuristics are on
  exactly when the override, or without one the detected country, is in the configured list,
  compared without case; a recorded override makes the detected country irrelevant.
\<close>

theorem vantage_gate:
  assumes "set_vantage_country (Some c) cc old = Inr v"
  shows "is_censoring_vantage (Some c) v = Inr
    (case (if vc_override (cc_vantage c) \<in> {None, Some []} then cc else vc_override (cc_vantage c)) of
       None \<Rightarrow> False
     | Some s \<Rightarrow> s \<noteq> [] \<and> str_upper s \<in> str_upper ` set (vc_censoring_countries (cc_vantage c)))"
  using assms
  by (auto simp: set_vantage_country_def is_censoring_vantage_def get_config_def bindE_def
      split: option.splits if_splits)

definition example_vantage :: "string option \<Rightarrow> censprobe_config \<Rightarrow> censprobe_config" where
  "example_vantage ov c =
     c\<lparr>cc_vantage := \<lparr>vc_censoring_countries = [''RU'', ''BY''], vc_override = ov\<rparr>\<rparr>"

theorem vantage_gate_witness:
  "\<forall>c. \<exists>v. set_vantage_country (Some (example_vantage None c)) (Some ''by'') None = Inr v
     \<and> is_censoring_vantage (Some (example_vantage None c)) v = Inr True"
proof
  fix c
  have s: "set_vantage_country (Some (example_vantage None c)) (Some ''by'') None = Inr (Some (str_upper ''by''))"
    by (simp add: set_vantage_country_def get_config_def bindE_def example_vantage_def)
  have "str_upper ''by'' = ''BY''" "str_upper ''BY'' = ''BY''" by code_simp+
  then show "\<exists>v. set_vantage_country (Some (example_vantage None c)) (Some ''by'') None = Inr v
     \<and> is_censoring_vantage (Some (example_vantage None c)) v = Inr True"
    using vantage_gate [OF s] s by (auto simp: example_vantage_def)
qed

lemma newline_override_disables:
  "\<exists>v. set_vantage_country (Some (example_vantage (Some (''RU'' @ [CHR 0x0A])) c)) (Some ''RU'') None = Inr v
     \<and> is_censoring_vantage (Some (example_vantage (Some (''RU'' @ [CHR 0x0A])) c)) v = Inr False"
proof -
  have "str_upper (''RU'' @ [CHR 0x0A]) = ''RU'' @ [CHR 0x0A]" "str_upper ''RU'' = ''RU''" "str_upper ''BY'' = ''BY''"
    by code_simp+
  then show ?thesis
    by (simp add: set_vantage_country_def is_censoring_vantage_def get_config_def bindE_def
        example_vantage_def)
qed

end
