(* ===== verification/PyText.thy ===== *)
theory PyText
  imports PyJson
begin

text \<open>
  Facts about the text the programs exchange: a printed integer is read back by \<open>int\<close>,
  joined lines are split again by \<open>splitlines\<close>, padded columns by \<open>split\<close>. They carry the
  parsers of tool output and of HTTP messages.
\<close>

section \<open>Printed integers\<close>

lemma of_char_digit: "(d :: nat) < 10 \<Longrightarrow> (of_char (char_of (48 + d) :: char) :: nat) = 48 + d"
  by (simp add: of_char_of)

lemma digit_char_of: "(d :: nat) < 10 \<Longrightarrow> is_digit (char_of (48 + d))"
  by (simp add: is_digit_def of_char_of)

lemma digit_val_of: "(d :: nat) < 10 \<Longrightarrow> digit_val (char_of (48 + d)) = d"
  by (simp add: digit_val_def of_char_of)

lemma nat_digits_all: "list_all is_digit (nat_digits n)"
  by (induction n rule: nat_digits.induct) (subst nat_digits.simps, simp add: digit_char_of)

lemma nat_digits_nonempty [simp]: "nat_digits n \<noteq> []"
  by (subst nat_digits.simps) simp

lemma digits_val_append: "digits_val (xs @ [c]) = 10 * digits_val xs + digit_val c"
  by (simp add: digits_val_def)

lemma digits_val_nat_digits: "digits_val (nat_digits n) = n"
proof (induction n rule: nat_digits.induct)
  case (1 n)
  show ?case
  proof (cases "n < 10")
    case True
    then show ?thesis by (subst nat_digits.simps) (simp add: digits_val_def digit_val_of)
  next
    case False
    then show ?thesis using 1
      by (subst nat_digits.simps) (simp add: digits_val_append digit_val_of)
  qed
qed

lemma length_nat_digits: "n < 10 ^ k \<Longrightarrow> length (nat_digits n) \<le> max 1 k"
proof (induction n arbitrary: k rule: nat_digits.induct)
  case (1 n)
  show ?case
  proof (cases "n < 10")
    case True
    then show ?thesis by (subst nat_digits.simps) simp
  next
    case False
    then have "k \<noteq> 0" "k \<noteq> 1" using 1(2) by (cases "k = 0"; cases "k = 1"; simp)+
    then obtain j where k: "k = Suc (Suc j)" by (metis One_nat_def not0_implies_Suc)
    have "n div 10 < 10 ^ Suc j" using 1(2) k by (simp add: less_mult_imp_div_less mult.commute)
    then have "length (nat_digits (n div 10)) \<le> Suc j" using 1(1) [OF False] by fastforce
    then show ?thesis using False k by (subst nat_digits.simps) simp
  qed
qed

lemma more_digits_all: "list_all is_digit ds \<Longrightarrow> more_digits ds = (ds, [])"
  by (induction ds rule: more_digits.induct) auto

lemma is_digit_not_space: "is_digit c \<Longrightarrow> \<not> is_space c"
  by (auto simp: is_space_def is_digit_def)

lemma str_strip_id: "s \<noteq> [] \<Longrightarrow> \<not> is_space (hd s) \<Longrightarrow> \<not> is_space (last s) \<Longrightarrow> str_strip s = s"
  using dropWhile_eq_self_iff [of is_space s] dropWhile_eq_self_iff [of is_space "rev s"]
  by (simp add: str_strip_def hd_rev)

lemma nat_digits_ends: "\<not> is_space (hd (nat_digits n))" "\<not> is_space (last (nat_digits n))"
  "is_digit (hd (nat_digits n))"
  using nat_digits_all [of n] nat_digits_nonempty [of n] is_digit_not_space
  by (metis hd_in_set last_in_set list_all_iff)+

lemma digit_not_sign: "is_digit c \<Longrightarrow> c \<noteq> CHR ''-'' \<and> c \<noteq> CHR ''+''"
  by (auto simp: is_digit_def)

lemma strip_sign_digits: "strip_sign (nat_digits n) = (False, nat_digits n)"
  using nat_digits_ends(3) [of n] digit_not_sign by (cases "nat_digits n") auto

lemma digitpart_digits: "digitpart (nat_digits n) = Some (nat_digits n, [])"
  using nat_digits_ends(3) [of n] nat_digits_all [of n]
  by (cases "nat_digits n") (simp_all add: digitpart_def more_digits_all)

definition printable :: "int \<Rightarrow> bool" where
  "printable i \<longleftrightarrow> length (nat_digits (nat \<bar>i\<bar>)) \<le> 4300"

lemma printableI: "nat \<bar>i\<bar> < 10 ^ k \<Longrightarrow> k \<le> 4300 \<Longrightarrow> printable i"
  using length_nat_digits [of "nat \<bar>i\<bar>" k] by (simp add: printable_def)

theorem int_of_str_of_int: "printable i \<Longrightarrow> int_of_str (str_of_int i) = Some i"
proof -
  assume p: "printable i"
  show ?thesis
  proof (cases "i < 0")
    case True
    have "str_strip (CHR ''-'' # nat_digits (nat (- i))) = CHR ''-'' # nat_digits (nat (- i))"
      using nat_digits_ends(2) by (intro str_strip_id) (simp_all add: is_space_def)
    then show ?thesis using True p
      by (simp add: int_of_str_def str_of_int_def digitpart_digits digits_val_nat_digits printable_def)
  next
    case False
    have "str_strip (nat_digits (nat i)) = nat_digits (nat i)"
      using nat_digits_ends by (intro str_strip_id) simp_all
    then show ?thesis using False p
      by (simp add: int_of_str_def str_of_int_def strip_sign_digits digitpart_digits
          digits_val_nat_digits printable_def)
  qed
qed

lemma str_of_int_no_space: "c \<in> set (str_of_int i) \<Longrightarrow> is_digit c \<or> c = CHR ''-''"
  using nat_digits_all by (auto simp: str_of_int_def list_all_iff split: if_splits)

lemma str_of_int_nonempty [simp]: "str_of_int i \<noteq> []"
  by (simp add: str_of_int_def)

section \<open>Lines\<close>

definition line_text :: "string \<Rightarrow> bool" where
  "line_text l \<longleftrightarrow> (\<forall>c \<in> set l. \<not> is_line_break c)"

definition join_lines :: "string list \<Rightarrow> string" where
  "join_lines ls = concat (map (\<lambda>l. l @ [CHR 0x0A]) ls)"

lemma splitlines_aux_line:
  "line_text l \<Longrightarrow> splitlines_aux acc (l @ CHR 0x0A # s) = (rev acc @ l) # splitlines_aux [] s"
proof (induction l arbitrary: acc)
  case Nil
  then show ?case by (simp add: is_line_break_def)
next
  case (Cons c l)
  then have "c \<noteq> CHR 0x0D" "\<not> is_line_break c" "line_text l"
    by (auto simp: line_text_def is_line_break_def)
  then show ?case using Cons.IH by simp
qed

lemma splitlines_join: "list_all line_text ls \<Longrightarrow> splitlines (join_lines ls) = ls"
proof (induction ls)
  case Nil
  then show ?case by (simp add: splitlines_def join_lines_def)
next
  case (Cons l ls)
  then show ?case
    using splitlines_aux_line [of l "[]" "join_lines ls"] by (simp add: splitlines_def join_lines_def)
qed

lemma line_text_simps [simp]:
  "line_text []" "line_text (c # s) \<longleftrightarrow> \<not> is_line_break c \<and> line_text s"
  "line_text (s @ t) \<longleftrightarrow> line_text s \<and> line_text t"
  by (auto simp: line_text_def)

lemma line_text_replicate [simp]: "line_text (replicate n c) \<longleftrightarrow> n = 0 \<or> \<not> is_line_break c"
  by (auto simp: line_text_def)

lemma line_text_str_of_int [simp]: "line_text (str_of_int i)"
  using str_of_int_no_space by (fastforce simp: line_text_def is_line_break_def is_digit_def)

definition crlf :: string where "crlf = [CHR 0x0D, CHR 0x0A]"

lemma crlf_facts: "crlf \<noteq> []" "length crlf = 2" by (simp_all add: crlf_def)

text \<open>The first occurrence of a separator whose first character the prefix does not have.\<close>

lemma partition_aux_first:
  assumes "sep = d # ds" "d \<notin> set a"
  shows "partition_aux sep acc (a @ sep @ b) = Some (rev acc @ a, b)"
  using assms(2)
proof (induction a arbitrary: acc)
  case Nil
  then show ?case by (simp add: assms(1) starts_with_def)
next
  case (Cons c a)
  then have "c \<noteq> d" by auto
  then show ?case using Cons by (simp add: assms(1) starts_with_def)
qed

lemma partition_first: "d \<notin> set a \<Longrightarrow> str_partition (d # ds) (a @ (d # ds) @ b) = (a, b)"
  using partition_aux_first [of "d # ds" d ds a "[]" b] by (simp add: str_partition_def)

lemma partition_crlf: "CHR 0x0D \<notin> set a \<Longrightarrow> str_partition crlf (a @ crlf @ b) = (a, b)"
  unfolding crlf_def by (rule partition_first)

lemma split_on_aux_word: "d \<notin> set w \<Longrightarrow> split_on_aux d acc (w @ d # s) = (rev acc @ w) # split_on_aux d [] s"
  by (induction w arbitrary: acc) auto

lemma split_on_word: "d \<notin> set w \<Longrightarrow> split_on d (w @ d # s) = w # split_on d s"
  using split_on_aux_word [of d w "[]" s] by (simp add: split_on_def)

lemma split_on_last: "d \<notin> set w \<Longrightarrow> split_on d w = [w]"
proof -
  assume "d \<notin> set w"
  then have "split_on_aux d acc w = [rev acc @ w]" for acc
    by (induction w arbitrary: acc) auto
  then show ?thesis by (simp add: split_on_def)
qed

section \<open>Columns\<close>

definition word_text :: "string \<Rightarrow> bool" where
  "word_text w \<longleftrightarrow> w \<noteq> [] \<and> (\<forall>c \<in> set w. \<not> is_space c)"

lemma split_ws_blank: "split_ws (replicate n (CHR '' '') @ s) = split_ws s"
  by (induction n) (simp_all add: split_ws_def is_space_def)

lemma split_ws_aux_word:
  "(\<forall>c \<in> set w. \<not> is_space c) \<Longrightarrow> rev acc @ w \<noteq> [] \<Longrightarrow>
     split_ws_aux acc (w @ CHR '' '' # s) = (rev acc @ w) # split_ws_aux [] s"
proof (induction w arbitrary: acc)
  case Nil
  then show ?case by (simp add: is_space_def)
next
  case (Cons c w)
  then show ?case using Cons.IH [of "c # acc"] by simp
qed

lemma split_ws_word: "word_text w \<Longrightarrow> split_ws (w @ CHR '' '' # s) = w # split_ws s"
  using split_ws_aux_word [of w "[]" s] by (simp add: split_ws_def word_text_def)

lemma word_text_str_of_int [simp]: "word_text (str_of_int i)"
  using str_of_int_no_space by (fastforce simp: word_text_def is_space_def is_digit_def)

lemma split_ws_last: "word_text w \<Longrightarrow> split_ws w = [w]"
proof -
  assume w: "word_text w"
  have "(\<forall>c \<in> set s. \<not> is_space c) \<Longrightarrow> rev acc @ s \<noteq> [] \<Longrightarrow> split_ws_aux acc s = [rev acc @ s]" for acc s
    by (induction s arbitrary: acc) auto
  from this [of w "[]"] w show ?thesis by (simp add: split_ws_def word_text_def)
qed

lemma split_ws_words: "w \<in> set (split_ws s) \<Longrightarrow> word_text w"
proof -
  have "(\<forall>c \<in> set acc. \<not> is_space c) \<Longrightarrow> w \<in> set (split_ws_aux acc s) \<Longrightarrow> word_text w" for acc
  proof (induction acc s rule: split_ws_aux.induct)
    case (1 acc)
    then show ?case by (auto simp: word_text_def split: if_splits)
  next
    case (2 acc c s)
    show ?case
    proof (cases "is_space c")
      case True
      then show ?thesis using 2 by (auto simp: word_text_def split: if_splits)
    next
      case False
      then show ?thesis using 2 by simp
    qed
  qed
  from this [of "[]"] show "w \<in> set (split_ws s) \<Longrightarrow> word_text w" by (simp add: split_ws_def)
qed

lemma splitlines_lines: "l \<in> set (splitlines s) \<Longrightarrow> line_text l"
proof -
  have "line_text acc \<Longrightarrow> l \<in> set (splitlines_aux acc s) \<Longrightarrow> line_text l" for acc
  proof (induction acc s rule: splitlines_aux.induct)
    case (1 acc)
    then show ?case by (auto simp: line_text_def split: if_splits)
  next
    case (2 acc c s)
    consider "c = CHR 0x0D \<and> s \<noteq> [] \<and> hd s = CHR 0x0A" | "\<not> (c = CHR 0x0D \<and> s \<noteq> [] \<and> hd s = CHR 0x0A)" "is_line_break c"
      | "\<not> (c = CHR 0x0D \<and> s \<noteq> [] \<and> hd s = CHR 0x0A)" "\<not> is_line_break c" by blast
    then show ?case
    proof cases
      case 1
      then show ?thesis using 2(1) 2(4,5) by (auto simp: line_text_def)
    next
      case 2
      then show ?thesis using \<open>\<lbrakk>\<not> (c = CHR 0x0D \<and> s \<noteq> [] \<and> hd s = CHR 0x0A); is_line_break c; line_text []; l \<in> set (splitlines_aux [] s)\<rbrakk> \<Longrightarrow> line_text l\<close>
        \<open>line_text acc\<close> \<open>l \<in> set (splitlines_aux acc (c # s))\<close> by (auto simp: line_text_def)
    next
      case 3
      then show ?thesis using 2(3) 2(4,5) by auto
    qed
  qed
  from this [of "[]"] show "l \<in> set (splitlines s) \<Longrightarrow> line_text l" by (simp add: splitlines_def)
qed

lemma more_digits_length: "more_digits s = (ds, r) \<Longrightarrow> list_all is_digit ds"
  by (induction s arbitrary: ds r rule: more_digits.induct) (auto split: if_splits prod.splits)

lemma digits_val_bound: "list_all is_digit ds \<Longrightarrow> digits_val ds < 10 ^ length ds"
proof (induction ds rule: rev_induct)
  case (snoc c ds)
  then have "digit_val c < 10" "digits_val ds < 10 ^ length ds" by (auto simp: is_digit_def digit_val_def)
  then have "10 * digits_val ds + digit_val c < 10 * 10 ^ length ds" by linarith
  then show ?case by (simp add: digits_val_append)
qed (simp add: digits_val_def)

lemma int_of_str_printable: "int_of_str s = Some i \<Longrightarrow> printable i"
proof -
  assume "int_of_str s = Some i"
  then obtain neg r ds where "strip_sign (str_strip s) = (neg, r)" "digitpart r = Some (ds, [])"
    "length ds \<le> 4300" "i = (if neg then - int (digits_val ds) else int (digits_val ds))"
    by (auto simp: int_of_str_def Let_def split: prod.splits option.splits if_splits)
  moreover then have "list_all is_digit ds"
    using more_digits_length by (auto simp: digitpart_def split: list.splits if_splits)
  ultimately have "nat \<bar>i\<bar> < 10 ^ length ds" "length ds \<le> 4300" using digits_val_bound by simp_all
  then show ?thesis by (rule printableI)
qed

lemma dedup_by_id: "distinct (map f xs) \<Longrightarrow> f ` set xs \<inter> set seen = {} \<Longrightarrow> dedup_by f seen xs = xs"
  by (induction xs arbitrary: seen) auto

text \<open>A blank line ends the first block of lines that have no carriage return of their own.\<close>

lemma partition_aux_skip:
  "d \<notin> set a \<Longrightarrow> partition_aux (d # ds) acc (a @ s) = partition_aux (d # ds) (rev a @ acc) s"
  by (induction a arbitrary: acc) (auto simp: starts_with_prefix)

lemma partition_aux_blank_line:
  assumes "CHR 0x0D \<notin> set l" "list_all (\<lambda>h. h \<noteq> [] \<and> CHR 0x0D \<notin> set h) hs"
  shows "partition_aux (crlf @ crlf) acc (l @ concat (map (\<lambda>h. crlf @ h) hs) @ crlf @ crlf @ b) =
    Some (rev acc @ l @ concat (map (\<lambda>h. crlf @ h) hs), b)"
  using assms
proof (induction hs arbitrary: l acc)
  case Nil
  then show ?case using partition_aux_first [of "crlf @ crlf" "CHR 0x0D" _ l acc b] by (simp add: crlf_def)
next
  case (Cons h hs)
  then obtain c h' where h: "h = c # h'" "c \<noteq> CHR 0x0D" by (cases h) auto
  have "partition_aux (crlf @ crlf) acc (l @ crlf @ h @ s) = partition_aux (crlf @ crlf) (rev (l @ crlf) @ acc) (h @ s)" for s
    using Cons.prems(1) h by (simp add: crlf_def partition_aux_skip starts_with_prefix)
  then show ?case using Cons.IH [of h "rev (l @ crlf) @ acc"] Cons.prems(2) by simp
qed

lemma partition_blank_line:
  assumes "CHR 0x0D \<notin> set l" "list_all (\<lambda>h. h \<noteq> [] \<and> CHR 0x0D \<notin> set h) hs"
  shows "str_partition (crlf @ crlf) (l @ concat (map (\<lambda>h. crlf @ h) hs) @ crlf @ crlf @ b) =
    (l @ concat (map (\<lambda>h. crlf @ h) hs), b)"
  using partition_aux_blank_line [OF assms, of "[]" b] by (simp add: str_partition_def)

lemma partition_crlf_absent: "CHR 0x0D \<notin> set l \<Longrightarrow> fst (str_partition crlf l) = l"
  using partition_aux_skip [of "CHR 0x0D" l "[CHR 0x0A]" "[]" "[]"] by (simp add: str_partition_def crlf_def)

lemma partition_first_line:
  "CHR 0x0D \<notin> set l \<Longrightarrow> fst (str_partition crlf (l @ concat (map (\<lambda>h. crlf @ h) hs))) = l"
  by (cases hs) (simp_all add: partition_crlf partition_crlf_absent)

end
