(* ===== verification/Iptables.thy ===== *)
theory Iptables
  imports PyText
begin

text \<open>
  \<open>censprobe_listener/_iptables_counter.py\<close>: the accounting rules the responders install
  on both address families, and the scraping of their packet and byte counters. The tool is
  an argument: \<open>fw_run argv\<close> is the exit code and the decoded output of a command, or
  \<open>None\<close> when it times out or cannot be run.
\<close>

record firewall =
  fw_which :: "string \<Rightarrow> bool"
  fw_run :: "string list \<Rightarrow> (int \<times> string) option"

definition IPTABLES_FAMILIES :: "string list" where
  "IPTABLES_FAMILIES = [''iptables'', ''ip6tables'']"

section \<open>Installing and removing\<close>

definition iptables_check :: "firewall \<Rightarrow> string \<Rightarrow> string \<Rightarrow> string list \<Rightarrow> bool" where
  "iptables_check fw cmd chain rule_args =
     (case fw_run fw ([cmd, ''-C'', chain] @ rule_args) of
        None \<Rightarrow> False
      | Some (rc, _) \<Rightarrow> rc = 0)"

definition iptables_add :: "firewall \<Rightarrow> string \<Rightarrow> string \<Rightarrow> string list \<Rightarrow> bool" where
  "iptables_add fw cmd chain rule_args =
     (case fw_run fw ([cmd, ''-A'', chain] @ rule_args) of
        None \<Rightarrow> False
      | Some (rc, _) \<Rightarrow> rc = 0)"

text \<open>\<open>InstallStatus\<close> is the list of families that carry the rule, in the order tried.\<close>

type_synonym install_status = "string list"

fun install_on :: "firewall \<Rightarrow> string \<Rightarrow> string list \<Rightarrow> string list \<Rightarrow> install_status" where
  "install_on fw chain rule_args [] = []"
| "install_on fw chain rule_args (cmd # cmds) =
     (if \<not> fw_which fw cmd then install_on fw chain rule_args cmds
      else if iptables_check fw cmd chain rule_args \<or> iptables_add fw cmd chain rule_args
      then cmd # install_on fw chain rule_args cmds
      else install_on fw chain rule_args cmds)"

definition install_counter :: "firewall \<Rightarrow> string \<Rightarrow> string list \<Rightarrow> install_status" where
  "install_counter fw chain rule_args = install_on fw chain rule_args IPTABLES_FAMILIES"

text \<open>The commands a removal runs; their outcomes are ignored.\<close>

definition remove_counter ::
    "firewall \<Rightarrow> string \<Rightarrow> string list \<Rightarrow> install_status option \<Rightarrow> string list list" where
  "remove_counter fw chain rule_args status =
     (let families = (case status of None \<Rightarrow> IPTABLES_FAMILIES | Some installed \<Rightarrow> installed) in
      map (\<lambda>cmd. [cmd, ''-D'', chain] @ rule_args) (filter (fw_which fw) families))"

section \<open>Reading\<close>

definition iptables_list :: "firewall \<Rightarrow> string \<Rightarrow> string \<Rightarrow> string" where
  "iptables_list fw cmd chain =
     (case fw_run fw [cmd, ''-L'', chain, ''-v'', ''-n'', ''-x''] of
        None \<Rightarrow> []
      | Some (_, out) \<Rightarrow> out)"

fun sum_column :: "string list \<Rightarrow> string \<Rightarrow> nat \<Rightarrow> int \<Rightarrow> int" where
  "sum_column [] comment column acc = acc"
| "sum_column (l # ls) comment column acc =
     (if \<not> str_contains l comment then sum_column ls comment column acc
      else let parts = split_ws l in
        if length parts \<le> column then sum_column ls comment column acc
        else case int_of_str (parts ! column) of
            None \<Rightarrow> sum_column ls comment column acc
          | Some n \<Rightarrow> sum_column ls comment column (acc + n))"

definition sum_column_for_comment :: "string \<Rightarrow> string \<Rightarrow> nat \<Rightarrow> int" where
  "sum_column_for_comment out comment column = sum_column (splitlines out) comment column 0"

fun scrape_families :: "firewall \<Rightarrow> string \<Rightarrow> string \<Rightarrow> nat \<Rightarrow> string list \<Rightarrow> int \<Rightarrow> int" where
  "scrape_families fw chain comment column [] acc = acc"
| "scrape_families fw chain comment column (cmd # cmds) acc =
     (if \<not> fw_which fw cmd then scrape_families fw chain comment column cmds acc
      else scrape_families fw chain comment column cmds
        (acc + sum_column_for_comment (iptables_list fw cmd chain) comment column))"

definition scrape_counter_column :: "firewall \<Rightarrow> string \<Rightarrow> string \<Rightarrow> nat \<Rightarrow> int" where
  "scrape_counter_column fw chain comment column =
     scrape_families fw chain comment column IPTABLES_FAMILIES 0"

definition read_counter :: "firewall \<Rightarrow> string \<Rightarrow> string \<Rightarrow> int" where
  "read_counter fw chain comment = scrape_counter_column fw chain comment 0"

definition read_counter_bytes :: "firewall \<Rightarrow> string \<Rightarrow> string \<Rightarrow> int" where
  "read_counter_bytes fw chain comment = scrape_counter_column fw chain comment 1"

text \<open>The synchronous twin has a loop of its own: a family whose command fails is skipped.\<close>

fun sync_families :: "firewall \<Rightarrow> string \<Rightarrow> string \<Rightarrow> nat \<Rightarrow> string list \<Rightarrow> int \<Rightarrow> int" where
  "sync_families fw chain comment column [] acc = acc"
| "sync_families fw chain comment column (cmd # cmds) acc =
     (if \<not> fw_which fw cmd then sync_families fw chain comment column cmds acc
      else case fw_run fw [cmd, ''-L'', chain, ''-v'', ''-n'', ''-x''] of
          None \<Rightarrow> sync_families fw chain comment column cmds acc
        | Some (_, out) \<Rightarrow>
            sync_families fw chain comment column cmds (sum_column (splitlines out) comment column acc))"

definition read_counter_sync :: "firewall \<Rightarrow> string \<Rightarrow> string \<Rightarrow> nat \<Rightarrow> int" where
  "read_counter_sync fw chain comment column =
     sync_families fw chain comment column IPTABLES_FAMILIES 0"

section \<open>Lemmas\<close>

lemma sum_column_total: "sum_column ls c k t = t + sum_column ls c k 0"
proof (induction ls arbitrary: t)
  case (Cons l ls)
  show ?case
  proof (cases "\<not> str_contains l c \<or> length (split_ws l) \<le> k \<or> int_of_str (split_ws l ! k) = None")
    case True
    then show ?thesis using Cons.IH [of t] by (auto simp: Let_def)
  next
    case False
    then obtain n where "int_of_str (split_ws l ! k) = Some n" by auto
    then show ?thesis using False Cons.IH [of "t + n"] Cons.IH [of n] by (simp add: Let_def)
  qed
qed simp

lemma sum_column_split: "sum_column (splitlines out) c k t = t + sum_column_for_comment out c k"
  using sum_column_total [of "splitlines out" c k t] by (simp add: sum_column_for_comment_def)

lemma sum_column_empty [simp]: "sum_column_for_comment [] c k = 0"
  by (simp add: sum_column_for_comment_def splitlines_def)

lemma sync_families_eq: "sync_families fw ch c k cmds t = scrape_families fw ch c k cmds t"
  by (induction cmds arbitrary: t)
    (simp_all add: iptables_list_def sum_column_split split: option.splits prod.splits)

lemma read_counter_sync_eq: "read_counter_sync fw ch c k = scrape_counter_column fw ch c k"
  by (simp add: read_counter_sync_def scrape_counter_column_def sync_families_eq)

lemma install_on_families: "set (install_on fw ch args cmds) \<subseteq> {cmd \<in> set cmds. fw_which fw cmd}"
  by (induction cmds) auto

text \<open>
  A rule that is present everywhere is counted as installed without a second \<open>-A\<close>, and the
  removal touches exactly the families it was installed on.
\<close>

lemma install_reuses:
  assumes "\<forall>cmd \<in> set IPTABLES_FAMILIES. fw_which fw cmd \<longrightarrow> iptables_check fw cmd ch args"
  shows "install_counter fw ch args = filter (fw_which fw) IPTABLES_FAMILIES"
  using assms by (simp add: install_counter_def IPTABLES_FAMILIES_def)

lemma remove_what_was_installed:
  "remove_counter fw ch args (Some (install_counter fw ch args)) =
     map (\<lambda>cmd. [cmd, ''-D'', ch] @ args) (install_counter fw ch args)"
  using install_on_families [of fw ch args IPTABLES_FAMILIES]
  by (subst filter_True [symmetric]) (auto simp: remove_counter_def install_counter_def)

text \<open>
  A row of the listing the tool prints with \<open>-v -n -x\<close>: padded packet and byte counts, then
  the other columns with the comment among them.
\<close>

record counter_row =
  cr_pad :: nat
  cr_pkts :: int
  cr_gap :: nat
  cr_bytes :: int
  cr_rest :: string

definition row_line :: "counter_row \<Rightarrow> string" where
  "row_line r = replicate (cr_pad r) (CHR '' '') @ str_of_int (cr_pkts r) @ CHR '' '' #
     replicate (cr_gap r) (CHR '' '') @ str_of_int (cr_bytes r) @ CHR '' '' # cr_rest r"

definition row_ok :: "counter_row \<Rightarrow> bool" where
  "row_ok r \<longleftrightarrow> printable (cr_pkts r) \<and> printable (cr_bytes r) \<and> line_text (cr_rest r)"

lemma row_columns:
  "split_ws (row_line r) = str_of_int (cr_pkts r) # str_of_int (cr_bytes r) # split_ws (cr_rest r)"
  by (simp add: row_line_def split_ws_blank split_ws_word)

lemma row_line_text: "row_ok r \<Longrightarrow> line_text (row_line r)"
  by (simp add: row_ok_def row_line_def is_line_break_def)

definition row_cell :: "nat \<Rightarrow> counter_row \<Rightarrow> int" where
  "row_cell column r = (if column = 0 then cr_pkts r else cr_bytes r)"

lemma sum_column_rows:
  assumes "list_all row_ok rows" "column \<le> 1"
  shows "sum_column (map row_line rows) c column 0 =
    (\<Sum>r\<leftarrow>filter (\<lambda>r. str_contains (row_line r) c) rows. row_cell column r)"
  using assms(1)
proof (induction rows)
  case (Cons r rows)
  have "int_of_str (split_ws (row_line r) ! column) = Some (row_cell column r)"
    using Cons.prems assms(2)
    by (cases column) (simp_all add: row_columns row_cell_def row_ok_def int_of_str_of_int)
  then show ?case
    using Cons assms(2) sum_column_total [of "map row_line rows" c column "row_cell column r"]
    by (simp add: row_columns Let_def)
qed simp

lemma sum_column_headers:
  "\<forall>h \<in> set hs. \<not> str_contains h c \<Longrightarrow> sum_column (hs @ ls) c k t = sum_column ls c k t"
  by (induction hs) simp_all

lemma listing_sum:
  assumes "list_all line_text hs" "\<forall>h \<in> set hs. \<not> str_contains h c" "list_all row_ok rows" "k \<le> 1"
  shows "sum_column_for_comment (join_lines (hs @ map row_line rows)) c k =
    (\<Sum>r\<leftarrow>filter (\<lambda>r. str_contains (row_line r) c) rows. row_cell k r)"
proof -
  have "list_all line_text (hs @ map row_line rows)"
    using assms(1,3) row_line_text by (auto simp: list_all_iff)
  then show ?thesis
    using assms sum_column_rows [OF assms(3,4)]
    by (simp add: sum_column_for_comment_def splitlines_join sum_column_headers)
qed

section \<open>The counters\<close>

definition lists_as :: "firewall \<Rightarrow> string \<Rightarrow> string \<Rightarrow> string list \<Rightarrow> counter_row list \<Rightarrow> bool" where
  "lists_as fw cmd chain hs rows \<longleftrightarrow> fw_which fw cmd
     \<and> iptables_list fw cmd chain = join_lines (hs @ map row_line rows)
     \<and> list_all line_text hs \<and> list_all row_ok rows"

text \<open>
  The counters are read exactly: when each family lists its chain as header lines without
  the comment followed by rows of which only one carries the comment, the packet and the byte
  readers return the sum over the two families of the counts of that row, and the synchronous
  twin used by the HTTP thread returns the same, whatever the padding of the columns.
\<close>

theorem counters_read_exactly:
  assumes "lists_as fw ''iptables'' ch hs4 (pre4 @ r4 # post4)"
    and "lists_as fw ''ip6tables'' ch hs6 (pre6 @ r6 # post6)"
    and "\<forall>h \<in> set (hs4 @ hs6). \<not> str_contains h c"
    and "\<forall>r \<in> set (pre4 @ post4 @ pre6 @ post6). \<not> str_contains (row_line r) c"
    and "str_contains (row_line r4) c" "str_contains (row_line r6) c"
  shows "read_counter fw ch c = cr_pkts r4 + cr_pkts r6
    \<and> read_counter_bytes fw ch c = cr_bytes r4 + cr_bytes r6
    \<and> read_counter_sync fw ch c 0 = read_counter fw ch c
    \<and> read_counter_sync fw ch c 1 = read_counter_bytes fw ch c"
proof -
  have none: "filter (\<lambda>r. str_contains (row_line r) c) rs = []"
    if "\<forall>r \<in> set rs. \<not> str_contains (row_line r) c" for rs
    using that by (simp add: filter_empty_conv)
  have s4: "sum_column_for_comment (iptables_list fw ''iptables'' ch) c k = row_cell k r4" if "k \<le> 1" for k
    using listing_sum [of hs4 c "pre4 @ r4 # post4" k] that assms none [of pre4] none [of post4]
    by (simp add: lists_as_def)
  have s6: "sum_column_for_comment (iptables_list fw ''ip6tables'' ch) c k = row_cell k r6" if "k \<le> 1" for k
    using listing_sum [of hs6 c "pre6 @ r6 # post6" k] that assms none [of pre6] none [of post6]
    by (simp add: lists_as_def)
  have "fw_which fw ''iptables''" "fw_which fw ''ip6tables''"
    using assms(1,2) by (simp_all add: lists_as_def)
  then have "scrape_counter_column fw ch c k = row_cell k r4 + row_cell k r6" if "k \<le> 1" for k
    using s4 [OF that] s6 [OF that] by (simp add: scrape_counter_column_def IPTABLES_FAMILIES_def)
  from this [of 0] this [of 1] show ?thesis
    by (simp add: read_counter_def read_counter_bytes_def read_counter_sync_eq row_cell_def)
qed

definition demo_row :: "int \<Rightarrow> int \<Rightarrow> string \<Rightarrow> counter_row" where
  "demo_row p b comment = \<lparr>cr_pad = 4, cr_pkts = p, cr_gap = 3, cr_bytes = b,
     cr_rest = ''tcp  --  *  *  0.0.0.0/0  0.0.0.0/0  /* '' @ comment @ '' */''\<rparr>"

lemma row_contains_comment: "str_contains (row_line (demo_row p b c)) c"
proof -
  have "row_line (demo_row p b c) = (replicate 4 (CHR '' '') @ str_of_int p @ CHR '' '' #
      replicate 3 (CHR '' '') @ str_of_int b @ '' tcp  --  *  *  0.0.0.0/0  0.0.0.0/0  /* '') @ c @ '' */''"
    by (simp add: row_line_def demo_row_def)
  then show ?thesis by (simp only: str_contains_infix)
qed

definition demo_firewall :: "counter_row list \<Rightarrow> counter_row list \<Rightarrow> firewall" where
  "demo_firewall rows4 rows6 = \<lparr>fw_which = (\<lambda>cmd. True),
     fw_run = (\<lambda>argv. Some (0, join_lines (''Chain OUTPUT (policy ACCEPT)'' #
       map row_line (if hd argv = ''iptables'' then rows4 else rows6))))\<rparr>"

lemma demo_row_ok: "\<bar>p\<bar> < 1000 \<Longrightarrow> \<bar>b\<bar> < 1000 \<Longrightarrow> line_text c \<Longrightarrow> row_ok (demo_row p b c)"
  using printableI [of p 3] printableI [of b 3]
  by (simp add: row_ok_def demo_row_def is_line_break_def)

lemma demo_lists:
  assumes "list_all row_ok rows4" "list_all row_ok rows6"
  shows "lists_as (demo_firewall rows4 rows6) ''iptables'' ch [''Chain OUTPUT (policy ACCEPT)''] rows4"
    "lists_as (demo_firewall rows4 rows6) ''ip6tables'' ch [''Chain OUTPUT (policy ACCEPT)''] rows6"
  using assms by (simp_all add: lists_as_def demo_firewall_def iptables_list_def is_line_break_def)

theorem counters_read_exactly_witness:
  "let fw = demo_firewall [demo_row 7 900 ''censprobe-mtg-443'', demo_row 5 60 ''other''] [demo_row 2 80 ''censprobe-mtg-443''] in
   read_counter fw ''OUTPUT'' ''censprobe-mtg-443'' = 9 \<and> read_counter_bytes fw ''OUTPUT'' ''censprobe-mtg-443'' = 980"
proof -
  let ?c = "''censprobe-mtg-443''" and ?h = "[''Chain OUTPUT (policy ACCEPT)'']"
  let ?r4 = "demo_row 7 900 ?c" and ?o4 = "demo_row 5 60 ''other''" and ?r6 = "demo_row 2 80 ?c"
  have rows: "list_all row_ok ([] @ ?r4 # [?o4])" "list_all row_ok ([] @ ?r6 # [])"
    by (simp_all add: demo_row_ok is_line_break_def)
  have own: "str_contains (row_line ?r4) ?c" "str_contains (row_line ?r6) ?c"
    using row_contains_comment by simp_all
  have "\<not> str_contains (row_line ?o4) ?c" by code_simp
  moreover have "\<not> str_contains ''Chain OUTPUT (policy ACCEPT)'' ?c" by code_simp
  ultimately show ?thesis
    using counters_read_exactly [OF demo_lists(1) [OF rows] demo_lists(2) [OF rows], of ?c] own
    by (simp add: demo_row_def)
qed

text \<open>
  The match is by substring: with one mtg instance on port 443 and another on port 4430, the
  counter of the first also counts the packets of the second.
\<close>

lemma counter_overlap:
  "read_counter (demo_firewall [demo_row 7 900 ''censprobe-mtg-443'', demo_row 5 60 ''censprobe-mtg-4430''] [])
     ''OUTPUT'' ''censprobe-mtg-443'' = 12"
  by code_simp

end
