(* ===== verification/EchoServer.thy ===== *)
theory EchoServer
  imports PyText Registry Models
begin

text \<open>
  \<open>censprobe_listener/echo_server.py\<close>: the server that answers the clients' requests inside
  the tunnels, its sockets and counters, and the two ways it measures throughput. What the
  operating system decides is an argument: whether an address can be bound, what a connection
  delivers, how long a transfer takes, what the wire counter reads and when.
\<close>

section \<open>State\<close>

text \<open>
  An open socket is kept under its key with the address it listens on; a registered reader is
  the name of the counter it reads.
\<close>

record echo_server =
  es_ports :: "(string, int) dict"
  es_initial_bind_ports :: "(string, int) dict"
  es_servers :: "(string, string \<times> int) dict"
  es_connection_counts :: "(string, int) dict"
  es_bytes_counts :: "(string, int) dict"
  es_throughput_mbps :: "(string, rat option) dict"
  es_readers :: "(string, string) dict"

definition fromkeys :: "(string, int) dict \<Rightarrow> 'v \<Rightarrow> (string, 'v) dict" where
  "fromkeys d v = map (\<lambda>(k, _). (k, v)) d"

definition EchoServer_init :: "(string, int) dict option \<Rightarrow> echo_server" where
  "EchoServer_init ports =
     (let ps = (case ports of Some d \<Rightarrow> d | None \<Rightarrow> ECHO_PORTS) in
      \<lparr>es_ports = ps,
       es_initial_bind_ports = (case ports of None \<Rightarrow> SOCKS_ECHO_PORTS | Some d \<Rightarrow> ps),
       es_servers = [], es_connection_counts = fromkeys ps 0, es_bytes_counts = fromkeys ps 0,
       es_throughput_mbps = fromkeys ps None, es_readers = []\<rparr>)"

section \<open>Sockets\<close>

datatype bind_error = AddressUnavailable string int | NotVpnProtocol string

text \<open>
  \<open>can_bind\<close> is asked with the addresses this server already listens on, since the new
  socket is opened before the old one of the same key is closed.
\<close>

type_synonym bind_policy = "(string \<times> int) list \<Rightarrow> string \<Rightarrow> int \<Rightarrow> bool"

definition bind_one ::
    "bind_policy \<Rightarrow> string \<Rightarrow> string \<Rightarrow> int \<Rightarrow> string \<Rightarrow> echo_server \<Rightarrow> bind_error option \<times> echo_server" where
  "bind_one can_bind proto host port key es =
     (if \<not> can_bind (map snd (es_servers es)) host port then (Some (AddressUnavailable host port), es)
      else (None, es\<lparr>es_servers :=
        dict_set key (host, port)
          (if dict_has (es_servers es) key then dict_pop key (es_servers es) else es_servers es)\<rparr>))"

definition echo_stop :: "echo_server \<Rightarrow> echo_server" where
  "echo_stop es = es\<lparr>es_servers := []\<rparr>"

fun bind_initial :: "bind_policy \<Rightarrow> (string \<times> int) list \<Rightarrow> echo_server \<Rightarrow> bind_error option \<times> echo_server" where
  "bind_initial can_bind [] es = (None, es)"
| "bind_initial can_bind ((proto, port) # rest) es =
     (case bind_one can_bind proto ''127.0.0.1'' port proto es of
        (Some e, es') \<Rightarrow> (Some e, echo_stop es')
      | (None, es') \<Rightarrow> bind_initial can_bind rest es')"

definition echo_start :: "bind_policy \<Rightarrow> echo_server \<Rightarrow> bind_error option \<times> echo_server" where
  "echo_start can_bind es = bind_initial can_bind (es_initial_bind_ports es) es"

definition register_throughput_reader :: "string \<Rightarrow> string \<Rightarrow> echo_server \<Rightarrow> echo_server" where
  "register_throughput_reader proto reader es = es\<lparr>es_readers := dict_set proto reader (es_readers es)\<rparr>"

definition unregister_throughput_reader :: "string \<Rightarrow> echo_server \<Rightarrow> echo_server" where
  "unregister_throughput_reader proto es = es\<lparr>es_readers := dict_pop proto (es_readers es)\<rparr>"

definition tun_key :: "string \<Rightarrow> string \<Rightarrow> string" where
  "tun_key proto tun_ip = proto @ ''@'' @ tun_ip"

definition add_tun_bind :: "bind_policy \<Rightarrow> string \<Rightarrow> string \<Rightarrow> echo_server \<Rightarrow> bind_error option \<times> echo_server" where
  "add_tun_bind can_bind proto tun_ip es =
     (case dict_get TUN_ECHO_PORTS proto of
        None \<Rightarrow> (Some (NotVpnProtocol proto), es)
      | Some port \<Rightarrow> bind_one can_bind proto tun_ip port (tun_key proto tun_ip) es)"

definition remove_tun_bind :: "string \<Rightarrow> string \<Rightarrow> echo_server \<Rightarrow> echo_server" where
  "remove_tun_bind proto tun_ip es = es\<lparr>es_servers := dict_pop (tun_key proto tun_ip) (es_servers es)\<rparr>"

section \<open>Throughput\<close>

definition MAX_THROUGHPUT_BYTES :: int where "MAX_THROUGHPUT_BYTES = 16 * 1024 * 1024"
definition MIN_THROUGHPUT_DURATION_SEC :: rat where "MIN_THROUGHPUT_DURATION_SEC = fl (3 / 100)"
definition MAX_PLAUSIBLE_MBPS :: rat where "MAX_PLAUSIBLE_MBPS = 5000"
definition WIRE_THROUGHPUT_QUIESCE_MAX_SEC :: rat where "WIRE_THROUGHPUT_QUIESCE_MAX_SEC = 30"
definition WIRE_THROUGHPUT_QUIESCE_SAMPLES :: nat where "WIRE_THROUGHPUT_QUIESCE_SAMPLES = 3"

text \<open>\<open>int(b)\<close> on bytes: as on strings, but only ASCII white space is skipped.\<close>

definition int_of_bytes :: "string \<Rightarrow> int option" where
  "int_of_bytes s = (if set s \<inter> {CHR 0x1C, CHR 0x1D, CHR 0x1E, CHR 0x1F} = {} then int_of_str s else None)"

fun bytes_param :: "string list \<Rightarrow> int" where
  "bytes_param [] = 0"
| "bytes_param (pair # pairs) =
     (if starts_with pair ''bytes='' then
        (case int_of_bytes (drop 6 pair) of None \<Rightarrow> 0 | Some v \<Rightarrow> max 0 v)
      else bytes_param pairs)"

definition parse_throughput_n :: "string \<Rightarrow> int" where
  "parse_throughput_n request =
     (let parts = split_on (CHR '' '') (fst (str_partition crlf request)) in
      if length parts < 2 then 0
      else let path_qs = parts ! 1 in
        if CHR ''?'' \<notin> set path_qs then 0
        else bytes_param (split_on (CHR ''&'') (snd (str_partition ''?'' path_qs))))"

text \<open>
  One transfer as the environment lets it happen: the counter before it (\<open>None\<close> also when
  reading failed), whether writing was aborted, the clock at its start and end, and for the
  n-th poll the clock at the loop test, the counter (\<open>None\<close>: not available) and the clock
  after reading it.
\<close>

record transfer =
  tf_pre_read :: "int option"
  tf_aborted :: bool
  tf_t0 :: rat
  tf_end :: rat
  tf_clock :: "nat \<Rightarrow> rat"
  tf_reading :: "nat \<Rightarrow> int option"
  tf_after :: "nat \<Rightarrow> rat"

datatype polled = Polled int rat | CounterGone

text \<open>The polling loop, with fuel: \<open>None\<close> when it has not ended within it.\<close>

fun poll_loop ::
    "nat \<Rightarrow> transfer \<Rightarrow> rat \<Rightarrow> nat \<Rightarrow> int \<Rightarrow> nat \<Rightarrow> int \<Rightarrow> rat \<Rightarrow> polled option" where
  "poll_loop 0 tf deadline i prev no_growth last_total last_t = None"
| "poll_loop (Suc fuel) tf deadline i prev no_growth last_total last_t =
     (if \<not> tf_clock tf i < deadline then Some (Polled last_total last_t)
      else case tf_reading tf i of
          None \<Rightarrow> Some CounterGone
        | Some current \<Rightarrow>
            if current = prev then
              (if WIRE_THROUGHPUT_QUIESCE_SAMPLES \<le> Suc no_growth
               then Some (Polled current (tf_after tf i))
               else poll_loop fuel tf deadline (Suc i) prev (Suc no_growth) current (tf_after tf i))
            else poll_loop fuel tf deadline (Suc i) current 0 current (tf_after tf i))"

text \<open>The result: a measurement, none, or the exception of a number too large for a float.\<close>

datatype measurement = Measured "rat option" | NotMeasured | MeasureRaised

definition measure_throughput_via_counter :: "nat \<Rightarrow> transfer \<Rightarrow> int \<Rightarrow> measurement option" where
  "measure_throughput_via_counter fuel tf bytes_before =
     (case poll_loop fuel tf (fadd (tf_t0 tf) WIRE_THROUGHPUT_QUIESCE_MAX_SEC) 0
             bytes_before 0 bytes_before (tf_t0 tf) of
        None \<Rightarrow> None
      | Some CounterGone \<Rightarrow> Some NotMeasured
      | Some (Polled last_total last_t) \<Rightarrow>
          let delta_bytes = last_total - bytes_before; elapsed = fsub last_t (tf_t0 tf) in
          if delta_bytes \<le> 0 \<or> elapsed \<le> 0 then Some (Measured None)
          else (case float_of_int (delta_bytes * 8) of
              Inr (Fin bits) \<Rightarrow> Some (Measured (Some (fdiv (fdiv bits elapsed) 1000000)))
            | _ \<Rightarrow> Some MeasureRaised))"

definition set_throughput :: "string \<Rightarrow> rat option \<Rightarrow> echo_server \<Rightarrow> echo_server" where
  "set_throughput proto v es = es\<lparr>es_throughput_mbps := dict_set proto v (es_throughput_mbps es)\<rparr>"

definition record_wait_closed_throughput :: "string \<Rightarrow> int \<Rightarrow> rat \<Rightarrow> echo_server \<Rightarrow> echo_server" where
  "record_wait_closed_throughput proto n duration es =
     (if duration \<le> 0 then es
      else let mbps = fdiv (fdiv (of_int (n * 8)) duration) 1000000 in
        if duration < MIN_THROUGHPUT_DURATION_SEC \<or> MAX_PLAUSIBLE_MBPS < mbps
        then set_throughput proto None es
        else set_throughput proto (Some mbps) es)"

definition bad_request :: string where
  "bad_request = ''HTTP/1.1 400 Bad Request'' @ crlf @ ''Content-Length: 0'' @ crlf @ ''Connection: close'' @ crlf @ crlf"

definition throughput_response :: "int \<Rightarrow> string" where
  "throughput_response n = ''HTTP/1.1 200 OK'' @ crlf @ ''Content-Type: application/octet-stream'' @ crlf
     @ ''Content-Length: '' @ str_of_int n @ crlf @ ''Cache-Control: no-store'' @ crlf
     @ ''Connection: close'' @ crlf @ crlf @ replicate (nat n) (CHR 0x00)"

text \<open>The state afterwards and what was written, or \<open>None\<close> when the fuel ran out.\<close>

definition serve_throughput ::
    "nat \<Rightarrow> transfer \<Rightarrow> string \<Rightarrow> string \<Rightarrow> echo_server \<Rightarrow> (echo_server \<times> string) option" where
  "serve_throughput fuel tf proto request es =
     (let n0 = parse_throughput_n request in
      if n0 \<le> 0 then Some (es, bad_request)
      else
        let n = (if MAX_THROUGHPUT_BYTES < n0 then MAX_THROUGHPUT_BYTES else n0);
            bytes_before = (if dict_has (es_readers es) proto then tf_pre_read tf else None);
            response = throughput_response n;
            fall_back = record_wait_closed_throughput proto n (fsub (tf_end tf) (tf_t0 tf)) es
        in
        if tf_aborted tf then Some (es, response)
        else case bytes_before of
            None \<Rightarrow> Some (fall_back, response)
          | Some b \<Rightarrow>
              (case measure_throughput_via_counter fuel tf b of
                 None \<Rightarrow> None
               | Some (Measured mbps) \<Rightarrow> Some (set_throughput proto mbps es, response)
               | Some NotMeasured \<Rightarrow> Some (fall_back, response)
               | Some MeasureRaised \<Rightarrow> Some (es, response)))"

section \<open>Requests\<close>

definition count_connection :: "string \<Rightarrow> echo_server \<Rightarrow> echo_server" where
  "count_connection proto es = es\<lparr>es_connection_counts :=
     dict_set proto (dict_default (es_connection_counts es) proto 0 + 1) (es_connection_counts es)\<rparr>"

definition count_bytes :: "string \<Rightarrow> string \<Rightarrow> echo_server \<Rightarrow> echo_server" where
  "count_bytes proto data es = es\<lparr>es_bytes_counts :=
     dict_set proto (dict_default (es_bytes_counts es) proto 0 + int (length data)) (es_bytes_counts es)\<rparr>"

definition pong_response :: string where
  "pong_response = ''HTTP/1.1 200 OK'' @ crlf @ ''Content-Type: text/plain'' @ crlf
     @ ''Content-Length: 4'' @ crlf @ ''Connection: close'' @ crlf @ crlf @ ''pong''"

text \<open>\<open>data\<close> is what the first read delivered, \<open>None\<close> when it timed out or failed.\<close>

definition handle_connection ::
    "nat \<Rightarrow> transfer \<Rightarrow> string \<Rightarrow> string option \<Rightarrow> echo_server \<Rightarrow> (echo_server \<times> string) option" where
  "handle_connection fuel tf proto data es =
     (let es1 = count_connection proto es in
      case data of
        None \<Rightarrow> Some (es1, [])
      | Some d \<Rightarrow>
          let es2 = count_bytes proto d es1 in
          if starts_with d ''GET /throughput'' then serve_throughput fuel tf proto d es2
          else if starts_with d ''GET '' \<or> starts_with d ''POST '' then Some (es2, pong_response)
          else Some (es2, d))"

definition echo_snapshot :: "echo_server \<Rightarrow> (string, int \<times> int \<times> rat option) dict" where
  "echo_snapshot es = map (\<lambda>(proto, _).
     (proto, dict_default (es_connection_counts es) proto 0, dict_default (es_bytes_counts es) proto 0,
      dict_default (es_throughput_mbps es) proto None)) (es_ports es)"

definition data_ok :: "echo_server \<Rightarrow> string \<Rightarrow> int \<Rightarrow> bool" where
  "data_ok es proto min_bytes \<longleftrightarrow> min_bytes \<le> dict_default (es_bytes_counts es) proto 0"

definition MIN_BYTES :: int where "MIN_BYTES = 64"


section \<open>Runs\<close>

datatype echo_op =
    OpStart bind_policy
  | OpAddTun bind_policy string string
  | OpRemoveTun string string
  | OpRegister string string
  | OpUnregister string
  | OpConnection nat transfer string "string option"
  | OpStop

fun echo_step :: "echo_op \<Rightarrow> echo_server \<Rightarrow> echo_server option" where
  "echo_step (OpStart can_bind) es = Some (snd (echo_start can_bind es))"
| "echo_step (OpAddTun can_bind proto ip) es = Some (snd (add_tun_bind can_bind proto ip es))"
| "echo_step (OpRemoveTun proto ip) es = Some (remove_tun_bind proto ip es)"
| "echo_step (OpRegister proto reader) es = Some (register_throughput_reader proto reader es)"
| "echo_step (OpUnregister proto) es = Some (unregister_throughput_reader proto es)"
| "echo_step (OpConnection fuel tf proto data) es =
     map_option fst (handle_connection fuel tf proto data es)"
| "echo_step OpStop es = Some (echo_stop es)"

fun echo_run :: "echo_op list \<Rightarrow> echo_server \<Rightarrow> echo_server option" where
  "echo_run [] es = Some es"
| "echo_run (op # ops) es = (case echo_step op es of None \<Rightarrow> None | Some es' \<Rightarrow> echo_run ops es')"

lemma echo_run_snoc:
  "echo_run (ops @ [op]) es = (case echo_run ops es of None \<Rightarrow> None | Some es' \<Rightarrow> echo_step op es')"
  by (induction ops arbitrary: es) (auto split: option.splits)

text \<open>An invariant of the operations and of what was done so far holds after every run.\<close>

lemma echo_run_invariant:
  assumes "echo_run ops es0 = Some es" "I [] es0"
    and "\<And>done op es es'. I done es \<Longrightarrow> echo_step op es = Some es' \<Longrightarrow> I (done @ [op]) es'"
  shows "I ops es"
  using assms(1)
proof (induction ops arbitrary: es rule: rev_induct)
  case Nil
  then show ?case using assms(2) by simp
next
  case (snoc op ops)
  then obtain mid where "echo_run ops es0 = Some mid" "echo_step op mid = Some es"
    by (auto simp: echo_run_snoc split: option.splits)
  then show ?case using snoc.IH assms(3) by blast
qed

section \<open>Counters\<close>

text \<open>What a protocol has received: the number of connections and of bytes.\<close>

type_synonym traffic = "string \<Rightarrow> int \<times> int"

definition traffic_of :: "echo_server \<Rightarrow> traffic" where
  "traffic_of es p = (dict_default (es_connection_counts es) p 0, dict_default (es_bytes_counts es) p 0)"

fun received :: "echo_op \<Rightarrow> traffic \<Rightarrow> traffic" where
  "received (OpConnection fuel tf proto data) t =
     t(proto := (fst (t proto) + 1, snd (t proto) + (case data of None \<Rightarrow> 0 | Some d \<Rightarrow> int (length d))))"
| "received _ t = t"

lemma dict_default_set [simp]:
  "dict_default (dict_set k v d) j w = (if j = k then v else dict_default d j w)"
  by (simp add: dict_default_def)

lemma set_throughput_frame [simp]:
  "es_connection_counts (set_throughput p v es) = es_connection_counts es"
  "es_bytes_counts (set_throughput p v es) = es_bytes_counts es"
  "es_servers (set_throughput p v es) = es_servers es"
  "es_readers (set_throughput p v es) = es_readers es"
  by (simp_all add: set_throughput_def)

lemma wait_closed_frame [simp]:
  "es_connection_counts (record_wait_closed_throughput p n d es) = es_connection_counts es"
  "es_bytes_counts (record_wait_closed_throughput p n d es) = es_bytes_counts es"
  "es_servers (record_wait_closed_throughput p n d es) = es_servers es"
  "es_readers (record_wait_closed_throughput p n d es) = es_readers es"
  by (simp_all add: record_wait_closed_throughput_def Let_def)

text \<open>Serving a transfer changes nothing but the measured throughput.\<close>

lemma serve_frame:
  assumes "serve_throughput fuel tf p rq es = Some (es', out)"
  shows "es_connection_counts es' = es_connection_counts es \<and> es_bytes_counts es' = es_bytes_counts es
    \<and> es_servers es' = es_servers es \<and> es_readers es' = es_readers es"
  using assms
  by (auto simp: serve_throughput_def Let_def split: if_splits option.splits measurement.splits)

lemma count_frame [simp]:
  "es_servers (count_connection p es) = es_servers es" "es_readers (count_connection p es) = es_readers es"
  "es_throughput_mbps (count_connection p es) = es_throughput_mbps es"
  "es_servers (count_bytes p d es) = es_servers es" "es_readers (count_bytes p d es) = es_readers es"
  "es_throughput_mbps (count_bytes p d es) = es_throughput_mbps es"
  by (simp_all add: count_connection_def count_bytes_def)

lemma handle_frame:
  assumes "handle_connection fuel tf p data es = Some (es', out)"
  shows "es_servers es' = es_servers es \<and> es_readers es' = es_readers es"
  using assms serve_frame [of fuel tf p _ _ es' out]
  by (auto simp: handle_connection_def Let_def split: if_splits option.splits)

lemma handle_traffic:
  assumes "handle_connection fuel tf p data es = Some (es', out)"
  shows "traffic_of es' = received (OpConnection fuel tf p data) (traffic_of es)"
proof (cases data)
  case None
  then show ?thesis using assms
    by (auto simp: handle_connection_def Let_def traffic_of_def count_connection_def)
next
  case (Some d)
  have "es_connection_counts es' = es_connection_counts (count_bytes p d (count_connection p es))
      \<and> es_bytes_counts es' = es_bytes_counts (count_bytes p d (count_connection p es))"
    using assms Some serve_frame [of fuel tf p d "count_bytes p d (count_connection p es)" es' out]
    by (auto simp: handle_connection_def Let_def split: if_splits)
  then show ?thesis
    using Some by (auto simp: traffic_of_def count_connection_def count_bytes_def)
qed

lemma bind_initial_frame:
  "es_connection_counts (snd (bind_initial b ps es)) = es_connection_counts es
   \<and> es_bytes_counts (snd (bind_initial b ps es)) = es_bytes_counts es
   \<and> es_throughput_mbps (snd (bind_initial b ps es)) = es_throughput_mbps es
   \<and> es_readers (snd (bind_initial b ps es)) = es_readers es
   \<and> es_initial_bind_ports (snd (bind_initial b ps es)) = es_initial_bind_ports es"
  by (induction b ps es rule: bind_initial.induct)
    (auto simp: bind_one_def echo_stop_def split: option.splits if_splits)

lemma add_tun_bind_frame:
  "es_connection_counts (snd (add_tun_bind b proto ip es)) = es_connection_counts es
   \<and> es_bytes_counts (snd (add_tun_bind b proto ip es)) = es_bytes_counts es
   \<and> es_throughput_mbps (snd (add_tun_bind b proto ip es)) = es_throughput_mbps es
   \<and> es_readers (snd (add_tun_bind b proto ip es)) = es_readers es
   \<and> es_initial_bind_ports (snd (add_tun_bind b proto ip es)) = es_initial_bind_ports es"
  by (simp add: add_tun_bind_def bind_one_def split: option.splits)

lemmas bind_frames = bind_initial_frame add_tun_bind_frame

lemma echo_step_traffic: "echo_step op es = Some es' \<Longrightarrow> traffic_of es' = received op (traffic_of es)"
proof (cases op)
  case (OpConnection fuel tf p data)
  assume "echo_step op es = Some es'"
  then show ?thesis using handle_traffic OpConnection by auto
qed (auto simp: traffic_of_def echo_start_def bind_frames
    remove_tun_bind_def register_throughput_reader_def unregister_throughput_reader_def echo_stop_def
    split: option.splits)

lemma fromkeys_default: "dict_default (fromkeys d v) p v = v"
proof -
  have "map_of (fromkeys d v) p = Some w \<Longrightarrow> w = v" for w
    by (induction d) (auto simp: fromkeys_def split: if_splits)
  then show ?thesis by (auto simp: dict_default_def dict_get_def split: option.splits)
qed

lemma init_counters: "traffic_of (EchoServer_init ps) = (\<lambda>p. (0, 0))"
  by (rule ext) (simp add: traffic_of_def EchoServer_init_def Let_def fromkeys_default)

lemma echo_run_traffic: "echo_run ops es = Some es' \<Longrightarrow> traffic_of es' = foldl (\<lambda>t op. received op t) (traffic_of es) ops"
  by (induction ops arbitrary: es) (auto simp: echo_step_traffic split: option.splits)

fun bytes_to :: "string \<Rightarrow> echo_op \<Rightarrow> int" where
  "bytes_to p (OpConnection fuel tf proto (Some d)) = (if proto = p then int (length d) else 0)"
| "bytes_to p _ = 0"

fun connects_to :: "string \<Rightarrow> echo_op \<Rightarrow> bool" where
  "connects_to p (OpConnection fuel tf proto data) = (proto = p)"
| "connects_to p _ = False"

lemma received_bytes: "received op t p = (fst (t p) + (if connects_to p op then 1 else 0), snd (t p) + bytes_to p op)"
  by (cases op; cases "case op of OpConnection fuel tf proto data \<Rightarrow> data | _ \<Rightarrow> None") auto

lemma foldl_received:
  "foldl (\<lambda>t op. received op t) t ops p =
     (fst (t p) + int (length (filter (connects_to p) ops)), snd (t p) + sum_list (map (bytes_to p) ops))"
proof (induction ops arbitrary: t)
  case (Cons op ops)
  then show ?case using Cons.IH [of "received op t"] by (simp add: received_bytes)
qed simp

lemma bytes_to_nonneg: "0 \<le> bytes_to p op"
  by (induction p op rule: bytes_to.induct) simp_all

text \<open>
  C7. The counters implement the traffic they stand for: after any run of the operations
  (sockets opened and closed, readers registered, connections served, in any order) each
  protocol's connection counter is the number of connections it received and its byte counter
  the number of bytes read from them, so the data phase counts as passed exactly when at least
  64 bytes came in, and what counts as passed stays so however the run goes on.
\<close>

theorem counters_refine_traffic:
  assumes "echo_run ops (EchoServer_init ports) = Some es"
  shows "traffic_of es p = (int (length (filter (connects_to p) ops)), sum_list (map (bytes_to p) ops))
    \<and> (data_ok es p MIN_BYTES \<longleftrightarrow> 64 \<le> sum_list (map (bytes_to p) ops))
    \<and> (\<forall>more es'. echo_run more es = Some es' \<longrightarrow> data_ok es p MIN_BYTES \<longrightarrow> data_ok es' p MIN_BYTES)"
proof -
  have tr: "traffic_of es p = (int (length (filter (connects_to p) ops)), sum_list (map (bytes_to p) ops))"
    using echo_run_traffic [OF assms] by (simp add: init_counters foldl_received)
  have later: "dict_default (es_bytes_counts es) p 0 \<le> dict_default (es_bytes_counts es') p 0"
    if "echo_run more es = Some es'" for more es'
  proof -
    have "snd (traffic_of es' p) = snd (traffic_of es p) + sum_list (map (bytes_to p) more)"
      using echo_run_traffic [OF that] by (simp add: foldl_received)
    moreover have "0 \<le> sum_list (map (bytes_to p) more)"
      by (induction more) (simp_all add: bytes_to_nonneg)
    ultimately show ?thesis by (simp add: traffic_of_def)
  qed
  show ?thesis
    using tr later by (fastforce simp: data_ok_def MIN_BYTES_def traffic_of_def)
qed

definition demo_transfer :: transfer where
  "demo_transfer = \<lparr>tf_pre_read = None, tf_aborted = False, tf_t0 = 10, tf_end = 12,
     tf_clock = (\<lambda>i. 12 + rat_of_nat i / 10), tf_reading = (\<lambda>i. Some 5000), tf_after = (\<lambda>i. 12 + rat_of_nat i / 10)\<rparr>"

definition demo_ops :: "echo_op list" where
  "demo_ops = [OpStart (\<lambda>addrs host port. True),
     OpConnection 5 demo_transfer ''shadowsocks'' (Some (''GET /ping HTTP/1.1'' @ crlf @ replicate 60 (CHR ''x''))),
     OpConnection 5 demo_transfer ''shadowsocks'' None]"

theorem counters_refine_traffic_witness:
  "\<exists>es. echo_run demo_ops (EchoServer_init None) = Some es \<and> data_ok es ''shadowsocks'' MIN_BYTES"
proof -
  have "echo_run demo_ops (EchoServer_init None) \<noteq> None" by code_simp
  then obtain es where es: "echo_run demo_ops (EchoServer_init None) = Some es" by blast
  moreover have "64 \<le> sum_list (map (bytes_to ''shadowsocks'') demo_ops)" by code_simp
  ultimately show ?thesis using counters_refine_traffic [OF es, of "''shadowsocks''"] by blast
qed


section \<open>Where the sockets are\<close>

definition socket_ok :: "echo_op list \<Rightarrow> string \<times> string \<times> int \<Rightarrow> bool" where
  "socket_ok ops = (\<lambda>(key, host, port).
     (host = ''127.0.0.1'' \<and> (key, port) \<in> set SOCKS_ECHO_PORTS)
     \<or> (\<exists>b proto. OpAddTun b proto host \<in> set ops \<and> key = tun_key proto host
          \<and> (proto, port) \<in> set TUN_ECHO_PORTS))"

definition sockets_ok :: "echo_op list \<Rightarrow> echo_server \<Rightarrow> bool" where
  "sockets_ok ops es \<longleftrightarrow> es_initial_bind_ports es = SOCKS_ECHO_PORTS \<and> (\<forall>s \<in> set (es_servers es). socket_ok ops s)"

lemma in_dict_set: "x \<in> set (dict_set k v d) \<Longrightarrow> x = (k, v) \<or> x \<in> set d"
  unfolding dict_set_def by (induction d) (auto split: if_splits)

lemma in_dict_pop: "x \<in> set (dict_pop k d) \<Longrightarrow> x \<in> set d"
  by (simp add: dict_pop_def)

lemma socket_ok_later: "socket_ok ops s \<Longrightarrow> socket_ok (ops @ [op]) s"
  by (auto simp: socket_ok_def)

lemma bind_one_servers:
  assumes "s \<in> set (es_servers (snd (bind_one b proto host port key es)))"
  shows "s = (key, host, port) \<or> s \<in> set (es_servers es)"
  using assms by (auto simp: bind_one_def split: if_splits dest!: in_dict_set in_dict_pop)

lemma bind_initial_servers:
  assumes "s \<in> set (es_servers (snd (bind_initial b ps es)))"
  shows "(\<exists>proto port. (proto, port) \<in> set ps \<and> s = (proto, ''127.0.0.1'', port)) \<or> s \<in> set (es_servers es)"
  using assms
proof (induction b ps es rule: bind_initial.induct)
  case (2 b proto port rest es)
  obtain e es' where one: "bind_one b proto ''127.0.0.1'' port proto es = (e, es')" by fastforce
  have new: "s \<in> set (es_servers es') \<Longrightarrow> s = (proto, ''127.0.0.1'', port) \<or> s \<in> set (es_servers es)"
    using bind_one_servers [of s b proto "''127.0.0.1''" port proto es] one by simp
  show ?case
  proof (cases e)
    case None
    then show ?thesis using 2 new by (auto simp: one)
  next
    case (Some x)
    then show ?thesis using 2(2) by (simp add: one echo_stop_def)
  qed
qed simp

text \<open>A start that fails leaves no socket open.\<close>

lemma failed_start_leaves_nothing:
  "fst (echo_start b es) = Some e \<Longrightarrow> es_servers (snd (echo_start b es)) = []"
proof -
  have "fst (bind_initial b ps es) = Some e \<Longrightarrow> es_servers (snd (bind_initial b ps es)) = []" for ps
    by (induction b ps es rule: bind_initial.induct) (auto simp: echo_stop_def split: prod.splits option.splits)
  then show "fst (echo_start b es) = Some e \<Longrightarrow> ?thesis" by (simp add: echo_start_def)
qed

lemma echo_step_initial:
  "echo_step op es = Some es' \<Longrightarrow> es_initial_bind_ports es' = es_initial_bind_ports es"
proof (cases op)
  case (OpConnection fuel tf p data)
  have serve: "es_initial_bind_ports e' = es_initial_bind_ports e"
    if "serve_throughput fuel tf p rq e = Some (e', out)" for rq e e' out
    using that by (auto simp: serve_throughput_def record_wait_closed_throughput_def set_throughput_def Let_def
        split: if_splits option.splits measurement.splits)
  assume "echo_step op es = Some es'"
  then show ?thesis using OpConnection serve
    by (auto simp: handle_connection_def count_connection_def count_bytes_def Let_def
        split: option.splits if_splits)
qed (auto simp: echo_start_def bind_frames remove_tun_bind_def register_throughput_reader_def unregister_throughput_reader_def echo_stop_def
    split: option.splits)

lemma sockets_step:
  assumes "sockets_ok ops es" "echo_step op es = Some es'"
  shows "sockets_ok (ops @ [op]) es'"
proof -
  have old: "socket_ok (ops @ [op]) s" if "s \<in> set (es_servers es)" for s
    using assms(1) that socket_ok_later by (auto simp: sockets_ok_def)
  have "socket_ok (ops @ [op]) s" if s: "s \<in> set (es_servers es')" for s
  proof (cases op)
    case (OpStart b)
    then have "s \<in> set (es_servers (snd (bind_initial b (es_initial_bind_ports es) es)))"
      using assms(2) s by (auto simp: echo_start_def)
    from bind_initial_servers [OF this] show ?thesis
      using old assms(1) by (auto simp: sockets_ok_def socket_ok_def)
  next
    case (OpAddTun b proto ip)
    show ?thesis
    proof (cases "dict_get TUN_ECHO_PORTS proto")
      case None
      then show ?thesis using assms(2) s old OpAddTun by (auto simp: add_tun_bind_def)
    next
      case (Some port)
      then have "s = (tun_key proto ip, ip, port) \<or> s \<in> set (es_servers es)"
        using assms(2) s OpAddTun bind_one_servers [of s b proto ip port "tun_key proto ip" es]
        by (auto simp: add_tun_bind_def)
      then show ?thesis
        using old dict_get_SomeD [OF Some] OpAddTun by (auto simp: socket_ok_def)
    qed
  next
    case (OpConnection fuel tf p data)
    then obtain out where "handle_connection fuel tf p data es = Some (es', out)"
      using assms(2) by auto
    then show ?thesis using s old handle_frame by metis
  next
    case (OpRemoveTun p ip)
    then show ?thesis using assms(2) s old in_dict_pop by (fastforce simp: remove_tun_bind_def)
  next
    case (OpRegister p r)
    then have "s \<in> set (es_servers es)" using assms(2) s by (auto simp: register_throughput_reader_def)
    then show ?thesis by (rule old)
  next
    case (OpUnregister p)
    then have "s \<in> set (es_servers es)" using assms(2) s by (auto simp: unregister_throughput_reader_def)
    then show ?thesis by (rule old)
  next
    case OpStop
    then show ?thesis using assms(2) s by (auto simp: echo_stop_def)
  qed
  then show ?thesis
    using assms echo_step_initial by (auto simp: sockets_ok_def)
qed

text \<open>
  The echo ports never leave the tunnels: whatever the operations and their order, every
  open socket is either a proxy protocol's port on the loopback address or a VPN protocol's
  port on an address that was passed to \<open>add_tun_bind\<close> for it; no socket is open after a stop
  or after a start that failed half way.
\<close>

theorem sockets_stay_inside:
  assumes "echo_run ops (EchoServer_init None) = Some es"
  shows "(\<forall>(key, host, port) \<in> set (es_servers es).
        (host = ''127.0.0.1'' \<and> dict_get SOCKS_ECHO_PORTS key = Some port)
        \<or> (\<exists>b proto. OpAddTun b proto host \<in> set ops \<and> key = tun_key proto host
             \<and> dict_get TUN_ECHO_PORTS proto = Some port))
    \<and> es_servers (echo_stop es) = []
    \<and> (\<forall>b e. fst (echo_start b es) = Some e \<longrightarrow> es_servers (snd (echo_start b es)) = [])"
proof -
  have "sockets_ok [] (EchoServer_init None)"
    by (simp add: sockets_ok_def EchoServer_init_def Let_def)
  then have all: "sockets_ok ops es"
    using echo_run_invariant [OF assms, of sockets_ok] sockets_step by blast
  have tables: "dict_ok SOCKS_ECHO_PORTS" "dict_ok TUN_ECHO_PORTS"
    by (simp_all add: dict_ok_def SOCKS_ECHO_PORTS_def TUN_ECHO_PORTS_def)
  have "(host = ''127.0.0.1'' \<and> dict_get SOCKS_ECHO_PORTS key = Some port)
        \<or> (\<exists>b proto. OpAddTun b proto host \<in> set ops \<and> key = tun_key proto host
             \<and> dict_get TUN_ECHO_PORTS proto = Some port)"
    if "(key, host, port) \<in> set (es_servers es)" for key host port
  proof -
    have "socket_ok ops (key, host, port)" using that all by (auto simp: sockets_ok_def)
    then show ?thesis
      using dict_get_in [OF tables(1)] dict_get_in [OF tables(2)]
      unfolding socket_ok_def by blast
  qed
  then show ?thesis by (auto simp: echo_stop_def failed_start_leaves_nothing)
qed

theorem sockets_stay_inside_witness:
  "\<exists>es. echo_run [OpStart (\<lambda>addrs host port. True), OpAddTun (\<lambda>addrs host port. True) ''openvpn'' ''10.200.0.1'']
      (EchoServer_init None) = Some es
    \<and> dict_get (es_servers es) ''openvpn@10.200.0.1'' = Some (''10.200.0.1'', 9994)
    \<and> es_servers (echo_stop es) = []"
proof -
  let ?ops = "[OpStart (\<lambda>addrs host port. True), OpAddTun (\<lambda>addrs host port. True) ''openvpn'' ''10.200.0.1'']"
  have "map_option (\<lambda>es. dict_get (es_servers es) ''openvpn@10.200.0.1'') (echo_run ?ops (EchoServer_init None))
      = Some (Some (''10.200.0.1'', 9994))"
    by code_simp
  then obtain es where "echo_run ?ops (EchoServer_init None) = Some es"
    "dict_get (es_servers es) ''openvpn@10.200.0.1'' = Some (''10.200.0.1'', 9994)" by auto
  then show ?thesis using sockets_stay_inside by blast
qed

text \<open>
  A second bind of the same tunnel address needs an address this process still listens on:
  with an operating system that refuses that, it fails and the old socket stays.
\<close>

lemma rebind_needs_removal:
  assumes "\<forall>addrs host port. (host, port) \<in> set addrs \<longrightarrow> \<not> b addrs host port"
    and "add_tun_bind b proto ip es = (None, es')"
  shows "\<exists>e. add_tun_bind b proto ip es' = (Some e, es')"
proof -
  obtain port where p: "dict_get TUN_ECHO_PORTS proto = Some port"
    using assms(2) by (auto simp: add_tun_bind_def split: option.splits)
  then have "dict_get (es_servers es') (tun_key proto ip) = Some (ip, port)"
    using assms(2) by (auto simp: add_tun_bind_def bind_one_def split: if_splits)
  then have "(ip, port) \<in> set (map snd (es_servers es'))"
    using dict_get_SomeD by force
  then show ?thesis using assms(1) p by (auto simp: add_tun_bind_def bind_one_def)
qed


section \<open>What is measured\<close>

definition throughput_of :: "echo_server \<Rightarrow> string \<Rightarrow> rat option" where
  "throughput_of es p = dict_default (es_throughput_mbps es) p None"

lemma throughput_set [simp]:
  "throughput_of (set_throughput q v es) p = (if p = q then v else throughput_of es p)"
  by (simp add: throughput_of_def set_throughput_def)

lemma throughput_wait_closed:
  assumes "0 \<le> n" "throughput_of (record_wait_closed_throughput q n d es) p = Some v"
  shows "throughput_of es p = Some v \<or> 0 \<le> v \<and> v \<le> 5000"
proof (cases "d \<le> 0")
  case True
  then show ?thesis using assms(2) by (simp add: record_wait_closed_throughput_def)
next
  case False
  have "0 \<le> fdiv (fdiv (of_int (n * 8)) d) 1000000"
    using assms(1) False by (intro fl_intros) simp_all
  then show ?thesis using assms(2) False
    by (auto simp: record_wait_closed_throughput_def Let_def MAX_PLAUSIBLE_MBPS_def split: if_splits)
qed

lemma float_of_int_nonneg: "float_of_int i = Inr (Fin x) \<Longrightarrow> 0 \<le> i \<Longrightarrow> 0 \<le> x"
  by (auto simp: to_float_def Let_def fl_ge_0 split: if_splits)

lemma measured_nonneg:
  assumes "measure_throughput_via_counter fuel tf b = Some (Measured (Some v))"
  shows "0 \<le> v"
proof -
  have "0 \<le> x" if "float_of_int (c * 8 - b * 8) = Inr (Fin x)" "b < c" for x c
    using float_of_int_nonneg [OF that(1)] that(2) by simp
  then show ?thesis using assms
    by (auto simp: measure_throughput_via_counter_def Let_def not_le simp del: float_of_int.simps
        split: option.splits polled.splits if_splits sum.splits pyfloat.splits intro!: fl_intros)
qed

lemma served_throughput:
  assumes "serve_throughput fuel tf q rq es = Some (es', out)" "throughput_of es' p = Some v"
  shows "throughput_of es p = Some v \<or> 0 \<le> v \<and> (v \<le> 5000 \<or> p = q \<and> dict_has (es_readers es) q)"
proof -
  let ?n = "if MAX_THROUGHPUT_BYTES < parse_throughput_n rq then MAX_THROUGHPUT_BYTES else parse_throughput_n rq"
  show ?thesis
  proof (cases "parse_throughput_n rq \<le> 0 \<or> tf_aborted tf")
    case True
    then show ?thesis using assms by (auto simp: serve_throughput_def Let_def split: if_splits)
  next
    case False
    then have n: "0 \<le> ?n" by (simp add: MAX_THROUGHPUT_BYTES_def)
    consider "es' = record_wait_closed_throughput q ?n (fsub (tf_end tf) (tf_t0 tf)) es" | "es' = es"
      | b m where "dict_has (es_readers es) q" "measure_throughput_via_counter fuel tf b = Some (Measured m)"
          "es' = set_throughput q m es"
      using assms(1) False
      by (auto simp: serve_throughput_def Let_def split: if_splits option.splits measurement.splits)
    then show ?thesis
    proof cases
      case 1
      then show ?thesis using throughput_wait_closed [OF n] assms(2) by blast
    next
      case 3
      then show ?thesis using assms(2) measured_nonneg by (auto split: if_splits)
    qed (use assms(2) in simp)
  qed
qed

definition registered :: "string \<Rightarrow> echo_op \<Rightarrow> bool" where
  "registered p op \<longleftrightarrow> (\<exists>r. op = OpRegister p r)"

definition measures_ok :: "echo_op list \<Rightarrow> echo_server \<Rightarrow> bool" where
  "measures_ok ops es \<longleftrightarrow> (\<forall>p. dict_has (es_readers es) p \<longrightarrow> (\<exists>op \<in> set ops. registered p op))
     \<and> (\<forall>p v. throughput_of es p = Some v \<longrightarrow> 0 \<le> v \<and> (v \<le> 5000 \<or> (\<exists>op \<in> set ops. registered p op)))"

lemma measures_mono:
  assumes "measures_ok ops es"
    and "\<And>p. dict_has (es_readers es') p \<Longrightarrow> dict_has (es_readers es) p \<or> registered p op"
    and "\<And>p v. throughput_of es' p = Some v \<Longrightarrow>
      throughput_of es p = Some v \<or> 0 \<le> v \<and> (v \<le> 5000 \<or> dict_has (es_readers es) p)"
  shows "measures_ok (ops @ [op]) es'"
  using assms unfolding measures_ok_def by (metis Un_iff list.set_intros(1) set_append)

lemma measures_step:
  assumes "measures_ok ops es" "echo_step op es = Some es'"
  shows "measures_ok (ops @ [op]) es'"
proof (rule measures_mono [OF assms(1)])
  fix p
  show "dict_has (es_readers es') p \<Longrightarrow> dict_has (es_readers es) p \<or> registered p op"
    using assms(2) handle_frame
    by (cases op) (auto simp: registered_def echo_start_def bind_frames
        remove_tun_bind_def register_throughput_reader_def unregister_throughput_reader_def echo_stop_def
        dict_has_iff split: option.splits if_splits)
next
  fix p v
  assume v: "throughput_of es' p = Some v"
  show "throughput_of es p = Some v \<or> 0 \<le> v \<and> (v \<le> 5000 \<or> dict_has (es_readers es) p)"
  proof (cases op)
    case (OpConnection fuel tf q data)
    then obtain out where h: "handle_connection fuel tf q data es = Some (es', out)"
      using assms(2) by auto
    show ?thesis
    proof (cases "\<exists>d. data = Some d \<and> starts_with d ''GET /throughput''")
      case True
      then obtain d where "serve_throughput fuel tf q d (count_bytes q d (count_connection q es)) = Some (es', out)"
        using h by (auto simp: handle_connection_def Let_def)
      from served_throughput [OF this v] show ?thesis by (auto simp: throughput_of_def)
    next
      case False
      then show ?thesis using h v
        by (auto simp: handle_connection_def Let_def throughput_of_def split: option.splits if_splits)
    qed
  qed (use assms(2) v in \<open>auto simp: throughput_of_def echo_start_def bind_frames
      remove_tun_bind_def register_throughput_reader_def unregister_throughput_reader_def echo_stop_def
      split: option.splits\<close>)
qed

text \<open>
  What is reported is plausible: after any run every throughput on record is non-negative,
  and it is at most 5000 Mbps for a protocol for which no wire counter was ever registered:
  the timing of the socket alone never yields the figures of a write absorbed by a buffer.
\<close>

theorem throughput_plausible:
  assumes "echo_run ops (EchoServer_init None) = Some es" "throughput_of es p = Some v"
  shows "0 \<le> v \<and> (v \<le> 5000 \<or> (\<exists>reader. OpRegister p reader \<in> set ops))"
proof -
  have "measures_ok [] (EchoServer_init None)"
    by (simp add: measures_ok_def EchoServer_init_def throughput_of_def fromkeys_default Let_def dict_has_def)
  then have "measures_ok ops es"
    using echo_run_invariant [OF assms(1), of measures_ok] measures_step by blast
  then show ?thesis using assms(2) by (auto simp: measures_ok_def registered_def)
qed


section \<open>The polling loop ends\<close>

lemma poll_loop_ends:
  "\<exists>j \<ge> i. j < i + fuel \<and> deadline \<le> tf_clock tf j \<Longrightarrow> poll_loop fuel tf deadline i prev ng lt t \<noteq> None"
proof (induction fuel arbitrary: i prev ng lt t)
  case (Suc fuel)
  show ?case
  proof (cases "tf_clock tf i < deadline")
    case True
    then have "\<exists>j \<ge> Suc i. j < Suc i + fuel \<and> deadline \<le> tf_clock tf j"
      using Suc.prems by (metis add_Suc_shift le_eq_less_or_eq not_le Suc_leI)
    then show ?thesis using Suc.IH by (auto split: option.splits)
  qed simp
qed auto

lemma poll_loop_more:
  "poll_loop fuel tf dl i prev ng lt t = Some r \<Longrightarrow> poll_loop (fuel + k) tf dl i prev ng lt t = Some r"
proof (induction fuel arbitrary: i prev ng lt t)
  case (Suc fuel)
  then show ?case by (auto split: option.splits if_splits)
qed simp

lemma deadline_bound:
  assumes "0 \<le> t0" "t0 \<le> 2 ^ 32"
  shows "fadd t0 WIRE_THROUGHPUT_QUIESCE_MAX_SEC \<le> t0 + 31"
proof -
  have c: "0 \<le> \<lceil>t0\<rceil>" "\<lceil>t0\<rceil> \<le> 2 ^ 32" using assms by (simp_all add: ceiling_le_iff)
  have "fl (t0 + 30) \<le> fl (of_int (\<lceil>t0\<rceil> + 30))" by (intro fl_mono) simp
  also have "\<dots> = of_int (\<lceil>t0\<rceil> + 30)" using c by (intro fl_of_int) simp
  also have "\<dots> \<le> t0 + 31" using ceiling_correct [of t0] by (simp add: algebra_simps)
  finally show ?thesis by (simp add: fadd_def WIRE_THROUGHPUT_QUIESCE_MAX_SEC_def)
qed

text \<open>
  The measurement returns whatever the counter does: when the clock advances by at least a
  tenth of a second per poll (the loop sleeps that long), at most 311 polls are made, and more
  fuel gives the same result.
\<close>

theorem measurement_terminates:
  assumes "0 \<le> tf_t0 tf" "tf_t0 tf \<le> 2 ^ 32" "\<forall>i. tf_t0 tf + rat_of_nat i / 10 \<le> tf_clock tf i"
  shows "\<exists>m. measure_throughput_via_counter 311 tf b = Some m
    \<and> (\<forall>k. measure_throughput_via_counter (311 + k) tf b = Some m)"
proof -
  let ?dl = "fadd (tf_t0 tf) WIRE_THROUGHPUT_QUIESCE_MAX_SEC"
  have "?dl \<le> tf_clock tf 310"
    using deadline_bound [OF assms(1,2)] spec [OF assms(3), of 310] by simp
  then have "\<exists>j \<ge> 0. j < 0 + 311 \<and> ?dl \<le> tf_clock tf j" by (intro exI [of _ 310]) simp
  from poll_loop_ends [OF this] obtain r where r: "poll_loop 311 tf ?dl 0 b 0 b (tf_t0 tf) = Some r"
    by blast
  have same: "measure_throughput_via_counter (311 + k) tf b = measure_throughput_via_counter 311 tf b" for k
    using poll_loop_more [OF r, of k] r by (simp add: measure_throughput_via_counter_def)
  have "measure_throughput_via_counter 311 tf b \<noteq> None"
    using r by (simp add: measure_throughput_via_counter_def Let_def
        split: polled.splits sum.splits pyfloat.splits)
  then show ?thesis using same by auto
qed

theorem measurement_terminates_witness:
  "measure_throughput_via_counter 311 demo_transfer 0 \<noteq> None"
  using measurement_terminates [of demo_transfer 0] by (auto simp: demo_transfer_def)

section \<open>Requests and replies\<close>

definition throughput_request :: "int \<Rightarrow> string \<Rightarrow> string" where
  "throughput_request n rest = ''GET /throughput?bytes='' @ str_of_int n @ '' HTTP/1.1'' @ crlf @ rest"

lemma str_of_int_free: "\<not> is_digit c \<Longrightarrow> c \<noteq> CHR ''-'' \<Longrightarrow> c \<notin> set (str_of_int n)"
  using str_of_int_no_space by blast

lemma char_free [simp]: "CHR '' '' \<notin> set (str_of_int n)" "CHR 0x0D \<notin> set (str_of_int n)"
  "CHR ''&'' \<notin> set (str_of_int n)" "CHR ''?'' \<notin> set (str_of_int n)"
  by (rule str_of_int_free; simp add: is_digit_def)+

lemma int_of_bytes_str: "printable n \<Longrightarrow> int_of_bytes (str_of_int n) = Some n"
proof -
  assume p: "printable n"
  have "set (str_of_int n) \<inter> {CHR 0x1C, CHR 0x1D, CHR 0x1E, CHR 0x1F} = {}"
    using str_of_int_no_space by (fastforce simp: is_digit_def)
  then show ?thesis using p by (simp add: int_of_bytes_def int_of_str_of_int)
qed

lemma parse_throughput_request:
  assumes "printable n"
  shows "parse_throughput_n (throughput_request n rest) = max 0 n"
proof -
  let ?path = "''/throughput?bytes='' @ str_of_int n"
  have "str_partition crlf ((''GET '' @ ?path @ '' HTTP/1.1'') @ crlf @ rest) = (''GET '' @ ?path @ '' HTTP/1.1'', rest)"
    by (rule partition_crlf) simp
  then have "fst (str_partition crlf (throughput_request n rest)) = ''GET'' @ CHR '' '' # (?path @ CHR '' '' # ''HTTP/1.1'')"
    by (simp add: throughput_request_def)
  moreover have "split_on (CHR '' '') (''GET'' @ CHR '' '' # (?path @ CHR '' '' # ''HTTP/1.1'')) = [''GET'', ?path, ''HTTP/1.1'']"
  proof -
    have "split_on (CHR '' '') (''GET'' @ CHR '' '' # (?path @ CHR '' '' # ''HTTP/1.1''))
        = ''GET'' # split_on (CHR '' '') (?path @ CHR '' '' # ''HTTP/1.1'')"
      by (rule split_on_word) simp
    also have "split_on (CHR '' '') (?path @ CHR '' '' # ''HTTP/1.1'') = ?path # split_on (CHR '' '') ''HTTP/1.1''"
      by (rule split_on_word) simp
    also have "split_on (CHR '' '') ''HTTP/1.1'' = [''HTTP/1.1'']" by (rule split_on_last) simp
    finally show ?thesis .
  qed
  moreover have "str_partition ''?'' ?path = (''/throughput'', ''bytes='' @ str_of_int n)"
    using partition_first [of "CHR ''?''" "''/throughput''" "[]" "''bytes='' @ str_of_int n"] by simp
  moreover have "split_on (CHR ''&'') (''bytes='' @ str_of_int n) = [''bytes='' @ str_of_int n]"
    by (rule split_on_last) simp
  moreover have "starts_with (''bytes='' @ str_of_int n) ''bytes=''" by (rule starts_with_append)
  ultimately show ?thesis
    using int_of_bytes_str [OF assms] by (simp add: parse_throughput_n_def Let_def)
qed

text \<open>
  A throughput probe gets what it asked for: the request for n bytes, whatever follows its
  first line, is answered by a 200 whose declared length and body are n bytes, at most 16 MiB,
  when n is positive, and by a 400 otherwise; only the bytes and the throughput of its own
  protocol are touched.
\<close>

theorem throughput_request_served:
  assumes "printable n"
    and "handle_connection fuel tf p (Some (throughput_request n rest)) es = Some (es', out)"
  shows "out = (if 0 < n then throughput_response (min n (16 * 1024 * 1024)) else bad_request)
    \<and> length out \<le> 16 * 1024 * 1024 + 200 + length (str_of_int (min n (16 * 1024 * 1024)))
    \<and> (\<forall>q. q \<noteq> p \<longrightarrow> traffic_of es' q = traffic_of es q \<and> throughput_of es' q = throughput_of es q)"
proof -
  let ?rq = "throughput_request n rest" and ?N = "16 * 1024 * 1024 :: int"
  have "starts_with ?rq ''GET /throughput''"
    by (simp add: throughput_request_def starts_with_def)
  then have serve: "serve_throughput fuel tf p ?rq (count_bytes p ?rq (count_connection p es)) = Some (es', out)"
    using assms(2) by (simp add: handle_connection_def Let_def)
  have out: "out = (if 0 < n then throughput_response (min n ?N) else bad_request)"
    using serve parse_throughput_request [OF assms(1), of rest]
    by (auto simp: serve_throughput_def Let_def MAX_THROUGHPUT_BYTES_def min_def
        split: if_splits option.splits measurement.splits)
  have body: "length (throughput_response m) \<le> 200 + length (str_of_int m) + nat m" for m
    by (simp add: throughput_response_def crlf_def)
  have "nat (min n ?N) \<le> 16 * 1024 * 1024" by simp
  then have len: "length out \<le> 16 * 1024 * 1024 + 200 + length (str_of_int (min n ?N))"
    using out body [of "min n ?N"] by (auto simp: bad_request_def crlf_def)
  have traffic: "traffic_of es' q = traffic_of es q" if "q \<noteq> p" for q
    using handle_traffic [OF assms(2)] that by simp
  have "throughput_of es' q = throughput_of es q" if "q \<noteq> p" for q
    using serve that
    by (auto simp: serve_throughput_def Let_def record_wait_closed_throughput_def throughput_of_def set_throughput_def
        split: if_splits option.splits measurement.splits)
  then show ?thesis using out len traffic by blast
qed

definition demo_aborted :: transfer where
  "demo_aborted = demo_transfer\<lparr>tf_aborted := True\<rparr>"

lemma demo_aborted_run:
  "handle_connection 5 demo_aborted ''hysteria2'' (Some (throughput_request 10 [])) (EchoServer_init None) \<noteq> None"
proof -
  have "printable 10" by (rule printableI [of _ 2]) simp_all
  then show ?thesis
    by (simp add: handle_connection_def serve_throughput_def Let_def parse_throughput_request demo_aborted_def
        throughput_request_def starts_with_def)
qed

theorem throughput_request_served_witness:
  "\<exists>es'. handle_connection 5 demo_aborted ''hysteria2'' (Some (throughput_request 10 [])) (EchoServer_init None)
     = Some (es', throughput_response 10)"
proof -
  obtain es' out where h: "handle_connection 5 demo_aborted ''hysteria2'' (Some (throughput_request 10 [])) (EchoServer_init None)
     = Some (es', out)" using demo_aborted_run by auto
  have "printable 10" by (rule printableI [of _ 2]) simp_all
  from throughput_request_served [OF this h] h show ?thesis by simp
qed

definition demo_probe :: "echo_op list" where
  "demo_probe = [OpConnection 5 demo_transfer ''hysteria2'' (Some (throughput_request 10 []))]"

lemma demo_probe_run:
  "\<exists>es. echo_run demo_probe (EchoServer_init None) = Some es \<and> throughput_of es ''hysteria2'' \<noteq> None"
proof -
  let ?rq = "throughput_request 10 []"
  let ?es = "count_bytes ''hysteria2'' ?rq (count_connection ''hysteria2'' (EchoServer_init None))"
  have "printable 10" by (rule printableI [of _ 2]) simp_all
  then have n: "parse_throughput_n ?rq = 10" by (simp add: parse_throughput_request)
  have "starts_with ?rq ''GET /throughput''" by (simp add: throughput_request_def starts_with_def)
  moreover have "es_readers ?es = []" by (simp add: EchoServer_init_def Let_def)
  ultimately have run: "echo_run demo_probe (EchoServer_init None)
      = Some (record_wait_closed_throughput ''hysteria2'' 10 (fsub 12 10) ?es)"
    by (simp add: demo_probe_def handle_connection_def serve_throughput_def Let_def n demo_transfer_def
        dict_has_def MAX_THROUGHPUT_BYTES_def)
  have "fl (3 / 100) \<le> 1" by (rule fl_le_1) simp
  moreover have "fdiv (fdiv 80 2) 1000000 \<le> 1"
    using fl_numeral [of "num.Bit0 (num.Bit0 (num.Bit0 (num.Bit1 (num.Bit0 num.One))))"]
    by (simp add: fdiv_def fl_le_1)
  moreover have "fsub 12 10 = 2" using fl_numeral [of "num.Bit0 num.One"] by (simp add: fsub_def)
  ultimately have "throughput_of (record_wait_closed_throughput ''hysteria2'' 10 (fsub 12 10) ?es) ''hysteria2'' \<noteq> None"
    by (simp add: record_wait_closed_throughput_def Let_def MIN_THROUGHPUT_DURATION_SEC_def MAX_PLAUSIBLE_MBPS_def)
  then show ?thesis using run by blast
qed

theorem throughput_plausible_witness:
  "\<exists>es v. echo_run demo_probe (EchoServer_init None) = Some es \<and> throughput_of es ''hysteria2'' = Some v \<and> 0 \<le> v \<and> v \<le> 5000"
proof -
  obtain es v where es: "echo_run demo_probe (EchoServer_init None) = Some es" "throughput_of es ''hysteria2'' = Some v"
    using demo_probe_run by blast
  moreover have "OpRegister ''hysteria2'' r \<notin> set demo_probe" for r by (simp add: demo_probe_def)
  ultimately show ?thesis using throughput_plausible [OF es] by blast
qed

end
