(* ===== verification/Credentials.thy ===== *)
theory Credentials
  imports Config ServerMeta "HOL-Library.Word"
begin

text \<open>
  \<open>censprobe_listener/credentials.py\<close>: the credential set of one session, its generation and
  its YAML document. The external tools and the random source are an argument: the key
  material holds what each call returned (\<open>None\<close> when a tool is missing or fails), and the two
  rejection loops read their draws from a list, so that running out of it is a value.
\<close>

section \<open>The credential set\<close>

record gen_creds =
  g_openvpn_psk_pem :: string
  g_openvpn_port :: int
  g_wg_server_private :: string
  g_wg_server_public :: string
  g_wg_client_private :: string
  g_wg_client_public :: string
  g_wg_preshared_key :: string
  g_wg_port :: int
  g_awg_server_private :: string
  g_awg_server_public :: string
  g_awg_client_private :: string
  g_awg_client_public :: string
  g_awg_preshared_key :: string
  g_awg_port :: int
  g_awg_jc :: int
  g_awg_jmin :: int
  g_awg_jmax :: int
  g_awg_s1 :: int
  g_awg_s2 :: int
  g_awg_h1 :: int
  g_awg_h2 :: int
  g_awg_h3 :: int
  g_awg_h4 :: int
  g_ss_port :: int
  g_ss_method :: string
  g_ss_password_b64 :: string
  g_vless_port :: int
  g_vless_uuid :: string
  g_vless_pbk :: string
  g_vless_pvk :: string
  g_vless_short_id :: string
  g_vless_server_name :: string
  g_hy2_port :: int
  g_hy2_auth :: string
  g_hy2_obfs_password :: string
  g_mtproxy_secret :: string
  g_mtproxy_port :: int
  g_mtproxy_alt_secret :: string
  g_mtproxy_alt_port :: int
  g_mtproxy_orig_secret :: string
  g_mtproxy_orig_port :: int

definition gen_creds_default :: gen_creds where
  "gen_creds_default =
     \<lparr>g_openvpn_psk_pem = [], g_openvpn_port = 0, g_wg_server_private = [],
      g_wg_server_public = [], g_wg_client_private = [], g_wg_client_public = [],
      g_wg_preshared_key = [], g_wg_port = 0, g_awg_server_private = [],
      g_awg_server_public = [], g_awg_client_private = [], g_awg_client_public = [],
      g_awg_preshared_key = [], g_awg_port = 0, g_awg_jc = 4, g_awg_jmin = 40, g_awg_jmax = 70,
      g_awg_s1 = 0, g_awg_s2 = 0, g_awg_h1 = 0, g_awg_h2 = 0, g_awg_h3 = 0, g_awg_h4 = 0,
      g_ss_port = 0, g_ss_method = ''2022-blake3-aes-256-gcm'', g_ss_password_b64 = [],
      g_vless_port = 0, g_vless_uuid = [], g_vless_pbk = [], g_vless_pvk = [],
      g_vless_short_id = [], g_vless_server_name = [], g_hy2_port = 0, g_hy2_auth = [],
      g_hy2_obfs_password = [], g_mtproxy_secret = [], g_mtproxy_port = 0,
      g_mtproxy_alt_secret = [], g_mtproxy_alt_port = 0, g_mtproxy_orig_secret = [],
      g_mtproxy_orig_port = 0\<rparr>"

datatype gen_error = UnknownPortName string | ToolFailed | BadToolOutput | SniNotAscii | OutOfDraws

text \<open>\<open>_PROTOCOL_PORT_ATTR\<close> with the \<open>setattr\<close> it directs, and the loop over the ports.\<close>

definition set_port :: "string \<Rightarrow> int \<Rightarrow> gen_creds \<Rightarrow> gen_creds option" where
  "set_port name port c =
     (if name = ''openvpn'' then Some (c\<lparr>g_openvpn_port := port\<rparr>)
      else if name = ''wireguard'' then Some (c\<lparr>g_wg_port := port\<rparr>)
      else if name = ''amneziawg'' then Some (c\<lparr>g_awg_port := port\<rparr>)
      else if name = ''shadowsocks'' then Some (c\<lparr>g_ss_port := port\<rparr>)
      else if name = ''vless_reality'' then Some (c\<lparr>g_vless_port := port\<rparr>)
      else if name = ''hysteria2'' then Some (c\<lparr>g_hy2_port := port\<rparr>)
      else if name = ''mtproto_proxy'' then Some (c\<lparr>g_mtproxy_port := port\<rparr>)
      else if name = ''mtproto_proxy_alt'' then Some (c\<lparr>g_mtproxy_alt_port := port\<rparr>)
      else if name = ''mtproto_orig'' then Some (c\<lparr>g_mtproxy_orig_port := port\<rparr>)
      else None)"

fun apply_ports :: "(string, int) dict \<Rightarrow> gen_creds \<Rightarrow> gen_error + gen_creds" where
  "apply_ports [] c = Inr c"
| "apply_ports ((name, port) # rest) c =
     (case set_port name port c of
        None \<Rightarrow> Inl (UnknownPortName name)
      | Some c' \<Rightarrow> apply_ports rest c')"

section \<open>Key material\<close>

record key_material =
  km_openvpn_key :: "string option"
  km_wg_genkey :: "nat \<Rightarrow> string option"
  km_wg_pubkey :: "string \<Rightarrow> string option"
  km_wg_genpsk :: "nat \<Rightarrow> string option"
  km_randbits :: "32 word list"
  km_jc :: nat
  km_jmin :: nat
  km_jmax :: nat
  km_s1 :: nat
  km_s2 :: "nat list"
  km_ss_password :: string
  km_uuid :: string
  km_xray :: "string option"
  km_short_id :: string
  km_hy2_auth :: string
  km_hy2_obfs :: string
  km_mt_hex :: string
  km_mt_alt_hex :: string
  km_mt_orig_hex :: string

definition of_tool :: "string option \<Rightarrow> gen_error + string" where
  "of_tool out = (case out of None \<Rightarrow> Inl ToolFailed | Some s \<Rightarrow> Inr s)"

text \<open>\<open>_wg_keypair\<close>, its \<open>i\<close>-th call of the session.\<close>

definition wg_keypair :: "key_material \<Rightarrow> nat \<Rightarrow> gen_error + string \<times> string" where
  "wg_keypair km i =
     bindE (of_tool (km_wg_genkey km i)) (\<lambda>out. let private = str_strip out in
     bindE (of_tool (km_wg_pubkey km private)) (\<lambda>out. Inr (private, str_strip out)))"

definition wg_preshared_key :: "key_material \<Rightarrow> nat \<Rightarrow> gen_error + string" where
  "wg_preshared_key km i = bindE (of_tool (km_wg_genpsk km i)) (\<lambda>out. Inr (str_strip out))"

text \<open>\<open>line.split(": ", 1)[1].strip()\<close>.\<close>

definition after_colon :: "string \<Rightarrow> gen_error + string" where
  "after_colon line =
     (case partition_aux '': '' [] line of
        None \<Rightarrow> Inl BadToolOutput
      | Some (_, v) \<Rightarrow> Inr (str_strip v))"

definition reality_keypair :: "string option \<Rightarrow> gen_error + string \<times> string" where
  "reality_keypair out =
     bindE (of_tool out) (\<lambda>out. case splitlines (str_strip out) of
       l0 # l1 # _ \<Rightarrow> bindE (after_colon l0) (\<lambda>private.
                      bindE (after_colon l1) (\<lambda>public. Inr (private, public)))
     | _ \<Rightarrow> Inl BadToolOutput)"

text \<open>
  The loop of \<open>_awg_magic_headers\<close> on the draws of \<open>secrets.randbits(32)\<close>, and the one that
  redraws \<open>s2\<close>; \<open>randbelow(135)\<close> is the draw itself, below 135.
\<close>

fun awg_magic_headers :: "int list \<Rightarrow> 32 word list \<Rightarrow> int list option" where
  "awg_magic_headers chosen draws =
     (if 4 \<le> length chosen then Some chosen
      else case draws of
          [] \<Rightarrow> None
        | d # rest \<Rightarrow>
            let v = uint d in
            if v \<in> {1, 2, 3, 4} \<or> v \<in> set chosen then awg_magic_headers chosen rest
            else awg_magic_headers (chosen @ [v]) rest)"

declare awg_magic_headers.simps [simp del]

fun draw_s2 :: "int \<Rightarrow> nat list \<Rightarrow> int option" where
  "draw_s2 s1 [] = None"
| "draw_s2 s1 (d # rest) =
     (let s2 = int d + 15 in if s1 + 56 = s2 then draw_s2 s1 rest else Some s2)"

section \<open>Generation\<close>

definition hex_digit :: "nat \<Rightarrow> char" where
  "hex_digit n = (if n < 10 then char_of (48 + n) else char_of (87 + n))"

definition hex_byte :: "char \<Rightarrow> string" where
  "hex_byte c = (let n = of_char c in [hex_digit (n div 16), hex_digit (n mod 16)])"

text \<open>\<open>s.encode("ascii").hex()\<close>.\<close>

definition ascii_hex :: "string \<Rightarrow> gen_error + string" where
  "ascii_hex s =
     (if list_all (\<lambda>c. (of_char c :: nat) < 128) s then Inr (concat (map hex_byte s))
      else Inl SniNotAscii)"

definition faketls_secret :: "(string, string) dict \<Rightarrow> string \<Rightarrow> string \<Rightarrow> gen_error + string" where
  "faketls_secret sni name hex =
     (case dict_get sni name of
        None \<Rightarrow> Inr []
      | Some host \<Rightarrow> bindE (ascii_hex host) (\<lambda>h. Inr (''ee'' @ hex @ h)))"

definition generate_credentials ::
  "key_material \<Rightarrow> (string, int) dict \<Rightarrow> (string, string) dict \<Rightarrow> gen_error + gen_creds" where
  "generate_credentials km ports sni =
     bindE (apply_ports ports gen_creds_default) (\<lambda>creds.
     bindE (of_tool (km_openvpn_key km)) (\<lambda>psk.
     bindE (wg_keypair km 0) (\<lambda>(wg_spriv, wg_spub).
     bindE (wg_keypair km 1) (\<lambda>(wg_cpriv, wg_cpub).
     bindE (wg_preshared_key km 0) (\<lambda>wg_psk.
     bindE (wg_keypair km 2) (\<lambda>(awg_spriv, awg_spub).
     bindE (wg_keypair km 3) (\<lambda>(awg_cpriv, awg_cpub).
     bindE (wg_preshared_key km 1) (\<lambda>awg_psk.
     case awg_magic_headers [] (km_randbits km) of
       Some [h1, h2, h3, h4] \<Rightarrow>
         let s1 = int (km_s1 km) + 15 in
         (case draw_s2 s1 (km_s2 km) of
            None \<Rightarrow> Inl OutOfDraws
          | Some s2 \<Rightarrow>
              bindE (reality_keypair (km_xray km)) (\<lambda>(pvk, pbk).
              bindE (faketls_secret sni ''mtproto_proxy'' (km_mt_hex km)) (\<lambda>mt.
              bindE (faketls_secret sni ''mtproto_proxy_alt'' (km_mt_alt_hex km)) (\<lambda>mt_alt.
                Inr (creds\<lparr>g_openvpn_psk_pem := psk,
                  g_wg_server_private := wg_spriv, g_wg_server_public := wg_spub,
                  g_wg_client_private := wg_cpriv, g_wg_client_public := wg_cpub,
                  g_wg_preshared_key := wg_psk,
                  g_awg_server_private := awg_spriv, g_awg_server_public := awg_spub,
                  g_awg_client_private := awg_cpriv, g_awg_client_public := awg_cpub,
                  g_awg_preshared_key := awg_psk,
                  g_awg_h1 := h1, g_awg_h2 := h2, g_awg_h3 := h3, g_awg_h4 := h4,
                  g_awg_jc := int (km_jc km) + 3, g_awg_jmin := int (km_jmin km) + 40,
                  g_awg_jmax := int (km_jmax km) + 70, g_awg_s1 := s1, g_awg_s2 := s2,
                  g_ss_password_b64 := km_ss_password km,
                  g_vless_uuid := km_uuid km, g_vless_pvk := pvk, g_vless_pbk := pbk,
                  g_vless_short_id := km_short_id km,
                  g_vless_server_name :=
                    (case dict_get sni ''vless_reality'' of Some h \<Rightarrow> h | None \<Rightarrow> g_vless_server_name creds),
                  g_hy2_auth := km_hy2_auth km, g_hy2_obfs_password := km_hy2_obfs km,
                  g_mtproxy_secret := mt, g_mtproxy_alt_secret := mt_alt,
                  g_mtproxy_orig_secret :=
                    (if dict_has ports ''mtproto_orig'' then ''dd'' @ km_mt_orig_hex km
                     else g_mtproxy_orig_secret creds)\<rparr>)))))
     | _ \<Rightarrow> Inl OutOfDraws))))))))"

section \<open>The YAML document\<close>

definition section_openvpn :: "gen_creds \<Rightarrow> (string, json) dict" where
  "section_openvpn c =
     [(''port'', JInt (g_openvpn_port c)), (''protocol'', JStr ''udp''),
      (''psk_pem'', JStr (g_openvpn_psk_pem c))]"

definition section_wireguard :: "gen_creds \<Rightarrow> (string, json) dict" where
  "section_wireguard c =
     [(''port'', JInt (g_wg_port c)), (''server_public_key'', JStr (g_wg_server_public c)),
      (''client_private_key'', JStr (g_wg_client_private c)),
      (''client_public_key'', JStr (g_wg_client_public c)),
      (''preshared_key'', JStr (g_wg_preshared_key c))]"

definition section_amneziawg :: "gen_creds \<Rightarrow> (string, json) dict" where
  "section_amneziawg c =
     [(''port'', JInt (g_awg_port c)), (''server_public_key'', JStr (g_awg_server_public c)),
      (''client_private_key'', JStr (g_awg_client_private c)),
      (''client_public_key'', JStr (g_awg_client_public c)),
      (''preshared_key'', JStr (g_awg_preshared_key c)), (''jc'', JInt (g_awg_jc c)),
      (''jmin'', JInt (g_awg_jmin c)), (''jmax'', JInt (g_awg_jmax c)),
      (''s1'', JInt (g_awg_s1 c)), (''s2'', JInt (g_awg_s2 c)), (''h1'', JInt (g_awg_h1 c)),
      (''h2'', JInt (g_awg_h2 c)), (''h3'', JInt (g_awg_h3 c)), (''h4'', JInt (g_awg_h4 c))]"

definition section_shadowsocks :: "gen_creds \<Rightarrow> (string, json) dict" where
  "section_shadowsocks c =
     [(''port'', JInt (g_ss_port c)), (''method'', JStr (g_ss_method c)),
      (''password_b64'', JStr (g_ss_password_b64 c))]"

definition section_vless_reality :: "gen_creds \<Rightarrow> (string, json) dict" where
  "section_vless_reality c =
     [(''port'', JInt (g_vless_port c)), (''uuid'', JStr (g_vless_uuid c)),
      (''public_key'', JStr (g_vless_pbk c)), (''short_id'', JStr (g_vless_short_id c)),
      (''server_name'', JStr (g_vless_server_name c))]"

definition section_hysteria2 :: "gen_creds \<Rightarrow> (string, json) dict" where
  "section_hysteria2 c =
     [(''port'', JInt (g_hy2_port c)), (''auth'', JStr (g_hy2_auth c)),
      (''obfs_password'', JStr (g_hy2_obfs_password c))]"

definition section_mtproto_proxy :: "gen_creds \<Rightarrow> (string, json) dict" where
  "section_mtproto_proxy c =
     [(''port'', JInt (g_mtproxy_port c)), (''secret'', JStr (g_mtproxy_secret c))]"

definition section_mtproto_proxy_alt :: "gen_creds \<Rightarrow> (string, json) dict" where
  "section_mtproto_proxy_alt c =
     [(''port'', JInt (g_mtproxy_alt_port c)), (''secret'', JStr (g_mtproxy_alt_secret c))]"

definition section_mtproto_orig :: "gen_creds \<Rightarrow> (string, json) dict" where
  "section_mtproto_orig c =
     [(''port'', JInt (g_mtproxy_orig_port c)), (''secret'', JStr (g_mtproxy_orig_secret c))]"

definition SECTION_BUILDERS :: "(string, gen_creds \<Rightarrow> (string, json) dict) dict" where
  "SECTION_BUILDERS =
     [(''openvpn'', section_openvpn),
      (''wireguard'', section_wireguard),
      (''amneziawg'', section_amneziawg),
      (''shadowsocks'', section_shadowsocks),
      (''vless_reality'', section_vless_reality),
      (''hysteria2'', section_hysteria2),
      (''mtproto_proxy'', section_mtproto_proxy),
      (''mtproto_proxy_alt'', section_mtproto_proxy_alt),
      (''mtproto_orig'', section_mtproto_orig)]"

text \<open>\<open>creds_to_yaml\<close>: the mapping given to \<open>yaml.dump\<close>, which is the argument \<open>dump\<close>.\<close>

definition creds_doc :: "gen_creds \<Rightarrow> string list \<Rightarrow> (string, json) dict" where
  "creds_doc creds enabled =
     (let names = filter (\<lambda>n. dict_has SECTION_BUILDERS n) enabled in
      foldl (\<lambda>d n. dict_set n (JObj (the (dict_get SECTION_BUILDERS n) creds)) d)
        [(''_note'', JStr ''One-time test credentials. Do not use for production VPN.''),
         (''_protocols_enabled'', JList (map JStr enabled))] names)"

definition creds_to_yaml :: "(json \<Rightarrow> string) \<Rightarrow> gen_creds \<Rightarrow> string list \<Rightarrow> string" where
  "creds_to_yaml dump creds enabled = dump (JObj (creds_doc creds enabled))"

section \<open>Lemmas\<close>

definition awg_forbidden :: "int set" where "awg_forbidden = {1, 2, 3, 4}"

definition awg_usable :: "int \<Rightarrow> bool" where
  "awg_usable v \<longleftrightarrow> 0 \<le> v \<and> v < 2 ^ 32 \<and> v \<notin> awg_forbidden"

lemma awg_usable_uint: "awg_usable (uint (d :: 32 word)) \<longleftrightarrow> uint d \<notin> awg_forbidden"
  using uint_lt2p [of d] by (simp add: awg_usable_def)

lemma awg_headers_step: "length chosen < 4 \<Longrightarrow> awg_magic_headers chosen (d # rest) =
    (if awg_usable (uint d) \<and> uint d \<notin> set chosen then awg_magic_headers (chosen @ [uint d]) rest
     else awg_magic_headers chosen rest)"
  by (simp add: awg_magic_headers.simps [of chosen "d # rest"] Let_def awg_usable_uint awg_forbidden_def)

lemma awg_headers_done: "4 \<le> length chosen \<Longrightarrow> awg_magic_headers chosen draws = Some chosen"
  by (simp add: awg_magic_headers.simps [of chosen draws])

lemma awg_headers_inv:
  "awg_magic_headers chosen draws = Some r \<Longrightarrow> distinct chosen \<Longrightarrow> length chosen \<le> 4 \<Longrightarrow>
     list_all awg_usable chosen \<Longrightarrow> length r = 4 \<and> distinct r \<and> list_all awg_usable r"
proof (induction draws arbitrary: chosen)
  case Nil
  then show ?case by (simp add: awg_magic_headers.simps [of chosen "[]"] split: if_splits)
next
  case (Cons d rest)
  show ?case
  proof (cases "length chosen < 4")
    case False
    then show ?thesis using Cons.prems by (simp add: awg_headers_done)
  next
    case True
    then show ?thesis
      using Cons.prems Cons.IH [of chosen] Cons.IH [of "chosen @ [uint d]"]
      by (simp add: awg_headers_step split: if_splits)
  qed
qed

text \<open>The loop ends as soon as the draws hold four distinct usable values.\<close>

lemma awg_headers_total:
  "distinct chosen \<Longrightarrow> 4 \<le> card (set chosen \<union> {v \<in> uint ` set draws. awg_usable v}) \<Longrightarrow>
     \<exists>r. awg_magic_headers chosen draws = Some r"
proof (induction draws arbitrary: chosen)
  case Nil
  then have "4 \<le> length chosen" by (simp add: distinct_card)
  then show ?case by (simp add: awg_headers_done)
next
  case (Cons d rest)
  let ?u = "\<lambda>ds. {v \<in> uint ` set ds. awg_usable v}"
  show ?case
  proof (cases "length chosen < 4")
    case False
    then show ?thesis by (simp add: awg_headers_done)
  next
    case less: True
    show ?thesis
    proof (cases "awg_usable (uint d) \<and> uint d \<notin> set chosen")
      case True
      then have "set chosen \<union> ?u (d # rest) = set (chosen @ [uint d]) \<union> ?u rest" by auto
      then show ?thesis
        using Cons.IH [of "chosen @ [uint d]"] Cons.prems True less by (simp add: awg_headers_step)
    next
      case False
      then have "set chosen \<union> ?u (d # rest) = set chosen \<union> ?u rest" by auto
      then have "\<exists>r. awg_magic_headers chosen rest = Some r"
        using Cons.IH [of chosen] Cons.prems by simp
      then show ?thesis using False less by (auto simp: awg_headers_step)
    qed
  qed
qed

lemma draw_s2_Some: "draw_s2 s1 ds = Some s2 \<Longrightarrow> s1 + 56 \<noteq> s2 \<and> (\<exists>d \<in> set ds. s2 = int d + 15)"
  by (induction ds) (auto simp: Let_def split: if_splits)

lemma draw_s2_total: "\<exists>d \<in> set ds. s1 + 56 \<noteq> int d + 15 \<Longrightarrow> \<exists>s2. draw_s2 s1 ds = Some s2"
  by (induction ds) (auto simp: Let_def)

definition g_port :: "string \<Rightarrow> gen_creds \<Rightarrow> int" where
  "g_port name c =
     (if name = ''openvpn'' then g_openvpn_port c
      else if name = ''wireguard'' then g_wg_port c
      else if name = ''amneziawg'' then g_awg_port c
      else if name = ''shadowsocks'' then g_ss_port c
      else if name = ''vless_reality'' then g_vless_port c
      else if name = ''hysteria2'' then g_hy2_port c
      else if name = ''mtproto_proxy'' then g_mtproxy_port c
      else if name = ''mtproto_proxy_alt'' then g_mtproxy_alt_port c
      else if name = ''mtproto_orig'' then g_mtproxy_orig_port c
      else 0)"

lemma g_port_upd:
  "g_port m (c\<lparr>g_openvpn_port := p\<rparr>) = (if m = ''openvpn'' then p else g_port m c)"
  "g_port m (c\<lparr>g_wg_port := p\<rparr>) = (if m = ''wireguard'' then p else g_port m c)"
  "g_port m (c\<lparr>g_awg_port := p\<rparr>) = (if m = ''amneziawg'' then p else g_port m c)"
  "g_port m (c\<lparr>g_ss_port := p\<rparr>) = (if m = ''shadowsocks'' then p else g_port m c)"
  "g_port m (c\<lparr>g_vless_port := p\<rparr>) = (if m = ''vless_reality'' then p else g_port m c)"
  "g_port m (c\<lparr>g_hy2_port := p\<rparr>) = (if m = ''hysteria2'' then p else g_port m c)"
  "g_port m (c\<lparr>g_mtproxy_port := p\<rparr>) = (if m = ''mtproto_proxy'' then p else g_port m c)"
  "g_port m (c\<lparr>g_mtproxy_alt_port := p\<rparr>) = (if m = ''mtproto_proxy_alt'' then p else g_port m c)"
  "g_port m (c\<lparr>g_mtproxy_orig_port := p\<rparr>) = (if m = ''mtproto_orig'' then p else g_port m c)"
  by (simp_all add: g_port_def)

lemma set_port_get: "set_port n p c = Some c' \<Longrightarrow> g_port m c' = (if m = n then p else g_port m c)"
  unfolding set_port_def by (auto simp: g_port_upd split: if_split_asm)

text \<open>Everything but the ports is untouched by the loop over them.\<close>

lemma set_port_rest: "set_port n p c = Some c' \<Longrightarrow> g_ss_method c' = g_ss_method c"
  by (auto simp: set_port_def split: if_splits)

lemma apply_ports_rest:
  "apply_ports ports c = Inr c' \<Longrightarrow> g_ss_method c' = g_ss_method c"
  by (induction ports c rule: apply_ports.induct) (auto dest: set_port_rest split: option.splits)

lemma apply_ports_get:
  "apply_ports ports c = Inr c' \<Longrightarrow> dict_ok ports \<Longrightarrow>
     g_port m c' = (case dict_get ports m of Some p \<Rightarrow> p | None \<Rightarrow> g_port m c)"
proof (induction ports c rule: apply_ports.induct)
  case (2 name port rest c)
  then obtain c1 where c1: "set_port name port c = Some c1" "apply_ports rest c1 = Inr c'"
    by (auto split: option.splits)
  have ok: "dict_ok rest" "dict_get rest name = None"
    using "2.prems"(2) by (auto simp: dict_ok_def dict_get_def map_of_eq_None_iff)
  have "g_port m c' = (case dict_get rest m of Some p \<Rightarrow> p | None \<Rightarrow> g_port m c1)"
    using "2.IH" [OF c1(1)] c1(2) ok by simp
  then show ?case
    using set_port_get [OF c1(1), of m] ok(2) by (auto simp: dict_get_def split: option.split)
qed simp

lemma apply_ports_total:
  "fst ` set ports \<subseteq> set known_names \<Longrightarrow> \<exists>c'. apply_ports ports c = Inr c'"
proof (induction ports c rule: apply_ports.induct)
  case (2 name port rest c)
  have "set_port name port c \<noteq> None" using "2.prems" by (auto simp: set_port_def known_names_eq)
  then show ?case using 2 by auto
qed simp

text \<open>What generation guarantees of its result.\<close>

definition awg_sound :: "gen_creds \<Rightarrow> bool" where
  "awg_sound g \<longleftrightarrow> distinct [g_awg_h1 g, g_awg_h2 g, g_awg_h3 g, g_awg_h4 g]
     \<and> list_all awg_usable [g_awg_h1 g, g_awg_h2 g, g_awg_h3 g, g_awg_h4 g]
     \<and> g_awg_s1 g + 56 \<noteq> g_awg_s2 g"

lemma faketls_secret_Inr:
  "faketls_secret sni n hex = Inr s \<Longrightarrow> dict_get sni n = Some v \<Longrightarrow> starts_with s ''ee''"
  by (auto simp: faketls_secret_def starts_with_def elim!: bindE_Inr_E)

definition gen_rest :: "(string, int) dict \<Rightarrow> (string, string) dict \<Rightarrow> gen_creds \<Rightarrow> gen_creds \<Rightarrow> bool" where
  "gen_rest ports sni c g \<longleftrightarrow> (\<forall>m. g_port m g = g_port m c) \<and> g_ss_method g = g_ss_method c
     \<and> (\<forall>v. dict_get sni ''vless_reality'' = Some v \<longrightarrow> g_vless_server_name g = v)
     \<and> (dict_get sni ''mtproto_proxy'' \<noteq> None \<longrightarrow> starts_with (g_mtproxy_secret g) ''ee'')
     \<and> (dict_get sni ''mtproto_proxy_alt'' \<noteq> None \<longrightarrow> starts_with (g_mtproxy_alt_secret g) ''ee'')
     \<and> (dict_has ports ''mtproto_orig'' \<longrightarrow> starts_with (g_mtproxy_orig_secret g) ''dd'')"

lemma generate_facts:
  assumes "generate_credentials km ports sni = Inr g"
  shows "awg_sound g \<and> (\<exists>c. apply_ports ports gen_creds_default = Inr c \<and> gen_rest ports sni c g)"
proof -
  obtain c h1 h2 h3 h4 s2 mt mt_alt where c: "apply_ports ports gen_creds_default = Inr c"
    and h: "awg_magic_headers [] (km_randbits km) = Some [h1, h2, h3, h4]"
    and s2: "draw_s2 (int (km_s1 km) + 15) (km_s2 km) = Some s2"
    and mt: "faketls_secret sni ''mtproto_proxy'' (km_mt_hex km) = Inr mt"
    and mt_alt: "faketls_secret sni ''mtproto_proxy_alt'' (km_mt_alt_hex km) = Inr mt_alt"
    and g: "g_awg_h1 g = h1" "g_awg_h2 g = h2" "g_awg_h3 g = h3" "g_awg_h4 g = h4"
      "g_awg_s1 g = int (km_s1 km) + 15" "g_awg_s2 g = s2" "g_ss_method g = g_ss_method c"
      "g_mtproxy_secret g = mt" "g_mtproxy_alt_secret g = mt_alt" "\<And>m. g_port m g = g_port m c"
      "\<And>v. dict_get sni ''vless_reality'' = Some v \<Longrightarrow> g_vless_server_name g = v"
      "dict_has ports ''mtproto_orig'' \<Longrightarrow> starts_with (g_mtproxy_orig_secret g) ''dd''"
    using assms
    by (auto simp: generate_credentials_def Let_def g_port_def starts_with_def elim!: bindE_Inr_E
        split: option.splits list.splits prod.splits)
  have "awg_sound g"
    using awg_headers_inv [OF h] draw_s2_Some [OF s2] g by (simp add: awg_sound_def)
  moreover have "gen_rest ports sni c g"
    using g faketls_secret_Inr [OF mt] faketls_secret_Inr [OF mt_alt] by (auto simp: gen_rest_def)
  ultimately show ?thesis using c by blast
qed

definition tools_work :: "key_material \<Rightarrow> bool" where
  "tools_work km \<longleftrightarrow> km_openvpn_key km \<noteq> None \<and> (\<forall>i \<in> {0, 1, 2, 3}. is_ok (wg_keypair km i))
     \<and> (\<forall>i \<in> {0, 1}. is_ok (wg_preshared_key km i)) \<and> is_ok (reality_keypair (km_xray km))"

lemma four_elements: "length r = 4 \<Longrightarrow> \<exists>a b c d. r = [a, b, c, d]"
  by (auto simp: eval_nat_numeral length_Suc_conv)

lemma faketls_ascii:
  "\<forall>v \<in> snd ` set sni. list_all (\<lambda>c. (of_char c :: nat) < 128) v \<Longrightarrow> \<exists>s. faketls_secret sni n hex = Inr s"
  by (auto simp: faketls_secret_def ascii_hex_def bindE_def split: option.splits dest!: dict_get_SomeD)

text \<open>
  C15. Generation ends and is sound: once the random source has produced four distinct usable
  32-bit values and one admissible \<open>s2\<close>, both rejection loops stop, and with working tools,
  known protocol names and ASCII host names a credential set is returned. Its four AmneziaWG
  headers are distinct 32-bit values none of which is a plain WireGuard message type, and the
  two junk sizes do not give the handshake messages the same length.
\<close>

theorem generation_terminates:
  assumes tools: "tools_work km" and names: "fst ` set ports \<subseteq> set known_names"
    and ascii: "\<forall>v \<in> snd ` set sni. list_all (\<lambda>c. (of_char c :: nat) < 128) v"
    and bits: "4 \<le> card {v \<in> uint ` set (km_randbits km). awg_usable v}"
    and s2: "\<exists>d \<in> set (km_s2 km). int (km_s1 km) + 15 + 56 \<noteq> int d + 15"
  shows "\<exists>g. generate_credentials km ports sni = Inr g
    \<and> distinct [g_awg_h1 g, g_awg_h2 g, g_awg_h3 g, g_awg_h4 g]
    \<and> {g_awg_h1 g, g_awg_h2 g, g_awg_h3 g, g_awg_h4 g} \<subseteq> {0..2 ^ 32 - 1} - {1, 2, 3, 4}
    \<and> g_awg_s1 g + 56 \<noteq> g_awg_s2 g"
proof -
  obtain r where r: "awg_magic_headers [] (km_randbits km) = Some r"
    using awg_headers_total [of "[]" "km_randbits km"] bits by auto
  then have "length r = 4" using awg_headers_inv [OF r] by simp
  then obtain h1 h2 h3 h4 where h: "r = [h1, h2, h3, h4]" using four_elements by blast
  obtain s where s: "draw_s2 (int (km_s1 km) + 15) (km_s2 km) = Some s"
    using draw_s2_total s2 by blast
  obtain c where c: "apply_ports ports gen_creds_default = Inr c"
    using apply_ports_total [OF names] by blast
  obtain psk where psk: "km_openvpn_key km = Some psk" using tools by (auto simp: tools_work_def)
  obtain k0 k1 k2 k3 where k: "wg_keypair km 0 = Inr k0" "wg_keypair km 1 = Inr k1"
    "wg_keypair km 2 = Inr k2" "wg_keypair km 3 = Inr k3"
    using tools unfolding tools_work_def by (metis insert_iff is_ok_E)
  obtain p0 p1 where p: "wg_preshared_key km 0 = Inr p0" "wg_preshared_key km 1 = Inr p1"
    using tools unfolding tools_work_def by (metis insert_iff is_ok_E)
  obtain x where x: "reality_keypair (km_xray km) = Inr x"
    using tools unfolding tools_work_def by (metis is_ok_E)
  obtain m0 m1 where m: "faketls_secret sni ''mtproto_proxy'' (km_mt_hex km) = Inr m0"
    "faketls_secret sni ''mtproto_proxy_alt'' (km_mt_alt_hex km) = Inr m1"
    using faketls_ascii [OF ascii] by blast
  have "is_ok (generate_credentials km ports sni)"
    using r h s c psk k p x m
    by (simp add: generate_credentials_def bindE_def of_tool_def Let_def split: prod.split)
  then obtain g where g: "generate_credentials km ports sni = Inr g" by (rule is_ok_E)
  have "awg_sound g" using generate_facts [OF g] by blast
  then show ?thesis using g
    by (auto simp: awg_sound_def awg_usable_def awg_forbidden_def)
qed

definition example_km :: key_material where
  "example_km = \<lparr>km_openvpn_key = Some ''psk'', km_wg_genkey = (\<lambda>_. Some ''priv''),
     km_wg_pubkey = (\<lambda>s. Some (s @ ''.pub'')), km_wg_genpsk = (\<lambda>_. Some ''shared''),
     km_randbits = [7, 3, 7, 9, 11, 13], km_jc = 1, km_jmin = 2, km_jmax = 3, km_s1 = 4,
     km_s2 = [60, 61], km_ss_password = ''pw'', km_uuid = ''uuid'',
     km_xray = Some (''Private key: a'' @ [CHR 0x0A] @ ''Public key: b''), km_short_id = ''01'',
     km_hy2_auth = ''au'', km_hy2_obfs = ''ob'', km_mt_hex = ''00'', km_mt_alt_hex = ''11'',
     km_mt_orig_hex = ''22''\<rparr>"

lemma example_km_works: "tools_work example_km"
proof -
  have "is_ok (wg_keypair example_km i)" "is_ok (wg_preshared_key example_km i)" for i
    by (simp_all add: wg_keypair_def wg_preshared_key_def example_km_def of_tool_def bindE_def Let_def)
  moreover have "is_ok (reality_keypair (km_xray example_km))" by code_simp
  ultimately show ?thesis by (simp add: tools_work_def example_km_def)
qed

theorem generation_terminates_witness:
  "\<exists>g. generate_credentials example_km [(''amneziawg'', 51821)] [(''mtproto_proxy'', ''ya.ru'')] = Inr g
     \<and> g_awg_s1 g + 56 \<noteq> g_awg_s2 g"
proof -
  have n: "fst ` set [(''amneziawg'', 51821 :: int)] \<subseteq> set known_names" by (simp add: known_names_eq)
  have a: "\<forall>v \<in> snd ` set [(''mtproto_proxy'', ''ya.ru'')]. list_all (\<lambda>c. (of_char c :: nat) < 128) v"
    by simp
  have "{v \<in> uint ` set (km_randbits example_km). awg_usable v} = {7, 9, 11, 13}"
    by (auto simp: example_km_def awg_usable_def awg_forbidden_def)
  then have b: "4 \<le> card {v \<in> uint ` set (km_randbits example_km). awg_usable v}" by simp
  have s: "\<exists>d \<in> set (km_s2 example_km). int (km_s1 example_km) + 15 + 56 \<noteq> int d + 15"
    by (simp add: example_km_def)
  show ?thesis using generation_terminates [OF example_km_works n a b s] by blast
qed

text \<open>
  C21. The served document reveals no server-private key: it is the same for any two credential
  sets that differ in the WireGuard, AmneziaWG and Reality private keys of the server.
\<close>

theorem no_server_private_keys:
  "creds_to_yaml dump (g\<lparr>g_wg_server_private := a, g_awg_server_private := b, g_vless_pvk := p\<rparr>) enabled
     = creds_to_yaml dump g enabled"
proof -
  have sec: "f (g\<lparr>g_wg_server_private := a, g_awg_server_private := b, g_vless_pvk := p\<rparr>) = f g"
    if "(n, f) \<in> set SECTION_BUILDERS" for n f
    using that
    by (auto simp: SECTION_BUILDERS_def section_openvpn_def section_wireguard_def section_amneziawg_def
        section_shadowsocks_def section_vless_reality_def section_hysteria2_def
        section_mtproto_proxy_def section_mtproto_proxy_alt_def section_mtproto_orig_def)
  have "foldl (\<lambda>d n. dict_set n (JObj (the (dict_get SECTION_BUILDERS n)
          (g\<lparr>g_wg_server_private := a, g_awg_server_private := b, g_vless_pvk := p\<rparr>))) d) d0 ns =
        foldl (\<lambda>d n. dict_set n (JObj (the (dict_get SECTION_BUILDERS n) g)) d) d0 ns"
    if "\<forall>n \<in> set ns. dict_has SECTION_BUILDERS n" for ns d0
    using that
  proof (induction ns arbitrary: d0)
    case (Cons n ns)
    then obtain f where f: "dict_get SECTION_BUILDERS n = Some f" by (auto simp: dict_has_iff)
    show ?case using Cons sec [OF dict_get_SomeD [OF f]] f by simp
  qed simp
  then show ?thesis by (simp add: creds_to_yaml_def creds_doc_def Let_def)
qed

end
