(* ===== verification/Responders.thy ===== *)
theory Responders
  imports Iptables EchoServer Credentials Utils
begin

text \<open>
  The listener's responders (\<open>wg_responder.py\<close>, \<open>openvpn_responder.py\<close>,
  \<open>mtproxy_responder.py\<close>, \<open>mtproto_orig_responder.py\<close>, \<open>_responder_base.py\<close> with its
  three subclasses, \<open>_responder_dispatch.py\<close>): how each derives its handshake count and its
  data signal from what the tools print, what it freezes when it stops, and the snapshot it
  hands to the credential server. The processes, interfaces and files are left out; what they
  show at one moment is a \<open>vantage\<close>.
\<close>

record vantage =
  vt_wg_show :: "string \<Rightarrow> (string \<times> string) option"
    \<comment> \<open>by tool: transfer and latest-handshakes, \<open>None\<close> when it fails\<close>
  vt_ovpn_status :: "string option"  \<comment> \<open>\<open>None\<close>: no readable status file\<close>
  vt_firewall :: firewall
  vt_echo :: "echo_server option"

section \<open>WireGuard and AmneziaWG\<close>

definition MIN_ECHO_BYTES :: int where "MIN_ECHO_BYTES = 64"

text \<open>A line whose third field is no number has already added its second one.\<close>

fun wg_transfer :: "string list \<Rightarrow> int \<Rightarrow> int \<Rightarrow> int \<times> int" where
  "wg_transfer [] rx tx = (rx, tx)"
| "wg_transfer (l # ls) rx tx =
     (let parts = split_ws l in
      if length parts < 3 then wg_transfer ls rx tx
      else case int_of_str (parts ! 1) of
          None \<Rightarrow> wg_transfer ls rx tx
        | Some r \<Rightarrow> (case int_of_str (parts ! 2) of
              None \<Rightarrow> wg_transfer ls (rx + r) tx
            | Some t \<Rightarrow> wg_transfer ls (rx + r) (tx + t)))"

definition wg_handshakes :: "string list \<Rightarrow> int" where
  "wg_handshakes ls = int (length (filter (\<lambda>l. let parts = split_ws l in
     2 \<le> length parts \<and> parts ! 1 \<noteq> ''0'') ls))"

definition read_wg_transfer :: "(string \<times> string) option \<Rightarrow> int \<times> int \<times> int" where
  "read_wg_transfer show =
     (case show of
        None \<Rightarrow> (0, 0, 0)
      | Some (out_tr, out_hs) \<Rightarrow>
          (let (rx, tx) = wg_transfer (splitlines out_tr) 0 0 in
           (wg_handshakes (splitlines out_hs), rx, tx)))"

text \<open>The two classes differ in the tool they ask, \<open>wg\<close> or \<open>awg\<close>.\<close>

record wg_responder =
  wg_tool :: string
  wg_final_hs_count :: int
  wg_final_rx_bytes :: int
  wg_snapshot_taken :: bool

definition wg_init :: "string \<Rightarrow> wg_responder" where
  "wg_init tool = \<lparr>wg_tool = tool, wg_final_hs_count = 0, wg_final_rx_bytes = 0, wg_snapshot_taken = False\<rparr>"

definition wg_stop :: "vantage \<Rightarrow> wg_responder \<Rightarrow> wg_responder" where
  "wg_stop v w = (let (hs, rx, _) = read_wg_transfer (vt_wg_show v (wg_tool w)) in
     w\<lparr>wg_final_hs_count := hs, wg_final_rx_bytes := rx, wg_snapshot_taken := True\<rparr>)"

definition wg_connection_count :: "vantage \<Rightarrow> wg_responder \<Rightarrow> int" where
  "wg_connection_count v w =
     (if wg_snapshot_taken w then wg_final_hs_count w else fst (read_wg_transfer (vt_wg_show v (wg_tool w))))"

definition wg_data_transfer_ok :: "vantage \<Rightarrow> wg_responder \<Rightarrow> bool" where
  "wg_data_transfer_ok v w =
     (if wg_snapshot_taken w then MIN_ECHO_BYTES < wg_final_rx_bytes w
      else MIN_ECHO_BYTES < fst (snd (read_wg_transfer (vt_wg_show v (wg_tool w)))))"

definition wg_live_snapshot :: "vantage \<Rightarrow> wg_responder \<Rightarrow> live_snapshot" where
  "wg_live_snapshot v w =
     (if wg_snapshot_taken w then
        LiveSnapshot_default\<lparr>ls_handshake_count := wg_final_hs_count w,
          ls_data_transfer_ok := MIN_ECHO_BYTES < wg_final_rx_bytes w,
          ls_data_packets := None, ls_bytes_received := Some (wg_final_rx_bytes w)\<rparr>
      else let (hs, rx, _) = read_wg_transfer (vt_wg_show v (wg_tool w)) in
        LiveSnapshot_default\<lparr>ls_handshake_count := hs, ls_data_transfer_ok := MIN_ECHO_BYTES < rx,
          ls_data_packets := None, ls_bytes_received := Some rx\<rparr>)"

section \<open>OpenVPN\<close>

definition MIN_OVPN_DATA_PACKETS :: int where "MIN_OVPN_DATA_PACKETS = 2"
definition DATA_INPUT_LENGTH_MIN :: int where "DATA_INPUT_LENGTH_MIN = 130"
definition AUTH_BYTES_LABEL :: string where "AUTH_BYTES_LABEL = ''Auth read bytes''"

definition status_targets :: "string list" where
  "status_targets = [AUTH_BYTES_LABEL, ''TUN/TAP read bytes'', ''TCP/UDP read bytes'', ''TCP/UDP write bytes'']"

definition status_line :: "string \<Rightarrow> (string, int) dict \<Rightarrow> (string, int) dict" where
  "status_line l counters =
     (case first_that (\<lambda>label. starts_with l (label @ '','')) status_targets of
        None \<Rightarrow> counters
      | Some label \<Rightarrow>
          (case int_of_str (str_strip (snd (str_partition '','' l))) of
             None \<Rightarrow> counters
           | Some n \<Rightarrow> dict_set label n counters))"

definition parse_status_counters :: "string option \<Rightarrow> (string, int) dict option" where
  "parse_status_counters content =
     map_option (\<lambda>c. foldl (\<lambda>counters l. status_line l counters) [] (splitlines c)) content"

definition read_status :: "string option \<Rightarrow> int \<times> int" where
  "read_status content =
     (case parse_status_counters content of
        None \<Rightarrow> (0, 0)
      | Some counters \<Rightarrow>
          let auth_bytes = dict_default counters AUTH_BYTES_LABEL 0 in
          (if 0 < auth_bytes then 1 else 0, auth_bytes))"

record ovpn_responder =
  ov_port :: int
  ov_final_handshake_count :: int
  ov_final_bytes_received :: int
  ov_final_data_packets :: int
  ov_snapshot_taken :: bool
  ov_max_auth_bytes_seen :: int

definition ovpn_init :: "int \<Rightarrow> ovpn_responder" where
  "ovpn_init port = \<lparr>ov_port = port, ov_final_handshake_count = 0, ov_final_bytes_received = 0,
     ov_final_data_packets = 0, ov_snapshot_taken = False, ov_max_auth_bytes_seen = 0\<rparr>"

definition ovpn_comment :: "ovpn_responder \<Rightarrow> string" where
  "ovpn_comment o1 = ''censprobe-ovpn-data-'' @ str_of_int (ov_port o1)"

definition ovpn_counter_rule_args :: "ovpn_responder \<Rightarrow> string list" where
  "ovpn_counter_rule_args o1 =
     [''-p'', ''udp'', ''--dport'', str_of_int (ov_port o1), ''-m'', ''length'', ''--length'',
      str_of_int DATA_INPUT_LENGTH_MIN @ '':'', ''-m'', ''comment'', ''--comment'', ovpn_comment o1]"

text \<open>One tick of the poller that latches the largest authenticated byte count.\<close>

definition latch_auth_bytes :: "vantage \<Rightarrow> ovpn_responder \<Rightarrow> ovpn_responder" where
  "latch_auth_bytes v o1 = (let b = snd (read_status (vt_ovpn_status v)) in
     if ov_max_auth_bytes_seen o1 < b then o1\<lparr>ov_max_auth_bytes_seen := b\<rparr> else o1)"

definition ovpn_stop :: "vantage \<Rightarrow> ovpn_responder \<Rightarrow> ovpn_responder" where
  "ovpn_stop v o1 =
     (let live_auth = snd (read_status (vt_ovpn_status v));
          bytes = max (ov_max_auth_bytes_seen o1) live_auth
      in o1\<lparr>ov_final_bytes_received := bytes,
            ov_final_handshake_count := (if 0 < bytes then 1 else 0),
            ov_final_data_packets := read_counter (vt_firewall v) ''INPUT'' (ovpn_comment o1),
            ov_snapshot_taken := True\<rparr>)"

definition ovpn_connection_count :: "vantage \<Rightarrow> ovpn_responder \<Rightarrow> int" where
  "ovpn_connection_count v o1 =
     (if ov_snapshot_taken o1 then ov_final_handshake_count o1
      else if 0 < max (ov_max_auth_bytes_seen o1) (snd (read_status (vt_ovpn_status v))) then 1 else 0)"

definition ovpn_data_transfer_ok :: "vantage \<Rightarrow> ovpn_responder \<Rightarrow> bool" where
  "ovpn_data_transfer_ok v o1 =
     (if ov_snapshot_taken o1 then
        (if ov_final_handshake_count o1 = 0 then False
         else if MIN_OVPN_DATA_PACKETS \<le> ov_final_data_packets o1 then True
         else 1500 < ov_final_bytes_received o1)
      else 1500 < snd (read_status (vt_ovpn_status v)))"

definition ovpn_live_snapshot :: "vantage \<Rightarrow> ovpn_responder \<Rightarrow> live_snapshot" where
  "ovpn_live_snapshot v o1 =
     (if ov_snapshot_taken o1 then
        LiveSnapshot_default\<lparr>ls_handshake_count := ov_final_handshake_count o1,
          ls_data_transfer_ok := ovpn_data_transfer_ok v o1,
          ls_data_packets := Some (ov_final_data_packets o1),
          ls_bytes_received := Some (ov_final_bytes_received o1)\<rparr>
      else
        let auth_bytes = max (ov_max_auth_bytes_seen o1) (snd (read_status (vt_ovpn_status v)));
            hs = (if 0 < auth_bytes then 1 else 0);
            live_packets = read_counter_sync (vt_firewall v) ''INPUT'' (ovpn_comment o1) 0;
            data_ok = (if hs = 0 then False
              else if MIN_OVPN_DATA_PACKETS \<le> live_packets then True else 1500 < auth_bytes)
        in LiveSnapshot_default\<lparr>ls_handshake_count := hs, ls_data_transfer_ok := data_ok,
             ls_data_packets := Some live_packets, ls_bytes_received := Some auth_bytes\<rparr>)"

section \<open>The Go MTProxy (mtg)\<close>

record mtg_responder =
  mt_port :: int
  mt_secret :: string
  mt_running :: bool   \<comment> \<open>\<open>_proc\<close> is set\<close>
  mt_connection_count :: int
  mt_final_data_packets :: int

definition mtg_init :: "int \<Rightarrow> string \<Rightarrow> mtg_responder" where
  "mtg_init port secret = \<lparr>mt_port = port, mt_secret = secret, mt_running = True,
     mt_connection_count = 0, mt_final_data_packets = 0\<rparr>"

definition mtg_comment :: "mtg_responder \<Rightarrow> string" where
  "mtg_comment m = ''censprobe-mtg-'' @ str_of_int (mt_port m)"

definition psh_ack_rule_args :: "int \<Rightarrow> string \<Rightarrow> string list" where
  "psh_ack_rule_args port comment =
     [''-p'', ''tcp'', ''--sport'', str_of_int port, ''--tcp-flags'', ''PSH,ACK'', ''PSH,ACK'',
      ''-m'', ''comment'', ''--comment'', comment]"

definition mtg_counter_rule_args :: "mtg_responder \<Rightarrow> string list" where
  "mtg_counter_rule_args m = psh_ack_rule_args (mt_port m) (mtg_comment m)"

definition mtg_cmd :: "bool \<Rightarrow> mtg_responder \<Rightarrow> string list" where
  "mtg_cmd setpriv_available m = with_privsep setpriv_available
     [''mtg'', ''simple-run'', ''-d'', ''-t'', ''30s'', ''0.0.0.0:'' @ str_of_int (mt_port m), mt_secret m]
     (mt_port m < 1024)"

definition mtg_failure_markers :: "string list" where
  "mtg_failure_markers =
     [''cannot parse client hello'', ''cannot read client hello'', ''cannot send welcome packet'',
      ''obfuscated handshake is failed'', ''cannot wrap into doppelganger connection'',
      ''ip was rejected by allowlist'', ''ip was blacklisted'', ''connection was concurrency limited'']"

definition mtg_monitor_line :: "string \<Rightarrow> mtg_responder \<Rightarrow> mtg_responder" where
  "mtg_monitor_line raw m =
     (let line = str_strip raw in
      if line = [] then m
      else let low = str_lower line in
        if str_contains low ''stream has been started''
        then m\<lparr>mt_connection_count := mt_connection_count m + 1\<rparr>
        else if \<exists>marker \<in> set mtg_failure_markers. str_contains low marker
        then m\<lparr>mt_connection_count := max 0 (mt_connection_count m - 1)\<rparr>
        else m)"

definition mtg_stop :: "vantage \<Rightarrow> mtg_responder \<Rightarrow> mtg_responder" where
  "mtg_stop v m = m\<lparr>mt_final_data_packets := read_counter (vt_firewall v) ''OUTPUT'' (mtg_comment m),
     mt_running := False\<rparr>"

definition mtg_data_transfer_ok :: "vantage \<Rightarrow> mtg_responder \<Rightarrow> bool" where
  "mtg_data_transfer_ok v m \<longleftrightarrow> 0 < mt_final_data_packets m"

definition mtg_live_snapshot :: "vantage \<Rightarrow> mtg_responder \<Rightarrow> live_snapshot" where
  "mtg_live_snapshot v m =
     (if \<not> mt_running m then
        LiveSnapshot_default\<lparr>ls_handshake_count := mt_connection_count m,
          ls_data_transfer_ok := 0 < mt_final_data_packets m,
          ls_data_packets := Some (mt_final_data_packets m)\<rparr>
      else let live_packets = read_counter_sync (vt_firewall v) ''OUTPUT'' (mtg_comment m) 0 in
        LiveSnapshot_default\<lparr>ls_handshake_count := mt_connection_count m,
          ls_data_transfer_ok := 0 < live_packets, ls_data_packets := Some live_packets\<rparr>)"

section \<open>The original MTProxy\<close>

record mto_responder =
  mo_port :: int
  mo_secret :: string
  mo_running :: bool
  mo_connection_count :: int
  mo_unavailable :: bool
  mo_upstream_alive_count :: int
  mo_upstream_total_count :: int

definition mto_init :: "int \<Rightarrow> string \<Rightarrow> mto_responder" where
  "mto_init port secret = \<lparr>mo_port = port, mo_secret = secret, mo_running = False,
     mo_connection_count = 0, mo_unavailable = False, mo_upstream_alive_count = 0,
     mo_upstream_total_count = 0\<rparr>"

definition secret_for_argv :: "mto_responder \<Rightarrow> string" where
  "secret_for_argv m = (let s = str_lower (mo_secret m) in
     if starts_with s ''dd'' then drop 2 s else s)"

definition mto_comment :: "mto_responder \<Rightarrow> string" where
  "mto_comment m = ''censprobe-mtorig-'' @ str_of_int (mo_port m)"

definition mto_counter_rule_args :: "mto_responder \<Rightarrow> string list" where
  "mto_counter_rule_args m = psh_ack_rule_args (mo_port m) (mto_comment m)"

definition mto_cmd ::
    "int \<Rightarrow> string \<Rightarrow> string \<Rightarrow> (string \<times> string) option \<Rightarrow> mto_responder \<Rightarrow> string list" where
  "mto_cmd stats_port secret_path pruned_conf nat_pair m =
     [''mtproto-proxy'', ''-u'', ''nobody'', ''-p'', str_of_int stats_port, ''-H'', str_of_int (mo_port m),
      ''-S'', secret_for_argv m, ''--aes-pwd'', secret_path, pruned_conf, ''-M'', ''1''] @
     (case nat_pair of None \<Rightarrow> []
      | Some (private_ip, public_ip) \<Rightarrow> [''--nat-info'', private_ip @ '':'' @ public_ip])"

text \<open>
  Starting: the upstreams that answered and those that did not, and whether the process was
  still alive after the settle window.
\<close>

definition mto_start :: "'u list \<Rightarrow> 'w list \<Rightarrow> bool \<Rightarrow> mto_responder \<Rightarrow> string + mto_responder" where
  "mto_start alive unreachable survives m =
     (let m1 = m\<lparr>mo_upstream_alive_count := int (length alive),
                 mo_upstream_total_count := int (length alive) + int (length unreachable)\<rparr> in
      if mo_upstream_total_count m1 = 0 then Inr (m1\<lparr>mo_unavailable := True\<rparr>)
      else if alive = [] then Inr (m1\<lparr>mo_unavailable := True\<rparr>)
      else if \<not> survives then Inl ''mtproto-proxy failed to start''
      else Inr (m1\<lparr>mo_running := True\<rparr>))"

definition mto_stop :: "vantage \<Rightarrow> mto_responder \<Rightarrow> mto_responder" where
  "mto_stop v m =
     (if mo_unavailable m then m
      else let observed = read_counter (vt_firewall v) ''OUTPUT'' (mto_comment m) in
        m\<lparr>mo_connection_count := (if mo_connection_count m < observed then observed else mo_connection_count m),
          mo_running := False\<rparr>)"

definition mto_data_transfer_ok :: "vantage \<Rightarrow> mto_responder \<Rightarrow> bool" where
  "mto_data_transfer_ok v m \<longleftrightarrow> 0 < mo_connection_count m"

definition mto_live_snapshot :: "vantage \<Rightarrow> mto_responder \<Rightarrow> live_snapshot" where
  "mto_live_snapshot v m =
     (if mo_unavailable m \<or> \<not> mo_running m then
        LiveSnapshot_default\<lparr>ls_handshake_count := mo_connection_count m,
          ls_data_transfer_ok := 0 < mo_connection_count m,
          ls_data_packets := Some (mo_connection_count m)\<rparr>
      else let live_packets = read_counter_sync (vt_firewall v) ''OUTPUT'' (mto_comment m) 0 in
        LiveSnapshot_default\<lparr>ls_handshake_count := live_packets,
          ls_data_transfer_ok := 0 < live_packets, ls_data_packets := Some live_packets\<rparr>)"

section \<open>The proxies run as subprocesses\<close>

record sub_responder =
  sb_label :: string
  sb_port :: int
  sb_patterns :: "string list"
  sb_connection_count :: int
  sb_counter_status :: install_status

definition sub_init :: "string \<Rightarrow> int \<Rightarrow> string list \<Rightarrow> sub_responder" where
  "sub_init label port patterns = \<lparr>sb_label = label, sb_port = port, sb_patterns = patterns,
     sb_connection_count = 0, sb_counter_status = []\<rparr>"

definition sub_comment :: "sub_responder \<Rightarrow> string" where
  "sub_comment s = ''censprobe-throughput-'' @ sb_label s @ ''-'' @ str_of_int (sb_port s)"

definition sub_transport :: "sub_responder \<Rightarrow> transport" where
  "sub_transport s = (case get_protocol (sb_label s) of None \<Rightarrow> tcp | Some spec \<Rightarrow> ps_transport spec)"

definition sub_counter_rule_args :: "sub_responder \<Rightarrow> string list" where
  "sub_counter_rule_args s =
     (if sub_transport s = udp then
        [''-p'', ''udp'', ''--sport'', str_of_int (sb_port s), ''-m'', ''comment'', ''--comment'', sub_comment s]
      else psh_ack_rule_args (sb_port s) (sub_comment s))"

definition sub_cmd :: "bool \<Rightarrow> string list \<Rightarrow> sub_responder \<Rightarrow> string list" where
  "sub_cmd setpriv_available argv s = with_privsep setpriv_available argv (sb_port s < 1024)"

text \<open>
  Once the process has survived its settle window: the counter is installed and, when there is
  one and an echo server, registered as the protocol's throughput reader.
\<close>

definition sub_start ::
    "firewall \<Rightarrow> bool \<Rightarrow> sub_responder \<Rightarrow> echo_server option \<Rightarrow> string + sub_responder \<times> echo_server option" where
  "sub_start fw survives s echo =
     (if sb_label s = [] then Inl ''did not set proto_label''
      else if \<not> survives then Inl ''failed to start''
      else let status = install_counter fw ''OUTPUT'' (sub_counter_rule_args s) in
        Inr (s\<lparr>sb_counter_status := status\<rparr>,
             if status \<noteq> [] then map_option (register_throughput_reader (sb_label s) (sub_comment s)) echo
             else echo))"

definition sub_stop :: "sub_responder \<Rightarrow> echo_server option \<Rightarrow> sub_responder \<times> echo_server option" where
  "sub_stop s echo = (s\<lparr>sb_counter_status := []\<rparr>, map_option (unregister_throughput_reader (sb_label s)) echo)"

definition sub_monitor_line :: "string \<Rightarrow> sub_responder \<Rightarrow> sub_responder" where
  "sub_monitor_line raw s =
     (let line = str_strip raw in
      if line = [] then s
      else let low = str_lower line in
        if \<exists>p \<in> set (sb_patterns s). str_contains low p
        then s\<lparr>sb_connection_count := sb_connection_count s + 1\<rparr> else s)"

definition read_throughput_bytes :: "firewall \<Rightarrow> sub_responder \<Rightarrow> int option" where
  "read_throughput_bytes fw s =
     (if sb_counter_status s = [] then None else Some (read_counter_bytes fw ''OUTPUT'' (sub_comment s)))"

definition sub_data_transfer_ok :: "vantage \<Rightarrow> sub_responder \<Rightarrow> bool" where
  "sub_data_transfer_ok v s =
     (case vt_echo v of None \<Rightarrow> False | Some es \<Rightarrow> data_ok es (sb_label s) MIN_BYTES)"

definition sub_live_snapshot :: "vantage \<Rightarrow> sub_responder \<Rightarrow> live_snapshot" where
  "sub_live_snapshot v s =
     (let bytes_seen = (case vt_echo v of None \<Rightarrow> None
        | Some es \<Rightarrow> Some (case dict_get (echo_snapshot es) (sb_label s) of
              None \<Rightarrow> 0 | Some (_, bytes, _) \<Rightarrow> bytes))
      in LiveSnapshot_default\<lparr>ls_handshake_count := sb_connection_count s,
           ls_data_transfer_ok := sub_data_transfer_ok v s, ls_bytes_received := bytes_seen\<rparr>)"

text \<open>The three configurations, with the binary's command line.\<close>

definition ss_argv :: "string \<Rightarrow> string list" where
  "ss_argv config_path = [''sing-box'', ''run'', ''-c'', config_path]"

definition ss_config :: "gen_creds \<Rightarrow> int \<Rightarrow> json" where
  "ss_config c echo_port = JObj
     [(''log'', JObj [(''level'', JStr ''info''), (''output'', JStr ''stdout''), (''timestamp'', JBool True)]),
      (''inbounds'', JList [JObj [(''type'', JStr ''shadowsocks''), (''tag'', JStr ''censprobe-ss''),
         (''listen'', JStr ''::''), (''listen_port'', JInt (g_ss_port c)), (''method'', JStr (g_ss_method c)),
         (''password'', JStr (g_ss_password_b64 c)), (''multiplex'', JObj [(''enabled'', JBool False)])]]),
      (''outbounds'', JList [JObj [(''type'', JStr ''direct''), (''tag'', JStr ''direct'')],
         JObj [(''type'', JStr ''block''), (''tag'', JStr ''block'')]]),
      (''route'', JObj [(''final'', JStr ''block''),
         (''rules'', JList [JObj [(''ip_cidr'', JList [JStr ''127.0.0.1/32'']),
            (''port'', JList [JInt echo_port]), (''outbound'', JStr ''direct'')]])])]"

definition vless_argv :: "string \<Rightarrow> string list" where
  "vless_argv config_path = [''xray'', ''run'', ''-c'', config_path]"

definition vless_config :: "gen_creds \<Rightarrow> int \<Rightarrow> json" where
  "vless_config c echo_port = JObj
     [(''log'', JObj [(''loglevel'', JStr ''info'')]),
      (''inbounds'', JList [JObj [(''tag'', JStr ''censprobe-vless''), (''port'', JInt (g_vless_port c)),
         (''protocol'', JStr ''vless''),
         (''settings'', JObj [(''clients'', JList [JObj [(''id'', JStr (g_vless_uuid c)),
              (''flow'', JStr ''xtls-rprx-vision'')]]), (''decryption'', JStr ''none'')]),
         (''streamSettings'', JObj [(''network'', JStr ''tcp''), (''security'', JStr ''reality''),
            (''realitySettings'', JObj [(''show'', JBool False),
               (''dest'', JStr (g_vless_server_name c @ '':443'')), (''xver'', JInt 0),
               (''serverNames'', JList [JStr (g_vless_server_name c)]),
               (''privateKey'', JStr (g_vless_pvk c)), (''shortIds'', JList [JStr (g_vless_short_id c)])])]),
         (''sniffing'', JObj [(''enabled'', JBool False)])]]),
      (''outbounds'', JList [JObj [(''tag'', JStr ''direct''), (''protocol'', JStr ''freedom'')],
         JObj [(''tag'', JStr ''block''), (''protocol'', JStr ''blackhole'')]]),
      (''routing'', JObj [(''rules'', JList
         [JObj [(''type'', JStr ''field''), (''ip'', JList [JStr ''127.0.0.1/32'']),
            (''port'', JStr (str_of_int echo_port)), (''outboundTag'', JStr ''direct'')],
          JObj [(''type'', JStr ''field''), (''inboundTag'', JList [JStr ''censprobe-vless'']),
            (''outboundTag'', JStr ''block'')]])])]"

definition hysteria_argv :: "string \<Rightarrow> string list" where
  "hysteria_argv config_path = [''hysteria'', ''server'', ''--config'', config_path]"

definition hysteria_acl :: "int \<Rightarrow> string" where
  "hysteria_acl echo_port = ''direct(127.0.0.1/32, tcp/'' @ str_of_int echo_port @ '')'' @ [CHR 0x0A]
     @ ''reject(all)'' @ [CHR 0x0A]"

text \<open>\<open>paths\<close>: the certificate, key and ACL files, once \<open>pre_spawn_setup\<close> has written them.\<close>

definition hysteria_config :: "gen_creds \<Rightarrow> (string \<times> string \<times> string) option \<Rightarrow> string + json" where
  "hysteria_config c paths =
     (case paths of
        None \<Rightarrow> Inl ''config_dict() called before pre_spawn_setup()''
      | Some (cert, key, acl) \<Rightarrow> Inr (JObj
          [(''listen'', JStr ('':'' @ str_of_int (g_hy2_port c))),
           (''tls'', JObj [(''cert'', JStr cert), (''key'', JStr key)]),
           (''obfs'', JObj [(''type'', JStr ''salamander''),
              (''salamander'', JObj [(''password'', JStr (g_hy2_obfs_password c))])]),
           (''auth'', JObj [(''type'', JStr ''password''), (''password'', JStr (g_hy2_auth c))]),
           (''masquerade'', JObj [(''type'', JStr ''string''),
              (''string'', JObj [(''content'', JStr ''Not Found''),
                 (''headers'', JObj [(''Content-Type'', JStr ''text/plain'')]), (''statusCode'', JInt 404)])]),
           (''acl'', JObj [(''file'', JStr acl)])]))"

section \<open>Tunnel configuration files\<close>

definition wg_config :: "gen_creds \<Rightarrow> string" where
  "wg_config c = join_lines
     [''[Interface]'', ''ListenPort = '' @ str_of_int (g_wg_port c), ''PrivateKey = '' @ g_wg_server_private c,
      [], ''[Peer]'', ''PublicKey = '' @ g_wg_client_public c, ''PresharedKey = '' @ g_wg_preshared_key c,
      ''AllowedIPs = 10.202.0.2/32'']"

definition awg_config :: "gen_creds \<Rightarrow> string" where
  "awg_config c = join_lines
     [''[Interface]'', ''ListenPort = '' @ str_of_int (g_awg_port c), ''PrivateKey = '' @ g_awg_server_private c,
      ''Address = 10.201.0.1/24'', ''Jc = '' @ str_of_int (g_awg_jc c), ''Jmin = '' @ str_of_int (g_awg_jmin c),
      ''Jmax = '' @ str_of_int (g_awg_jmax c), ''S1 = '' @ str_of_int (g_awg_s1 c), ''S2 = '' @ str_of_int (g_awg_s2 c),
      ''H1 = '' @ str_of_int (g_awg_h1 c), ''H2 = '' @ str_of_int (g_awg_h2 c), ''H3 = '' @ str_of_int (g_awg_h3 c),
      ''H4 = '' @ str_of_int (g_awg_h4 c), [], ''[Peer]'', ''PublicKey = '' @ g_awg_client_public c,
      ''PresharedKey = '' @ g_awg_preshared_key c, ''AllowedIPs = 10.201.0.2/32'']"

definition ovpn_config :: "string \<Rightarrow> string \<Rightarrow> string \<Rightarrow> int \<Rightarrow> string" where
  "ovpn_config psk_path status_path log_path port = join_lines
     [[], ''proto udp'', ''port '' @ str_of_int port, ''dev censovpn0'', ''dev-type tun'', ''secret '' @ psk_path,
      ''ifconfig 10.200.0.1 10.200.0.2'', ''keepalive 10 60'', ''cipher AES-256-CBC'', ''persist-key'',
      ''persist-tun'', ''status '' @ status_path @ '' 5'', ''log-append '' @ log_path, ''verb 1'']"

section \<open>Dispatch\<close>

datatype responder =
    OpenVPN ovpn_responder
  | WireGuard wg_responder
  | Mtg mtg_responder
  | MtOrig mto_responder
  | Subprocess sub_responder

definition LISTENER_RESPONDERS :: "(string, gen_creds \<Rightarrow> responder) dict" where
  "LISTENER_RESPONDERS =
     [(''openvpn'', \<lambda>c. OpenVPN (ovpn_init (g_openvpn_port c))),
      (''wireguard'', \<lambda>c. WireGuard (wg_init ''wg'')),
      (''amneziawg'', \<lambda>c. WireGuard (wg_init ''awg'')),
      (''shadowsocks'', \<lambda>c. Subprocess (sub_init ''shadowsocks'' (g_ss_port c)
          [''inbound connection from'', ''accepted tcp:''])),
      (''vless_reality'', \<lambda>c. Subprocess (sub_init ''vless_reality'' (g_vless_port c) [''accepted tcp:''])),
      (''hysteria2'', \<lambda>c. Subprocess (sub_init ''hysteria2'' (g_hy2_port c) [''client connected''])),
      (''mtproto_proxy'', \<lambda>c. Mtg (mtg_init (g_mtproxy_port c) (g_mtproxy_secret c))),
      (''mtproto_proxy_alt'', \<lambda>c. Mtg (mtg_init (g_mtproxy_alt_port c) (g_mtproxy_alt_secret c))),
      (''mtproto_orig'', \<lambda>c. MtOrig (mto_init (g_mtproxy_orig_port c) (g_mtproxy_orig_secret c)))]"

fun resp_stop :: "vantage \<Rightarrow> responder \<Rightarrow> responder" where
  "resp_stop v (OpenVPN r) = OpenVPN (ovpn_stop v r)"
| "resp_stop v (WireGuard r) = WireGuard (wg_stop v r)"
| "resp_stop v (Mtg r) = Mtg (mtg_stop v r)"
| "resp_stop v (MtOrig r) = MtOrig (mto_stop v r)"
| "resp_stop v (Subprocess r) = Subprocess (fst (sub_stop r (vt_echo v)))"

fun resp_connection_count :: "vantage \<Rightarrow> responder \<Rightarrow> int" where
  "resp_connection_count v (OpenVPN r) = ovpn_connection_count v r"
| "resp_connection_count v (WireGuard r) = wg_connection_count v r"
| "resp_connection_count v (Mtg r) = mt_connection_count r"
| "resp_connection_count v (MtOrig r) = mo_connection_count r"
| "resp_connection_count v (Subprocess r) = sb_connection_count r"

fun resp_data_transfer_ok :: "vantage \<Rightarrow> responder \<Rightarrow> bool" where
  "resp_data_transfer_ok v (OpenVPN r) = ovpn_data_transfer_ok v r"
| "resp_data_transfer_ok v (WireGuard r) = wg_data_transfer_ok v r"
| "resp_data_transfer_ok v (Mtg r) = mtg_data_transfer_ok v r"
| "resp_data_transfer_ok v (MtOrig r) = mto_data_transfer_ok v r"
| "resp_data_transfer_ok v (Subprocess r) = sub_data_transfer_ok v r"

fun resp_live_snapshot :: "vantage \<Rightarrow> responder \<Rightarrow> live_snapshot" where
  "resp_live_snapshot v (OpenVPN r) = ovpn_live_snapshot v r"
| "resp_live_snapshot v (WireGuard r) = wg_live_snapshot v r"
| "resp_live_snapshot v (Mtg r) = mtg_live_snapshot v r"
| "resp_live_snapshot v (MtOrig r) = mto_live_snapshot v r"
| "resp_live_snapshot v (Subprocess r) = sub_live_snapshot v r"

text \<open>The MTProxy responders have no \<open>echo_server\<close> attribute.\<close>

fun resp_echo_server :: "vantage \<Rightarrow> responder \<Rightarrow> echo_server option" where
  "resp_echo_server v (Mtg r) = None"
| "resp_echo_server v (MtOrig r) = None"
| "resp_echo_server v r = vt_echo v"

section \<open>The contract of a stopped responder\<close>

text \<open>
  What the listener relies on: after \<open>stop\<close> the snapshot and the two properties agree at
  every moment. A frozen responder moreover gives the same answers whatever happens outside.
\<close>

locale responder_contract =
  fixes stop :: "'v \<Rightarrow> 'r \<Rightarrow> 'r"
    and hs_count :: "'v \<Rightarrow> 'r \<Rightarrow> int"
    and data_flag :: "'v \<Rightarrow> 'r \<Rightarrow> bool"
    and snap :: "'v \<Rightarrow> 'r \<Rightarrow> live_snapshot"
  assumes snap_count: "ls_handshake_count (snap v (stop w r)) = hs_count v (stop w r)"
    and snap_data: "ls_data_transfer_ok (snap v (stop w r)) = data_flag v (stop w r)"
begin

lemma snap_verdict:
  "derived_verdict (ls_handshake_count (snap v (stop w r))) (ls_data_transfer_ok (snap v (stop w r))) a =
     derived_verdict (hs_count v (stop w r)) (data_flag v (stop w r)) a"
  by (simp add: snap_count snap_data)

end

locale frozen_contract = responder_contract +
  assumes frozen_count: "hs_count v (stop w r) = hs_count v' (stop w r)"
    and frozen_data: "data_flag v (stop w r) = data_flag v' (stop w r)"
begin

lemma frozen_verdict:
  "derived_verdict (ls_handshake_count (snap v (stop w r))) (ls_data_transfer_ok (snap v (stop w r))) a =
     derived_verdict (hs_count v' (stop w r)) (data_flag v' (stop w r)) a"
  using frozen_count [of v w r v'] frozen_data [of v w r v'] by (simp add: snap_count snap_data)

end

interpretation wg: frozen_contract wg_stop wg_connection_count wg_data_transfer_ok wg_live_snapshot
  by unfold_locales
    (simp_all add: wg_stop_def wg_connection_count_def wg_data_transfer_ok_def wg_live_snapshot_def
      LiveSnapshot_default_def split: prod.splits)

interpretation ovpn: frozen_contract ovpn_stop ovpn_connection_count ovpn_data_transfer_ok ovpn_live_snapshot
  by unfold_locales
    (simp_all add: ovpn_stop_def ovpn_connection_count_def ovpn_data_transfer_ok_def ovpn_live_snapshot_def
      LiveSnapshot_default_def Let_def)

interpretation mtg: frozen_contract mtg_stop "\<lambda>v. mt_connection_count" mtg_data_transfer_ok mtg_live_snapshot
  by unfold_locales
    (simp_all add: mtg_stop_def mtg_data_transfer_ok_def mtg_live_snapshot_def LiveSnapshot_default_def)

interpretation mto: frozen_contract mto_stop "\<lambda>v. mo_connection_count" mto_data_transfer_ok mto_live_snapshot
  by unfold_locales
    (simp_all add: mto_stop_def mto_data_transfer_ok_def mto_live_snapshot_def LiveSnapshot_default_def Let_def)

interpretation sub: responder_contract "\<lambda>v r. fst (sub_stop r (vt_echo v))" "\<lambda>v. sb_connection_count"
    sub_data_transfer_ok sub_live_snapshot
  by unfold_locales
    (simp_all add: sub_stop_def sub_data_transfer_ok_def sub_live_snapshot_def LiveSnapshot_default_def Let_def)

interpretation resp: responder_contract resp_stop resp_connection_count resp_data_transfer_ok resp_live_snapshot
proof unfold_locales
  fix v w r
  show "ls_handshake_count (resp_live_snapshot v (resp_stop w r)) = resp_connection_count v (resp_stop w r)"
    by (cases r) (simp_all add: ovpn.snap_count wg.snap_count mtg.snap_count mto.snap_count sub.snap_count)
  show "ls_data_transfer_ok (resp_live_snapshot v (resp_stop w r)) = resp_data_transfer_ok v (resp_stop w r)"
    by (cases r) (simp_all add: ovpn.snap_data wg.snap_data mtg.snap_data mto.snap_data sub.snap_data)
qed

text \<open>Only the proxies' data signal still depends on the echo server after the stop.\<close>

lemma resp_frozen:
  assumes "vt_echo v = vt_echo v' \<or> (\<forall>s. r \<noteq> Subprocess s)"
  shows "resp_connection_count v (resp_stop w r) = resp_connection_count v' (resp_stop w r)
    \<and> resp_data_transfer_ok v (resp_stop w r) = resp_data_transfer_ok v' (resp_stop w r)"
proof (cases r)
  case (OpenVPN s)
  then show ?thesis using ovpn.frozen_count ovpn.frozen_data by simp
next
  case (WireGuard s)
  then show ?thesis using wg.frozen_count wg.frozen_data by simp
next
  case (Mtg s)
  then show ?thesis using mtg.frozen_data by simp
next
  case (MtOrig s)
  then show ?thesis using mto.frozen_data by simp
next
  case (Subprocess s)
  then show ?thesis using assms by (simp add: sub_data_transfer_ok_def)
qed

section \<open>Counting mtg streams\<close>

text \<open>What one log line says: a stream started, a stream failed, or nothing.\<close>

definition mtg_event :: "string \<Rightarrow> int" where
  "mtg_event raw = (let low = str_lower (str_strip raw) in
     if low = [] then 0
     else if str_contains low ''stream has been started'' then 1
     else if \<exists>marker \<in> set mtg_failure_markers. str_contains low marker then -1
     else 0)"

lemma mtg_event_range: "mtg_event raw \<in> {-1, 0, 1}"
  by (simp add: mtg_event_def Let_def)

lemma mtg_monitor_count:
  assumes "0 \<le> mt_connection_count m"
  shows "mt_connection_count (mtg_monitor_line raw m) = max 0 (mt_connection_count m + mtg_event raw)"
proof -
  have "str_lower s = [] \<longleftrightarrow> s = []" for s by (simp add: str_lower_def)
  then show ?thesis
    using assms by (auto simp: mtg_monitor_line_def mtg_event_def Let_def)
qed

definition mtg_log :: "string list \<Rightarrow> mtg_responder \<Rightarrow> mtg_responder" where
  "mtg_log lines m = foldl (\<lambda>m l. mtg_monitor_line l m) m lines"

definition mtg_balance :: "string list \<Rightarrow> int" where
  "mtg_balance lines = sum_list (map mtg_event lines)"

definition mtg_starts :: "string list \<Rightarrow> int" where
  "mtg_starts lines = int (length (filter (\<lambda>l. mtg_event l = 1) lines))"

text \<open>No prefix of the log has more failures than starts.\<close>

definition mtg_matched :: "string list \<Rightarrow> bool" where
  "mtg_matched lines \<longleftrightarrow> list_all (\<lambda>k. 0 \<le> mtg_balance (take k lines)) [0..<Suc (length lines)]"

lemma mtg_matchedD: "mtg_matched lines \<Longrightarrow> k \<le> length lines \<Longrightarrow> 0 \<le> mtg_balance (take k lines)"
  unfolding mtg_matched_def list_all_iff by (metis atLeastLessThan_iff le_imp_less_Suc set_upt zero_le)

lemma mtg_log_snoc: "mtg_log (ls @ [l]) m = mtg_monitor_line l (mtg_log ls m)"
  by (simp add: mtg_log_def)

lemma mtg_balance_snoc: "mtg_balance (ls @ [l]) = mtg_balance ls + mtg_event l"
  by (simp add: mtg_balance_def)

lemma mtg_count_bounds:
  assumes "mt_connection_count m = 0"
  shows "0 \<le> mt_connection_count (mtg_log lines m) \<and> mtg_balance lines \<le> mt_connection_count (mtg_log lines m)
    \<and> mt_connection_count (mtg_log lines m) \<le> mtg_starts lines"
proof (induction lines rule: rev_induct)
  case Nil
  then show ?case by (simp add: mtg_log_def mtg_balance_def mtg_starts_def assms)
next
  case (snoc l ls)
  have "mtg_starts (ls @ [l]) = mtg_starts ls + (if mtg_event l = 1 then 1 else 0)"
    by (simp add: mtg_starts_def)
  then show ?case
    using snoc mtg_event_range [of l] mtg_monitor_count [of "mtg_log ls m" l]
    by (auto simp: mtg_log_snoc mtg_balance_snoc)
qed

text \<open>
  The mtg handshake count is the number of streams that survived: it is never negative,
  never more than the streams that started, and when every failure in the log comes after a
  stream it can belong to, it is the number of starts less the number of failures.
\<close>

theorem mtg_counts_survivors:
  shows "0 \<le> mt_connection_count (mtg_log lines (mtg_init port secret))
    \<and> mt_connection_count (mtg_log lines (mtg_init port secret)) \<le> mtg_starts lines
    \<and> (mtg_matched lines \<longrightarrow>
         mt_connection_count (mtg_log lines (mtg_init port secret)) = mtg_balance lines)"
proof -
  let ?m = "mtg_init port secret"
  have m0: "mt_connection_count ?m = 0" by (simp add: mtg_init_def)
  have "mt_connection_count (mtg_log (take k lines) ?m) = mtg_balance (take k lines)"
    if ok: "mtg_matched lines" and "k \<le> length lines" for k
    using that(2)
  proof (induction k)
    case 0
    then show ?case by (simp add: mtg_log_def mtg_balance_def m0)
  next
    case (Suc k)
    have step: "take (Suc k) lines = take k lines @ [lines ! k]"
      using Suc.prems by (simp add: take_Suc_conv_app_nth)
    have "0 \<le> mtg_balance (take k lines) + mtg_event (lines ! k)"
      using mtg_matchedD [OF ok Suc.prems] by (simp add: step mtg_balance_snoc)
    then show ?case
      using Suc mtg_count_bounds [OF m0, of "take k lines"] mtg_monitor_count [of "mtg_log (take k lines) ?m" "lines ! k"]
      by (simp add: step mtg_log_snoc mtg_balance_snoc)
  qed
  from this [of "length lines"] show ?thesis
    using mtg_count_bounds [OF m0, of lines] by simp
qed

theorem mtg_counts_survivors_witness:
  "mt_connection_count (mtg_log [''Stream has been started'', ''Stream has been started'', ''cannot parse client hello'']
     (mtg_init 443 ''ee'')) = 1"
proof -
  let ?log = "[''Stream has been started'', ''Stream has been started'', ''cannot parse client hello'']"
  have b: "mtg_balance ?log = 1" by code_simp
  have "mtg_matched ?log" by code_simp
  then show ?thesis using mtg_counts_survivors [of ?log 443 "''ee''"] b by metis
qed

section \<open>OpenVPN needs an authenticated packet\<close>

definition auth_line :: "string \<Rightarrow> bool" where
  "auth_line l \<longleftrightarrow> starts_with l (AUTH_BYTES_LABEL @ '','')"

definition silent :: "string option \<Rightarrow> bool" where
  "silent content \<longleftrightarrow> (case content of None \<Rightarrow> True | Some c \<Rightarrow> \<forall>l \<in> set (splitlines c). \<not> auth_line l)"

text \<open>The status file has one authenticated-bytes line, with the count \<open>n\<close>.\<close>

definition shows_auth :: "int \<Rightarrow> string option \<Rightarrow> bool" where
  "shows_auth n content \<longleftrightarrow> printable n \<and> (\<exists>pre post.
     content = Some (join_lines (pre @ [AUTH_BYTES_LABEL @ '','' @ str_of_int n] @ post))
     \<and> list_all line_text (pre @ post) \<and> (\<forall>l \<in> set (pre @ post). \<not> auth_line l))"

lemma status_line_other:
  "\<not> auth_line l \<Longrightarrow> dict_get (status_line l d) AUTH_BYTES_LABEL = dict_get d AUTH_BYTES_LABEL"
  by (auto simp: status_line_def status_targets_def first_that_def auth_line_def AUTH_BYTES_LABEL_def
      split: option.splits if_splits)

lemma status_fold_other:
  "\<forall>l \<in> set ls. \<not> auth_line l \<Longrightarrow>
     dict_get (foldl (\<lambda>d l. status_line l d) d ls) AUTH_BYTES_LABEL = dict_get d AUTH_BYTES_LABEL"
  by (induction ls arbitrary: d) (simp_all add: status_line_other)

lemma read_status_silent: "silent c \<Longrightarrow> read_status c = (0, 0)"
  using status_fold_other [of _ "[]"]
  by (auto simp: read_status_def parse_status_counters_def silent_def dict_default_def Let_def
      split: option.splits)

lemma str_strip_str_of_int: "str_strip (str_of_int n) = str_of_int n"
  using word_text_str_of_int [of n] by (intro str_strip_id) (simp_all add: word_text_def)

lemma status_line_auth:
  assumes "printable n"
  shows "dict_get (status_line (AUTH_BYTES_LABEL @ '','' @ str_of_int n) d) AUTH_BYTES_LABEL = Some n"
proof -
  have "starts_with (AUTH_BYTES_LABEL @ '','' @ str_of_int n) (AUTH_BYTES_LABEL @ '','')"
    using starts_with_append [of "AUTH_BYTES_LABEL @ '',''" "str_of_int n"] by simp
  moreover have "str_partition '','' (AUTH_BYTES_LABEL @ '','' @ str_of_int n) = (AUTH_BYTES_LABEL, str_of_int n)"
    using partition_first [of "CHR '',''" AUTH_BYTES_LABEL "[]" "str_of_int n"] by (simp add: AUTH_BYTES_LABEL_def)
  ultimately show ?thesis
    using assms by (simp add: status_line_def status_targets_def first_that_def str_strip_str_of_int int_of_str_of_int)
qed

lemma read_status_shows:
  assumes "shows_auth n c"
  shows "read_status c = (if 0 < n then 1 else 0, n)"
proof -
  obtain pre post where c0: "c = Some (join_lines (pre @ [AUTH_BYTES_LABEL @ '','' @ str_of_int n] @ post))"
    and ok: "list_all line_text (pre @ post)" "\<forall>l \<in> set (pre @ post). \<not> auth_line l" and n: "printable n"
    using assms by (auto simp: shows_auth_def)
  define ls where "ls = pre @ [AUTH_BYTES_LABEL @ '','' @ str_of_int n] @ post"
  have c: "c = Some (join_lines ls)" using c0 by (simp only: ls_def)
  have "list_all line_text ls"
    using ok by (simp add: ls_def AUTH_BYTES_LABEL_def is_line_break_def)
  then have lines: "splitlines (join_lines ls) = ls" by (rule splitlines_join)
  have "dict_get (foldl (\<lambda>d l. status_line l d) [] ls) AUTH_BYTES_LABEL = Some n"
    using ok status_fold_other [of post] status_line_auth [OF n] by (simp add: ls_def)
  then show ?thesis
    by (simp add: read_status_def parse_status_counters_def c lines dict_default_def Let_def)
qed

definition ovpn_session :: "int \<Rightarrow> vantage list \<Rightarrow> vantage \<Rightarrow> ovpn_responder" where
  "ovpn_session port polls v = ovpn_stop v (foldl (\<lambda>r w. latch_auth_bytes w r) (ovpn_init port) polls)"

abbreviation auth_reading :: "vantage \<Rightarrow> int" where
  "auth_reading v \<equiv> snd (read_status (vt_ovpn_status v))"

lemma latch_max:
  "ov_max_auth_bytes_seen (foldl (\<lambda>r w. latch_auth_bytes w r) r ws) =
     fold (\<lambda>w b. max b (auth_reading w)) ws (ov_max_auth_bytes_seen r)"
proof (induction ws arbitrary: r)
  case (Cons w ws)
  have "ov_max_auth_bytes_seen (latch_auth_bytes w r) = max (ov_max_auth_bytes_seen r) (auth_reading w)"
    by (simp add: latch_auth_bytes_def Let_def max_def)
  then show ?case using Cons.IH [of "latch_auth_bytes w r"] by simp
qed simp

lemma fold_max_pos: "0 < fold (\<lambda>w b. max b (f w)) ws (b :: int) \<longleftrightarrow> 0 < b \<or> (\<exists>w \<in> set ws. 0 < f w)"
  by (induction ws arbitrary: b) auto

lemma fold_max_ge: "x \<le> fold (\<lambda>w b. max b (f w)) ws (b :: int) \<longleftrightarrow> x \<le> b \<or> (\<exists>w \<in> set ws. x \<le> f w)"
  by (induction ws arbitrary: b) (auto simp: le_max_iff_disj)

lemma ovpn_session_bytes_ge:
  assumes "w \<in> set (v # ws)"
  shows "auth_reading w \<le> ov_final_bytes_received (ovpn_session port ws v)"
proof -
  have "ov_final_bytes_received (ovpn_session port ws v) =
      max (fold (\<lambda>w b. max b (auth_reading w)) ws 0) (auth_reading v)"
    by (simp add: ovpn_session_def ovpn_stop_def Let_def latch_max ovpn_init_def)
  then show ?thesis using assms by (auto simp: le_max_iff_disj fold_max_ge)
qed

lemma ovpn_session_bytes:
  "0 < ov_final_bytes_received (ovpn_session port ws v) \<longleftrightarrow> (\<exists>w \<in> set (v # ws). 0 < auth_reading w)"
proof -
  have "ov_final_bytes_received (ovpn_session port ws v) =
      max (fold (\<lambda>w b. max b (auth_reading w)) ws 0) (auth_reading v)"
    by (simp add: ovpn_session_def ovpn_stop_def Let_def latch_max ovpn_init_def)
  then show ?thesis by (auto simp: less_max_iff_disj fold_max_pos)
qed

text \<open>
  C11. Only an authenticated packet makes OpenVPN count: as long as every status file read during
  the session or at its end shows no authenticated bytes (the ordinary line \<open>Auth read bytes,0\<close>, no
  such line, or no file), the responder reports no handshake and no data, in the report and in the
  snapshot alike, and the verdict is BLOCKED, whatever the other counters and the packet filter
  saw; one file that shows a positive count, however early, makes it a handshake in both, and the
  bytes reported are at least that count.
\<close>

theorem openvpn_needs_authentication:
  "((\<forall>w \<in> set (v # polls). silent (vt_ovpn_status w) \<or> shows_auth 0 (vt_ovpn_status w)) \<longrightarrow>
      ovpn_connection_count v' (ovpn_session port polls v) = 0
      \<and> \<not> ovpn_data_transfer_ok v' (ovpn_session port polls v)
      \<and> ls_handshake_count (ovpn_live_snapshot v' (ovpn_session port polls v)) = 0
      \<and> \<not> ls_data_transfer_ok (ovpn_live_snapshot v' (ovpn_session port polls v))
      \<and> derived_verdict (ovpn_connection_count v' (ovpn_session port polls v))
          (ovpn_data_transfer_ok v' (ovpn_session port polls v)) a = BLOCKED)
   \<and> (\<forall>n w. 0 < n \<longrightarrow> w \<in> set (v # polls) \<longrightarrow> shows_auth n (vt_ovpn_status w) \<longrightarrow>
      ovpn_connection_count v' (ovpn_session port polls v) = 1
      \<and> ls_handshake_count (ovpn_live_snapshot v' (ovpn_session port polls v)) = 1
      \<and> n \<le> ov_final_bytes_received (ovpn_session port polls v))"
proof -
  let ?s = "ovpn_session port polls v"
  have taken: "ov_snapshot_taken ?s" by (simp add: ovpn_session_def ovpn_stop_def Let_def)
  have hs: "ov_final_handshake_count ?s = (if 0 < ov_final_bytes_received ?s then 1 else 0)"
    by (simp add: ovpn_session_def ovpn_stop_def Let_def)
  have count: "ovpn_connection_count v' ?s = (if \<exists>w \<in> set (v # polls). 0 < auth_reading w then 1 else 0)"
    using ovpn_session_bytes by (simp add: ovpn_connection_count_def taken hs)
  have "auth_reading w = 0" if "silent (vt_ovpn_status w) \<or> shows_auth 0 (vt_ovpn_status w)" for w
    using that read_status_silent read_status_shows by fastforce
  then have quiet: "ovpn_connection_count v' ?s = 0"
    if "\<forall>w \<in> set (v # polls). silent (vt_ovpn_status w) \<or> shows_auth 0 (vt_ovpn_status w)"
    using that unfolding count by fastforce
  have data: "\<not> ovpn_data_transfer_ok v' ?s" if "ovpn_connection_count v' ?s = 0"
    using that by (simp add: ovpn_connection_count_def ovpn_data_transfer_ok_def taken)
  have "ovpn_connection_count v' ?s = 1 \<and> n \<le> ov_final_bytes_received ?s"
    if "0 < n" "w \<in> set (v # polls)" "shows_auth n (vt_ovpn_status w)" for n w
  proof -
    have "auth_reading w = n" using read_status_shows [OF that(3)] by simp
    then show ?thesis using count that(1,2) ovpn_session_bytes_ge [OF that(2), of port] by auto
  qed
  moreover have "ls_handshake_count (ovpn_live_snapshot v' ?s) = ovpn_connection_count v' ?s"
    "ls_data_transfer_ok (ovpn_live_snapshot v' ?s) = ovpn_data_transfer_ok v' ?s"
    by (simp_all add: ovpn_session_def ovpn.snap_count ovpn.snap_data)
  ultimately show ?thesis using quiet data by (simp add: derived_BLOCKED_iff)
qed

definition demo_vantage :: "string option \<Rightarrow> vantage" where
  "demo_vantage status = \<lparr>vt_wg_show = (\<lambda>tool. None), vt_ovpn_status = status,
     vt_firewall = \<lparr>fw_which = (\<lambda>cmd. False), fw_run = (\<lambda>argv. None)\<rparr>, vt_echo = None\<rparr>"

theorem openvpn_needs_authentication_witness:
  "ovpn_connection_count (demo_vantage None)
     (ovpn_session 1194 [demo_vantage (Some (join_lines [''TUN/TAP read bytes,192'', ''Auth read bytes,88'']))] (demo_vantage None)) = 1
   \<and> ovpn_connection_count (demo_vantage None)
     (ovpn_session 1194 [demo_vantage (Some (join_lines [''TUN/TAP read bytes,192'', ''Auth read bytes,0'']))] (demo_vantage None)) = 0"
proof -
  let ?status = "\<lambda>digits. Some (join_lines [''TUN/TAP read bytes,192'', ''Auth read bytes,'' @ digits])"
  have "shows_auth n (?status (str_of_int n))" if "printable n" for n
    unfolding shows_auth_def using that
    by (intro conjI exI [of _ "[''TUN/TAP read bytes,192'']"] exI [of _ "[]"])
      (simp_all add: AUTH_BYTES_LABEL_def is_line_break_def auth_line_def starts_with_def)
  moreover have "printable 88" "printable 0" by (rule printableI [of _ 2]; simp)+
  moreover have "str_of_int 88 = ''88''" "str_of_int 0 = ''0''" by (simp_all add: str_of_int_def nat_digits_numeral nat_digits.simps)
  ultimately have auth: "shows_auth 88 (?status ''88'')" "shows_auth 0 (?status ''0'')" by metis+
  let ?v = "demo_vantage None" and ?w = "demo_vantage (?status ''88'')" and ?q = "demo_vantage (?status ''0'')"
  have st: "vt_ovpn_status (demo_vantage c) = c" for c by (simp add: demo_vantage_def)
  have "(0 :: int) < 88" "?w \<in> set (?v # [?w])" by simp_all
  then have one: "ovpn_connection_count ?v (ovpn_session 1194 [?w] ?v) = 1"
    using openvpn_needs_authentication [of ?v "[?w]" ?v 1194 None] auth st by metis
  have "silent None" by code_simp
  then have "\<forall>w \<in> set (?v # [?q]). silent (vt_ovpn_status w) \<or> shows_auth 0 (vt_ovpn_status w)" using auth(2) by (simp add: st)
  then have "ovpn_connection_count ?v (ovpn_session 1194 [?q] ?v) = 0"
    using openvpn_needs_authentication [of ?v "[?q]" ?v 1194 None] by metis
  then show ?thesis using one by simp
qed

end
