(* ===== verification/Preflight.thy ===== *)
theory Preflight
  imports PyText Targets Utils
begin

text \<open>
  \<open>censprobe_listener/preflight.py\<close>: the checks run before the responders start, the parsing
  and pruning of the MTProxy upstream list, and the result the listener threads on. Commands,
  files, connections and fetches are answered by a \<open>host\<close>.
\<close>

record check_result =
  ck_name :: string
  ck_status :: string
  ck_message :: string

definition check :: "string \<Rightarrow> string \<Rightarrow> string \<Rightarrow> check_result" where
  "check name status message = \<lparr>ck_name = name, ck_status = status, ck_message = message\<rparr>"

definition format_preflight_line :: "check_result \<Rightarrow> string" where
  "format_preflight_line r = ''preflight['' @ ck_status r @ ''] '' @ ck_name r @ '': '' @ ck_message r"

text \<open>
  A command's exit code, standard output and standard error, or the name of the exception;
  \<open>h_repr\<close> is Python's \<open>repr\<close> of a string.
\<close>

record host =
  h_which :: "string \<Rightarrow> bool"
  h_run :: "string list \<Rightarrow> string + int \<times> string \<times> string"
  h_file :: "string \<Rightarrow> string option"
  h_connect :: "string \<Rightarrow> int \<Rightarrow> bool"
  h_repr :: "string \<Rightarrow> string"

type_synonym upstream = "string \<times> int \<times> string"

section \<open>Texts\<close>

text \<open>The four Cyrillic letters and the arrow the messages contain, as UTF-8.\<close>

definition tspu :: string where
  "tspu = [CHR 0xD0, CHR 0xA2, CHR 0xD0, CHR 0xA1, CHR 0xD0, CHR 0x9F, CHR 0xD0, CHR 0xA3]"

definition arrow :: string where "arrow = [CHR 0xE2, CHR 0x86, CHR 0x92]"

definition nl :: string where "nl = [CHR 0x0A]"

fun joined :: "string \<Rightarrow> string list \<Rightarrow> string" where
  "joined sep [] = []"
| "joined sep [s] = s"
| "joined sep (s # t # ss) = s @ sep @ joined sep (t # ss)"

definition int_list_repr :: "int list \<Rightarrow> string" where
  "int_list_repr xs = ''['' @ joined '', '' (map str_of_int xs) @ '']''"

text \<open>\<open>format(x, ".0%")\<close> of a non-negative float.\<close>

definition percent0 :: "rat \<Rightarrow> string" where
  "percent0 x = str_of_int (rhe (fmul x 100)) @ ''%''"

section \<open>Connection tracking\<close>

definition CONNTRACK_MIN_MAX :: int where "CONNTRACK_MIN_MAX = 65536"
definition CONNTRACK_HIGH_WATER_RATIO :: rat where "CONNTRACK_HIGH_WATER_RATIO = 1 / 2"
definition CONNTRACK_TARGET_MAX :: int where "CONNTRACK_TARGET_MAX = 1048576"

definition read_int :: "string option \<Rightarrow> int option" where
  "read_int content = (case content of None \<Rightarrow> None | Some s \<Rightarrow> int_of_str (str_strip s))"

definition sysctl_hint :: string where
  "sysctl_hint = ''Raise on host: sudo sysctl -w net.netfilter.nf_conntrack_max='' @
     str_of_int CONNTRACK_TARGET_MAX @ '' (persist via /etc/sysctl.d/99-conntrack.conf).''"

definition conntrack_fill :: "int \<Rightarrow> int \<Rightarrow> rat \<Rightarrow> string" where
  "conntrack_fill nf_count nf_max ratio =
     ''nf_conntrack '' @ str_of_int nf_count @ ''/'' @ str_of_int nf_max @ '' ('' @ percent0 ratio @ '' full)''"

definition check_conntrack :: "host \<Rightarrow> bool \<Rightarrow> check_result" where
  "check_conntrack h notrack_installed =
    (case (read_int (h_file h ''/proc/sys/net/netfilter/nf_conntrack_max''),
           read_int (h_file h ''/proc/sys/net/netfilter/nf_conntrack_count'')) of
       (Some nf_max, Some nf_count) \<Rightarrow>
         if nf_max < CONNTRACK_MIN_MAX then
           (if notrack_installed then check ''conntrack'' ''ok''
              (''nf_conntrack_max='' @ str_of_int nf_max @ '' (low), but VPN UDP ports are NOTRACK '' @ em_dash @
               '' VPN reachability is unaffected. '' @ sysctl_hint)
            else check ''conntrack'' ''warn''
              (''nf_conntrack_max='' @ str_of_int nf_max @ '' (< '' @ str_of_int CONNTRACK_MIN_MAX @
               '') and NOTRACK auto-setup unavailable (likely missing CAP_NET_ADMIN). Once full, kernel SILENTLY '' @
               ''DROPS new flows; clients see BLOCKED on half the protocols. '' @ sysctl_hint))
         else let ratio = fdiv (of_int nf_count) (of_int nf_max) in
           if CONNTRACK_HIGH_WATER_RATIO < ratio then check ''conntrack'' ''warn''
             (conntrack_fill nf_count nf_max ratio @ ''. A probe burst may exhaust the table mid-test and silently '' @
              ''drop handshakes. Free up entries (timeouts will clear closed flows) or raise nf_conntrack_max.'')
           else check ''conntrack'' ''ok'' (conntrack_fill nf_count nf_max ratio)
     | _ \<Rightarrow> check ''conntrack'' ''skip''
         (''no /proc/sys/net/netfilter/nf_conntrack_* '' @ em_dash @ '' kernel without netfilter''))"

text \<open>\<open>xs[-n:]\<close>.\<close>

definition last_n :: "nat \<Rightarrow> 'a list \<Rightarrow> 'a list" where
  "last_n n xs = drop (length xs - n) xs"

definition check_dmesg_recent_drops :: "host \<Rightarrow> check_result" where
  "check_dmesg_recent_drops h =
    (if \<not> h_which h ''dmesg'' then check ''conntrack-dmesg'' ''skip'' ''dmesg not in PATH''
     else case h_run h [''dmesg'', ''-T''] of
         Inl _ \<Rightarrow> check ''conntrack-dmesg'' ''skip'' ''dmesg unreadable''
       | Inr (rc, out, err) \<Rightarrow>
           if rc \<noteq> 0 then check ''conntrack-dmesg'' ''skip'' ''dmesg unreadable (perms)''
           else let hits = filter (\<lambda>l. str_contains l ''nf_conntrack: table full'') (last_n 200 (splitlines out)) in
             if hits = [] then check ''conntrack-dmesg'' ''ok'' ''no recent nf_conntrack drops in dmesg''
             else check ''conntrack-dmesg'' ''warn''
               (str_of_int (int (length hits)) @ '' '' @ [CHR 0x27] @ ''nf_conntrack: table full'' @ [CHR 0x27] @
                '' messages in recent dmesg '' @ em_dash @ '' kernel was dropping packets. Most recent: '' @
                last_n 160 (str_strip (last hits))))"

section \<open>Firewall\<close>

definition notrack_args :: "string \<Rightarrow> string \<Rightarrow> int \<Rightarrow> string list" where
  "notrack_args action direction port =
     [''iptables'', ''-t'', ''raw'', action, direction, ''-p'', ''udp'',
      (if direction = ''PREROUTING'' then ''--dport'' else ''--sport''), str_of_int port, ''-j'', ''NOTRACK'']"

text \<open>Neither call is guarded: an exception of the tool ends the preflight (\<open>Inl\<close>).\<close>

definition run_ok :: "host \<Rightarrow> string list \<Rightarrow> string + bool" where
  "run_ok h argv = bindE (h_run h argv) (\<lambda>(rc, _). Inr (rc = 0))"

fun install_notrack_dirs :: "host \<Rightarrow> int \<Rightarrow> string list \<Rightarrow> string + bool" where
  "install_notrack_dirs h port [] = Inr True"
| "install_notrack_dirs h port (d # ds) =
     bindE (run_ok h (notrack_args ''-C'' d port)) (\<lambda>present.
       if present then install_notrack_dirs h port ds
       else bindE (run_ok h (notrack_args ''-I'' d port)) (\<lambda>added.
         if \<not> added then Inr False else install_notrack_dirs h port ds))"

definition install_notrack_for_port :: "host \<Rightarrow> int \<Rightarrow> string + bool" where
  "install_notrack_for_port h port = install_notrack_dirs h port [''PREROUTING'', ''OUTPUT'']"

fun notrack_ports :: "host \<Rightarrow> int list \<Rightarrow> int list \<times> int list \<Rightarrow> string + int list \<times> int list" where
  "notrack_ports h [] acc = Inr acc"
| "notrack_ports h (port # ports) (installed, failed) =
     bindE (install_notrack_for_port h port) (\<lambda>ok.
       notrack_ports h ports (if ok then (installed @ [port], failed) else (installed, failed @ [port])))"

definition try_install_notrack :: "host \<Rightarrow> int list \<Rightarrow> string + check_result" where
  "try_install_notrack h ports_udp =
    (if \<not> h_which h ''iptables'' then Inr (check ''notrack-autosetup'' ''skip'' ''iptables not in PATH'')
     else bindE (notrack_ports h ports_udp ([], [])) (\<lambda>(installed, failed).
       if installed \<noteq> [] \<and> failed = [] then Inr (check ''notrack-autosetup'' ''ok''
         (''NOTRACK installed on UDP ports '' @ int_list_repr installed @ '' (skip conntrack for VPN flows)''))
       else if failed \<noteq> [] then Inr (check ''notrack-autosetup'' ''skip''
         (''could not install NOTRACK on UDP ports '' @ int_list_repr failed @
          '' (likely no NET_ADMIN cap); raise nf_conntrack_max instead''))
       else Inr (check ''notrack-autosetup'' ''skip'' ''no UDP ports to NOTRACK'')))"

definition cap_probe_argv :: "string list" where
  "cap_probe_argv = [''iptables'', ''-C'', ''OUTPUT'', ''-p'', ''tcp'', ''--sport'', ''65535'', ''-m'', ''comment'',
     ''--comment'', ''censprobe-cap-probe'', ''-j'', ''ACCEPT'']"

definition check_iptables_capability :: "host \<Rightarrow> check_result" where
  "check_iptables_capability h =
    (if \<not> h_which h ''iptables'' then check ''iptables-cap'' ''warn''
       (''iptables not in PATH '' @ em_dash @ '' kernel-level handshake counters won'' @ [CHR 0x27] @
        ''t install. mtproto_proxy/_alt/_orig will report data_transfer_ok=False even on successful probes; '' @
        ''openvpn falls back to the auth-read-byte heuristic. On Alpine: `apk add iptables`.'')
     else case h_run h cap_probe_argv of
         Inl exc \<Rightarrow> check ''iptables-cap'' ''warn''
           (''iptables -C raised '' @ exc @ '' '' @ em_dash @ '' counter installs will fail.'')
       | Inr (rc, out, stderr) \<Rightarrow>
           let err = str_lower (str_strip stderr) in
           if rc = 1 \<and> (str_contains err ''matching rule exist'' \<or> str_contains err ''does a matching rule'' \<or> err = [])
           then check ''iptables-cap'' ''ok'' ''iptables operations permitted (counters available)''
           else if str_contains err ''permission'' \<or> str_contains err ''operation not permitted''
           then check ''iptables-cap'' ''warn''
             (''iptables operations refused '' @ em_dash @ '' CAP_NET_ADMIN missing. '' @
              ''Listener cannot install kernel-level handshake counters; mtproto_* / openvpn data_transfer_ok '' @
              ''will report False even on successful probes. Add `cap_add: [NET_ADMIN, NET_RAW]` to '' @
              ''docker-compose.yml or run with `--cap-add=NET_ADMIN`.'')
           else check ''iptables-cap'' ''warn''
             (''iptables -C unexpected outcome (rc='' @ str_of_int rc @ '', err='' @ h_repr h (take 120 err) @
              ''); counter installs may fail.''))"

definition is_censprobe_rule_line :: "string \<Rightarrow> bool" where
  "is_censprobe_rule_line line \<longleftrightarrow> starts_with line ''-A '' \<and> str_contains line ''censprobe-''"

definition delete_rule_argv :: "string \<Rightarrow> string \<Rightarrow> string list" where
  "delete_rule_argv cmd rule_line = cmd # (split_ws rule_line)[0 := ''-D'']"

definition delete_one_rule :: "host \<Rightarrow> string \<Rightarrow> string \<Rightarrow> bool" where
  "delete_one_rule h cmd rule_line =
     (case h_run h (delete_rule_argv cmd rule_line) of Inl _ \<Rightarrow> False | Inr (rc, _) \<Rightarrow> rc = 0)"

definition run_iptables_list :: "host \<Rightarrow> string \<Rightarrow> string option" where
  "run_iptables_list h cmd =
     (case h_run h [cmd, ''-S''] of
        Inl _ \<Rightarrow> None
      | Inr (rc, out, err) \<Rightarrow> if rc \<noteq> 0 then None else Some out)"

definition delete_orphans_for_family :: "host \<Rightarrow> string \<Rightarrow> nat" where
  "delete_orphans_for_family h cmd =
     (case run_iptables_list h cmd of
        None \<Rightarrow> 0
      | Some listing \<Rightarrow> length (filter (\<lambda>l. is_censprobe_rule_line l \<and> delete_one_rule h cmd l) (splitlines listing)))"

definition cleanup_orphan_rules :: "host \<Rightarrow> check_result" where
  "cleanup_orphan_rules h =
    (let families = [''iptables'', ''ip6tables''];
         skipped = filter (\<lambda>cmd. \<not> h_which h cmd) families;
         deleted = sum_list (map (delete_orphans_for_family h) (filter (h_which h) families))
     in if 0 < deleted then check ''orphan-rules'' ''ok''
          (''removed '' @ str_of_int (int deleted) @ '' stale censprobe rule(s) from previous run'')
        else if length skipped = 2 then check ''orphan-rules'' ''skip'' ''no iptables/ip6tables on PATH''
        else check ''orphan-rules'' ''ok'' ''no orphan censprobe rules'')"

definition check_setpriv_available :: "host \<Rightarrow> check_result" where
  "check_setpriv_available h =
    (if h_which h ''setpriv'' then check ''setpriv-available'' ''ok''
       (''setpriv on PATH '' @ em_dash @ '' responders will spawn under dropped privileges'')
     else check ''setpriv-available'' ''warn''
       (''setpriv NOT on PATH '' @ em_dash @ '' tunnel binaries (xray/sing-box/hysteria/mtg) '' @
        ''will inherit the listener'' @ [CHR 0x27] @ ''s root + NET_ADMIN bounding set. '' @
        ''Install util-linux in the listener image to restore the privilege-separation defense-in-depth.''))"

section \<open>Telegram\<close>

text \<open>The parsed file: \<open>None\<close> missing, \<open>Some None\<close> unparsable; each data centre with its extra \<open>name\<close>.\<close>

type_synonym dc_file = "(telegram_dc \<times> json) list option option"

definition TELEGRAM_DC_PROBES_FALLBACK :: "(string \<times> int \<times> string) list" where
  "TELEGRAM_DC_PROBES_FALLBACK =
     [(''149.154.175.53'', 443, ''DC1 pluto''), (''149.154.167.51'', 443, ''DC2 venus''),
      (''149.154.175.100'', 443, ''DC3 aurora'')]"

definition TELEGRAM_DC_PROBE_LIMIT :: nat where "TELEGRAM_DC_PROBE_LIMIT = 3"

fun dc_probe :: "telegram_dc \<times> json \<Rightarrow> (string \<times> int \<times> string) option" where
  "dc_probe (dc, name) =
     (case dc_ipv4 dc of
        [] \<Rightarrow> None
      | ip # _ \<Rightarrow> Some (ip, (case dc_ports dc of p # _ \<Rightarrow> p | [] \<Rightarrow> 443),
          ''DC'' @ str_of_int (dc_id dc) @
            (case name of JStr n \<Rightarrow> if n \<noteq> [] then '' '' @ n else [] | _ \<Rightarrow> [])))"

definition load_telegram_dc_probes :: "dc_file \<Rightarrow> (string \<times> int \<times> string) list" where
  "load_telegram_dc_probes f =
     (case f of
        None \<Rightarrow> TELEGRAM_DC_PROBES_FALLBACK
      | Some None \<Rightarrow> TELEGRAM_DC_PROBES_FALLBACK
      | Some (Some dcs) \<Rightarrow>
          let probes = List.map_filter dc_probe (take TELEGRAM_DC_PROBE_LIMIT dcs) in
          if probes = [] then TELEGRAM_DC_PROBES_FALLBACK else probes)"

definition check_telegram_dc_reach :: "host \<Rightarrow> dc_file \<Rightarrow> check_result" where
  "check_telegram_dc_reach h f =
     (let probes = load_telegram_dc_probes f;
          reachable = length (filter (\<lambda>(ip, port, _). h_connect h ip port) probes);
          number = str_of_int (int (length probes))
      in if reachable = 0 then check ''telegram-dc-reach'' ''warn''
           (''0/'' @ number @ '' Telegram DCs reachable from listener egress ('' @
            joined '', '' (map (\<lambda>(_, _, name). name) probes) @ ''). '' @
            ''mtproto_proxy / mtproto_orig probes will report HANDSHAKE_ONLY or BLOCKED '' @ em_dash @
            '' clients see this as '' @ [CHR 0x27] @ ''reachable but DC blocked'' @ [CHR 0x27] @ ''. '' @
            ''Check the listener'' @ [CHR 0x27] @ ''s outbound network can reach 149.154.0.0/16 '' @
            ''(no upstream firewall, no Telegram-block-at-egress jurisdiction).'')
         else check ''telegram-dc-reach'' ''ok''
           (str_of_int (int reachable) @ ''/'' @ number @ '' Telegram DCs reachable''))"

section \<open>The MTProxy upstream list\<close>

definition PROXY_MULTI_CONF_PATH :: string where
  "PROXY_MULTI_CONF_PATH = ''/usr/local/share/mtproxy-orig/proxy-multi.conf''"
definition PROXY_SECRET_PATH :: string where
  "PROXY_SECRET_PATH = ''/usr/local/share/mtproxy-orig/proxy-secret''"

definition rstrip_char :: "char \<Rightarrow> string \<Rightarrow> string" where
  "rstrip_char c s = rev (dropWhile (\<lambda>x. x = c) (rev s))"

text \<open>\<open>head, _, tail = s.rpartition(c)\<close>.\<close>

definition str_rpartition :: "char \<Rightarrow> string \<Rightarrow> string \<times> string" where
  "str_rpartition c s =
     (case dropWhile (\<lambda>x. x \<noteq> c) (rev s) of
        [] \<Rightarrow> ([], s)
      | _ # before \<Rightarrow> (rev before, rev (takeWhile (\<lambda>x. x \<noteq> c) (rev s))))"

definition upstream_line :: "string \<Rightarrow> upstream option" where
  "upstream_line raw_line =
     (let line = str_strip raw_line in
      if \<not> starts_with line ''proxy_for '' then None
      else let parts = split_ws line in
        if length parts < 3 then None
        else let (ip, port_s) = str_rpartition (CHR '':'') (rstrip_char (CHR '';'') (parts ! 2)) in
          if ip = [] \<or> port_s = [] then None
          else case int_of_str port_s of None \<Rightarrow> None | Some port \<Rightarrow> Some (ip, port, parts ! 1))"

definition upstream_key :: "upstream \<Rightarrow> string \<times> int" where
  "upstream_key = (\<lambda>(ip, port, cluster). (ip, port))"

definition parse_proxy_multi_upstreams :: "string option \<Rightarrow> upstream list" where
  "parse_proxy_multi_upstreams content =
     (case content of
        None \<Rightarrow> []
      | Some c \<Rightarrow> dedup_by upstream_key [] (List.map_filter upstream_line (splitlines c)))"

definition probe_all_proxy_multi_upstreams :: "host \<Rightarrow> string \<Rightarrow> upstream list \<times> upstream list" where
  "probe_all_proxy_multi_upstreams h path =
     (let upstreams = parse_proxy_multi_upstreams (h_file h path) in
      (filter (\<lambda>(ip, port, _). h_connect h ip port) upstreams,
       filter (\<lambda>(ip, port, _). \<not> h_connect h ip port) upstreams))"

definition upstream_text :: "upstream \<Rightarrow> string" where
  "upstream_text = (\<lambda>(ip, port, cluster). ''proxy_for '' @ cluster @ '' '' @ ip @ '':'' @ str_of_int port @ '';'')"

definition default_line :: "string option \<Rightarrow> string" where
  "default_line source =
     (case source of
        None \<Rightarrow> ''default 2;''
      | Some c \<Rightarrow> (case first_that (\<lambda>raw. starts_with (str_strip raw) ''default '') (splitlines c) of
            None \<Rightarrow> ''default 2;''
          | Some raw \<Rightarrow> raw))"

text \<open>The text written, or the \<open>ValueError\<close> when nothing is alive.\<close>

definition write_pruned_proxy_multi_conf :: "upstream list \<Rightarrow> string option \<Rightarrow> string + string" where
  "write_pruned_proxy_multi_conf alive source =
     (if alive = [] then Inl ''write_pruned_proxy_multi_conf requires at least one alive upstream''
      else Inr (join_lines (default_line source # map upstream_text alive)))"

record upstream_probe =
  up_alive :: "upstream list"
  up_unreachable :: "upstream list"
  up_conf_path :: string
  up_secret_path :: string

definition mtproxy_upstream_checkresult :: "upstream_probe \<Rightarrow> check_result" where
  "mtproxy_upstream_checkresult p =
    (let number = str_of_int (int (length (up_alive p) + length (up_unreachable p))) in
     if length (up_alive p) + length (up_unreachable p) = 0 then check ''mtproxy-orig-upstream'' ''skip''
       ''proxy-multi.conf not found (image built without mtproxy-orig stage)''
     else if up_alive p = [] then check ''mtproxy-orig-upstream'' ''warn''
       (''0/'' @ number @ '' mtproto-proxy upstream IPs reachable on port 8888 ('' @
        joined '', '' (map (\<lambda>(ip, port, _). ip @ '':'' @ str_of_int port) (take 6 (up_unreachable p))) @
        (if 6 < length (up_unreachable p) then ''...'' else []) @ ''). The mtproto_orig responder will SKIP its '' @
        ''spawn and every mtproto_orig session reports BLOCKED '' @ em_dash @ '' the skip itself is positive evidence '' @
        ''Telegram'' @ [CHR 0x27] @ ''s DC fleet is unreachable from this vantage (typical for RU hosts behind '' @ tspu @
        '' on TCP/8888 to 91.108.4.0/24 and 149.154.0.0/16). Check the listener-egress '' @
        ''firewall, or rebuild the image to refresh proxy-multi.conf.'')
     else check ''mtproxy-orig-upstream'' ''ok''
       (str_of_int (int (length (up_alive p))) @ ''/'' @ number @ '' mtproto-proxy upstream IPs reachable on port 8888''))"

text \<open>\<open>fetched\<close>: whether each of the two downloads succeeded; the paths to use then.\<close>

definition refresh_proxy_runtime_config :: "bool \<Rightarrow> bool \<Rightarrow> string \<Rightarrow> string \<times> string \<times> string option" where
  "refresh_proxy_runtime_config conf_ok secret_ok tmp_dir =
     (if conf_ok \<and> secret_ok then (tmp_dir @ ''/proxy-multi.conf'', tmp_dir @ ''/proxy-secret'', Some tmp_dir)
      else (PROXY_MULTI_CONF_PATH, PROXY_SECRET_PATH, None))"

definition fetch_url_to_path :: "(int \<times> string) option \<Rightarrow> bool \<Rightarrow> bool" where
  "fetch_url_to_path response writable =
     (case response of
        None \<Rightarrow> False
      | Some (code, body) \<Rightarrow> code = 200 \<and> body \<noteq> [] \<and> writable)"

datatype self_test_outcome = SelfTestTimeout | SelfTestRaised string string | SelfTestReturned verdict "string option"

definition run_mtproxy_orig_self_test :: "int \<Rightarrow> self_test_outcome \<Rightarrow> check_result" where
  "run_mtproxy_orig_self_test port outcome =
    (case outcome of
       SelfTestTimeout \<Rightarrow> check ''mtproxy-orig-self-test'' ''warn''
         (''loopback probe of mtproto_orig:'' @ str_of_int port @ '' timed out after 12s '' @ em_dash @
          '' responder appears wedged (likely L7 '' @ tspu @ '' filtering the C MTProxy auth_cluster RPC heartbeat '' @
          ''on RU vantages, starving accept(); strace the slave pid + tune -M N to disambiguate from a local daemon '' @
          ''issue). Sessions will report BLOCKED with a diagnostic note explaining the L7-vs-local attribution.'')
     | SelfTestRaised exc msg \<Rightarrow> check ''mtproxy-orig-self-test'' ''warn''
         (''loopback probe raised '' @ exc @ '': '' @ msg)
     | SelfTestReturned v err \<Rightarrow>
         if v = OK then check ''mtproxy-orig-self-test'' ''ok''
           (''loopback probe completed full obfuscated2 + req_pq '' @ arrow @ '' resPQ exchange'')
         else check ''mtproxy-orig-self-test'' ''warn''
           (''loopback probe returned '' @ verdict_str v @ '' (note: '' @
            (case err of Some e \<Rightarrow> if e \<noteq> [] then e else ''<no diagnostic>'' | None \<Rightarrow> ''<no diagnostic>'') @ '') '' @ em_dash @
            '' responder cannot handshake against itself; sessions will report BLOCKED with a diagnostic note '' @
            ''disambiguating L7 '' @ tspu @ '' (likely on RU) from a local daemon issue.''))"

section \<open>The whole preflight\<close>

record preflight_result =
  pf_checks :: "check_result list"
  pf_mtproxy_upstreams :: upstream_probe
  pf_mtproxy_runtime_dir :: "string option"

definition run_preflight ::
    "host \<Rightarrow> dc_file \<Rightarrow> bool \<Rightarrow> bool \<Rightarrow> string \<Rightarrow> int list \<Rightarrow> string + preflight_result" where
  "run_preflight h dcs conf_ok secret_ok tmp_dir udp_ports =
    (let orphan = cleanup_orphan_rules h; cap = check_iptables_capability h; setpriv = check_setpriv_available h in
     bindE (try_install_notrack h udp_ports) (\<lambda>notrack.
     let conntrack = check_conntrack h (ck_status notrack = ''ok'');
         dmesg = check_dmesg_recent_drops h;
         dc = check_telegram_dc_reach h dcs;
         (conf_path, secret_path, runtime_dir) = refresh_proxy_runtime_config conf_ok secret_ok tmp_dir;
         (alive, unreachable) = probe_all_proxy_multi_upstreams h conf_path;
         upstreams = \<lparr>up_alive = alive, up_unreachable = unreachable, up_conf_path = conf_path,
           up_secret_path = secret_path\<rparr>
     in Inr \<lparr>pf_checks = [orphan, cap, setpriv, notrack, conntrack, dmesg, dc, mtproxy_upstream_checkresult upstreams],
          pf_mtproxy_upstreams = upstreams, pf_mtproxy_runtime_dir = runtime_dir\<rparr>))"

section \<open>Pruning is faithful\<close>

definition upstream_ok :: "upstream \<Rightarrow> bool" where
  "upstream_ok = (\<lambda>(ip, port, cluster). word_text ip \<and> printable port \<and> word_text cluster)"

lemma in_rstrip: "c \<in> set (rstrip_char d s) \<Longrightarrow> c \<in> set s"
  using set_dropWhileD [of c "\<lambda>x. x = d" "rev s"] by (auto simp: rstrip_char_def)

lemma in_rpartition: "str_rpartition d s = (a, b) \<Longrightarrow> c \<in> set a \<Longrightarrow> c \<in> set s"
proof -
  assume p: "str_rpartition d s = (a, b)" and c: "c \<in> set a"
  obtain x before where "dropWhile (\<lambda>x. x \<noteq> d) (rev s) = x # before" "a = rev before"
    using p c by (auto simp: str_rpartition_def split: list.splits)
  then have "c \<in> set (dropWhile (\<lambda>x. x \<noteq> d) (rev s))" using c by simp
  then show "c \<in> set s" using set_dropWhileD by fastforce
qed

lemma upstream_line_ok:
  assumes "upstream_line raw = Some u"
  shows "upstream_ok u"
proof -
  define parts where "parts = split_ws (str_strip raw)"
  obtain ip port_s port where parts: "\<not> length parts < 3"
    and rp: "str_rpartition (CHR '':'') (rstrip_char (CHR '';'') (parts ! 2)) = (ip, port_s)"
    and "ip \<noteq> []" "int_of_str port_s = Some port" "u = (ip, port, parts ! 1)"
    using assms by (auto simp: upstream_line_def Let_def parts_def split: if_splits prod.splits option.splits)
  moreover have w1: "word_text (parts ! 1)" and w2: "word_text (parts ! 2)"
    using split_ws_words [of "parts ! 1" "str_strip raw"] split_ws_words [of "parts ! 2" "str_strip raw"] parts
    by (simp_all add: parts_def)
  moreover have "\<forall>c \<in> set ip. \<not> is_space c"
    using in_rpartition [OF rp] in_rstrip w2 by (fastforce simp: word_text_def)
  ultimately show ?thesis
    using int_of_str_printable [of port_s port] by (simp add: upstream_ok_def word_text_def)
qed

lemma str_of_int_last_not: "\<not> is_digit c \<Longrightarrow> c \<noteq> CHR ''-'' \<Longrightarrow> c \<notin> set (str_of_int n)"
  using str_of_int_no_space by blast

lemma rpartition_last: "c \<notin> set b \<Longrightarrow> str_rpartition c (a @ c # b) = (a, b)"
proof -
  assume "c \<notin> set b"
  then have c: "\<forall>x \<in> set (rev b). x \<noteq> c" by auto
  have "dropWhile (\<lambda>x. x \<noteq> c) (rev b @ c # rev a) = c # rev a"
    using c by (simp add: dropWhile_append3)
  moreover have "takeWhile (\<lambda>x. x \<noteq> c) (rev b @ c # rev a) = rev b"
    using c by (simp add: takeWhile_append)
  ultimately show ?thesis by (simp add: str_rpartition_def)
qed

lemma rstrip_append: "rstrip_char c (s @ [c]) = rstrip_char c s"
  by (simp add: rstrip_char_def)

lemma rstrip_id: "s \<noteq> [] \<Longrightarrow> last s \<noteq> c \<Longrightarrow> rstrip_char c s = s"
  using dropWhile_eq_self_iff [of "\<lambda>x. x = c" "rev s"] by (simp add: rstrip_char_def hd_rev)

lemma upstream_text_parse:
  assumes "upstream_ok (ip, port, cluster)"
  shows "upstream_line (upstream_text (ip, port, cluster)) = Some (ip, port, cluster)"
proof -
  let ?addr = "ip @ CHR '':'' # str_of_int port"
  let ?line = "''proxy_for'' @ CHR '' '' # (cluster @ CHR '' '' # (?addr @ '';''))"
  have line: "upstream_text (ip, port, cluster) = ?line" by (simp add: upstream_text_def)
  have w: "word_text ip" "printable port" "word_text cluster" using assms by (simp_all add: upstream_ok_def)
  have num: "word_text (str_of_int port)" by simp
  have marks: "\<not> is_space (CHR '':'')" "\<not> is_space (CHR '';'')" "\<not> is_space (CHR ''p'')" by (simp_all add: is_space_def)
  have strip: "str_strip ?line = ?line" by (rule str_strip_id) (simp_all add: marks)
  have aw: "word_text (?addr @ '';'')" using w(1) num marks unfolding word_text_def by auto
  have "split_ws ?line = ''proxy_for'' # split_ws (cluster @ CHR '' '' # (?addr @ '';''))"
    by (rule split_ws_word) (simp add: word_text_def is_space_def)
  also have "split_ws (cluster @ CHR '' '' # (?addr @ '';'')) = cluster # split_ws (?addr @ '';'')"
    by (rule split_ws_word [OF w(3)])
  also have "split_ws (?addr @ '';'') = [?addr @ '';'']" by (rule split_ws_last [OF aw])
  finally have split: "split_ws ?line = [''proxy_for'', cluster, ?addr @ '';'']" .
  have "last (str_of_int port) \<noteq> CHR '';''"
    using str_of_int_no_space [of "last (str_of_int port)" port] by (auto simp: is_digit_def)
  then have "rstrip_char (CHR '';'') (?addr @ '';'') = ?addr"
    using rstrip_append [of "CHR '';''" ?addr] rstrip_id [of ?addr "CHR '';''"] by simp
  moreover have "CHR '':'' \<notin> set (str_of_int port)"
    by (rule str_of_int_last_not) (simp_all add: is_digit_def)
  then have "str_rpartition (CHR '':'') ?addr = (ip, str_of_int port)" by (rule rpartition_last)
  moreover have "starts_with ?line ''proxy_for ''" by (simp add: starts_with_def)
  moreover have "ip \<noteq> []" using w(1) by (simp add: word_text_def)
  ultimately show ?thesis
    unfolding line upstream_line_def strip split Let_def using w(2) by (simp add: int_of_str_of_int)
qed

lemma default_line_facts:
  "line_text (default_line s)" "upstream_line (default_line s) = None"
proof -
  have pick: "default_line s = ''default 2;''
      \<or> (\<exists>c raw. s = Some c \<and> raw \<in> set (splitlines c) \<and> starts_with (str_strip raw) ''default '' \<and> default_line s = raw)"
    by (auto simp: default_line_def first_that_def find_Some_iff split: option.splits)
  have other: "starts_with l ''default '' \<Longrightarrow> \<not> starts_with l ''proxy_for ''" for l
    by (cases l) (auto simp: starts_with_def)
  have "str_strip ''default 2;'' = ''default 2;''" by code_simp
  moreover have "starts_with ''default 2;'' ''default ''" by (simp add: starts_with_def)
  ultimately show "upstream_line (default_line s) = None"
    using pick other by (auto simp: upstream_line_def Let_def)
  show "line_text (default_line s)"
    using pick splitlines_lines by (auto simp: is_line_break_def)
qed

lemma upstream_text_line: "upstream_ok u \<Longrightarrow> line_text (upstream_text u)"
proof -
  have sp: "word_text w \<Longrightarrow> line_text w" for w
    by (auto simp: word_text_def line_text_def is_line_break_def is_space_def)
  assume "upstream_ok u"
  then show ?thesis
    by (auto simp: upstream_ok_def upstream_text_def sp is_line_break_def)
qed

lemma parsed_upstreams:
  "\<forall>u \<in> set (parse_proxy_multi_upstreams c). upstream_ok u" "distinct (map upstream_key (parse_proxy_multi_upstreams c))"
  using dedup_by_subset [of upstream_key "[]"] upstream_line_ok
  by (fastforce simp: parse_proxy_multi_upstreams_def List.map_filter_def split: option.splits,
      simp add: parse_proxy_multi_upstreams_def dedup_by_distinct split: option.split)

lemma map_filter_texts: "\<forall>u \<in> set us. upstream_ok u \<Longrightarrow> List.map_filter upstream_line (map upstream_text us) = us"
proof (induction us)
  case (Cons u us)
  then show ?case using upstream_text_parse by (cases u) (simp add: List.map_filter_simps)
qed simp

text \<open>
  The pruned configuration says what was measured: whatever the shipped upstream list and
  whichever of its addresses answer, if some do the file written for the daemon is parsed back
  as exactly those, in the order of the list and without duplicates, and the rest of the list
  is exactly what did not answer; if none does nothing is written.
\<close>

theorem pruned_conf_round_trip:
  assumes "probe_all_proxy_multi_upstreams h path = (alive, unreachable)"
  shows "(case write_pruned_proxy_multi_conf alive source of
        Inl _ \<Rightarrow> alive = []
      | Inr conf \<Rightarrow> alive \<noteq> [] \<and> parse_proxy_multi_upstreams (Some conf) = alive)
    \<and> set alive \<inter> set unreachable = {} \<and> distinct (map upstream_key alive)
    \<and> set alive \<union> set unreachable = set (parse_proxy_multi_upstreams (h_file h path))"
proof -
  let ?all = "parse_proxy_multi_upstreams (h_file h path)"
  have alive: "alive = filter (\<lambda>(ip, port, _). h_connect h ip port) ?all"
    and un: "unreachable = filter (\<lambda>(ip, port, _). \<not> h_connect h ip port) ?all"
    using assms by (simp_all add: probe_all_proxy_multi_upstreams_def Let_def)
  have ok: "\<forall>u \<in> set alive. upstream_ok u" using parsed_upstreams(1) [of "h_file h path"] unfolding alive by auto
  have dist: "distinct (map upstream_key alive)"
    using parsed_upstreams(2) by (simp add: alive distinct_map_filter)
  have "list_all line_text (default_line source # map upstream_text alive)"
    using ok upstream_text_line default_line_facts by (auto simp: list_all_iff)
  then have "parse_proxy_multi_upstreams (Some (join_lines (default_line source # map upstream_text alive))) = alive"
    using dist map_filter_texts [OF ok]
    by (simp add: parse_proxy_multi_upstreams_def splitlines_join List.map_filter_simps default_line_facts dedup_by_id)
  then show ?thesis
    using dist by (auto simp: write_pruned_proxy_multi_conf_def alive un)
qed

definition demo_host :: host where
  "demo_host = \<lparr>h_which = (\<lambda>cmd. False), h_run = (\<lambda>argv. Inl ''FileNotFoundError''),
     h_file = (\<lambda>path. Some (join_lines [''default 2;'', ''proxy_for 2 149.154.162.37:8888;'', ''proxy_for -1 91.108.4.5:8888;''])),
     h_connect = (\<lambda>ip port. ip = ''91.108.4.5''), h_repr = (\<lambda>s. s)\<rparr>"

theorem pruned_conf_round_trip_witness:
  "\<exists>conf. write_pruned_proxy_multi_conf [(''91.108.4.5'', 8888, ''-1'')] None = Inr conf
     \<and> parse_proxy_multi_upstreams (Some conf) = [(''91.108.4.5'', 8888, ''-1'')]"
proof -
  have "probe_all_proxy_multi_upstreams demo_host ''x'' = ([(''91.108.4.5'', 8888, ''-1'')], [(''149.154.162.37'', 8888, ''2'')])"
    by code_simp
  from pruned_conf_round_trip [OF this, of None] show ?thesis
    by (auto split: sum.splits)
qed

end
