(* ===== verification/CredServer.thy ===== *)
theory CredServer
  imports PyJson Utils
begin

text \<open>
  \<open>censprobe_listener/cred_server.py\<close>: the state of \<open>CredServer\<close> and its request handlers.
  The server handles every request in its own thread, and the asyncio main thread calls
  \<open>bind_stop_event\<close> and \<open>commit_final_snapshots\<close> meanwhile. A thread is modelled as the
  sequence of its atomic actions: a critical section under the lock, a reply, the setting of
  an event. The system interleaves the actions of any number of threads in any order.
  \<open>json_loads\<close> is an argument (\<open>None\<close> a decoding error), sockets and TLS are left out.
\<close>

section \<open>State, requests, replies\<close>

definition MAX_SERVES :: int where "MAX_SERVES = 1"

record cred_server =
  cs_creds_bytes :: string
  cs_token :: string
  cs_serves_remaining :: int
  cs_client_ip :: "string option"
  cs_final_snapshots :: "(string, json) dict option"
  cs_client_throughput :: "(string, rat) dict"
  cs_snapshot_drained :: bool
  cs_stop_requested :: bool
  cs_stop_event :: "bool option"  \<comment> \<open>the bound asyncio event: \<open>None\<close> unbound, else whether it is set\<close>

definition cred_server_init :: "string \<Rightarrow> string \<Rightarrow> cred_server" where
  "cred_server_init creds_yaml token =
     \<lparr>cs_creds_bytes = creds_yaml, cs_token = token, cs_serves_remaining = MAX_SERVES,
      cs_client_ip = None, cs_final_snapshots = None, cs_client_throughput = [],
      cs_snapshot_drained = False, cs_stop_requested = False, cs_stop_event = None\<rparr>"

datatype http_verb = GET | POST

record request =
  rq_verb :: http_verb
  rq_path :: string
  rq_authorization :: "string option"
  rq_content_length :: "string option"
  rq_body :: string
  rq_client_ip :: string

record response =
  rs_code :: int
  rs_body :: string
  rs_allow :: "string option"

definition reply :: "int \<Rightarrow> string \<Rightarrow> response" where
  "reply code body = \<lparr>rs_code = code, rs_body = body, rs_allow = None\<rparr>"

section \<open>Reading a request\<close>

text \<open>
  \<open>_check_bearer\<close>: pass, a rejection, or the \<open>TypeError\<close> of \<open>hmac.compare_digest\<close> on a
  token with non-ASCII characters.
\<close>

datatype auth = Pass | Rejected response | AuthRaises

definition check_bearer :: "cred_server \<Rightarrow> request \<Rightarrow> auth" where
  "check_bearer srv rq =
     (let auth = (case rq_authorization rq of None \<Rightarrow> [] | Some a \<Rightarrow> a) in
      if \<not> starts_with auth ''Bearer '' then Rejected (reply 401 ''missing bearer token'')
      else let presented = drop (length ''Bearer '') auth in
        if \<not> list_all (\<lambda>c. (of_char c :: nat) < 128) presented then AuthRaises
        else if presented \<noteq> cs_token srv then Rejected (reply 403 ''invalid token'')
        else Pass)"

definition read_request_body :: "request \<Rightarrow> int \<Rightarrow> string" where
  "read_request_body rq max_bytes =
     (case int_of_str (case rq_content_length rq of None \<Rightarrow> ''0'' | Some s \<Rightarrow> s) of
        None \<Rightarrow> []
      | Some n \<Rightarrow> if n \<le> 0 then [] else take (nat (min n max_bytes)) (rq_body rq))"

text \<open>
  The loop of \<open>_parse_client_throughput\<close>. \<open>isinstance(mbps, (int, float))\<close> holds of booleans
  too, and \<open>math.isfinite\<close> of an integer too large for a float raises \<open>OverflowError\<close>.
\<close>

fun as_number :: "json \<Rightarrow> (coercion_error + pyfloat) option" where
  "as_number (JInt n) = Some (float_of_int n)"
| "as_number (JBool b) = Some (Inr (Fin (if b then 1 else 0)))"
| "as_number (JFloat f) = Some (Inr f)"
| "as_number _ = None"

fun collect_throughput :: "(string \<times> json) list \<Rightarrow> (string, rat) dict \<Rightarrow> coercion_error + (string, rat) dict" where
  "collect_throughput [] out = Inr out"
| "collect_throughput ((proto, mbps) # rest) out =
     (case as_number mbps of
        None \<Rightarrow> collect_throughput rest out
      | Some (Inl e) \<Rightarrow> Inl e
      | Some (Inr f) \<Rightarrow>
          (case f of
             Fin q \<Rightarrow> if q \<le> 0 then collect_throughput rest out
                      else collect_throughput rest (dict_set proto q out)
           | _ \<Rightarrow> collect_throughput rest out))"

definition parse_client_throughput ::
  "(string \<Rightarrow> json option) \<Rightarrow> string \<Rightarrow> coercion_error + (string, rat) dict" where
  "parse_client_throughput json_loads body =
     (if body = [] then Inr []
      else case json_loads body of
          Some (JObj obj) \<Rightarrow>
            (case jget obj ''client_throughput'' of
               JObj ct \<Rightarrow> collect_throughput ct []
             | _ \<Rightarrow> Inr [])
        | _ \<Rightarrow> Inr [])"

section \<open>Threads\<close>

datatype thread =
    Creds request                         \<comment> \<open>before the bearer check of \<open>/creds\<close>\<close>
  | CredsLocked request                   \<comment> \<open>authenticated, before the critical section\<close>
  | CredsSend request                     \<comment> \<open>granted, before the reply\<close>
  | Snapshot request
  | SnapshotLocked request
  | SnapshotSend request "(string, json) dict"
  | SnapshotDrained request response
  | Stop request
  | StopMerge request "(string, rat) dict"
  | StopReadEvent request
  | StopSend request bool                 \<comment> \<open>whether the event read was bound\<close>
  | StopSet request bool response
  | StopFlip request bool response
  | Bind
  | BindFlip bool
  | Commit "(string, json) dict"
  | Done "(request \<times> response option) option"  \<comment> \<open>no reply: the handler raised\<close>

definition finished :: "request \<Rightarrow> response \<Rightarrow> thread" where
  "finished rq rs = Done (Some (rq, Some rs))"

definition raised :: "request \<Rightarrow> thread" where
  "raised rq = Done (Some (rq, None))"

text \<open>\<open>do_GET\<close> and \<open>do_POST\<close>.\<close>

definition do_GET :: "request \<Rightarrow> thread" where
  "do_GET rq =
     (if rq_path rq = ''/creds'' then Creds rq
      else if rq_path rq = ''/snapshot'' then Snapshot rq
      else if rq_path rq = ''/stop''
        then finished rq ((reply 405 ''method not allowed'')\<lparr>rs_allow := Some ''POST''\<rparr>)
      else finished rq (reply 404 ''not found''))"

definition do_POST :: "request \<Rightarrow> thread" where
  "do_POST rq =
     (if rq_path rq = ''/stop'' then Stop rq
      else if rq_path rq \<in> {''/creds'', ''/snapshot''}
        then finished rq ((reply 405 ''method not allowed'')\<lparr>rs_allow := Some ''GET''\<rparr>)
      else finished rq (reply 404 ''not found''))"

definition start_request :: "request \<Rightarrow> thread" where
  "start_request rq = (case rq_verb rq of GET \<Rightarrow> do_GET rq | POST \<Rightarrow> do_POST rq)"

definition authenticated :: "cred_server \<Rightarrow> request \<Rightarrow> thread \<Rightarrow> thread" where
  "authenticated srv rq k =
     (case check_bearer srv rq of Pass \<Rightarrow> k | Rejected r \<Rightarrow> finished rq r | AuthRaises \<Rightarrow> raised rq)"

definition stop_reply :: response where
  "stop_reply = reply 202 ''{\"status\":\"stop_requested\"}''"

record codec =
  json_loads :: "string \<Rightarrow> json option"
  json_dumps :: "json \<Rightarrow> string"

definition SNAPSHOT_PENDING :: string where
  "SNAPSHOT_PENDING = ''session not finalized '' @ em_dash @ '' POST /stop first, then retry''"

text \<open>One atomic action of a thread.\<close>

fun thread_step :: "codec \<Rightarrow> cred_server \<Rightarrow> thread \<Rightarrow> cred_server \<times> thread" where
  "thread_step E srv (Creds rq) = (srv, authenticated srv rq (CredsLocked rq))"
| "thread_step E srv (CredsLocked rq) =
     (if cs_serves_remaining srv \<le> 0 then (srv, finished rq (reply 410 ''credentials exhausted''))
      else (srv\<lparr>cs_serves_remaining := cs_serves_remaining srv - 1,
                cs_client_ip := (case cs_client_ip srv of None \<Rightarrow> Some (rq_client_ip rq) | Some i \<Rightarrow> Some i)\<rparr>,
            CredsSend rq))"
| "thread_step E srv (CredsSend rq) = (srv, finished rq (reply 200 (cs_creds_bytes srv)))"
| "thread_step E srv (Snapshot rq) = (srv, authenticated srv rq (SnapshotLocked rq))"
| "thread_step E srv (SnapshotLocked rq) =
     (case cs_final_snapshots srv of
        None \<Rightarrow> (srv, finished rq (reply 503 SNAPSHOT_PENDING))
      | Some final \<Rightarrow> (srv, SnapshotSend rq final))"
| "thread_step E srv (SnapshotSend rq final) =
     (srv, SnapshotDrained rq (reply 200 (json_dumps E (JObj final))))"
| "thread_step E srv (SnapshotDrained rq r) = (srv\<lparr>cs_snapshot_drained := True\<rparr>, finished rq r)"
| "thread_step E srv (Stop rq) =
     (srv, authenticated srv rq
        (case parse_client_throughput (json_loads E) (read_request_body rq (64 * 1024)) of
           Inl e \<Rightarrow> raised rq
         | Inr ct \<Rightarrow> if ct = [] then StopReadEvent rq else StopMerge rq ct))"
| "thread_step E srv (StopMerge rq ct) =
     (srv\<lparr>cs_client_throughput := dict_update (cs_client_throughput srv) ct\<rparr>, StopReadEvent rq)"
| "thread_step E srv (StopReadEvent rq) = (srv, StopSend rq (cs_stop_event srv \<noteq> None))"
| "thread_step E srv (StopSend rq bound) = (srv, StopSet rq bound stop_reply)"
| "thread_step E srv (StopSet rq bound r) = (srv\<lparr>cs_stop_requested := True\<rparr>, StopFlip rq bound r)"
| "thread_step E srv (StopFlip rq bound r) =
     (if bound then (srv\<lparr>cs_stop_event := Some True\<rparr>, finished rq r) else (srv, finished rq r))"
| "thread_step E srv Bind =
     (srv\<lparr>cs_stop_event := Some False\<rparr>, BindFlip (cs_stop_requested srv))"
| "thread_step E srv (BindFlip already_set) =
     (if already_set then (srv\<lparr>cs_stop_event := Some True\<rparr>, Done None) else (srv, Done None))"
| "thread_step E srv (Commit snapshots) =
     (srv\<lparr>cs_final_snapshots := Some snapshots\<rparr>, Done None)"
| "thread_step E srv (Done r) = (srv, Done r)"

text \<open>
  The system: new connections arrive, the main thread commits the snapshots or binds its event
  (once), and any thread performs its next action.
\<close>

inductive sys_step ::
  "codec \<Rightarrow> cred_server \<times> thread list \<Rightarrow> cred_server \<times> thread list \<Rightarrow> bool" for E where
  arrive: "sys_step E (s, ts) (s, ts @ [start_request rq])"
| commit: "sys_step E (s, ts) (s, ts @ [Commit d])"
| bind: "cs_stop_event s = None \<Longrightarrow> Bind \<notin> set ts \<Longrightarrow> sys_step E (s, ts) (s, ts @ [Bind])"
| act: "i < length ts \<Longrightarrow> thread_step E s (ts ! i) = (s', t') \<Longrightarrow> sys_step E (s, ts) (s', ts[i := t'])"

inductive_cases sys_step_E: "sys_step E (s, ts) (s', ts')"

definition reachable :: "codec \<Rightarrow> cred_server \<times> thread list \<Rightarrow> cred_server \<times> thread list \<Rightarrow> bool" where
  "reachable E = (sys_step E)\<^sup>*\<^sup>*"

text \<open>A thread on its own, run to its end: at most seven actions.\<close>

fun run_thread :: "nat \<Rightarrow> codec \<Rightarrow> cred_server \<Rightarrow> thread \<Rightarrow> cred_server \<times> thread" where
  "run_thread 0 E srv t = (srv, t)"
| "run_thread (Suc n) E srv t = (case thread_step E srv t of (srv', t') \<Rightarrow> run_thread n E srv' t')"

definition handle :: "codec \<Rightarrow> cred_server \<Rightarrow> request \<Rightarrow> cred_server \<times> thread" where
  "handle E srv rq = run_thread 7 E srv (start_request rq)"

definition bind_stop_event :: "codec \<Rightarrow> cred_server \<Rightarrow> cred_server" where
  "bind_stop_event E srv = fst (run_thread 2 E srv Bind)"

definition commit_final_snapshots :: "codec \<Rightarrow> (string, json) dict \<Rightarrow> cred_server \<Rightarrow> cred_server" where
  "commit_final_snapshots E snapshots srv = fst (run_thread 1 E srv (Commit snapshots))"

section \<open>Invariant of every interleaving\<close>

definition bearer :: "cred_server \<Rightarrow> request \<Rightarrow> bool" where
  "bearer s rq \<longleftrightarrow> rq_authorization rq = Some (''Bearer '' @ cs_token s)"

definition is_creds :: "request \<Rightarrow> bool" where
  "is_creds rq \<longleftrightarrow> rq_verb rq = GET \<and> rq_path rq = ''/creds''"

definition is_snapshot :: "request \<Rightarrow> bool" where
  "is_snapshot rq \<longleftrightarrow> rq_verb rq = GET \<and> rq_path rq = ''/snapshot''"

definition is_stop :: "request \<Rightarrow> bool" where
  "is_stop rq \<longleftrightarrow> rq_verb rq = POST \<and> rq_path rq = ''/stop''"

text \<open>What may be assumed of a reply that was sent.\<close>

definition reply_ok :: "cred_server \<Rightarrow> request \<Rightarrow> response \<Rightarrow> bool" where
  "reply_ok s rq r \<longleftrightarrow>
     (rs_code r = 200 \<longrightarrow> bearer s rq \<and>
        (is_creds rq \<and> cs_client_ip s = Some (rq_client_ip rq) \<and> rs_body r = cs_creds_bytes s
         \<or> is_snapshot rq \<and> cs_final_snapshots s \<noteq> None))
     \<and> (rs_code r = 202 \<longrightarrow> bearer s rq \<and> is_stop rq \<and> cs_stop_requested s)"

fun thread_ok :: "cred_server \<Rightarrow> thread \<Rightarrow> bool" where
  "thread_ok s (Creds rq) = is_creds rq"
| "thread_ok s (CredsLocked rq) = (is_creds rq \<and> bearer s rq)"
| "thread_ok s (CredsSend rq) = (is_creds rq \<and> bearer s rq \<and> cs_client_ip s = Some (rq_client_ip rq))"
| "thread_ok s (Snapshot rq) = is_snapshot rq"
| "thread_ok s (SnapshotLocked rq) = (is_snapshot rq \<and> bearer s rq)"
| "thread_ok s (SnapshotSend rq d) = (is_snapshot rq \<and> bearer s rq \<and> cs_final_snapshots s \<noteq> None)"
| "thread_ok s (SnapshotDrained rq r) =
     (is_snapshot rq \<and> bearer s rq \<and> cs_final_snapshots s \<noteq> None \<and> rs_code r = 200)"
| "thread_ok s (Stop rq) = is_stop rq"
| "thread_ok s (StopMerge rq ct) = (is_stop rq \<and> bearer s rq)"
| "thread_ok s (StopReadEvent rq) = (is_stop rq \<and> bearer s rq)"
| "thread_ok s (StopSend rq b) = (is_stop rq \<and> bearer s rq \<and> (b \<longrightarrow> cs_stop_event s \<noteq> None))"
| "thread_ok s (StopSet rq b r) =
     (is_stop rq \<and> bearer s rq \<and> rs_code r = 202 \<and> (b \<longrightarrow> cs_stop_event s \<noteq> None))"
| "thread_ok s (StopFlip rq b r) =
     (is_stop rq \<and> bearer s rq \<and> rs_code r = 202 \<and> cs_stop_requested s \<and> (b \<longrightarrow> cs_stop_event s \<noteq> None))"
| "thread_ok s (BindFlip b) = (cs_stop_event s \<noteq> None)"
| "thread_ok s (Done (Some (rq, Some r))) = reply_ok s rq r"
| "thread_ok s _ = True"

fun code_of :: "thread \<Rightarrow> int option" where
  "code_of (Done (Some (rq, Some r))) = Some (rs_code r)"
| "code_of _ = None"

lemma code_of_Some: "code_of t = Some c \<Longrightarrow> \<exists>rq r. t = Done (Some (rq, Some r)) \<and> rs_code r = c"
  by (cases t rule: code_of.cases) auto

fun is_done :: "thread \<Rightarrow> bool" where
  "is_done (Done x) = True"
| "is_done _ = False"

fun served :: "thread \<Rightarrow> bool" where
  "served (CredsSend rq) = True"
| "served (Done (Some (rq, Some r))) = (is_creds rq \<and> rs_code r = 200)"
| "served _ = False"

definition tally :: "thread list \<Rightarrow> int" where
  "tally ts = sum_list (map (\<lambda>t. of_bool (served t)) ts)"

definition server_ok :: "cred_server \<Rightarrow> bool" where
  "server_ok s \<longleftrightarrow> 0 \<le> cs_serves_remaining s \<and> cs_serves_remaining s \<le> 1
     \<and> (cs_client_ip s = None \<longleftrightarrow> cs_serves_remaining s = 1)
     \<and> (cs_snapshot_drained s \<longrightarrow> cs_final_snapshots s \<noteq> None)"

text \<open>How the shared state can evolve under the steps of other threads.\<close>

definition later :: "cred_server \<Rightarrow> cred_server \<Rightarrow> bool" where
  "later s s' \<longleftrightarrow> cs_token s' = cs_token s \<and> cs_creds_bytes s' = cs_creds_bytes s
     \<and> (cs_client_ip s \<noteq> None \<longrightarrow> cs_client_ip s' = cs_client_ip s)
     \<and> (cs_final_snapshots s \<noteq> None \<longrightarrow> cs_final_snapshots s' \<noteq> None)
     \<and> (cs_stop_requested s \<longrightarrow> cs_stop_requested s') \<and> (cs_stop_event s \<noteq> None \<longrightarrow> cs_stop_event s' \<noteq> None)"

lemma later_refl [simp]: "later s s"
  by (simp add: later_def)

lemma later_trans: "later a b \<Longrightarrow> later b c \<Longrightarrow> later a c"
  by (auto simp: later_def)

lemma reply_ok_later: "reply_ok s rq r \<Longrightarrow> later s s' \<Longrightarrow> reply_ok s' rq r"
  by (auto simp: reply_ok_def later_def bearer_def)

lemma thread_ok_later: "thread_ok s t \<Longrightarrow> later s s' \<Longrightarrow> thread_ok s' t"
  by (cases "(s, t)" rule: thread_ok.cases)
    (auto simp: later_def bearer_def dest: reply_ok_later [unfolded later_def])

lemma reply_ok_rejection: "rs_code r \<notin> {200, 202} \<Longrightarrow> reply_ok s rq r"
  by (simp add: reply_ok_def)

lemma check_bearer_Pass: "check_bearer s rq = Pass \<Longrightarrow> bearer s rq"
proof -
  assume pass: "check_bearer s rq = Pass"
  obtain a where a: "rq_authorization rq = Some a"
    using pass by (cases "rq_authorization rq") (simp_all add: check_bearer_def starts_with_def)
  then have "starts_with a ''Bearer ''" "drop (length ''Bearer '') a = cs_token s"
    using pass by (simp_all only: check_bearer_def Let_def option.case split: if_splits) auto
  then have "a = ''Bearer '' @ cs_token s"
    by (metis append_take_drop_id starts_with_def)
  then show "bearer s rq" using a by (simp add: bearer_def)
qed

lemma snapshot_not_creds: "is_snapshot rq \<Longrightarrow> \<not> is_creds rq"
  by (simp add: is_snapshot_def is_creds_def)

lemma check_bearer_Rejected: "check_bearer s rq = Rejected r \<Longrightarrow> rs_code r \<in> {401, 403}"
  by (auto simp: check_bearer_def Let_def reply_def split: if_splits)

lemma authenticated_ok:
  assumes "bearer s rq \<Longrightarrow> thread_ok s k" "\<not> served k"
  shows "thread_ok s (authenticated s rq k) \<and> \<not> served (authenticated s rq k)"
proof (cases "check_bearer s rq")
  case Pass
  then show ?thesis using assms check_bearer_Pass [OF Pass] by (simp add: authenticated_def)
next
  case (Rejected r)
  then show ?thesis using check_bearer_Rejected [OF Rejected]
    by (auto simp: authenticated_def finished_def intro: reply_ok_rejection)
next
  case AuthRaises
  then show ?thesis by (simp add: authenticated_def raised_def)
qed

lemma start_request_ok: "thread_ok s (start_request rq) \<and> \<not> served (start_request rq)"
  by (auto simp: start_request_def do_GET_def do_POST_def finished_def reply_def is_creds_def
      is_snapshot_def is_stop_def reply_ok_def split: http_verb.split)

text \<open>One action keeps the invariant and the number of serves left plus granted.\<close>

lemma thread_step_ok:
  assumes "thread_step E s t = (s', t')" "thread_ok s t" "server_ok s"
  shows "thread_ok s' t' \<and> server_ok s' \<and> later s s'
    \<and> cs_serves_remaining s' + of_bool (served t') = cs_serves_remaining s + of_bool (served t)"
proof (cases t)
  case (Creds rq)
  then show ?thesis
    using assms authenticated_ok [of s rq "CredsLocked rq"] by auto
next
  case (Snapshot rq)
  then show ?thesis
    using assms authenticated_ok [of s rq "SnapshotLocked rq"] by auto
next
  case (Stop rq)
  let ?k = "case parse_client_throughput (json_loads E) (read_request_body rq (64 * 1024)) of
           Inl e \<Rightarrow> raised rq
         | Inr ct \<Rightarrow> if ct = [] then StopReadEvent rq else StopMerge rq ct"
  have "thread_ok s (authenticated s rq ?k) \<and> \<not> served (authenticated s rq ?k)"
    using assms(2) Stop
    by (intro authenticated_ok) (auto simp: raised_def split: sum.split)
  then show ?thesis using assms Stop by auto
next
  case (CredsLocked rq)
  show ?thesis
  proof (cases "cs_serves_remaining s \<le> 0")
    case True
    then show ?thesis using assms CredsLocked by (auto simp: finished_def reply_def reply_ok_def)
  next
    case False
    then have "cs_client_ip s = None" "cs_serves_remaining s = 1" using assms(3) by (auto simp: server_ok_def)
    then show ?thesis using assms CredsLocked False by (auto simp: server_ok_def later_def bearer_def)
  qed
next
  case (CredsSend rq)
  then show ?thesis using assms by (auto simp: finished_def reply_def reply_ok_def)
next
  case (SnapshotLocked rq)
  then show ?thesis using assms
    by (auto simp: finished_def reply_def reply_ok_def split: option.splits)
next
  case (SnapshotSend rq d)
  then show ?thesis using assms by (auto simp: reply_def)
next
  case (SnapshotDrained rq r)
  then show ?thesis using assms snapshot_not_creds [of rq]
    by (auto simp: finished_def reply_ok_def server_ok_def later_def bearer_def)
next
  case (StopMerge rq ct)
  then show ?thesis using assms by (auto simp: server_ok_def later_def bearer_def)
next
  case (StopReadEvent rq)
  then show ?thesis using assms by auto
next
  case (StopSend rq b)
  then show ?thesis using assms by (auto simp: stop_reply_def reply_def)
next
  case (StopSet rq b r)
  then show ?thesis using assms by (auto simp: server_ok_def later_def bearer_def)
next
  case (StopFlip rq b r)
  then show ?thesis using assms
    by (auto simp: server_ok_def later_def bearer_def finished_def reply_ok_def split: if_splits)
next
  case Bind
  then show ?thesis using assms by (auto simp: server_ok_def later_def)
next
  case (BindFlip b)
  then show ?thesis using assms by (auto simp: server_ok_def later_def split: if_splits)
next
  case (Commit d)
  then show ?thesis using assms by (auto simp: server_ok_def later_def)
next
  case (Done r)
  then show ?thesis using assms by auto
qed

lemma tally_append [simp]: "tally (ts @ [t]) = tally ts + of_bool (served t)"
  by (simp add: tally_def)

lemma tally_update: "i < length ts \<Longrightarrow> tally (ts[i := t]) = tally ts + of_bool (served t) - of_bool (served (ts ! i))"
proof (induction ts arbitrary: i)
  case (Cons a ts)
  then show ?case by (cases i) (simp_all add: tally_def)
qed simp

lemma tally_filter: "tally ts = int (length (filter served ts))"
  by (induction ts) (simp_all add: tally_def)

definition sys_ok :: "string \<Rightarrow> string \<Rightarrow> cred_server \<times> thread list \<Rightarrow> bool" where
  "sys_ok y tok st \<longleftrightarrow> (case st of (s, ts) \<Rightarrow>
     server_ok s \<and> cs_token s = tok \<and> cs_creds_bytes s = y
     \<and> cs_serves_remaining s + tally ts = 1 \<and> (\<forall>t \<in> set ts. thread_ok s t))"

lemma sys_ok_init: "sys_ok y tok (cred_server_init y tok, [])"
  by (simp add: sys_ok_def cred_server_init_def server_ok_def tally_def MAX_SERVES_def)

lemma sys_ok_step: "sys_step E st st' \<Longrightarrow> sys_ok y tok st \<Longrightarrow> sys_ok y tok st'"
proof (induction rule: sys_step.induct)
  case (arrive s ts rq)
  then show ?case using start_request_ok [of s rq] by (auto simp: sys_ok_def)
next
  case (act i ts s s' t')
  have ok: "thread_ok s (ts ! i)" "server_ok s" using act by (auto simp: sys_ok_def)
  note step = thread_step_ok [OF act(2) ok]
  have "\<forall>t \<in> set (ts[i := t']). thread_ok s' t"
  proof
    fix t assume "t \<in> set (ts[i := t'])"
    then have "t = t' \<or> t \<in> set ts" using set_update_subset_insert by fastforce
    then show "thread_ok s' t" using step act(3) by (auto simp: sys_ok_def intro: thread_ok_later)
  qed
  then show ?case
    using step act tally_update [OF act(1), of t'] by (simp add: sys_ok_def later_def)
qed (auto simp: sys_ok_def)

lemma sys_ok_reachable: "reachable E st st' \<Longrightarrow> sys_ok y tok st \<Longrightarrow> sys_ok y tok st'"
  unfolding reachable_def by (induction rule: rtranclp_induct) (auto intro: sys_ok_step)

text \<open>
  C1. Credentials leave the server at most once, whatever the interleaving of requests with
  each other and with the main thread: at most one request is ever granted them; every reply
  that carries data went to a request with the session's bearer token, the credentials to the
  recorded client address and byte for byte, a snapshot only after it was committed; and an
  address is recorded exactly when a grant was made.
\<close>

theorem credentials_served_once:
  assumes "reachable E (cred_server_init y tok, []) (s, ts)"
  shows "length (filter served ts) \<le> 1
    \<and> (cs_client_ip s \<noteq> None \<longleftrightarrow> filter served ts \<noteq> [])
    \<and> (\<forall>rq r. Done (Some (rq, Some r)) \<in> set ts \<longrightarrow> rs_code r = 200 \<longrightarrow>
        rq_authorization rq = Some (''Bearer '' @ tok)
        \<and> (is_creds rq \<and> cs_client_ip s = Some (rq_client_ip rq) \<and> rs_body r = y
           \<or> is_snapshot rq \<and> cs_final_snapshots s \<noteq> None))"
proof -
  have ok: "sys_ok y tok (s, ts)" using assms sys_ok_init by (rule sys_ok_reachable)
  have once: "length (filter served ts) \<le> 1 \<and> (cs_client_ip s \<noteq> None \<longleftrightarrow> filter served ts \<noteq> [])"
    using ok by (auto simp: sys_ok_def server_ok_def tally_filter)
  have "rq_authorization rq = Some (''Bearer '' @ tok)
      \<and> (is_creds rq \<and> cs_client_ip s = Some (rq_client_ip rq) \<and> rs_body r = y
         \<or> is_snapshot rq \<and> cs_final_snapshots s \<noteq> None)"
    if "Done (Some (rq, Some r)) \<in> set ts" "rs_code r = 200" for rq r
    using ok that by (fastforce simp: sys_ok_def reply_ok_def bearer_def)
  then show ?thesis using once by blast
qed

text \<open>A schedule of thread numbers, run from a pool of threads.\<close>

fun schedule :: "codec \<Rightarrow> nat list \<Rightarrow> cred_server \<times> thread list \<Rightarrow> cred_server \<times> thread list" where
  "schedule E [] st = st"
| "schedule E (i # is) (s, ts) =
     (if i < length ts then (case thread_step E s (ts ! i) of (s', t') \<Rightarrow> schedule E is (s', ts[i := t']))
      else (s, ts))"

lemma schedule_reachable: "reachable E st (schedule E is st)"
proof (induction E "is" st rule: schedule.induct)
  case (1 E st)
  then show ?case by (simp add: reachable_def)
next
  case (2 E i "is" s ts)
  show ?case
  proof (cases "i < length ts")
    case True
    obtain s' t' where st: "thread_step E s (ts ! i) = (s', t')" by fastforce
    have "sys_step E (s, ts) (s', ts[i := t'])" using True st by (rule sys_step.act)
    moreover have "reachable E (s', ts[i := t']) (schedule E is (s', ts[i := t']))"
      using "2.IH" [OF True st [symmetric]] by simp
    ultimately show ?thesis using True st
      by (simp add: reachable_def converse_rtranclp_into_rtranclp)
  qed (simp add: reachable_def)
qed

lemma reachable_trans: "reachable E a b \<Longrightarrow> reachable E b c \<Longrightarrow> reachable E a c"
  by (simp add: reachable_def)

definition demo_codec :: codec where
  "demo_codec = \<lparr>json_loads = (\<lambda>_. None), json_dumps = (\<lambda>_. ''{}'')\<rparr>"

definition demo_request :: "http_verb \<Rightarrow> string \<Rightarrow> string \<Rightarrow> request" where
  "demo_request v p ip = \<lparr>rq_verb = v, rq_path = p, rq_authorization = Some ''Bearer tok'',
     rq_content_length = None, rq_body = [], rq_client_ip = ip\<rparr>"

lemma two_arrivals:
  "reachable E (s, []) (s, [start_request a, start_request b])"
proof -
  have "sys_step E (s, []) (s, [] @ [start_request a])" by (rule sys_step.arrive)
  moreover have "sys_step E (s, [start_request a]) (s, [start_request a] @ [start_request b])"
    by (rule sys_step.arrive)
  ultimately show ?thesis unfolding reachable_def by (simp add: converse_rtranclp_into_rtranclp)
qed

theorem credentials_served_once_witness:
  "\<exists>s ts. reachable demo_codec (cred_server_init ''yaml'' ''tok'', []) (s, ts)
     \<and> length (filter served ts) = 1 \<and> cs_client_ip s = Some ''10.0.0.2''
     \<and> (\<exists>rq r. Done (Some (rq, Some r)) \<in> set ts \<and> rs_code r = 410)"
proof -
  let ?a = "demo_request GET ''/creds'' ''10.0.0.1''" and ?b = "demo_request GET ''/creds'' ''10.0.0.2''"
  let ?st = "schedule demo_codec [0, 1, 1, 0, 1] (cred_server_init ''yaml'' ''tok'', [start_request ?a, start_request ?b])"
  obtain s ts where st: "?st = (s, ts)" by fastforce
  have run: "reachable demo_codec (cred_server_init ''yaml'' ''tok'', []) (s, ts)"
    using reachable_trans [OF two_arrivals schedule_reachable] st by metis
  have "case ?st of (s, ts) \<Rightarrow> cs_client_ip s = Some ''10.0.0.2'' \<and> filter served ts \<noteq> []
      \<and> list_ex (\<lambda>t. code_of t = Some 410) ts"
    by code_simp
  then have e: "cs_client_ip s = Some ''10.0.0.2''" "filter served ts \<noteq> []"
    "list_ex (\<lambda>t. code_of t = Some 410) ts"
    using st by simp_all
  from e(3) have "\<exists>rq r. Done (Some (rq, Some r)) \<in> set ts \<and> rs_code r = 410"
    using code_of_Some by (fastforce simp: list_ex_iff)
  moreover have "length (filter served ts) = 1"
    using credentials_served_once [OF run] e(2) by (cases "filter served ts") simp_all
  ultimately show ?thesis using run e(1) by blast
qed

section \<open>The stop signal\<close>

text \<open>What holds of a thread once the main loop's event is bound.\<close>

fun bound_thread :: "cred_server \<Rightarrow> thread \<Rightarrow> bool" where
  "bound_thread s (StopSend rq b) = b"
| "bound_thread s (StopSet rq b r) = b"
| "bound_thread s (StopFlip rq b r) = b"
| "bound_thread s Bind = False"
| "bound_thread s (SnapshotDrained rq r) = (rs_code r = 200)"
| "bound_thread s (Done (Some (rq, Some r))) = (rs_code r = 202 \<longrightarrow> cs_stop_event s = Some True)"
| "bound_thread s _ = True"

definition event_later :: "cred_server \<Rightarrow> cred_server \<Rightarrow> bool" where
  "event_later s s' \<longleftrightarrow> cs_stop_event s' \<noteq> None \<and> (cs_stop_event s = Some True \<longrightarrow> cs_stop_event s' = Some True)"

lemma bound_thread_later: "bound_thread s t \<Longrightarrow> event_later s s' \<Longrightarrow> bound_thread s' t"
  by (cases "(s, t)" rule: bound_thread.cases) (auto simp: event_later_def)

lemma bound_authenticated:
  "bound_thread s k \<Longrightarrow> bound_thread s (authenticated s rq k)"
  by (auto simp: authenticated_def finished_def raised_def dest: check_bearer_Rejected split: auth.split)

lemma bound_step:
  assumes "thread_step E s t = (s', t')" "bound_thread s t" "cs_stop_event s \<noteq> None"
  shows "bound_thread s' t' \<and> event_later s s'"
proof (cases t)
  case (Creds rq)
  then show ?thesis using assms bound_authenticated [of s "CredsLocked rq"] by (auto simp: event_later_def)
next
  case (Snapshot rq)
  then show ?thesis using assms bound_authenticated [of s "SnapshotLocked rq"] by (auto simp: event_later_def)
next
  case (Stop rq)
  let ?k = "case parse_client_throughput (json_loads E) (read_request_body rq (64 * 1024)) of
           Inl e \<Rightarrow> raised rq
         | Inr ct \<Rightarrow> if ct = [] then StopReadEvent rq else StopMerge rq ct"
  have "bound_thread s ?k" by (auto simp: raised_def split: sum.split)
  then show ?thesis using assms Stop bound_authenticated [of s ?k rq] by (auto simp: event_later_def)
qed (use assms in \<open>auto simp: event_later_def finished_def reply_def split: if_splits option.splits\<close>)

lemma bound_start: "bound_thread s (start_request rq)"
  by (auto simp: start_request_def do_GET_def do_POST_def finished_def reply_def split: http_verb.split)

text \<open>No other thread takes the binding back, so what holds of one handler can be followed on its own.\<close>

lemma step_keeps_event:
  assumes "thread_step E s t = (s', t')" "t \<noteq> Bind" "cs_stop_event s \<noteq> None"
  shows "event_later s s' \<and> t' \<noteq> Bind"
proof (cases t)
  case (Stop rq)
  then show ?thesis using assms
    by (auto simp: event_later_def authenticated_def finished_def raised_def split: auth.splits sum.splits if_splits)
qed (use assms in \<open>auto simp: event_later_def authenticated_def finished_def raised_def split: if_splits option.splits auth.splits\<close>)

lemma step_no_new_bind:
  assumes "thread_step E s t = (s', t')" "thread_ok s t" "t \<noteq> Bind"
  shows "t' \<noteq> Bind \<and> (cs_stop_event s = None \<longrightarrow> cs_stop_event s' = None)"
proof (cases t)
  case (Stop rq)
  then show ?thesis using assms
    by (auto simp: authenticated_def finished_def raised_def split: auth.splits sum.splits if_splits)
qed (use assms in \<open>auto simp: authenticated_def finished_def raised_def split: if_splits option.splits auth.splits\<close>)

text \<open>There is at most one pending binding, and none once the event is bound.\<close>

definition bind_once :: "cred_server \<times> thread list \<Rightarrow> bool" where
  "bind_once st \<longleftrightarrow> (case st of (s, ts) \<Rightarrow> \<forall>i < length ts. ts ! i = Bind \<longrightarrow>
     cs_stop_event s = None \<and> (\<forall>j < length ts. ts ! j = Bind \<longrightarrow> j = i))"

lemma start_not_Bind: "start_request rq \<noteq> Bind"
  by (simp add: start_request_def do_GET_def do_POST_def finished_def split: http_verb.split)

lemma bind_once_step: "sys_step E st st' \<Longrightarrow> sys_ok y tok st \<Longrightarrow> bind_once st \<Longrightarrow> bind_once st'"
proof (induction rule: sys_step.induct)
  case (bind s ts)
  then show ?case by (auto simp: bind_once_def nth_append in_set_conv_nth)
next
  case (act i ts s s' t')
  have ok: "thread_ok s (ts ! i)" using act by (auto simp: sys_ok_def)
  show ?case
  proof (cases "ts ! i = Bind")
    case True
    then show ?thesis using act by (auto simp: bind_once_def nth_list_update)
  next
    case False
    then show ?thesis using act(1,4) step_no_new_bind [OF act(2) ok False] by (auto simp: bind_once_def nth_list_update)
  qed
qed (auto simp: bind_once_def nth_append start_not_Bind)

lemma bind_once_reachable: "reachable E st st' \<Longrightarrow> sys_ok y tok st \<Longrightarrow> bind_once st \<Longrightarrow> bind_once st'"
  unfolding reachable_def
proof (induction rule: rtranclp_induct)
  case (step a b)
  then have "sys_ok y tok a" using sys_ok_reachable by (metis reachable_def)
  then show ?case using bind_once_step step by blast
qed

text \<open>The handler at index \<open>i\<close>, once the event is bound.\<close>

definition bound_at :: "nat \<Rightarrow> cred_server \<times> thread list \<Rightarrow> bool" where
  "bound_at i st \<longleftrightarrow> (case st of (s, ts) \<Rightarrow> cs_stop_event s \<noteq> None \<and> Bind \<notin> set ts
     \<and> (i < length ts \<longrightarrow> bound_thread s (ts ! i)))"

lemma bound_at_step: "sys_step E st st' \<Longrightarrow> bound_at i st \<Longrightarrow> bound_at i st'"
proof (induction rule: sys_step.induct)
  case (act j ts s s' t')
  have b: "cs_stop_event s \<noteq> None" "Bind \<notin> set ts" using act(3) by (simp_all add: bound_at_def)
  then have j: "ts ! j \<noteq> Bind" "cs_stop_event s \<noteq> None" using nth_mem [OF act(1)] by auto
  note step = step_keeps_event [OF act(2) j]
  have "bound_thread s' (ts[j := t'] ! i)" if "i < length ts"
    using that act(1,3) step bound_step [OF act(2)] by (cases "j = i") (auto simp: bound_at_def intro: bound_thread_later)
  moreover have "Bind \<notin> set (ts[j := t'])"
    using act(3) step set_update_subset_insert [of ts j t'] by (auto simp: bound_at_def)
  ultimately show ?case using step act(3) by (simp add: bound_at_def event_later_def)
qed (auto simp: bound_at_def bound_start start_not_Bind start_not_Bind [symmetric] nth_append not_less less_Suc_eq)

lemma bound_at_reachable: "reachable E st st' \<Longrightarrow> bound_at i st \<Longrightarrow> bound_at i st'"
  unfolding reachable_def by (induction rule: rtranclp_induct) (auto intro: bound_at_step)

text \<open>A stop recorded before the binding: the binding finds it.\<close>

definition stop_on_record :: "cred_server \<times> thread list \<Rightarrow> bool" where
  "stop_on_record st \<longleftrightarrow> (case st of (s, ts) \<Rightarrow> cs_stop_requested s
     \<and> (cs_stop_event s = None \<or> cs_stop_event s = Some True \<or> BindFlip True \<in> set ts))"

lemma step_keeps_record:
  assumes "thread_step E s t = (s', t')" "cs_stop_requested s"
  shows "cs_stop_requested s' \<and> (t = BindFlip True \<or> cs_stop_event s' = cs_stop_event s \<or> cs_stop_event s' = Some True \<or> t' = BindFlip True)
    \<and> (t = BindFlip True \<longrightarrow> cs_stop_event s' = Some True)"
proof (cases t)
  case (Stop rq)
  then show ?thesis using assms by (auto split: auth.splits sum.splits)
qed (use assms in \<open>auto split: if_splits option.splits\<close>)

lemma stop_on_record_step: "sys_step E st st' \<Longrightarrow> stop_on_record st \<Longrightarrow> stop_on_record st'"
proof (induction rule: sys_step.induct)
  case (act i ts s s' t')
  have "cs_stop_requested s" using act(3) by (simp add: stop_on_record_def)
  note step = step_keeps_record [OF act(2) this]
  have "t' \<in> set (ts[i := t'])" using act(1) by (rule set_update_memI)
  moreover have "BindFlip True \<in> set (ts[i := t'])" if "BindFlip True \<in> set ts" "ts ! i \<noteq> BindFlip True"
    using that act(1) by (metis in_set_conv_nth length_list_update nth_list_update_neq)
  ultimately show ?case using step act(3) unfolding stop_on_record_def by force
qed (auto simp: stop_on_record_def)

lemma stop_on_record_reachable: "reachable E st st' \<Longrightarrow> stop_on_record st \<Longrightarrow> stop_on_record st'"
  unfolding reachable_def by (induction rule: rtranclp_induct) (auto intro: stop_on_record_step)

text \<open>
  The reply a handler has sent already: that of \<open>/stop\<close> goes out before the flag is set, that of
  \<open>/snapshot\<close> before the drained event.
\<close>

fun reply_sent :: "thread \<Rightarrow> (request \<times> response) option" where
  "reply_sent (SnapshotDrained rq r) = Some (rq, r)"
| "reply_sent (StopSet rq bound r) = Some (rq, r)"
| "reply_sent (StopFlip rq bound r) = Some (rq, r)"
| "reply_sent (Done (Some (rq, Some r))) = Some (rq, r)"
| "reply_sent _ = None"

fun before_read :: "thread \<Rightarrow> bool" where
  "before_read (Stop rq) = True"
| "before_read (StopMerge rq ct) = True"
| "before_read (StopReadEvent rq) = True"
| "before_read _ = False"

lemma sent_stop:
  assumes "thread_ok s t" "reply_sent t = Some (rq, r)" "rs_code r = 202"
  shows "is_stop rq \<and> bearer s rq"
  using assms by (cases t rule: reply_sent.cases) (auto simp: reply_ok_def)

lemma run_thread_2: "run_thread 2 E s t = (case thread_step E s t of (s', t') \<Rightarrow> thread_step E s' t')"
  by (simp add: numeral_2_eq_2 split: prod.split)

lemma sent_stop_ends:
  assumes "thread_ok s t" "reply_sent t = Some (rq, r)" "rs_code r = 202"
  shows "\<exists>s' d. run_thread 2 E s t = (s', Done d) \<and> cs_stop_requested s' \<and> (bound_thread s t \<longrightarrow> cs_stop_event s' = Some True)"
  using assms by (cases t rule: reply_sent.cases) (auto simp: run_thread_2 reply_ok_def finished_def)

text \<open>
  C10. No stop that was acknowledged with 202 is forgotten, whatever else is in progress. The
  request carried the session's token; the handler, whose reply goes out first, has at most two
  actions of its own left (none when it has ended), and after them the stop is recorded in
  \<open>_stop_requested\<close>; and the main loop's event is set as well when the event had been bound
  before the handler looked at it. And a stop that was recorded before the binding sets the event
  through the binding. (What remains, the binding between the handler's look and its record, is
  the race of the next property.)
\<close>

theorem acknowledged_stop_is_seen:
  assumes before: "reachable E (cred_server_init y tok, []) (s0, ts0)" and run: "reachable E (s0, ts0) (s, ts)"
    and ack: "i < length ts" "reply_sent (ts ! i) = Some (rq, r)" "rs_code r = 202"
  shows "is_stop rq \<and> rq_authorization rq = Some (''Bearer '' @ tok)
    \<and> (\<exists>s' d. run_thread 2 E s (ts ! i) = (s', Done d) \<and> cs_stop_requested s'
         \<and> (cs_stop_event s0 \<noteq> None \<and> (i < length ts0 \<longrightarrow> before_read (ts0 ! i)) \<longrightarrow> cs_stop_event s' = Some True))
    \<and> (cs_stop_requested s0 \<and> cs_stop_event s0 = None \<and> BindFlip True \<notin> set ts \<longrightarrow>
         cs_stop_event s = None \<or> cs_stop_event s = Some True)"
proof -
  have ok0: "sys_ok y tok (s0, ts0)" using before sys_ok_init by (rule sys_ok_reachable)
  have "bind_once (s0, ts0)" using bind_once_reachable [OF before sys_ok_init] by (simp add: bind_once_def)
  then have no_bind: "cs_stop_event s0 \<noteq> None \<Longrightarrow> Bind \<notin> set ts0" by (auto simp: bind_once_def in_set_conv_nth)
  have "sys_ok y tok (s, ts)" using run ok0 by (rule sys_ok_reachable)
  then have ok: "thread_ok s (ts ! i)" "cs_token s = tok" using ack(1) by (auto simp: sys_ok_def)
  have "bound_thread s (ts ! i)" if "cs_stop_event s0 \<noteq> None" "i < length ts0 \<longrightarrow> before_read (ts0 ! i)"
  proof -
    have "bound_thread s0 (ts0 ! i)" if "i < length ts0"
      using \<open>i < length ts0 \<longrightarrow> _\<close> that by (cases "ts0 ! i" rule: before_read.cases) auto
    then have "bound_at i (s0, ts0)" using that no_bind by (simp add: bound_at_def)
    then show ?thesis using bound_at_reachable [OF run] ack(1) by (auto simp: bound_at_def)
  qed
  moreover have "stop_on_record (s, ts)" if "cs_stop_requested s0" "cs_stop_event s0 = None"
    using stop_on_record_reachable [OF run] that by (simp add: stop_on_record_def)
  ultimately show ?thesis
    using sent_stop [OF ok(1) ack(2,3)] sent_stop_ends [OF ok(1) ack(2,3), of E] ok(2)
    by (auto simp: bearer_def stop_on_record_def)
qed

theorem acknowledged_stop_is_seen_witness:
  "\<exists>s ts. reachable demo_codec (cred_server_init ''yaml'' ''tok'', []) (s, ts) \<and> \<not> cs_stop_requested s \<and> cs_stop_event s = Some False
     \<and> (\<exists>s' d. run_thread 2 demo_codec s (ts ! 1) = (s', Done d) \<and> cs_stop_requested s' \<and> cs_stop_event s' = Some True)"
proof -
  let ?start = "cred_server_init ''yaml'' ''tok''" and ?a = "demo_request POST ''/stop'' ''10.0.0.1''"
  let ?bound = "?start\<lparr>cs_stop_event := Some False\<rparr>"
  have "sys_step demo_codec (?start, []) (?start, [] @ [Bind])"
    using sys_step.bind [of ?start "[]" demo_codec] by (simp add: cred_server_init_def)
  then have first: "reachable demo_codec (?start, []) (?start, [Bind])" by (simp add: reachable_def)
  have bound: "schedule demo_codec [0, 0] (?start, [Bind]) = (?bound, [Done None])" by code_simp
  have before: "reachable demo_codec (?start, []) (?bound, [Done None])"
    using reachable_trans [OF first schedule_reachable [of demo_codec _ "[0, 0]"]] by (simp only: bound)
  have "sys_step demo_codec (?bound, [Done None]) (?bound, [Done None] @ [start_request ?a])" by (rule sys_step.arrive)
  then have arrive: "reachable demo_codec (?bound, [Done None]) (?bound, [Done None, start_request ?a])" by (simp add: reachable_def)
  have sent: "schedule demo_codec [1, 1, 1] (?bound, [Done None, start_request ?a]) = (?bound, [Done None, StopSet ?a True stop_reply])"
    by code_simp
  then have run: "reachable demo_codec (?bound, [Done None]) (?bound, [Done None, StopSet ?a True stop_reply])"
    using reachable_trans [OF arrive schedule_reachable [of demo_codec _ "[1, 1, 1]"]] by (simp only: sent)
  have "rs_code stop_reply = 202" by (simp add: stop_reply_def reply_def)
  then show ?thesis
    using acknowledged_stop_is_seen [OF before run, of 1 ?a stop_reply] reachable_trans [OF before run]
    by (intro exI [of _ ?bound] exI [of _ "[Done None, StopSet ?a True stop_reply]"]) (auto simp: cred_server_init_def)
qed

text \<open>The schedule that loses it: the binding falls between the handler's read and its write.\<close>

definition lost_run :: "cred_server \<times> thread list" where
  "lost_run = schedule demo_codec [0, 0, 1, 1, 0, 0, 0]
       (cred_server_init ''yaml'' ''tok'', [start_request (demo_request POST ''/stop'' ''10.0.0.1''), Bind])"

lemma lost_run_facts:
  "list_all is_done (snd lost_run)"
  "list_ex (\<lambda>t. code_of t = Some 202) (snd lost_run)"
  "cs_stop_requested (fst lost_run)"
  "cs_stop_event (fst lost_run) = Some False"
  by code_simp+

text \<open>
  C18. Without that order the signal can be lost: the handler reads the unbound event, the main
  thread binds it and finds no stop requested, and only then does the handler record the stop.
  Every thread has ended, the client has its 202, and the bound event is not set.
\<close>

theorem stop_can_be_lost:
  "\<exists>s ts. reachable demo_codec (cred_server_init ''yaml'' ''tok'', []) (s, ts)
     \<and> list_all is_done ts
     \<and> list_ex (\<lambda>t. code_of t = Some 202) ts \<and> cs_stop_requested s \<and> cs_stop_event s = Some False"
proof -
  let ?s0 = "cred_server_init ''yaml'' ''tok''"
  let ?a = "demo_request POST ''/stop'' ''10.0.0.1''"
  have "sys_step demo_codec (?s0, []) (?s0, [] @ [start_request ?a])" by (rule sys_step.arrive)
  moreover have "sys_step demo_codec (?s0, [start_request ?a]) (?s0, [start_request ?a] @ [Bind])"
    by (rule sys_step.bind)
      (simp_all add: cred_server_init_def start_request_def demo_request_def do_POST_def finished_def)
  ultimately have base: "reachable demo_codec (?s0, []) (?s0, [start_request ?a, Bind])"
    unfolding reachable_def by (simp add: converse_rtranclp_into_rtranclp)
  have "reachable demo_codec (?s0, []) lost_run"
    unfolding lost_run_def by (rule reachable_trans [OF base schedule_reachable])
  then show ?thesis using lost_run_facts
    by (intro exI [of _ "fst lost_run"] exI [of _ "snd lost_run"]) simp
qed

text \<open>
  A body that is well-formed JSON can still fail the handler: a throughput too large for a
  float raises, so the client has no reply and no stop is recorded.
\<close>

lemma run_thread_Done [simp]: "run_thread n E s (Done r) = (s, Done r)"
  by (induction n) simp_all

lemma run_thread_7: "run_thread 7 E s t = (case thread_step E s t of (s', t') \<Rightarrow> run_thread 6 E s' t')"
  using run_thread.simps(2) [of 6 E s t] by simp

lemma huge_throughput_raises:
  assumes "float_of_int n = Inl OverflowErr" "read_request_body rq (64 * 1024) \<noteq> []"
    and "json_loads E (read_request_body rq (64 * 1024)) = Some (JObj [(''client_throughput'', JObj [(p, JInt n)])])"
    and "check_bearer s rq = Pass" "is_stop rq"
  shows "handle E s rq = (s, raised rq)"
proof -
  have "parse_client_throughput (json_loads E) (read_request_body rq (64 * 1024)) = Inl OverflowErr"
    using assms(1-3) by (simp del: float_of_int.simps
        add: parse_client_throughput_def jget_def dict_default_def dict_get_def)
  moreover have "start_request rq = Stop rq"
    using assms(5) by (simp add: is_stop_def start_request_def do_POST_def)
  ultimately show ?thesis
    using assms(4) by (simp add: handle_def run_thread_7 authenticated_def raised_def)
qed

end
