(* ===== verification/Listener.thy ===== *)
theory Listener
  imports Responders Preflight CredServer Config
begin

text \<open>
  \<open>censprobe_listener/main.py\<close>: session identifiers, the preflight signals, starting the
  responders, the end of a session (snapshots for the client, results for the report) and the
  report. Rich output, signal handlers and files are left out.
\<close>

section \<open>Session identifiers and ports\<close>

text \<open>\<open>token\<close> is \<open>secrets.token_hex(2)\<close>.\<close>

definition generate_session_id :: "bool \<Rightarrow> bool \<Rightarrow> string \<Rightarrow> string" where
  "generate_session_id is_mobile is_whitelist token =
     (let prefix = (if is_mobile \<and> is_whitelist then ''mob-white''
        else if is_mobile then ''mob''
        else if is_whitelist then ''white''
        else ''plain'')
      in prefix @ ''-'' @ str_upper token)"

text \<open>\<open>None\<close> is the \<open>KeyError\<close> of a missing port.\<close>

fun udp_ports_of :: "string list \<Rightarrow> (string, int) dict \<Rightarrow> int list option" where
  "udp_ports_of [] ports_map = Some []"
| "udp_ports_of (name # names) ports_map =
     (case get_protocol name of
        None \<Rightarrow> udp_ports_of names ports_map
      | Some spec \<Rightarrow>
          if ps_transport spec \<noteq> udp then udp_ports_of names ports_map
          else (case dict_get ports_map name of
              None \<Rightarrow> None
            | Some port \<Rightarrow> map_option ((#) port) (udp_ports_of names ports_map)))"

definition listener_udp_ports :: "string list \<Rightarrow> (string, int) dict \<Rightarrow> int list option" where
  "listener_udp_ports enabled ports_map = map_option (\<lambda>ps. sort (remdups ps)) (udp_ports_of enabled ports_map)"

section \<open>Preflight signals\<close>

definition signal_of :: "string \<Rightarrow> check_result list \<Rightarrow> bool option" where
  "signal_of name results =
     (case first_that (\<lambda>r. ck_name r = name) results of
        None \<Rightarrow> None
      | Some r \<Rightarrow> if ck_status r = ''ok'' then Some True
                  else if ck_status r = ''warn'' then Some False else None)"

definition extract_dc_reach_ok :: "check_result list \<Rightarrow> bool option" where
  "extract_dc_reach_ok results = signal_of ''telegram-dc-reach'' results"

definition extract_iptables_cap_ok :: "check_result list \<Rightarrow> bool option" where
  "extract_iptables_cap_ok results = signal_of ''iptables-cap'' results"

definition data_counters_available :: "string \<Rightarrow> bool option \<Rightarrow> bool option" where
  "data_counters_available name iptables_cap_ok =
     (if \<not> uses_iptables_counter name then Some True else iptables_cap_ok)"

section \<open>Starting the responders\<close>

text \<open>
  \<open>start\<close> is what starting a responder gives, next to those already running: the text of an
  exception (the port may be taken), or the running responder.
\<close>

fun start_all ::
    "((string, responder) dict \<Rightarrow> string \<Rightarrow> responder \<Rightarrow> string + responder) \<Rightarrow> gen_creds \<Rightarrow> protocol_spec list
     \<Rightarrow> (string, responder) dict \<times> (string, string) dict \<Rightarrow> (string, responder) dict \<times> (string, string) dict" where
  "start_all start creds [] acc = acc"
| "start_all start creds (spec # specs) (responders, errors) =
     (case dict_get LISTENER_RESPONDERS (ps_name spec) of
        None \<Rightarrow> start_all start creds specs
          (responders, dict_set (ps_name spec) ''no listener factory'' errors)
      | Some factory \<Rightarrow> (case start responders (ps_name spec) (factory creds) of
            Inr r \<Rightarrow> start_all start creds specs (dict_set (ps_name spec) r responders, errors)
          | Inl e \<Rightarrow> start_all start creds specs (responders, dict_set (ps_name spec) e errors)))"

definition start_responders ::
    "((string, responder) dict \<Rightarrow> string \<Rightarrow> responder \<Rightarrow> string + responder) \<Rightarrow> gen_creds \<Rightarrow> string list
     \<Rightarrow> (string, responder) dict \<times> (string, string) dict" where
  "start_responders start creds requested = start_all start creds (enabled_protocols requested) ([], [])"

definition run_post_responder_self_tests ::
    "(string, responder) dict \<Rightarrow> check_result \<Rightarrow> (string, bool) dict \<times> check_result list" where
  "run_post_responder_self_tests responders self_test =
     (case dict_get responders ''mtproto_orig'' of
        None \<Rightarrow> ([], [])
      | Some (MtOrig m) \<Rightarrow>
          if mo_unavailable m then
            ([(''mtproto_orig'', False)],
             [check ''mtproxy-orig-self-test'' ''warn''
               (''skipped: mtproto-proxy not launched ('' @ str_of_int (mo_upstream_alive_count m) @ ''/'' @
                str_of_int (mo_upstream_total_count m) @ '' proxy-multi.conf upstreams reachable on TCP/8888). '' @
                ''mtproto_orig sessions WILL report BLOCKED '' @ em_dash @ '' the prune itself is positive evidence '' @
                ''that Telegram'' @ [CHR 0x27] @ ''s DC fleet is unreachable from this vantage (typical for RU hosts '' @
                ''behind '' @ tspu @ '' on TCP/8888 to 91.108.4.0/24 and 149.154.0.0/16).'')])
          else ([(''mtproto_orig'', ck_status self_test = ''ok'')], [self_test])
      | Some _ \<Rightarrow> ([(''mtproto_orig'', ck_status self_test = ''ok'')], [self_test]))"

section \<open>Stopping\<close>

text \<open>\<open>stuck\<close> names the responders whose stop was cancelled at the deadline, with what it left.\<close>

definition stop_responders ::
    "vantage \<Rightarrow> (string, responder) dict \<Rightarrow> (string, responder) dict \<Rightarrow> (string, responder) dict" where
  "stop_responders v stuck responders = map (\<lambda>(name, r).
     (name, case dict_get stuck name of Some left \<Rightarrow> left | None \<Rightarrow> resp_stop v r)) responders"

section \<open>Snapshots for the client\<close>

fun json_bool_opt :: "bool option \<Rightarrow> json" where
  "json_bool_opt None = JNull"
| "json_bool_opt (Some b) = JBool b"

fun json_int_opt :: "int option \<Rightarrow> json" where
  "json_int_opt None = JNull"
| "json_int_opt (Some i) = JInt i"

text \<open>\<open>model_dump(mode="json")\<close> of a snapshot.\<close>

definition snapshot_dump :: "live_snapshot \<Rightarrow> (string, json) dict" where
  "snapshot_dump s =
     [(''handshake_count'', JInt (ls_handshake_count s)),
      (''data_transfer_ok'', JBool (ls_data_transfer_ok s)),
      (''data_packets'', json_int_opt (ls_data_packets s)),
      (''bytes_received'', json_int_opt (ls_bytes_received s)),
      (''responder_self_test_ok'', json_bool_opt (ls_responder_self_test_ok s)),
      (''dc_reach_ok'', json_bool_opt (ls_dc_reach_ok s)),
      (''data_counters_available'', json_bool_opt (ls_data_counters_available s))]"

text \<open>\<open>failing\<close>: the responders whose \<open>live_snapshot\<close> failing, with the exception as text.\<close>

definition final_snapshot ::
    "vantage \<Rightarrow> (string, string) dict \<Rightarrow> (string, bool) dict \<Rightarrow> bool option \<Rightarrow> bool option
     \<Rightarrow> string \<Rightarrow> responder \<Rightarrow> (string, json) dict" where
  "final_snapshot v failing self_tests dc_reach_ok iptables_cap_ok name r =
     (let s0 = (case dict_get failing name of
            Some exc \<Rightarrow> [(''error'', JStr exc)]
          | None \<Rightarrow> snapshot_dump (resp_live_snapshot v r));
          s1 = (case dict_get self_tests name of
            Some ok \<Rightarrow> dict_set ''responder_self_test_ok'' (JBool ok) s0
          | None \<Rightarrow> s0);
          s2 = (if requires_telegram_dc name then dict_set ''dc_reach_ok'' (json_bool_opt dc_reach_ok) s1 else s1)
      in dict_set ''data_counters_available''
           (json_bool_opt (data_counters_available name iptables_cap_ok)) s2)"

definition build_final_snapshots ::
    "vantage \<Rightarrow> (string, string) dict \<Rightarrow> (string, responder) dict \<Rightarrow> (string, bool) dict
     \<Rightarrow> bool option \<Rightarrow> bool option \<Rightarrow> (string, json) dict" where
  "build_final_snapshots v failing responders self_tests dc_reach_ok iptables_cap_ok =
     map (\<lambda>(name, r). (name, JObj (final_snapshot v failing self_tests dc_reach_ok iptables_cap_ok name r))) responders"

section \<open>Results for the report\<close>

definition finalize_protocol_result ::
    "vantage \<Rightarrow> string \<Rightarrow> responder \<Rightarrow> bool option \<Rightarrow> bool option \<Rightarrow> bool option \<Rightarrow> protocol_result" where
  "finalize_protocol_result v name r self_test_ok dc_reach_ok counters =
     (let avg_throughput = (case resp_echo_server v r of None \<Rightarrow> None | Some es \<Rightarrow> throughput_of es name);
          cap_at = (if is_mtg_protocol name \<and> dc_reach_ok = Some False then Some HANDSHAKE_ONLY else None);
          pr = finalize cap_at counters
            (ProtocolResult_default\<lparr>pr_handshake_count := resp_connection_count v r,
               pr_data_transfer_ok := resp_data_transfer_ok v r, pr_avg_throughput_mbps := avg_throughput,
               pr_responder_self_test_ok := self_test_ok\<rparr>)
      in if cap_at = Some HANDSHAKE_ONLY then pr\<lparr>pr_note := Some NOTE_LISTENER_DC_UNREACHABLE_LONG\<rparr> else pr)"

definition mtproto_orig_failure_note :: "responder \<Rightarrow> bool option \<Rightarrow> string option" where
  "mtproto_orig_failure_note r self_test_ok =
    (if self_test_ok \<noteq> Some False then None
     else case r of
         MtOrig m \<Rightarrow>
           let counts = str_of_int (mo_upstream_alive_count m) @ ''/'' @ str_of_int (mo_upstream_total_count m) in
           if mo_unavailable m then Some
             (''mtproto-proxy not launched: '' @ counts @ '' proxy-multi.conf upstreams reachable on TCP/8888 '' @ em_dash @
              '' Telegram'' @ [CHR 0x27] @ ''s proxy fleet is confirmed unreachable from this vantage (typical for RU hosts '' @
              ''behind '' @ tspu @ '' which drops TCP/8888 to 91.108.4.0/24 and 149.154.0.0/16). The prune itself is the '' @
              ''network-block signal '' @ em_dash @ '' mtproto_orig cannot work end-to-end here.'')
           else Some
             (''mtproto-proxy launched with '' @ counts @ '' upstreams alive but the listener-side loopback self-test '' @
              ''still timed out after 12 s '' @ em_dash @ '' the C MTProxy slave never accepted its own connection. On RU '' @
              ''vantages this is consistently caused by L7 '' @ tspu @ '' filtering of the daemon'' @ [CHR 0x27] @
              ''s auth_cluster RPC heartbeat (TCP/8888 SYN passes prune but the RPC payload is dropped); the prune '' @
              ''signal is positive evidence of L7 censorship. On non-RU vantages the same shape means NAT detection at '' @
              ''startup failed: cloud VMs (AWS/GCP/DO private VPC) sit behind a 1:1 NAT and the C MTProxy embeds the '' @
              ''LOCAL source IP into its auth_cluster RPC handshake, but upstream sees the PUBLIC IP from the NAT '' @ em_dash @
              '' the mismatch causes silent disconnect after the nonce exchange. The responder auto-detects this and '' @
              ''passes ``--nat-info <private>:<public>``; if it fired on a bare-metal host with a directly-attached '' @
              ''public IP, no --nat-info is added and the cause is genuinely upstream-side.'')
       | _ \<Rightarrow> None)"

definition finalize_session_result ::
    "vantage \<Rightarrow> (string, bool) dict \<Rightarrow> bool option \<Rightarrow> bool option \<Rightarrow> (string, rat) dict
     \<Rightarrow> string \<Rightarrow> responder \<Rightarrow> protocol_result" where
  "finalize_session_result v self_tests dc_reach_ok iptables_cap_ok client_throughput name r =
     (let pr = (finalize_protocol_result v name r (dict_get self_tests name)
            (if is_mtg_protocol name then dc_reach_ok else None)
            (data_counters_available name iptables_cap_ok))
            \<lparr>pr_client_avg_throughput_mbps := dict_get client_throughput name\<rparr>
      in if name = ''mtproto_orig'' then
           (case mtproto_orig_failure_note r (dict_get self_tests name) of
              Some override \<Rightarrow> pr\<lparr>pr_note := Some override\<rparr>
            | None \<Rightarrow> pr)
         else pr)"

definition finalize_session_results ::
    "vantage \<Rightarrow> (string, responder) dict \<Rightarrow> (string, bool) dict \<Rightarrow> bool option \<Rightarrow> bool option
     \<Rightarrow> (string, rat) dict \<Rightarrow> (string, protocol_result) dict" where
  "finalize_session_results v responders self_tests dc_reach_ok iptables_cap_ok client_throughput =
     map (\<lambda>(name, r). (name, finalize_session_result v self_tests dc_reach_ok iptables_cap_ok client_throughput name r)) responders"

definition enrich_client_or_none :: "(string \<Rightarrow> endpoint_meta option option) \<Rightarrow> string option \<Rightarrow> endpoint_meta option" where
  "enrich_client_or_none enrich_endpoint client_ip =
     (case client_ip of
        None \<Rightarrow> None
      | Some ip \<Rightarrow> (case enrich_endpoint ip of None \<Rightarrow> None | Some meta \<Rightarrow> meta))"

section \<open>The end of a session\<close>

record session =
  sn_test_id :: string
  sn_session_id :: string
  sn_is_mobile :: bool
  sn_is_whitelist :: bool
  sn_responders :: "(string, responder) dict"
  sn_self_tests :: "(string, bool) dict"
  sn_dc_reach_ok :: "bool option"
  sn_iptables_cap_ok :: "bool option"
  sn_started_at :: int
  sn_stopped_at :: int

text \<open>
  \<open>echo_server.stop()\<close> closes the listening sockets; the handlers of connections accepted before
  go on, so until the results are taken they may still count a connection, count what their first
  read delivers, or record a measurement.
\<close>

datatype late_event =
    LateConnection string
  | LateRead string string
  | LateMeasured string "rat option"

fun late_step :: "echo_server \<Rightarrow> late_event \<Rightarrow> echo_server" where
  "late_step es (LateConnection proto) = count_connection proto es"
| "late_step es (LateRead proto data) = count_bytes proto data es"
| "late_step es (LateMeasured proto mbps) = set_throughput proto mbps es"

definition echo_winds_down :: "late_event list \<Rightarrow> echo_server \<Rightarrow> echo_server" where
  "echo_winds_down late es = foldl late_step (echo_stop es) late"

text \<open>
  Steps 5 to 8 of \<open>_async_main\<close>, in two parts with the handlers of the credential server in
  between: the responders stop at \<open>v0\<close>, the snapshots are taken at \<open>v1\<close> and committed; then the
  echo server stops, winding down from its state at \<open>v1\<close>, and once the credential server is down
  too (\<open>srv\<close>) the results are taken at \<open>v2\<close> with what became of the echo server. Durations are
  in seconds.
\<close>

definition end_session_commit ::
    "codec \<Rightarrow> vantage \<Rightarrow> vantage \<Rightarrow> (string, responder) dict \<Rightarrow> (string, string) dict \<Rightarrow> session \<Rightarrow> cred_server
     \<Rightarrow> (string, responder) dict \<times> cred_server" where
  "end_session_commit E v0 v1 stuck failing sn srv =
     (let stopped = stop_responders v0 stuck (sn_responders sn);
          snapshots = build_final_snapshots v1 failing stopped (sn_self_tests sn) (sn_dc_reach_ok sn) (sn_iptables_cap_ok sn)
      in (stopped, commit_final_snapshots E snapshots srv))"

definition end_session_report ::
    "(string \<Rightarrow> endpoint_meta option option) \<Rightarrow> vantage \<Rightarrow> late_event list \<Rightarrow> vantage \<Rightarrow> string option
     \<Rightarrow> (string, responder) dict \<Rightarrow> session \<Rightarrow> cred_server \<Rightarrow> listener_report" where
  "end_session_report enrich_endpoint v1 late v2 client_ip stopped sn srv =
     (let echo = map_option (echo_winds_down late) (vt_echo v1);
          duration = fdiv (of_int (sn_stopped_at sn - sn_started_at sn)) 1000000;
          results = finalize_session_results (v2\<lparr>vt_echo := echo\<rparr>) stopped (sn_self_tests sn) (sn_dc_reach_ok sn)
            (sn_iptables_cap_ok sn) (cs_client_throughput srv)
      in \<lparr>lr_test_id = sn_test_id sn, lr_session_id = sn_session_id sn,
          lr_listener_started_at = sn_started_at sn, lr_listener_stopped_at = Some (sn_stopped_at sn),
          lr_duration_sec = Some (round1 duration), lr_client_connected = (client_ip \<noteq> None),
          lr_client = enrich_client_or_none enrich_endpoint client_ip,
          lr_is_mobile = sn_is_mobile sn, lr_is_whitelist = sn_is_whitelist sn, lr_results = results\<rparr>)"

text \<open>What winding down does to the counters: they grow by what was still read, nothing else.\<close>

fun late_bytes :: "string \<Rightarrow> late_event list \<Rightarrow> int" where
  "late_bytes p [] = 0"
| "late_bytes p (LateRead q data # late) = (if q = p then int (length data) else 0) + late_bytes p late"
| "late_bytes p (e # late) = late_bytes p late"

lemma late_bytes_nonneg: "0 \<le> late_bytes p late"
  by (induction p late rule: late_bytes.induct) auto

lemma echo_winds_down_bytes:
  "dict_default (es_bytes_counts (echo_winds_down late es)) p 0 = dict_default (es_bytes_counts es) p 0 + late_bytes p late"
proof -
  have "dict_default (es_bytes_counts (foldl late_step e late)) p 0 = dict_default (es_bytes_counts e) p 0 + late_bytes p late" for e
    by (induction p late arbitrary: e rule: late_bytes.induct) (auto simp: count_connection_def count_bytes_def)
  then show ?thesis by (simp add: echo_winds_down_def echo_stop_def)
qed

lemma data_ok_winds_down:
  "data_ok (echo_winds_down late es) p n \<longleftrightarrow> n \<le> dict_default (es_bytes_counts es) p 0 + late_bytes p late"
  by (simp add: data_ok_def echo_winds_down_bytes)

section \<open>The preflight decides the signals\<close>

lemma check_fields [simp]:
  "ck_name (check n s m) = n" "ck_status (check n s m) = s" "ck_message (check n s m) = m"
  by (simp_all add: check_def)

lemma check_names:
  "ck_name (cleanup_orphan_rules h) = ''orphan-rules''"
  "ck_name (check_iptables_capability h) = ''iptables-cap''"
  "ck_name (check_setpriv_available h) = ''setpriv-available''"
  "try_install_notrack h ps = Inr r \<Longrightarrow> ck_name r = ''notrack-autosetup''"
  "ck_name (check_conntrack h b) = ''conntrack''"
  "ck_name (check_dmesg_recent_drops h) = ''conntrack-dmesg''"
  "ck_name (check_telegram_dc_reach h f) = ''telegram-dc-reach''"
  "ck_name (mtproxy_upstream_checkresult u) = ''mtproxy-orig-upstream''"
  by (auto simp: cleanup_orphan_rules_def check_iptables_capability_def check_setpriv_available_def
      try_install_notrack_def check_conntrack_def check_dmesg_recent_drops_def
      check_telegram_dc_reach_def mtproxy_upstream_checkresult_def Let_def bindE_Inr_iff
      split: sum.splits option.splits if_splits)

lemma cap_status: "ck_status (check_iptables_capability h) = ''ok'' \<or> ck_status (check_iptables_capability h) = ''warn''"
  by (auto simp: check_iptables_capability_def Let_def split: sum.splits)

text \<open>The capability check passes exactly when the dry run answers that the rule is absent.\<close>

definition counters_permitted :: "host \<Rightarrow> bool" where
  "counters_permitted h \<longleftrightarrow> h_which h ''iptables'' \<and>
     (case h_run h cap_probe_argv of
        Inl _ \<Rightarrow> False
      | Inr (rc, out, stderr) \<Rightarrow> let err = str_lower (str_strip stderr) in
          rc = 1 \<and> (str_contains err ''matching rule exist'' \<or> str_contains err ''does a matching rule'' \<or> err = []))"

lemma cap_status_iff: "ck_status (check_iptables_capability h) = ''ok'' \<longleftrightarrow> counters_permitted h"
  by (auto simp: check_iptables_capability_def counters_permitted_def Let_def split: sum.splits if_splits)

definition some_dc_answers :: "host \<Rightarrow> dc_file \<Rightarrow> bool" where
  "some_dc_answers h f \<longleftrightarrow> (\<exists>(ip, port, name) \<in> set (load_telegram_dc_probes f). h_connect h ip port)"

lemma dc_status: "ck_status (check_telegram_dc_reach h f) = (if some_dc_answers h f then ''ok'' else ''warn'')"
  by (auto simp: check_telegram_dc_reach_def some_dc_answers_def Let_def filter_empty_conv)

text \<open>
  The preflight always yields both signals: when it returns, the Telegram signal is whether
  some data centre answered and the counter signal whether the dry run was permitted (neither
  is ever unknown), protocols without an iptables counter are always trusted, and the original
  MTProxy started on its upstream probe is unavailable exactly when no upstream answered.
\<close>

theorem preflight_signals:
  assumes "run_preflight h dcs conf_ok secret_ok dir ports = Inr r"
  shows "extract_dc_reach_ok (pf_checks r) = Some (some_dc_answers h dcs)
    \<and> extract_iptables_cap_ok (pf_checks r) = Some (counters_permitted h)
    \<and> data_counters_available name (extract_iptables_cap_ok (pf_checks r)) =
        Some (uses_iptables_counter name \<longrightarrow> counters_permitted h)
    \<and> (\<forall>m m'. mto_start (up_alive (pf_mtproxy_upstreams r)) (up_unreachable (pf_mtproxy_upstreams r)) True m = Inr m' \<longrightarrow>
          mo_unavailable m' = (mo_unavailable m \<or> up_alive (pf_mtproxy_upstreams r) = []))"
proof -
  obtain cp sp rd where ref: "refresh_proxy_runtime_config conf_ok secret_ok dir = (cp, sp, rd)"
    by (cases "refresh_proxy_runtime_config conf_ok secret_ok dir") auto
  obtain al un where pr: "probe_all_proxy_multi_upstreams h cp = (al, un)" by fastforce
  define u where "u = \<lparr>up_alive = al, up_unreachable = un, up_conf_path = cp, up_secret_path = sp\<rparr>"
  obtain notrack where n: "try_install_notrack h ports = Inr notrack"
    and pf: "pf_checks r = [cleanup_orphan_rules h, check_iptables_capability h, check_setpriv_available h,
      notrack, check_conntrack h (ck_status notrack = ''ok''), check_dmesg_recent_drops h,
      check_telegram_dc_reach h dcs, mtproxy_upstream_checkresult u]"
    using assms by (auto simp: run_preflight_def Let_def bindE_Inr_iff ref pr u_def)
  have dc: "extract_dc_reach_ok (pf_checks r) = Some (some_dc_answers h dcs)"
    using check_names(4) [OF n] by (simp add: pf extract_dc_reach_ok_def signal_of_def first_that_def check_names dc_status)
  have cap: "extract_iptables_cap_ok (pf_checks r) = Some (counters_permitted h)"
    using cap_status [of h] cap_status_iff [of h]
    by (auto simp: pf extract_iptables_cap_ok_def signal_of_def first_that_def check_names)
  have "int (length xs) + int (length ys) = 0 \<longleftrightarrow> xs = [] \<and> ys = []" for xs :: "upstream list" and ys :: "upstream list"
    by (cases xs; cases ys) simp_all
  then show ?thesis
    using dc cap by (auto simp: data_counters_available_def mto_start_def Let_def split: if_splits)
qed

theorem preflight_signals_witness:
  "\<exists>r. run_preflight demo_host None False False ''/tmp'' [] = Inr r \<and> extract_dc_reach_ok (pf_checks r) = Some False"
proof -
  have "is_ok (run_preflight demo_host None False False ''/tmp'' [])" by code_simp
  then obtain r where r: "run_preflight demo_host None False False ''/tmp'' [] = Inr r" by (rule is_ok_E)
  have "\<not> some_dc_answers demo_host None" by code_simp
  then show ?thesis using preflight_signals [OF r, of "[]"] r by auto
qed

section \<open>Ports and startup\<close>

definition is_udp :: "string \<Rightarrow> bool" where
  "is_udp name \<longleftrightarrow> (case get_protocol name of None \<Rightarrow> False | Some spec \<Rightarrow> ps_transport spec = udp)"

lemma udp_ports_of_filter:
  assumes "\<forall>n \<in> set ns. \<exists>p. dict_get m n = Some p"
  shows "udp_ports_of ns m = Some (map (\<lambda>n. the (dict_get m n)) (filter is_udp ns))"
  using assms by (induction ns) (auto simp: is_udp_def split: option.splits)

text \<open>
  The connection-tracking exemption covers exactly the UDP protocols: for a configuration
  that passed validation the port list exists, is sorted without repetition, and holds the
  ports of the enabled UDP protocols and no others, all within 1 to 65535.
\<close>

theorem udp_ports_exact:
  assumes "check_ports_cover_enabled c = Inr c'"
  shows "\<exists>ps. listener_udp_ports (pc_enabled c) (pc_ports c) = Some ps \<and> sorted ps \<and> distinct ps
    \<and> set ps = {p. \<exists>n \<in> set (pc_enabled c). is_udp n \<and> dict_get (pc_ports c) n = Some p}
    \<and> (\<forall>p \<in> set ps. 1 \<le> p \<and> p \<le> 65535)"
proof -
  have ok: "protocols_ok c" using assms by (simp add: check_ports_iff)
  have port: "\<exists>p. dict_get (pc_ports c) n = Some p \<and> 1 \<le> p \<and> p \<le> 65535" if "n \<in> set (pc_enabled c)" for n
    using protocols_ok_port [OF ok that] by metis
  let ?ps = "map (\<lambda>n. the (dict_get (pc_ports c) n)) (filter is_udp (pc_enabled c))"
  have "udp_ports_of (pc_enabled c) (pc_ports c) = Some ?ps"
    using port by (intro udp_ports_of_filter) blast
  then have eq: "listener_udp_ports (pc_enabled c) (pc_ports c) = Some (sort (remdups ?ps))"
    by (simp add: listener_udp_ports_def)
  have "set ?ps = {p. \<exists>n \<in> set (pc_enabled c). is_udp n \<and> dict_get (pc_ports c) n = Some p}"
  proof (intro set_eqI iffI)
    fix p assume "p \<in> set ?ps"
    then obtain n where "n \<in> set (pc_enabled c)" "is_udp n" "p = the (dict_get (pc_ports c) n)" by auto
    with port [of n] show "p \<in> {p. \<exists>n \<in> set (pc_enabled c). is_udp n \<and> dict_get (pc_ports c) n = Some p}" by auto
  qed force
  moreover have "1 \<le> p \<and> p \<le> 65535" if "p \<in> set ?ps" for p using that port by fastforce
  ultimately show ?thesis using eq by (intro exI [of _ "sort (remdups ?ps)"]) simp
qed

lemma dispatch_complete: "n \<in> set known_names \<longleftrightarrow> dict_get LISTENER_RESPONDERS n \<noteq> None"
  by (simp add: known_names_eq LISTENER_RESPONDERS_def dict_get_def)

text \<open>What can be said of the result of starting: by whom it was started, next to whom.\<close>

definition started_as ::
    "((string, responder) dict \<Rightarrow> string \<Rightarrow> responder \<Rightarrow> string + responder) \<Rightarrow> gen_creds
     \<Rightarrow> (string, responder) dict \<Rightarrow> string \<Rightarrow> string + responder \<Rightarrow> bool" where
  "started_as start creds responders n outcome \<longleftrightarrow> (\<exists>f running. dict_get LISTENER_RESPONDERS n = Some f
     \<and> fst ` set running \<subseteq> fst ` set responders \<and> start running n (f creds) = outcome)"

lemma start_all_keys:
  assumes "\<forall>s \<in> set specs. ps_name s \<in> set known_names" "start_all start c specs (rs, es) = (rs', es')"
  shows "fst ` set rs' \<union> fst ` set es' = fst ` set rs \<union> fst ` set es \<union> ps_name ` set specs \<and> fst ` set rs \<subseteq> fst ` set rs'
    \<and> (\<forall>n r. dict_get rs' n = Some r \<longrightarrow> dict_get rs n = Some r \<or> started_as start c rs' n (Inr r))
    \<and> (\<forall>n e. dict_get es' n = Some e \<longrightarrow> dict_get es n = Some e \<or> started_as start c rs' n (Inl e))
    \<and> (\<forall>n. of_bool (n \<in> fst ` set rs') + of_bool (n \<in> fst ` set es')
         \<le> of_bool (n \<in> fst ` set rs) + of_bool (n \<in> fst ` set es) + count_list (map ps_name specs) n)"
  using assms
proof (induction specs arbitrary: rs es)
  case (Cons spec specs)
  obtain f where f: "dict_get LISTENER_RESPONDERS (ps_name spec) = Some f"
    using Cons.prems(1) dispatch_complete by auto
  have rest: "\<forall>s \<in> set specs. ps_name s \<in> set known_names" using Cons.prems(1) by simp
  show ?case
  proof (cases "start rs (ps_name spec) (f c)")
    case (Inr r)
    have "start_all start c specs (dict_set (ps_name spec) r rs, es) = (rs', es')"
      using Cons.prems(2) f Inr by simp
    note ih = Cons.IH [OF rest this]
    have "started_as start c rs' (ps_name spec) (Inr r)" using f Inr ih by (auto simp: started_as_def)
    then have "dict_get rs n = Some q \<or> started_as start c rs' n (Inr q)" if "dict_get rs' n = Some q" for n q
      using ih that by (metis dict_get_set option.inject)
    moreover have "of_bool (n \<in> fst ` set rs') + of_bool (n \<in> fst ` set es')
         \<le> of_bool (n \<in> fst ` set rs) + of_bool (n \<in> fst ` set es) + count_list (map ps_name (spec # specs)) n" for n
      using spec [OF conjunct2 [OF conjunct2 [OF conjunct2 [OF conjunct2 [OF ih]]]], of n] by (auto simp: of_bool_def split: if_splits)
    ultimately show ?thesis using ih by auto
  next
    case (Inl e)
    have "start_all start c specs (rs, dict_set (ps_name spec) e es) = (rs', es')"
      using Cons.prems(2) f Inl by simp
    note ih = Cons.IH [OF rest this]
    have "started_as start c rs' (ps_name spec) (Inl e)" using f Inl ih by (auto simp: started_as_def)
    then have "dict_get es n = Some q \<or> started_as start c rs' n (Inl q)" if "dict_get es' n = Some q" for n q
      using ih that by (metis dict_get_set option.inject)
    moreover have "of_bool (n \<in> fst ` set rs') + of_bool (n \<in> fst ` set es')
         \<le> of_bool (n \<in> fst ` set rs) + of_bool (n \<in> fst ` set es) + count_list (map ps_name (spec # specs)) n" for n
      using spec [OF conjunct2 [OF conjunct2 [OF conjunct2 [OF conjunct2 [OF ih]]]], of n] by (auto simp: of_bool_def split: if_splits)
    ultimately show ?thesis using ih by auto
  qed
qed auto

text \<open>
  C19. Every enabled protocol is accounted for: each known one runs (as what its own factory made
  of the credentials and its start returned, next to responders that run too) or has the error of
  its start recorded, and unknown names appear nowhere; no known protocol lacks a factory. A
  protocol is among both only when the configuration lists it more than once.
\<close>

theorem startup_accounts_for_all:
  assumes "start_responders start creds requested = (responders, errors)"
  shows "fst ` set responders \<union> fst ` set errors = set requested \<inter> set known_names
    \<and> (\<forall>n r. dict_get responders n = Some r \<longrightarrow> (\<exists>f running. dict_get LISTENER_RESPONDERS n = Some f
         \<and> fst ` set running \<subseteq> fst ` set responders \<and> start running n (f creds) = Inr r))
    \<and> (\<forall>n e. dict_get errors n = Some e \<longrightarrow> (\<exists>f running. dict_get LISTENER_RESPONDERS n = Some f
         \<and> fst ` set running \<subseteq> fst ` set responders \<and> start running n (f creds) = Inl e))
    \<and> (\<forall>n \<in> fst ` set responders \<inter> fst ` set errors. 2 \<le> count_list requested n)"
proof -
  have names: "map ps_name (enabled_protocols requested) = filter (\<lambda>n. n \<in> set known_names) requested"
    by (rule enabled_protocols_names)
  then have keys: "ps_name ` set (enabled_protocols requested) = set requested \<inter> set known_names"
    by (metis Int_def inf_commute list.set_map set_filter Collect_mem_eq Int_commute)
  have known: "\<forall>s \<in> set (enabled_protocols requested). ps_name s \<in> set known_names" using keys by auto
  have "count_list (filter P xs) n \<le> count_list xs n" for P and xs :: "string list" and n
    by (induction xs) auto
  then have twice: "count_list (map ps_name (enabled_protocols requested)) n \<le> count_list requested n" for n
    by (simp only: names)
  have run: "start_all start creds (enabled_protocols requested) ([], []) = (responders, errors)"
    using assms by (simp add: start_responders_def)
  note all = start_all_keys [OF known run]
  have "2 \<le> count_list requested n" if "n \<in> fst ` set responders \<inter> fst ` set errors" for n
    using spec [OF conjunct2 [OF conjunct2 [OF conjunct2 [OF conjunct2 [OF all]]]], of n] that twice [of n] by simp
  then show ?thesis using all keys unfolding started_as_def by (simp add: dict_get_def)
qed

text \<open>
  Nothing keeps the configuration from listing a protocol twice: the second start finds the port
  taken, and the protocol ends up running and with an error.
\<close>

lemma listed_twice_runs_and_fails:
  "case start_responders (\<lambda>running name r. if name \<in> fst ` set running then Inl ''address in use'' else Inr r) gen_creds_default
      [''openvpn'', ''openvpn''] of
     (responders, errors) \<Rightarrow> fst ` set responders = {''openvpn''} \<and> fst ` set errors = {''openvpn''}"
  by code_simp

text \<open>Their witnesses: a configuration with one protocol of each transport.\<close>

definition two_protocols :: protocols_config where
  "two_protocols = \<lparr>pc_enabled = [''openvpn'', ''shadowsocks''], pc_priority = [],
     pc_ports = [(''openvpn'', 1194), (''shadowsocks'', 8388)], pc_sni = []\<rparr>"

theorem udp_ports_exact_witness:
  "listener_udp_ports (pc_enabled two_protocols) (pc_ports two_protocols) = Some [1194]"
proof -
  have "protocols_ok two_protocols"
    by (simp add: protocols_ok_def two_protocols_def known_names_eq SNI_USING_PROTOCOLS_def)
  then have "check_ports_cover_enabled two_protocols = Inr two_protocols" by (simp add: check_ports_iff)
  from udp_ports_exact [OF this] obtain ps where ps: "listener_udp_ports (pc_enabled two_protocols) (pc_ports two_protocols) = Some ps"
    "sorted ps" "distinct ps"
    "set ps = {p. \<exists>n \<in> set (pc_enabled two_protocols). is_udp n \<and> dict_get (pc_ports two_protocols) n = Some p}" by blast
  have "is_udp ''openvpn''" "\<not> is_udp ''shadowsocks''" by code_simp+
  then have "set ps = {1194}"
    using ps(4) by (auto simp: two_protocols_def dict_get_def)
  moreover from this have "length ps = 1" using distinct_card [OF ps(3)] by simp
  ultimately have "ps = [1194]" by (cases ps) auto
  then show ?thesis using ps(1) by simp
qed

theorem startup_accounts_for_all_witness:
  "\<exists>responders errors. start_responders (\<lambda>running name r. if name = ''openvpn'' then Inl ''no tun'' else Inr r) gen_creds_default
      [''openvpn'', ''shadowsocks'', ''gopher''] = (responders, errors)
    \<and> fst ` set responders \<union> fst ` set errors = {''openvpn'', ''shadowsocks''} \<and> fst ` set responders \<inter> fst ` set errors = {}"
proof -
  let ?start = "\<lambda>running :: (string, responder) dict. \<lambda>name r. if name = ''openvpn'' then Inl ''no tun'' else Inr r"
  let ?requested = "[''openvpn'', ''shadowsocks'', ''gopher'']"
  obtain rs es where s: "start_responders ?start gen_creds_default ?requested = (rs, es)"
    by fastforce
  note all = startup_accounts_for_all [OF s]
  have "set ?requested \<inter> set known_names = {''openvpn'', ''shadowsocks''}" by (auto simp: known_names_eq)
  moreover have "\<forall>n. count_list ?requested n < 2" by auto
  then have "fst ` set rs \<inter> fst ` set es = {}" using all by (meson ex_in_conv not_le)
  ultimately show ?thesis using s conjunct1 [OF all] by metis
qed

section \<open>Session identifiers\<close>

lemma safe_id_append: "safe_id (s @ t) \<longleftrightarrow> 1 \<le> length (s @ t) \<and> length (s @ t) \<le> 64 \<and> list_all safe_char s \<and> list_all safe_char t"
  by (simp add: safe_id_def)

lemma safe_upper: "is_digit c \<or> is_lower c \<Longrightarrow> safe_char (upper_char c)"
  by (auto simp: safe_char_def upper_char_def is_lower_def is_upper_def is_digit_def of_char_of)

text \<open>
  A generated session identifier passes the shared identifier check (so it can go into file
  names and database keys) and tells the two network flags apart: identifiers generated under
  different flags differ whatever the random suffix.
\<close>

theorem session_id_encodes_flags:
  assumes "length tok = 4" "list_all (\<lambda>c. is_digit c \<or> is_lower c) tok" "length tok' = 4"
  shows "validate_id ''--session-id'' (generate_session_id mobile white tok) = Inr (generate_session_id mobile white tok)
    \<and> (generate_session_id mobile white tok = generate_session_id mobile' white' tok' \<longrightarrow> mobile = mobile' \<and> white = white')"
proof -
  have "list_all safe_char (str_upper tok)"
    using assms(2) safe_upper by (auto simp: str_upper_def list_all_iff)
  then have "safe_id (generate_session_id mobile white tok)"
    using assms(1) by (simp add: generate_session_id_def safe_id_append str_upper_def safe_id_def)
      (simp add: safe_char_def is_lower_def)
  moreover have "mobile = mobile' \<and> white = white'"
    if eq: "generate_session_id mobile white tok = generate_session_id mobile' white' tok'"
  proof -
    have "length (str_upper tok) = length (str_upper tok')" using assms by (simp add: str_upper_def)
    then show ?thesis
      using eq by (simp add: generate_session_id_def Let_def split: if_splits)
  qed
  ultimately show ?thesis by simp
qed

theorem session_id_encodes_flags_witness:
  "generate_session_id True False ''a8f1'' = ''mob-A8F1''
   \<and> validate_id ''--session-id'' (generate_session_id True False ''a8f1'') = Inr (generate_session_id True False ''a8f1'')"
proof -
  have "list_all (\<lambda>c. is_digit c \<or> is_lower c) ''a8f1''" by code_simp
  moreover have "generate_session_id True False ''a8f1'' = ''mob-A8F1''" by code_simp
  moreover have "length ''a8f1'' = 4" by simp
  ultimately show ?thesis
    using session_id_encodes_flags [of "''a8f1''" "''a8f1''" True False True False] by blast
qed

section \<open>The gate on Telegram egress\<close>

lemma finalize_protocol_verdict:
  "pr_verdict (finalize_protocol_result v name r st dc counters) =
     apply_cap (if is_mtg_protocol name \<and> dc = Some False then Some HANDSHAKE_ONLY else None)
       (derived_verdict (resp_connection_count v r) (resp_data_transfer_ok v r) counters)"
  by (simp add: finalize_protocol_result_def Let_def finalize_verdict ProtocolResult_default_def)

lemma finalize_session_verdict:
  "pr_verdict (finalize_session_result v st dc cap tp name r) =
     apply_cap (if is_mtg_protocol name \<and> dc = Some False then Some HANDSHAKE_ONLY else None)
       (derived_verdict (resp_connection_count v r) (resp_data_transfer_ok v r) (data_counters_available name cap))"
proof -
  have "pr_verdict (finalize_session_result v st dc cap tp name r) =
      pr_verdict (finalize_protocol_result v name r (dict_get st name)
        (if is_mtg_protocol name then dc else None) (data_counters_available name cap))"
    by (auto simp: finalize_session_result_def Let_def split: option.splits)
  then show ?thesis by (simp add: finalize_protocol_verdict)
qed

lemma finalize_session_note:
  "name \<noteq> ''mtproto_orig'' \<Longrightarrow> pr_note (finalize_session_result v st dc cap tp name r) =
     (if is_mtg_protocol name \<and> dc = Some False then Some NOTE_LISTENER_DC_UNREACHABLE_LONG else None)"
  by (simp add: finalize_session_result_def finalize_protocol_result_def Let_def ProtocolResult_default_def)

lemma mtg_not_orig: "is_mtg_protocol n \<Longrightarrow> n \<noteq> ''mtproto_orig''"
  by (auto simp: is_mtg_protocol_def BY_NAME_def PROTOCOLS_def dict_set_def dict_get_def)

text \<open>
  The gate on Telegram egress is exact: with no data centre reachable an mtg protocol is
  never reported OK, and it carries the explanation; the gate never lowers a verdict below
  HANDSHAKE_ONLY, and in every other case (other protocols, the check passed or not run) the
  verdict is the one the counters give.
\<close>

theorem dc_gate_exact:
  "(is_mtg_protocol name \<and> dc = Some False \<longrightarrow>
      pr_verdict (finalize_session_result v st dc cap tp name r) \<noteq> OK
      \<and> pr_note (finalize_session_result v st dc cap tp name r) = Some NOTE_LISTENER_DC_UNREACHABLE_LONG
      \<and> (pr_verdict (finalize_session_result v st dc cap tp name r) = BLOCKED \<longleftrightarrow>
           \<not> resp_data_transfer_ok v r \<and> resp_connection_count v r \<le> 0))
   \<and> (\<not> (is_mtg_protocol name \<and> dc = Some False) \<longrightarrow>
      pr_verdict (finalize_session_result v st dc cap tp name r) =
        derived_verdict (resp_connection_count v r) (resp_data_transfer_ok v r) (data_counters_available name cap))"
proof -
  have "apply_cap (Some HANDSHAKE_ONLY) w \<noteq> OK" for w by (simp add: cap_handshake)
  moreover have "apply_cap (Some HANDSHAKE_ONLY) w = BLOCKED \<longleftrightarrow> w = BLOCKED" for w by (simp add: cap_handshake)
  ultimately show ?thesis
    using mtg_not_orig [of name] finalize_session_note [of name]
    by (simp add: finalize_session_verdict derived_BLOCKED_iff) (simp add: apply_cap_def)
qed

theorem dc_gate_exact_witness:
  "pr_verdict (finalize_session_result (demo_vantage None) [] (Some False) (Some True) [] ''mtproto_proxy''
     (Mtg ((mtg_init 443 ''ee'')\<lparr>mt_connection_count := 1, mt_final_data_packets := 3, mt_running := False\<rparr>))) \<noteq> OK"
proof -
  have "is_mtg_protocol ''mtproto_proxy''" by code_simp
  then show ?thesis using dc_gate_exact [of "''mtproto_proxy''" "Some False"] by blast
qed

end
