(* ===== verification/CredsReader.thy ===== *)
theory CredsReader
  imports Credentials
begin

text \<open>
  \<open>censprobe_core/credentials_reader.py\<close>: the client's parser of the credentials document, and
  the round trip with the listener's generator. The YAML parser is an argument.
\<close>

section \<open>The parsed credentials\<close>

record read_creds =
  r_protocols_enabled :: "string list"
  r_openvpn_psk_pem :: string
  r_openvpn_port :: int
  r_wg_server_public :: string
  r_wg_client_private :: string
  r_wg_client_public :: string
  r_wg_preshared_key :: string
  r_wg_port :: int
  r_awg_server_public :: string
  r_awg_client_private :: string
  r_awg_client_public :: string
  r_awg_preshared_key :: string
  r_awg_port :: int
  r_awg_jc :: int
  r_awg_jmin :: int
  r_awg_jmax :: int
  r_awg_s1 :: int
  r_awg_s2 :: int
  r_awg_h1 :: int
  r_awg_h2 :: int
  r_awg_h3 :: int
  r_awg_h4 :: int
  r_ss_port :: int
  r_ss_method :: string
  r_ss_password_b64 :: string
  r_vless_port :: int
  r_vless_uuid :: string
  r_vless_pbk :: string
  r_vless_short_id :: string
  r_vless_server_name :: string
  r_hy2_port :: int
  r_hy2_auth :: string
  r_hy2_obfs_password :: string
  r_mtproxy_secret :: string
  r_mtproxy_port :: int
  r_mtproxy_alt_secret :: string
  r_mtproxy_alt_port :: int
  r_mtproxy_orig_secret :: string
  r_mtproxy_orig_port :: int

definition read_creds_default :: read_creds where
  "read_creds_default =
     \<lparr>r_protocols_enabled = [], r_openvpn_psk_pem = [], r_openvpn_port = 0,
      r_wg_server_public = [], r_wg_client_private = [], r_wg_client_public = [],
      r_wg_preshared_key = [], r_wg_port = 0, r_awg_server_public = [],
      r_awg_client_private = [], r_awg_client_public = [], r_awg_preshared_key = [],
      r_awg_port = 0, r_awg_jc = 0, r_awg_jmin = 0, r_awg_jmax = 0, r_awg_s1 = 0, r_awg_s2 = 0,
      r_awg_h1 = 0, r_awg_h2 = 0, r_awg_h3 = 0, r_awg_h4 = 0, r_ss_port = 0, r_ss_method = [],
      r_ss_password_b64 = [], r_vless_port = 0, r_vless_uuid = [], r_vless_pbk = [],
      r_vless_short_id = [], r_vless_server_name = [], r_hy2_port = 0, r_hy2_auth = [],
      r_hy2_obfs_password = [], r_mtproxy_secret = [], r_mtproxy_port = 0,
      r_mtproxy_alt_secret = [], r_mtproxy_alt_port = 0, r_mtproxy_orig_secret = [],
      r_mtproxy_orig_port = 0\<rparr>"

datatype creds_error =
    NotTopLevelMapping | BadYaml | MissingField string string | InvalidField string string
  | BadEnabledList | SectionNotMapping string | MissingSections "string list"
  | UnknownEnabledNames "string list"

definition required :: "(string, json) dict \<Rightarrow> string \<Rightarrow> string \<Rightarrow> creds_error + json" where
  "required sec proto key =
     (case dict_get sec key of
        None \<Rightarrow> Inl (MissingField proto key)
      | Some v \<Rightarrow> if v = JNull then Inl (MissingField proto key) else Inr v)"

definition required_str :: "(string, json) dict \<Rightarrow> string \<Rightarrow> string \<Rightarrow> creds_error + string" where
  "required_str sec proto key = bindE (required sec proto key) (\<lambda>v.
     case v of JStr s \<Rightarrow> if s = [] then Inl (InvalidField proto key) else Inr s
             | _ \<Rightarrow> Inl (InvalidField proto key))"

definition required_int :: "(string, json) dict \<Rightarrow> string \<Rightarrow> string \<Rightarrow> creds_error + int" where
  "required_int sec proto key = bindE (required sec proto key) (\<lambda>v.
     case v of JInt n \<Rightarrow> Inr n | _ \<Rightarrow> Inl (InvalidField proto key))"

definition required_port :: "(string, json) dict \<Rightarrow> string \<Rightarrow> creds_error + int" where
  "required_port sec proto = bindE (required_int sec proto ''port'') (\<lambda>port.
     if \<not> (1 \<le> port \<and> port \<le> 65535) then Inl (InvalidField proto ''port'') else Inr port)"

section \<open>The section parsers\<close>

definition parse_openvpn :: "read_creds \<Rightarrow> (string, json) dict \<Rightarrow> creds_error + read_creds" where
  "parse_openvpn c ovpn =
     bindE (required_port ovpn ''openvpn'') (\<lambda>p. let c = c\<lparr>r_openvpn_port := p\<rparr> in
     bindE (required_str ovpn ''openvpn'' ''psk_pem'') (\<lambda>x. Inr (c\<lparr>r_openvpn_psk_pem := x\<rparr>)))"

definition parse_wireguard :: "read_creds \<Rightarrow> (string, json) dict \<Rightarrow> creds_error + read_creds" where
  "parse_wireguard c wg =
     bindE (required_port wg ''wireguard'') (\<lambda>p. let c = c\<lparr>r_wg_port := p\<rparr> in
     bindE (required_str wg ''wireguard'' ''server_public_key'') (\<lambda>x. let c = c\<lparr>r_wg_server_public := x\<rparr> in
     bindE (required_str wg ''wireguard'' ''client_private_key'') (\<lambda>x. let c = c\<lparr>r_wg_client_private := x\<rparr> in
     bindE (required_str wg ''wireguard'' ''client_public_key'') (\<lambda>x. let c = c\<lparr>r_wg_client_public := x\<rparr> in
     bindE (required_str wg ''wireguard'' ''preshared_key'') (\<lambda>x. Inr (c\<lparr>r_wg_preshared_key := x\<rparr>))))))"

definition parse_amneziawg :: "read_creds \<Rightarrow> (string, json) dict \<Rightarrow> creds_error + read_creds" where
  "parse_amneziawg c awg =
     bindE (required_port awg ''amneziawg'') (\<lambda>p. let c = c\<lparr>r_awg_port := p\<rparr> in
     bindE (required_str awg ''amneziawg'' ''server_public_key'') (\<lambda>x. let c = c\<lparr>r_awg_server_public := x\<rparr> in
     bindE (required_str awg ''amneziawg'' ''client_private_key'') (\<lambda>x. let c = c\<lparr>r_awg_client_private := x\<rparr> in
     bindE (required_str awg ''amneziawg'' ''client_public_key'') (\<lambda>x. let c = c\<lparr>r_awg_client_public := x\<rparr> in
     bindE (required_str awg ''amneziawg'' ''preshared_key'') (\<lambda>x. let c = c\<lparr>r_awg_preshared_key := x\<rparr> in
     bindE (required_int awg ''amneziawg'' ''jc'') (\<lambda>x. let c = c\<lparr>r_awg_jc := x\<rparr> in
     bindE (required_int awg ''amneziawg'' ''jmin'') (\<lambda>x. let c = c\<lparr>r_awg_jmin := x\<rparr> in
     bindE (required_int awg ''amneziawg'' ''jmax'') (\<lambda>x. let c = c\<lparr>r_awg_jmax := x\<rparr> in
     bindE (required_int awg ''amneziawg'' ''s1'') (\<lambda>x. let c = c\<lparr>r_awg_s1 := x\<rparr> in
     bindE (required_int awg ''amneziawg'' ''s2'') (\<lambda>x. let c = c\<lparr>r_awg_s2 := x\<rparr> in
     bindE (required_int awg ''amneziawg'' ''h1'') (\<lambda>x. let c = c\<lparr>r_awg_h1 := x\<rparr> in
     bindE (required_int awg ''amneziawg'' ''h2'') (\<lambda>x. let c = c\<lparr>r_awg_h2 := x\<rparr> in
     bindE (required_int awg ''amneziawg'' ''h3'') (\<lambda>x. let c = c\<lparr>r_awg_h3 := x\<rparr> in
     bindE (required_int awg ''amneziawg'' ''h4'') (\<lambda>x. Inr (c\<lparr>r_awg_h4 := x\<rparr>)))))))))))))))"

definition parse_shadowsocks :: "read_creds \<Rightarrow> (string, json) dict \<Rightarrow> creds_error + read_creds" where
  "parse_shadowsocks c ss =
     bindE (required_port ss ''shadowsocks'') (\<lambda>p. let c = c\<lparr>r_ss_port := p\<rparr> in
     bindE (required_str ss ''shadowsocks'' ''method'') (\<lambda>x. let c = c\<lparr>r_ss_method := x\<rparr> in
     bindE (required_str ss ''shadowsocks'' ''password_b64'') (\<lambda>x. Inr (c\<lparr>r_ss_password_b64 := x\<rparr>))))"

definition parse_vless_reality :: "read_creds \<Rightarrow> (string, json) dict \<Rightarrow> creds_error + read_creds" where
  "parse_vless_reality c vless =
     bindE (required_port vless ''vless_reality'') (\<lambda>p. let c = c\<lparr>r_vless_port := p\<rparr> in
     bindE (required_str vless ''vless_reality'' ''uuid'') (\<lambda>x. let c = c\<lparr>r_vless_uuid := x\<rparr> in
     bindE (required_str vless ''vless_reality'' ''public_key'') (\<lambda>x. let c = c\<lparr>r_vless_pbk := x\<rparr> in
     bindE (required_str vless ''vless_reality'' ''short_id'') (\<lambda>x. let c = c\<lparr>r_vless_short_id := x\<rparr> in
     bindE (required_str vless ''vless_reality'' ''server_name'') (\<lambda>x. Inr (c\<lparr>r_vless_server_name := x\<rparr>))))))"

definition parse_hysteria2 :: "read_creds \<Rightarrow> (string, json) dict \<Rightarrow> creds_error + read_creds" where
  "parse_hysteria2 c hy2 =
     bindE (required_port hy2 ''hysteria2'') (\<lambda>p. let c = c\<lparr>r_hy2_port := p\<rparr> in
     bindE (required_str hy2 ''hysteria2'' ''auth'') (\<lambda>x. let c = c\<lparr>r_hy2_auth := x\<rparr> in
     bindE (required_str hy2 ''hysteria2'' ''obfs_password'') (\<lambda>x. Inr (c\<lparr>r_hy2_obfs_password := x\<rparr>))))"

definition parse_mtproto_proxy :: "read_creds \<Rightarrow> (string, json) dict \<Rightarrow> creds_error + read_creds" where
  "parse_mtproto_proxy c mtp =
     bindE (required_port mtp ''mtproto_proxy'') (\<lambda>p. let c = c\<lparr>r_mtproxy_port := p\<rparr> in
     bindE (required_str mtp ''mtproto_proxy'' ''secret'') (\<lambda>x. Inr (c\<lparr>r_mtproxy_secret := x\<rparr>)))"

definition parse_mtproto_proxy_alt :: "read_creds \<Rightarrow> (string, json) dict \<Rightarrow> creds_error + read_creds" where
  "parse_mtproto_proxy_alt c mtp =
     bindE (required_port mtp ''mtproto_proxy_alt'') (\<lambda>p. let c = c\<lparr>r_mtproxy_alt_port := p\<rparr> in
     bindE (required_str mtp ''mtproto_proxy_alt'' ''secret'') (\<lambda>x. Inr (c\<lparr>r_mtproxy_alt_secret := x\<rparr>)))"

definition parse_mtproto_orig :: "read_creds \<Rightarrow> (string, json) dict \<Rightarrow> creds_error + read_creds" where
  "parse_mtproto_orig c mtp =
     bindE (required_port mtp ''mtproto_orig'') (\<lambda>p. let c = c\<lparr>r_mtproxy_orig_port := p\<rparr> in
     bindE (required_str mtp ''mtproto_orig'' ''secret'') (\<lambda>x. Inr (c\<lparr>r_mtproxy_orig_secret := x\<rparr>)))"

definition PARSERS :: "(string \<times> (read_creds \<Rightarrow> (string, json) dict \<Rightarrow> creds_error + read_creds)) list" where
  "PARSERS =
     [(''openvpn'', parse_openvpn),
      (''wireguard'', parse_wireguard),
      (''amneziawg'', parse_amneziawg),
      (''shadowsocks'', parse_shadowsocks),
      (''vless_reality'', parse_vless_reality),
      (''hysteria2'', parse_hysteria2),
      (''mtproto_proxy'', parse_mtproto_proxy),
      (''mtproto_proxy_alt'', parse_mtproto_proxy_alt),
      (''mtproto_orig'', parse_mtproto_orig)]"

section \<open>The document\<close>

fun strings_of :: "json list \<Rightarrow> string list option" where
  "strings_of [] = Some []"
| "strings_of (JStr s # xs) = map_option ((#) s) (strings_of xs)"
| "strings_of (_ # xs) = None"

fun run_parsers ::
  "(string, json) dict \<Rightarrow> (string \<times> (read_creds \<Rightarrow> (string, json) dict \<Rightarrow> creds_error + read_creds)) list \<Rightarrow>
   read_creds \<Rightarrow> creds_error + read_creds" where
  "run_parsers raw [] c = Inr c"
| "run_parsers raw ((key, fn) # rest) c =
     (case dict_get raw key of
        None \<Rightarrow> run_parsers raw rest c
      | Some (JObj sec) \<Rightarrow> bindE (fn c sec) (run_parsers raw rest)
      | Some _ \<Rightarrow> Inl (SectionNotMapping key))"

definition check_enabled :: "(string, json) dict \<Rightarrow> read_creds \<Rightarrow> creds_error + read_creds" where
  "check_enabled raw c =
     (let parser_keys = map fst PARSERS;
          missing_sections = filter (\<lambda>n. n \<in> set parser_keys \<and> \<not> dict_has raw n) (r_protocols_enabled c)
      in if missing_sections \<noteq> [] then Inl (MissingSections missing_sections) else
      let unknown_enabled = filter (\<lambda>n. n \<notin> set parser_keys) (r_protocols_enabled c)
      in if unknown_enabled \<noteq> [] then Inl (UnknownEnabledNames unknown_enabled) else Inr c)"

definition parse_protocols_yaml :: "(string \<Rightarrow> json option) \<Rightarrow> string \<Rightarrow> creds_error + read_creds" where
  "parse_protocols_yaml yaml_load body =
     (case yaml_load body of
        None \<Rightarrow> Inl BadYaml
      | Some (JObj raw) \<Rightarrow>
        (case jget raw ''_protocols_enabled'' of
           JList xs \<Rightarrow>
             (case strings_of xs of
                None \<Rightarrow> Inl BadEnabledList
              | Some enabled \<Rightarrow>
                  bindE (run_parsers raw PARSERS (read_creds_default\<lparr>r_protocols_enabled := enabled\<rparr>))
                    (check_enabled raw))
         | _ \<Rightarrow> Inl BadEnabledList)
      | Some _ \<Rightarrow> Inl NotTopLevelMapping)"

section \<open>What the client should end up with\<close>

text \<open>Field by field, what a section of the listener's set means to the client.\<close>

definition copy_openvpn :: "gen_creds \<Rightarrow> read_creds \<Rightarrow> read_creds" where
  "copy_openvpn g r =
     r\<lparr>r_openvpn_port := g_openvpn_port g, r_openvpn_psk_pem := g_openvpn_psk_pem g\<rparr>"

definition copy_wireguard :: "gen_creds \<Rightarrow> read_creds \<Rightarrow> read_creds" where
  "copy_wireguard g r =
     r\<lparr>r_wg_port := g_wg_port g, r_wg_server_public := g_wg_server_public g,
        r_wg_client_private := g_wg_client_private g,
        r_wg_client_public := g_wg_client_public g, r_wg_preshared_key := g_wg_preshared_key g\<rparr>"

definition copy_amneziawg :: "gen_creds \<Rightarrow> read_creds \<Rightarrow> read_creds" where
  "copy_amneziawg g r =
     r\<lparr>r_awg_port := g_awg_port g, r_awg_server_public := g_awg_server_public g,
        r_awg_client_private := g_awg_client_private g,
        r_awg_client_public := g_awg_client_public g,
        r_awg_preshared_key := g_awg_preshared_key g, r_awg_jc := g_awg_jc g,
        r_awg_jmin := g_awg_jmin g, r_awg_jmax := g_awg_jmax g, r_awg_s1 := g_awg_s1 g,
        r_awg_s2 := g_awg_s2 g, r_awg_h1 := g_awg_h1 g, r_awg_h2 := g_awg_h2 g,
        r_awg_h3 := g_awg_h3 g, r_awg_h4 := g_awg_h4 g\<rparr>"

definition copy_shadowsocks :: "gen_creds \<Rightarrow> read_creds \<Rightarrow> read_creds" where
  "copy_shadowsocks g r =
     r\<lparr>r_ss_port := g_ss_port g, r_ss_method := g_ss_method g,
        r_ss_password_b64 := g_ss_password_b64 g\<rparr>"

definition copy_vless_reality :: "gen_creds \<Rightarrow> read_creds \<Rightarrow> read_creds" where
  "copy_vless_reality g r =
     r\<lparr>r_vless_port := g_vless_port g, r_vless_uuid := g_vless_uuid g,
        r_vless_pbk := g_vless_pbk g, r_vless_short_id := g_vless_short_id g,
        r_vless_server_name := g_vless_server_name g\<rparr>"

definition copy_hysteria2 :: "gen_creds \<Rightarrow> read_creds \<Rightarrow> read_creds" where
  "copy_hysteria2 g r =
     r\<lparr>r_hy2_port := g_hy2_port g, r_hy2_auth := g_hy2_auth g,
        r_hy2_obfs_password := g_hy2_obfs_password g\<rparr>"

definition copy_mtproto_proxy :: "gen_creds \<Rightarrow> read_creds \<Rightarrow> read_creds" where
  "copy_mtproto_proxy g r =
     r\<lparr>r_mtproxy_port := g_mtproxy_port g, r_mtproxy_secret := g_mtproxy_secret g\<rparr>"

definition copy_mtproto_proxy_alt :: "gen_creds \<Rightarrow> read_creds \<Rightarrow> read_creds" where
  "copy_mtproto_proxy_alt g r =
     r\<lparr>r_mtproxy_alt_port := g_mtproxy_alt_port g,
        r_mtproxy_alt_secret := g_mtproxy_alt_secret g\<rparr>"

definition copy_mtproto_orig :: "gen_creds \<Rightarrow> read_creds \<Rightarrow> read_creds" where
  "copy_mtproto_orig g r =
     r\<lparr>r_mtproxy_orig_port := g_mtproxy_orig_port g,
        r_mtproxy_orig_secret := g_mtproxy_orig_secret g\<rparr>"

definition COPIES :: "(string \<times> (gen_creds \<Rightarrow> read_creds \<Rightarrow> read_creds)) list" where
  "COPIES =
     [(''openvpn'', copy_openvpn),
      (''wireguard'', copy_wireguard),
      (''amneziawg'', copy_amneziawg),
      (''shadowsocks'', copy_shadowsocks),
      (''vless_reality'', copy_vless_reality),
      (''hysteria2'', copy_hysteria2),
      (''mtproto_proxy'', copy_mtproto_proxy),
      (''mtproto_proxy_alt'', copy_mtproto_proxy_alt),
      (''mtproto_orig'', copy_mtproto_orig)]"

definition client_view :: "gen_creds \<Rightarrow> string list \<Rightarrow> read_creds" where
  "client_view g enabled = foldl (\<lambda>r (n, cp). if n \<in> set enabled then cp g r else r)
     (read_creds_default\<lparr>r_protocols_enabled := enabled\<rparr>) COPIES"

section \<open>Lemmas\<close>

definition field_usable :: "string \<times> json \<Rightarrow> bool" where
  "field_usable kv = (case kv of
       (k, JStr s) \<Rightarrow> s \<noteq> []
     | (k, JInt n) \<Rightarrow> k = ''port'' \<longrightarrow> 1 \<le> n \<and> n \<le> 65535
     | _ \<Rightarrow> False)"

lemma field_usable_simps [simp]:
  "field_usable (k, JStr s) \<longleftrightarrow> s \<noteq> []"
  "field_usable (k, JInt n) \<longleftrightarrow> (k = ''port'' \<longrightarrow> 1 \<le> n \<and> n \<le> 65535)"
  by (simp_all add: field_usable_def)

lemmas parser_defs = required_def required_str_def required_int_def required_port_def bindE_def Let_def
  dict_get_def

lemma parse_openvpn_section:
  "list_all field_usable (section_openvpn g) \<Longrightarrow> parse_openvpn c (section_openvpn g) = Inr (copy_openvpn g c)"
  by (simp add: section_openvpn_def parse_openvpn_def copy_openvpn_def parser_defs)

lemma parse_wireguard_section:
  "list_all field_usable (section_wireguard g) \<Longrightarrow> parse_wireguard c (section_wireguard g) = Inr (copy_wireguard g c)"
  by (simp add: section_wireguard_def parse_wireguard_def copy_wireguard_def parser_defs)

lemma parse_amneziawg_section:
  "list_all field_usable (section_amneziawg g) \<Longrightarrow> parse_amneziawg c (section_amneziawg g) = Inr (copy_amneziawg g c)"
  by (simp add: section_amneziawg_def parse_amneziawg_def copy_amneziawg_def parser_defs)

lemma parse_shadowsocks_section:
  "list_all field_usable (section_shadowsocks g) \<Longrightarrow> parse_shadowsocks c (section_shadowsocks g) = Inr (copy_shadowsocks g c)"
  by (simp add: section_shadowsocks_def parse_shadowsocks_def copy_shadowsocks_def parser_defs)

lemma parse_vless_reality_section:
  "list_all field_usable (section_vless_reality g) \<Longrightarrow> parse_vless_reality c (section_vless_reality g) = Inr (copy_vless_reality g c)"
  by (simp add: section_vless_reality_def parse_vless_reality_def copy_vless_reality_def parser_defs)

lemma parse_hysteria2_section:
  "list_all field_usable (section_hysteria2 g) \<Longrightarrow> parse_hysteria2 c (section_hysteria2 g) = Inr (copy_hysteria2 g c)"
  by (simp add: section_hysteria2_def parse_hysteria2_def copy_hysteria2_def parser_defs)

lemma parse_mtproto_proxy_section:
  "list_all field_usable (section_mtproto_proxy g) \<Longrightarrow> parse_mtproto_proxy c (section_mtproto_proxy g) = Inr (copy_mtproto_proxy g c)"
  by (simp add: section_mtproto_proxy_def parse_mtproto_proxy_def copy_mtproto_proxy_def parser_defs)

lemma parse_mtproto_proxy_alt_section:
  "list_all field_usable (section_mtproto_proxy_alt g) \<Longrightarrow> parse_mtproto_proxy_alt c (section_mtproto_proxy_alt g) = Inr (copy_mtproto_proxy_alt g c)"
  by (simp add: section_mtproto_proxy_alt_def parse_mtproto_proxy_alt_def copy_mtproto_proxy_alt_def parser_defs)

lemma parse_mtproto_orig_section:
  "list_all field_usable (section_mtproto_orig g) \<Longrightarrow> parse_mtproto_orig c (section_mtproto_orig g) = Inr (copy_mtproto_orig g c)"
  by (simp add: section_mtproto_orig_def parse_mtproto_orig_def copy_mtproto_orig_def parser_defs)

lemmas parse_sections = parse_openvpn_section
  parse_wireguard_section
  parse_amneziawg_section
  parse_shadowsocks_section
  parse_vless_reality_section
  parse_hysteria2_section
  parse_mtproto_proxy_section
  parse_mtproto_proxy_alt_section
  parse_mtproto_orig_section

lemma strings_of_map [simp]: "strings_of (map JStr xs) = Some xs"
  by (induction xs) simp_all

lemma builders_keys: "dict_has SECTION_BUILDERS n \<longleftrightarrow> n \<in> set known_names"
  by (auto simp: dict_has_def SECTION_BUILDERS_def known_names_eq)

lemma creds_doc_get: "dict_get (creds_doc g enabled) k =
    (if k \<in> set enabled \<and> k \<in> set known_names then Some (JObj (the (dict_get SECTION_BUILDERS k) g))
     else dict_get [(''_note'', JStr ''One-time test credentials. Do not use for production VPN.''),
         (''_protocols_enabled'', JList (map JStr enabled))] k)"
  by (simp add: creds_doc_def Let_def dict_get_foldl_set builders_keys)

text \<open>One parser against one section, and then the whole table.\<close>

lemma run_parsers_copies:
  assumes "list_all2 (\<lambda>(k, fn) (k', cp). k = k' \<and>
      (if P k then \<exists>sec. dict_get raw k = Some (JObj sec) \<and> (\<forall>c. fn c sec = Inr (cp g c))
       else dict_get raw k = None)) ps cs"
  shows "run_parsers raw ps c = Inr (foldl (\<lambda>r (n, cp). if P n then cp g r else r) c cs)"
  using assms
proof (induction ps cs arbitrary: c rule: list_all2_induct)
  case Nil
  then show ?case by simp
next
  case (Cons x xs y ys)
  then show ?case by (cases x; cases y) (auto simp: bindE_def split: if_splits)
qed

definition sections_usable :: "gen_creds \<Rightarrow> string list \<Rightarrow> bool" where
  "sections_usable g enabled \<longleftrightarrow> (\<forall>n \<in> set enabled. \<forall>b.
     dict_get SECTION_BUILDERS n = Some b \<longrightarrow> list_all field_usable (b g))"

lemma section_lookup: "k \<in> set enabled \<Longrightarrow> sections_usable g enabled \<Longrightarrow>
    dict_get SECTION_BUILDERS k = Some b \<Longrightarrow> list_all field_usable (b g)"
  by (simp add: sections_usable_def)

lemma creds_doc_section:
  assumes "dict_get SECTION_BUILDERS k = Some b" "k \<noteq> ''_note''" "k \<noteq> ''_protocols_enabled''"
  shows "dict_get (creds_doc g enabled) k = (if k \<in> set enabled then Some (JObj (b g)) else None)"
proof -
  have "k \<in> set known_names" using assms(1) builders_keys [of k] by (simp add: dict_has_iff)
  then show ?thesis using assms by (simp add: creds_doc_get) (simp add: dict_get_def)
qed

lemma parse_creds_doc:
  assumes "sections_usable g enabled"
  shows "run_parsers (creds_doc g enabled) PARSERS c =
    Inr (foldl (\<lambda>r (n, cp). if n \<in> set enabled then cp g r else r) c COPIES)"
proof (rule run_parsers_copies)
  have sec: "if k \<in> set enabled
      then \<exists>sec. dict_get (creds_doc g enabled) k = Some (JObj sec) \<and> (\<forall>c. fn c sec = Inr (cp g c))
      else dict_get (creds_doc g enabled) k = None"
    if "dict_get SECTION_BUILDERS k = Some b" "k \<noteq> ''_note''" "k \<noteq> ''_protocols_enabled''"
      "\<And>c. list_all field_usable (b g) \<Longrightarrow> fn c (b g) = Inr (cp g c)" for k b fn cp
    using creds_doc_section [OF that(1-3)] that(4) section_lookup [OF _ assms that(1)] by auto
  show "list_all2 (\<lambda>(k, fn) (k', cp). k = k' \<and>
      (if k \<in> set enabled
       then \<exists>sec. dict_get (creds_doc g enabled) k = Some (JObj sec) \<and> (\<forall>c. fn c sec = Inr (cp g c))
       else dict_get (creds_doc g enabled) k = None)) PARSERS COPIES"
    unfolding PARSERS_def COPIES_def
    by (simp only: list_all2_Cons list_all2_Nil prod.case simp_thms)
      (intro conjI sec, (rule parse_sections | simp add: SECTION_BUILDERS_def dict_get_def)+)
qed

text \<open>The fields the external tools and the random source supply.\<close>

definition keys_present :: "gen_creds \<Rightarrow> bool" where
  "keys_present g \<longleftrightarrow> list_all (\<lambda>s. s \<noteq> [])
     [g_openvpn_psk_pem g, g_wg_server_public g, g_wg_client_private g, g_wg_client_public g,
      g_wg_preshared_key g, g_awg_server_public g, g_awg_client_private g, g_awg_client_public g,
      g_awg_preshared_key g, g_ss_password_b64 g, g_vless_uuid g, g_vless_pbk g,
      g_vless_short_id g, g_hy2_auth g, g_hy2_obfs_password g]"

lemma usable_section:
  assumes "keys_present g" "1 \<le> g_port n g" "g_port n g \<le> 65535" "g_ss_method g \<noteq> []"
    "n = ''vless_reality'' \<Longrightarrow> g_vless_server_name g \<noteq> []"
    "n = ''mtproto_proxy'' \<Longrightarrow> g_mtproxy_secret g \<noteq> []"
    "n = ''mtproto_proxy_alt'' \<Longrightarrow> g_mtproxy_alt_secret g \<noteq> []"
    "n = ''mtproto_orig'' \<Longrightarrow> g_mtproxy_orig_secret g \<noteq> []"
    "dict_get SECTION_BUILDERS n = Some b"
  shows "list_all field_usable (b g)"
proof -
  have "n \<in> set known_names" using assms(9) builders_keys [of n] by (simp add: dict_has_iff)
  then have "n = ''openvpn'' \<or> n = ''wireguard'' \<or> n = ''amneziawg'' \<or> n = ''shadowsocks''
      \<or> n = ''vless_reality'' \<or> n = ''hysteria2'' \<or> n = ''mtproto_proxy'' \<or> n = ''mtproto_proxy_alt''
      \<or> n = ''mtproto_orig''"
    by (simp add: known_names_eq)
  then show ?thesis
    by (elim disjE) (use assms in \<open>simp_all add: SECTION_BUILDERS_def dict_get_def g_port_def keys_present_def
        section_openvpn_def section_wireguard_def section_amneziawg_def section_shadowsocks_def
        section_vless_reality_def section_hysteria2_def section_mtproto_proxy_def
        section_mtproto_proxy_alt_def section_mtproto_orig_def split: if_splits\<close>)
qed

lemma starts_with_nonempty: "starts_with s (c # cs) \<Longrightarrow> s \<noteq> []"
  by (auto simp: starts_with_def)

lemma generated_usable:
  assumes ok: "protocols_ok c" "dict_ok (pc_ports c)"
    and gen: "generate_credentials km (pc_ports c) (pc_sni c) = Inr g" and keys: "keys_present g"
  shows "sections_usable g (pc_enabled c)
    \<and> (\<forall>n \<in> set (pc_enabled c). dict_get (pc_ports c) n = Some (g_port n g))"
proof -
  obtain a where a: "apply_ports (pc_ports c) gen_creds_default = Inr a"
    and rest: "gen_rest (pc_ports c) (pc_sni c) a g"
    using generate_facts [OF gen] by blast
  have port: "dict_get (pc_ports c) n = Some (g_port n g) \<and> 1 \<le> g_port n g \<and> g_port n g \<le> 65535"
    if en: "n \<in> set (pc_enabled c)" for n
  proof -
    obtain p where "dict_get (pc_ports c) n = Some p" "1 \<le> p" "p \<le> 65535"
      using protocols_ok_port [OF ok(1) en] by blast
    then show ?thesis using rest apply_ports_get [OF a ok(2), of n] by (simp add: gen_rest_def)
  qed
  have "g_ss_method g \<noteq> []"
  proof -
    have "g_ss_method g = g_ss_method a" using rest unfolding gen_rest_def by blast
    also have "\<dots> = g_ss_method gen_creds_default" using a by (rule apply_ports_rest)
    also have "\<dots> \<noteq> []" by (simp add: gen_creds_default_def)
    finally show ?thesis .
  qed
  moreover have sni: "\<exists>v. dict_get (pc_sni c) n = Some v \<and> v \<noteq> []"
    if "n \<in> set (pc_enabled c)" "n \<in> set SNI_USING_PROTOCOLS" for n
    by (rule protocols_ok_sni [OF ok(1) that]) blast
  moreover have "g_vless_server_name g \<noteq> []" if "''vless_reality'' \<in> set (pc_enabled c)"
    using sni [OF that] rest by (auto simp: gen_rest_def SNI_USING_PROTOCOLS_def)
  moreover have "g_mtproxy_secret g \<noteq> []" if "''mtproto_proxy'' \<in> set (pc_enabled c)"
    using sni [OF that] rest by (auto simp: gen_rest_def SNI_USING_PROTOCOLS_def dest: starts_with_nonempty)
  moreover have "g_mtproxy_alt_secret g \<noteq> []" if "''mtproto_proxy_alt'' \<in> set (pc_enabled c)"
    using sni [OF that] rest by (auto simp: gen_rest_def SNI_USING_PROTOCOLS_def dest: starts_with_nonempty)
  moreover have "g_mtproxy_orig_secret g \<noteq> []" if "''mtproto_orig'' \<in> set (pc_enabled c)"
    using port [OF that] rest by (auto simp: gen_rest_def dict_has_iff dest: starts_with_nonempty)
  ultimately show ?thesis
    using port keys usable_section unfolding sections_usable_def by blast
qed

text \<open>
  C5. Listener and client agree on the credentials: for every accepted configuration, the
  document the listener serves is accepted by the client's parser (provided the YAML library
  reads back what it wrote), which ends up with every field of every enabled protocol as the
  listener holds it and the defaults elsewhere; the ports are those of the configuration.
\<close>

theorem credentials_round_trip:
  assumes ok: "protocols_ok c" "dict_ok (pc_ports c)"
    and gen: "generate_credentials km (pc_ports c) (pc_sni c) = Inr g" and keys: "keys_present g"
    and yaml: "yaml_load (dump (JObj (creds_doc g (pc_enabled c)))) = Some (JObj (creds_doc g (pc_enabled c)))"
  shows "parse_protocols_yaml yaml_load (creds_to_yaml dump g (pc_enabled c)) = Inr (client_view g (pc_enabled c))
    \<and> (\<forall>n \<in> set (pc_enabled c). dict_get (pc_ports c) n = Some (g_port n g))"
proof -
  let ?en = "pc_enabled c"
  note use = generated_usable [OF ok gen keys]
  have known: "set ?en \<subseteq> set known_names" using ok(1) by (simp add: protocols_ok_def)
  have keys9: "map fst PARSERS = known_names"
    by (simp add: PARSERS_def known_names_eq)
  have en: "jget (creds_doc g ?en) ''_protocols_enabled'' = JList (map JStr ?en)"
    by (simp add: jget_def dict_default_def creds_doc_get known_names_eq) (simp add: dict_get_def)
  have view: "r_protocols_enabled (client_view g ?en) = ?en"
    by (simp add: client_view_def COPIES_def read_creds_default_def copy_openvpn_def copy_wireguard_def
        copy_amneziawg_def copy_shadowsocks_def copy_vless_reality_def copy_hysteria2_def
        copy_mtproto_proxy_def copy_mtproto_proxy_alt_def copy_mtproto_orig_def)
  have sections: "dict_has (creds_doc g ?en) n" if "n \<in> set ?en" for n
    using that known by (auto simp: dict_has_iff creds_doc_get)
  have "check_enabled (creds_doc g ?en) (client_view g ?en) = Inr (client_view g ?en)"
    using known sections by (auto simp: check_enabled_def Let_def view keys9 filter_empty_conv)
  then show ?thesis
    using use yaml en parse_creds_doc [of g ?en]
    by (simp add: parse_protocols_yaml_def creds_to_yaml_def client_view_def bindE_def)
qed

definition example_protocols :: protocols_config where
  "example_protocols = \<lparr>pc_enabled = [''shadowsocks'', ''vless_reality''], pc_priority = [],
     pc_ports = [(''shadowsocks'', 8388), (''vless_reality'', 443)],
     pc_sni = [(''vless_reality'', ''ya.ru'')]\<rparr>"

theorem credentials_round_trip_witness:
  "\<exists>g yaml_load. parse_protocols_yaml yaml_load (creds_to_yaml (\<lambda>_. ''doc'') g [''shadowsocks'', ''vless_reality'']) =
       Inr (client_view g [''shadowsocks'', ''vless_reality'']) \<and> g_port ''shadowsocks'' g = 8388"
proof -
  let ?run = "generate_credentials example_km (pc_ports example_protocols) (pc_sni example_protocols)"
  have "case ?run of Inr g \<Rightarrow> keys_present g | Inl _ \<Rightarrow> False" by code_simp
  then obtain g where g: "?run = Inr g" "keys_present g" by (auto split: sum.splits)
  have ok: "protocols_ok example_protocols"
    by (simp add: protocols_ok_def example_protocols_def known_names_eq SNI_USING_PROTOCOLS_def)
  have d: "dict_ok (pc_ports example_protocols)" by (simp add: dict_ok_def example_protocols_def)
  have en: "pc_enabled example_protocols = [''shadowsocks'', ''vless_reality'']"
    by (simp add: example_protocols_def)
  let ?load = "\<lambda>_. Some (JObj (creds_doc g (pc_enabled example_protocols)))"
  note rt = credentials_round_trip [OF ok d g, where yaml_load = ?load and dump = "\<lambda>_. ''doc''", OF refl]
  have "g_port ''shadowsocks'' g = 8388"
    using rt by (simp add: en) (simp add: example_protocols_def dict_get_def)
  then show ?thesis using rt en by metis
qed

end
