(* ===== verification/Client.thy ===== *)
theory Client
  imports Listener CredsReader "HOL-Library.Multiset"
begin

text \<open>
  \<open>censprobe_client/main.py\<close> and \<open>_probe_dispatch.py\<close>: the pinned HTTPS exchange with the
  credential server, its retries, the probe loop, and the cross-verification of the client's
  verdicts against the listener's snapshot. Rich output is left out. What the network does in
  one attempt is an \<open>exchange\<close>; TLS, SHA-256 and the JSON codec are arguments.
\<close>

section \<open>Results of the probes\<close>

record probe_result =
  pb_verdict :: verdict
  pb_handshake_ok :: bool
  pb_data_ok :: bool
  pb_rtt_ms :: "rat option"
  pb_elapsed_ms :: "rat option"
  pb_error :: "string option"
  pb_throughput_mbps :: "pyfloat option"
  pb_throughput_throttled :: bool

definition ProbeResult_default :: probe_result where
  "ProbeResult_default = \<lparr>pb_verdict = BLOCKED, pb_handshake_ok = False, pb_data_ok = False, pb_rtt_ms = None, pb_elapsed_ms = None, pb_error = None,
     pb_throughput_mbps = None, pb_throughput_throttled = False\<rparr>"

definition ASYMMETRIC_DPI_ERROR_MARKERS :: "string list" where
  "ASYMMETRIC_DPI_ERROR_MARKERS =
     [''welcome_read_timeout'', ''orig_resPQ_len_timeout'', ''orig_resPQ_body_timeout'', ''orig_resPQ_truncated'']"

section \<open>One exchange\<close>

datatype endpoint_error = TransientErr string | PermanentErr string | BadValue string | NoAttempt

record exchange =
  ex_connect_error :: "string option"
  ex_peer_der :: "string option"
  ex_send_error :: "string option"
  ex_chunks :: "string list"
  ex_read_error :: "string option"

definition MAX_RESPONSE_BYTES :: int where "MAX_RESPONSE_BYTES = 10 * 1024 * 1024"

definition is_ascii :: "string \<Rightarrow> bool" where
  "is_ascii s \<longleftrightarrow> list_all (\<lambda>c. (of_char c :: nat) < 128) s"

text \<open>\<open>None\<close>: the text does not encode as ASCII.\<close>

definition build_http_request :: "string \<Rightarrow> int \<Rightarrow> string \<Rightarrow> http_verb \<Rightarrow> string \<Rightarrow> int \<Rightarrow> string option" where
  "build_http_request host port path verb token body_len =
     (let headers_extra = (if verb = POST then
            ''Content-Length: '' @ str_of_int body_len @ crlf @
            (if 0 < body_len then ''Content-Type: application/json; charset=utf-8'' @ crlf else [])
          else []);
          request = (case verb of GET \<Rightarrow> ''GET'' | POST \<Rightarrow> ''POST'') @ '' '' @ path @ '' HTTP/1.1'' @ crlf @
            ''Host: '' @ host @ '':'' @ str_of_int port @ crlf @
            ''Authorization: Bearer '' @ token @ crlf @ headers_extra @
            ''Connection: close'' @ crlf @ ''User-Agent: censprobe-client'' @ crlf @ crlf
      in if is_ascii request then Some request else None)"

definition hex_eq :: "string \<Rightarrow> string \<Rightarrow> bool" where
  "hex_eq a b \<longleftrightarrow> str_lower a = str_lower b"

definition verify_peer_cert_pin :: "(string \<Rightarrow> string) \<Rightarrow> string option \<Rightarrow> string \<Rightarrow> endpoint_error option" where
  "verify_peer_cert_pin sha256_hex peer_der expected =
     (case peer_der of
        None \<Rightarrow> Some (TransientErr ''listener did not present a TLS certificate'')
      | Some der \<Rightarrow>
          if der = [] then Some (TransientErr ''listener did not present a TLS certificate'')
          else if \<not> hex_eq (sha256_hex der) expected then
            Some (PermanentErr (''cert fingerprint mismatch: listener presented '' @ sha256_hex der @
              '', expected '' @ expected))
          else None)"

text \<open>An I/O error is a \<open>TransientErr\<close> once \<open>_pinned_get\<close> has caught it.\<close>

definition io_error :: "string \<Rightarrow> endpoint_error" where
  "io_error e = TransientErr (''endpoint I/O error: '' @ e)"

fun read_response_bytes :: "string list \<Rightarrow> string option \<Rightarrow> string \<Rightarrow> endpoint_error + string" where
  "read_response_bytes [] err buf = (case err of None \<Rightarrow> Inr buf | Some e \<Rightarrow> Inl (io_error e))"
| "read_response_bytes (chunk # chunks) err buf =
     (if chunk = [] then Inr buf
      else if MAX_RESPONSE_BYTES < int (length (buf @ chunk))
      then Inl (PermanentErr (''response exceeded '' @ str_of_int MAX_RESPONSE_BYTES @ '' byte ceiling''))
      else read_response_bytes chunks err (buf @ chunk))"

text \<open>What was sent inside the TLS session, and the outcome.\<close>

definition connect_and_exchange ::
    "(string \<Rightarrow> string) \<Rightarrow> exchange \<Rightarrow> string \<Rightarrow> string \<Rightarrow> string \<Rightarrow> string \<times> (endpoint_error + string)" where
  "connect_and_exchange sha256_hex ex expected request body =
     (case ex_connect_error ex of
        Some e \<Rightarrow> ([], Inl (io_error e))
      | None \<Rightarrow>
        (case verify_peer_cert_pin sha256_hex (ex_peer_der ex) expected of
           Some e \<Rightarrow> ([], Inl e)
         | None \<Rightarrow>
           (case ex_send_error ex of
              Some e \<Rightarrow> (request @ body, Inl (io_error e))
            | None \<Rightarrow> (request @ body, read_response_bytes (ex_chunks ex) (ex_read_error ex) []))))"

definition decode_http_response :: "string \<Rightarrow> endpoint_error + string" where
  "decode_http_response buf =
     (let (head, body) = str_partition (crlf @ crlf) buf;
          status_line = fst (str_partition crlf head);
          parts = split_ws status_line
      in if length parts < 2 \<or> \<not> starts_with (parts ! 0) ''HTTP/'' then
           Inl (PermanentErr (''malformed response from listener: '' @ status_line))
         else case int_of_str (parts ! 1) of
             None \<Rightarrow> Inl (PermanentErr (''non-numeric HTTP status: '' @ status_line))
           | Some status_code \<Rightarrow>
               if status_code = 200 \<or> status_code = 202 then Inr body
               else let msg = (if str_strip body \<noteq> [] then str_strip body else status_line);
                        what = ''listener responded '' @ str_of_int status_code @ '': '' @ msg
                 in if 500 \<le> status_code \<or> status_code = 408 then Inl (TransientErr what)
                    else Inl (PermanentErr what))"

definition normal_fingerprint :: "string \<Rightarrow> string" where
  "normal_fingerprint s = str_strip (filter (\<lambda>c. c \<noteq> CHR '':'') (str_lower s))"

definition pinned_get ::
    "(string \<Rightarrow> string) \<Rightarrow> exchange \<Rightarrow> string \<Rightarrow> int \<Rightarrow> string \<Rightarrow> string \<Rightarrow> string \<Rightarrow> http_verb \<Rightarrow> string
     \<Rightarrow> string \<times> (endpoint_error + string)" where
  "pinned_get sha256_hex ex host port token expected_sha256 path verb body =
     (let expected = normal_fingerprint expected_sha256 in
      if length expected \<noteq> 64 \<or> \<not> list_all (\<lambda>c. c \<in> set ''0123456789abcdef'') expected
      then ([], Inl (BadValue ''CREDS_CERT_SHA256 must be a 64-char hex SHA-256 fingerprint''))
      else if CHR 0x0D \<in> set host \<or> CHR 0x0A \<in> set host \<or> CHR 0x0D \<in> set path \<or> CHR 0x0A \<in> set path
      then ([], Inl (BadValue ''host/path must not contain CR or LF''))
      else case build_http_request host port path verb token (int (length body)) of
          None \<Rightarrow> ([], Inl (BadValue ''ascii''))
        | Some request \<Rightarrow>
            (let (sent, outcome) = connect_and_exchange sha256_hex ex expected request body in
             (sent, bindE outcome decode_http_response)))"

section \<open>Retries\<close>

definition FETCH_MAX_ATTEMPTS :: nat where "FETCH_MAX_ATTEMPTS = 3"
definition SNAPSHOT_MAX_ATTEMPTS :: nat where "SNAPSHOT_MAX_ATTEMPTS = 5"
definition FETCH_RETRY_BACKOFF_BASE_SEC :: rat where "FETCH_RETRY_BACKOFF_BASE_SEC = 1"

text \<open>
  \<open>attempt_at\<close> numbers the attempts from 1. The result is the outcome, the sleeps, and what
  each attempt made had sent.
\<close>

fun retry_loop ::
    "nat \<Rightarrow> nat \<Rightarrow> nat \<Rightarrow> (nat \<Rightarrow> string \<times> (endpoint_error + string)) \<Rightarrow> endpoint_error option
     \<Rightarrow> (endpoint_error + string) \<times> rat list \<times> string list" where
  "retry_loop 0 attempt max_attempts attempt_at last_exc =
     ((case last_exc of None \<Rightarrow> Inl NoAttempt | Some e \<Rightarrow> Inl e), [], [])"
| "retry_loop (Suc left) attempt max_attempts attempt_at last_exc =
     (case attempt_at attempt of
        (sent, Inl (TransientErr e)) \<Rightarrow>
          (let sleeps = (if attempt < max_attempts then [FETCH_RETRY_BACKOFF_BASE_SEC * 2 ^ (attempt - 1)] else []);
               (r, more, sents) = retry_loop left (Suc attempt) max_attempts attempt_at (Some (TransientErr e))
           in (r, sleeps @ more, sent # sents))
      | (sent, r) \<Rightarrow> (r, [], [sent]))"

definition with_retry ::
    "nat \<Rightarrow> (nat \<Rightarrow> string \<times> (endpoint_error + string)) \<Rightarrow> (endpoint_error + string) \<times> rat list \<times> string list" where
  "with_retry max_attempts attempt_at = retry_loop max_attempts 1 max_attempts attempt_at None"

definition pinned_get_with_retry ::
    "(string \<Rightarrow> string) \<Rightarrow> (nat \<Rightarrow> exchange) \<Rightarrow> string \<Rightarrow> int \<Rightarrow> string \<Rightarrow> string \<Rightarrow> string \<Rightarrow> http_verb \<Rightarrow> string
     \<Rightarrow> nat \<Rightarrow> (endpoint_error + string) \<times> rat list \<times> string list" where
  "pinned_get_with_retry sha256_hex exs host port token expected path verb body max_attempts =
     with_retry max_attempts (\<lambda>i. pinned_get sha256_hex (exs i) host port token expected path verb body)"

section \<open>The snapshot and the stop\<close>

text \<open>
  Pydantic's validation of a snapshot: a value of the declared type is taken, an absent field
  has its default, and any other value goes to the lax conversions of the library.
\<close>

record lax =
  lax_int :: "json \<Rightarrow> int option"
  lax_bool :: "json \<Rightarrow> bool option"

fun field_int :: "lax \<Rightarrow> json \<Rightarrow> int option" where
  "field_int L (JInt i) = Some i"
| "field_int L v = lax_int L v"

fun field_bool :: "lax \<Rightarrow> json \<Rightarrow> bool option" where
  "field_bool L (JBool b) = Some b"
| "field_bool L v = lax_bool L v"

fun field_opt :: "(json \<Rightarrow> 'a option) \<Rightarrow> json \<Rightarrow> 'a option option" where
  "field_opt f JNull = Some None"
| "field_opt f v = map_option Some (f v)"

definition take_field :: "(json \<Rightarrow> 'a option) \<Rightarrow> 'a \<Rightarrow> (string, json) dict \<Rightarrow> string \<Rightarrow> 'a option" where
  "take_field f dflt d k = (case dict_get d k of None \<Rightarrow> Some dflt | Some v \<Rightarrow> f v)"

definition validate_snapshot :: "lax \<Rightarrow> (string, json) dict \<Rightarrow> live_snapshot option" where
  "validate_snapshot L d =
     (case (take_field (field_int L) 0 d ''handshake_count'', take_field (field_bool L) False d ''data_transfer_ok'',
            take_field (field_opt (field_int L)) None d ''data_packets'',
            take_field (field_opt (field_int L)) None d ''bytes_received'',
            take_field (field_opt (field_bool L)) None d ''responder_self_test_ok'',
            take_field (field_opt (field_bool L)) None d ''dc_reach_ok'',
            take_field (field_opt (field_bool L)) None d ''data_counters_available'') of
        (Some hs, Some ok, Some pk, Some by, Some st, Some dc, Some av) \<Rightarrow>
          Some \<lparr>ls_handshake_count = hs, ls_data_transfer_ok = ok, ls_data_packets = pk, ls_bytes_received = by,
            ls_responder_self_test_ok = st, ls_dc_reach_ok = dc, ls_data_counters_available = av\<rparr>
      | _ \<Rightarrow> None)"

definition snapshot_of_payload :: "lax \<Rightarrow> json \<Rightarrow> live_snapshot" where
  "snapshot_of_payload L payload =
     (case payload of
        JObj d \<Rightarrow>
          if dict_has d ''error'' then LiveSnapshot_default
          else (case validate_snapshot L d of Some s \<Rightarrow> s | None \<Rightarrow> LiveSnapshot_default)
      | _ \<Rightarrow> LiveSnapshot_default)"

text \<open>\<open>None\<close>: the body is no JSON object, and an exception is raised.\<close>

definition parse_snapshot_body :: "codec \<Rightarrow> lax \<Rightarrow> string \<Rightarrow> (string, live_snapshot) dict option" where
  "parse_snapshot_body E L body =
     (case json_loads E body of
        Some (JObj raw) \<Rightarrow> Some (map (\<lambda>(name, payload). (name, snapshot_of_payload L payload)) raw)
      | _ \<Rightarrow> None)"

definition stop_body :: "codec \<Rightarrow> (string, pyfloat) dict \<Rightarrow> string" where
  "stop_body E client_throughput =
     (if client_throughput = [] then []
      else json_dumps E (JObj [(''client_throughput'', JObj (map (\<lambda>(n, f). (n, JFloat f)) client_throughput))]))"

fun pf_positive :: "pyfloat \<Rightarrow> bool" where
  "pf_positive (Fin x) = (0 < x)"
| "pf_positive PInf = True"
| "pf_positive _ = False"

definition client_throughput_of :: "(string, probe_result) dict \<Rightarrow> (string, pyfloat) dict" where
  "client_throughput_of results = List.map_filter (\<lambda>(name, r).
     (case pb_throughput_mbps r of
        None \<Rightarrow> None
      | Some f \<Rightarrow> if pf_positive f then Some (name, f) else None)) results"

section \<open>The probe loop\<close>

text \<open>
  What a protocol's factory passes to its probe. \<open>run\<close> is the probe: an exception (its text
  and how long it took) or a result.
\<close>

datatype probe_call =
    CallOpenVPN int string
  | CallWireGuard int string string string
  | CallAmneziaWG int string string string "int list"
  | CallShadowsocks int string string
  | CallVless int string string string string
  | CallHysteria2 int string string
  | CallMtProxy int string
  | CallMtOrig int string

definition CLIENT_PROBES :: "(string, read_creds \<Rightarrow> probe_call) dict" where
  "CLIENT_PROBES =
     [(''openvpn'', \<lambda>c. CallOpenVPN (r_openvpn_port c) (r_openvpn_psk_pem c)),
      (''wireguard'', \<lambda>c. CallWireGuard (r_wg_port c) (r_wg_server_public c) (r_wg_preshared_key c) (r_wg_client_private c)),
      (''amneziawg'', \<lambda>c. CallAmneziaWG (r_awg_port c) (r_awg_server_public c) (r_awg_preshared_key c)
          (r_awg_client_private c) [r_awg_jc c, r_awg_jmin c, r_awg_jmax c, r_awg_s1 c, r_awg_s2 c,
            r_awg_h1 c, r_awg_h2 c, r_awg_h3 c, r_awg_h4 c]),
      (''shadowsocks'', \<lambda>c. CallShadowsocks (r_ss_port c) (r_ss_method c) (r_ss_password_b64 c)),
      (''vless_reality'', \<lambda>c. CallVless (r_vless_port c) (r_vless_uuid c) (r_vless_pbk c) (r_vless_short_id c)
          (r_vless_server_name c)),
      (''hysteria2'', \<lambda>c. CallHysteria2 (r_hy2_port c) (r_hy2_auth c) (r_hy2_obfs_password c)),
      (''mtproto_proxy'', \<lambda>c. CallMtProxy (r_mtproxy_port c) (r_mtproxy_secret c)),
      (''mtproto_proxy_alt'', \<lambda>c. CallMtProxy (r_mtproxy_alt_port c) (r_mtproxy_alt_secret c)),
      (''mtproto_orig'', \<lambda>c. CallMtOrig (r_mtproxy_orig_port c) (r_mtproxy_orig_secret c))]"

type_synonym prober = "string \<Rightarrow> probe_call \<Rightarrow> string \<times> rat + probe_result"

definition build_probe_jobs ::
    "((string \<times> (read_creds \<Rightarrow> probe_call)) list \<Rightarrow> (string \<times> (read_creds \<Rightarrow> probe_call)) list)
     \<Rightarrow> string list \<Rightarrow> (string \<times> (read_creds \<Rightarrow> probe_call)) list" where
  "build_probe_jobs shuffle enabled_names =
     shuffle (List.map_filter (\<lambda>spec. map_option (\<lambda>f. (ps_name spec, f)) (dict_get CLIENT_PROBES (ps_name spec)))
       (enabled_protocols enabled_names))"

definition run_one_probe :: "prober \<Rightarrow> string \<Rightarrow> (read_creds \<Rightarrow> probe_call) \<Rightarrow> read_creds \<Rightarrow> probe_result" where
  "run_one_probe run name factory creds =
     (case run name (factory creds) of
        Inr result \<Rightarrow> result
      | Inl (e, elapsed_sec) \<Rightarrow> ProbeResult_default\<lparr>pb_verdict := ERROR, pb_error := Some e,
          pb_elapsed_ms := Some (fmul elapsed_sec 1000)\<rparr>)"

definition run_probe_loop ::
    "prober \<Rightarrow> (string \<times> (read_creds \<Rightarrow> probe_call)) list \<Rightarrow> read_creds \<Rightarrow> (string, probe_result) dict" where
  "run_probe_loop run jobs creds =
     foldl (\<lambda>results (name, factory). dict_set name (run_one_probe run name factory creds) results) [] jobs"

section \<open>Cross-verification\<close>

definition listener_verdict :: "live_snapshot \<Rightarrow> string option \<Rightarrow> verdict" where
  "listener_verdict snap protocol =
     (let pr = ProtocolResult_default\<lparr>pr_handshake_count := ls_handshake_count snap,
            pr_data_transfer_ok := ls_data_transfer_ok snap,
            pr_responder_self_test_ok := ls_responder_self_test_ok snap\<rparr>;
          cap_at = (case protocol of
            Some p \<Rightarrow> if is_mtg_protocol p \<and> ls_dc_reach_ok snap = Some False then Some HANDSHAKE_ONLY else None
          | None \<Rightarrow> None)
      in pr_verdict (finalize cap_at (ls_data_counters_available snap) pr))"

definition is_asymmetric_dpi_error :: "string option \<Rightarrow> bool" where
  "is_asymmetric_dpi_error error =
     (case error of
        None \<Rightarrow> False
      | Some e \<Rightarrow> e \<noteq> [] \<and> (\<exists>marker \<in> set ASYMMETRIC_DPI_ERROR_MARKERS. str_contains e marker))"

definition agreed_verdict ::
    "verdict \<Rightarrow> verdict \<Rightarrow> string option \<Rightarrow> string option \<Rightarrow> bool option \<Rightarrow> verdict \<times> string" where
  "agreed_verdict client listener client_error protocol dc_reach_ok =
     (if client = listener then (listener, [])
      else if client = OK then (listener, NOTE_CLIENT_OVERREAD)
      else if client = BLOCKED \<and> listener \<in> {OK, HANDSHAKE_ONLY} \<and> is_asymmetric_dpi_error client_error then
        (if (case protocol of None \<Rightarrow> False | Some p \<Rightarrow> is_mtg_protocol p) \<and> dc_reach_ok = Some False
         then (HANDSHAKE_ONLY, NOTE_LISTENER_DC_UNREACHABLE_SHORT)
         else (HANDSHAKE_ONLY, NOTE_ASYMMETRIC_DPI))
      else if listener = OK then (listener, NOTE_LISTENER_SAW_DATA)
      else (listener, ''client='' @ verdict_str client))"

record cross_row =
  xr_name :: string
  xr_client :: verdict
  xr_listener :: verdict
  xr_final :: verdict
  xr_note :: string

text \<open>The rows of the table with the two counters; nothing without a snapshot.\<close>

definition cross_row_of :: "(string, live_snapshot) dict \<Rightarrow> string \<times> probe_result \<Rightarrow> cross_row" where
  "cross_row_of snapshot = (\<lambda>(name, client_r).
     (let snap = (case dict_get snapshot name of None \<Rightarrow> LiveSnapshot_default | Some s \<Rightarrow> s);
          listener_v = listener_verdict snap (Some name);
          (final, note) = agreed_verdict (pb_verdict client_r) listener_v (pb_error client_r) (Some name) (ls_dc_reach_ok snap)
      in \<lparr>xr_name = name, xr_client = pb_verdict client_r, xr_listener = listener_v, xr_final = final, xr_note = note\<rparr>))"

definition cross_verification ::
    "(string, probe_result) dict \<Rightarrow> (string, live_snapshot) dict option \<Rightarrow> (cross_row list \<times> nat \<times> nat) option" where
  "cross_verification results snapshot =
     map_option (\<lambda>snaps. let rows = map (cross_row_of snaps) results in
       (rows, length (filter (\<lambda>r. xr_note r \<noteq> []) rows),
        length (filter (\<lambda>r. xr_note r \<noteq> [] \<and> xr_client r = OK \<and> xr_listener r \<noteq> OK) rows))) snapshot"

section \<open>The whole client\<close>

record network =
  nw_creds :: "nat \<Rightarrow> exchange"
  nw_stop :: "nat \<Rightarrow> exchange"
  nw_snapshot :: "nat \<Rightarrow> exchange"

record client_env =
  ce_codec :: codec
  ce_lax :: lax
  ce_sha256 :: "string \<Rightarrow> string"
  ce_yaml :: "string \<Rightarrow> json option"
  ce_run :: prober
  ce_shuffle :: "(string \<times> (read_creds \<Rightarrow> probe_call)) list \<Rightarrow> (string \<times> (read_creds \<Rightarrow> probe_call)) list"

text \<open>
  \<open>None\<close>: the client exits because the credentials cannot be fetched or parsed. Neither a
  failed stop nor a failed snapshot loses the probe results.
\<close>

definition client_main ::
    "client_env \<Rightarrow> network \<Rightarrow> string \<Rightarrow> int \<Rightarrow> string \<Rightarrow> string
     \<Rightarrow> ((string, probe_result) dict \<times> (string, live_snapshot) dict option) option" where
  "client_main C nw host port token fingerprint =
     (case pinned_get_with_retry (ce_sha256 C) (nw_creds nw) host port token fingerprint ''/creds'' GET [] FETCH_MAX_ATTEMPTS of
        (Inl _, _) \<Rightarrow> None
      | (Inr creds_yaml, _) \<Rightarrow>
        (case parse_protocols_yaml (ce_yaml C) creds_yaml of
           Inl _ \<Rightarrow> None
         | Inr creds \<Rightarrow>
             (let results = run_probe_loop (ce_run C) (build_probe_jobs (ce_shuffle C) (r_protocols_enabled creds)) creds;
                  body = stop_body (ce_codec C) (client_throughput_of results);
                  stopped = pinned_get_with_retry (ce_sha256 C) (nw_stop nw) host port token fingerprint ''/stop'' POST body FETCH_MAX_ATTEMPTS;
                  snapshot = (case pinned_get_with_retry (ce_sha256 C) (nw_snapshot nw) host port token fingerprint
                      ''/snapshot'' GET [] SNAPSHOT_MAX_ATTEMPTS of
                    (Inl _, _) \<Rightarrow> None
                  | (Inr snap, _) \<Rightarrow> parse_snapshot_body (ce_codec C) (ce_lax C) snap)
              in Some (results, snapshot))))"

section \<open>The token goes only to the pinned server\<close>

lemma lower_char_idem [simp]: "lower_char (lower_char c) = lower_char c"
  by (auto simp: lower_char_def is_upper_def of_char_of)

lemma str_lower_idem [simp]: "str_lower (str_lower s) = str_lower s"
  by (simp add: str_lower_def)

definition pin_matches :: "(string \<Rightarrow> string) \<Rightarrow> exchange \<Rightarrow> string \<Rightarrow> bool" where
  "pin_matches sha256_hex ex fingerprint \<longleftrightarrow> ex_connect_error ex = None \<and>
     (\<exists>der. ex_peer_der ex = Some der \<and> der \<noteq> [] \<and> str_lower (sha256_hex der) = str_lower (normal_fingerprint fingerprint))"

definition wrong_certificate :: "(string \<Rightarrow> string) \<Rightarrow> exchange \<Rightarrow> string \<Rightarrow> bool" where
  "wrong_certificate sha256_hex ex fingerprint \<longleftrightarrow> ex_connect_error ex = None \<and>
     (\<exists>der. ex_peer_der ex = Some der \<and> der \<noteq> [] \<and> str_lower (sha256_hex der) \<noteq> str_lower (normal_fingerprint fingerprint))"

lemma sent_needs_pin:
  "fst (pinned_get h ex host port token fp path verb body) \<noteq> [] \<Longrightarrow> pin_matches h ex fp"
  by (auto simp: pinned_get_def connect_and_exchange_def verify_peer_cert_pin_def pin_matches_def hex_eq_def Let_def
      split: if_splits option.splits)

lemma wrong_certificate_outcome:
  "wrong_certificate h ex fp \<Longrightarrow> fst (pinned_get h ex host port token fp path verb body) = []
     \<and> (\<exists>e. snd (pinned_get h ex host port token fp path verb body) \<in> {Inl (PermanentErr e), Inl (BadValue e)})"
  by (auto simp: pinned_get_def connect_and_exchange_def verify_peer_cert_pin_def wrong_certificate_def hex_eq_def Let_def
      split: option.splits)

definition transient :: "endpoint_error + string \<Rightarrow> bool" where
  "transient r \<longleftrightarrow> (\<exists>e. r = Inl (TransientErr e))"

lemma retry_loop_stop:
  "\<not> transient (snd (attempt_at a)) \<Longrightarrow> retry_loop (Suc n) a m attempt_at last_exc =
     (snd (attempt_at a), [], [fst (attempt_at a)])"
  by (cases "attempt_at a") (auto simp: transient_def split: sum.splits endpoint_error.splits)

lemma retry_loop_again:
  assumes "snd (attempt_at a) = Inl (TransientErr e)" "retry_loop n (Suc a) m attempt_at (Some (TransientErr e)) = (r, sl, se)"
  shows "retry_loop (Suc n) a m attempt_at last_exc =
     (r, (if a < m then [FETCH_RETRY_BACKOFF_BASE_SEC * 2 ^ (a - 1)] else []) @ sl, fst (attempt_at a) # se)"
  using assms by (cases "attempt_at a") (auto simp: Let_def)

text \<open>
  The shape of every run: there is one last attempt, all before it were transient failures, it
  is the last because it was not or because it was the \<open>max_attempts\<close>-th, and the sleeps double.
\<close>

lemma upt_shift: "map f [0..<Suc k] = f 0 # map (\<lambda>i. f (Suc i)) [0..<k]"
  by (simp add: upt_conv_Cons map_Suc_upt [symmetric] del: upt_Suc)

lemma retry_loop_shape:
  assumes "a + n = Suc m" "n \<noteq> 0"
  shows "\<exists>k < n. (\<forall>i < k. transient (snd (attempt_at (a + i)))) \<and> (\<not> transient (snd (attempt_at (a + k))) \<or> Suc k = n)
    \<and> retry_loop n a m attempt_at last_exc =
        (snd (attempt_at (a + k)), map (\<lambda>i. FETCH_RETRY_BACKOFF_BASE_SEC * 2 ^ (a + i - 1)) [0..<k],
         map (\<lambda>i. fst (attempt_at (a + i))) [0..<Suc k])"
  using assms
proof (induction n arbitrary: a last_exc)
  case (Suc n)
  show ?case
  proof (cases "transient (snd (attempt_at a))")
    case False
    then show ?thesis using retry_loop_stop [of attempt_at a n m last_exc]
      by (intro exI [of _ 0]) simp
  next
    case True
    then obtain e where e: "snd (attempt_at a) = Inl (TransientErr e)" by (auto simp: transient_def)
    show ?thesis
    proof (cases "n = 0")
      case True
      then show ?thesis using retry_loop_again [of attempt_at a e n m "Inl (TransientErr e)" "[]" "[]" last_exc] Suc.prems e
        by (intro exI [of _ 0]) simp
    next
      case False
      from Suc.IH [of "Suc a" "Some (TransientErr e)"] Suc.prems False
      obtain k where k: "k < n" "\<forall>i < k. transient (snd (attempt_at (Suc a + i)))"
          "\<not> transient (snd (attempt_at (Suc a + k))) \<or> Suc k = n"
          "retry_loop n (Suc a) m attempt_at (Some (TransientErr e)) =
            (snd (attempt_at (Suc a + k)), map (\<lambda>i. FETCH_RETRY_BACKOFF_BASE_SEC * 2 ^ (Suc a + i - 1)) [0..<k],
             map (\<lambda>i. fst (attempt_at (Suc a + i))) [0..<Suc k])"
        by auto
      have "\<forall>i < Suc k. transient (snd (attempt_at (a + i)))"
        using k(2) True by (auto simp: less_Suc_eq_0_disj)
      moreover have "a < m" using Suc.prems False by simp
      ultimately show ?thesis using k(1,3) retry_loop_again [where a = a and attempt_at = attempt_at and last_exc = last_exc, OF e k(4)]
        by (intro exI [of _ "Suc k"]) (simp add: upt_shift del: upt_Suc)
    qed
  qed
qed simp

lemma with_retry_shape:
  assumes "0 < m"
  shows "\<exists>k < m. (\<forall>i < k. transient (snd (attempt_at (Suc i)))) \<and> (\<not> transient (snd (attempt_at (Suc k))) \<or> Suc k = m)
    \<and> with_retry m attempt_at = (snd (attempt_at (Suc k)), map (\<lambda>i. 2 ^ i) [0..<k],
       map (\<lambda>i. fst (attempt_at (Suc i))) [0..<Suc k])"
  using retry_loop_shape [of 1 m m attempt_at None] assms
  by (simp add: with_retry_def FETCH_RETRY_BACKOFF_BASE_SEC_def del: upt_Suc)

lemma transient_iff [simp]:
  "transient (Inl (TransientErr e))" "\<not> transient (Inr r)" "\<not> transient (Inl (PermanentErr e))"
  "\<not> transient (Inl (BadValue e))" "\<not> transient (Inl NoAttempt)"
  by (auto simp: transient_def)

abbreviation attempt_of ::
    "(string \<Rightarrow> string) \<Rightarrow> (nat \<Rightarrow> exchange) \<Rightarrow> string \<Rightarrow> int \<Rightarrow> string \<Rightarrow> string \<Rightarrow> string \<Rightarrow> http_verb \<Rightarrow> string
     \<Rightarrow> nat \<Rightarrow> string \<times> (endpoint_error + string)" where
  "attempt_of h exs host port token fp path verb body \<equiv>
     (\<lambda>i. pinned_get h (exs i) host port token fp path verb body)"

text \<open>
  C2. The bearer token leaves the client only towards the pinned server: whatever the network
  presents in each attempt, an attempt in which the client sent a single byte of the request
  had a peer certificate with the pinned SHA-256 fingerprint, and a first attempt that meets
  any other certificate sends nothing, is not repeated and returns no body.
\<close>

theorem token_needs_pin:
  assumes "0 < m" "pinned_get_with_retry h exs host port token fp path verb body m = (r, sleeps, sents)"
  shows "(\<forall>i < length sents. sents ! i \<noteq> [] \<longrightarrow> pin_matches h (exs (Suc i)) fp)
    \<and> (wrong_certificate h (exs 1) fp \<longrightarrow> sents = [[]] \<and> sleeps = [] \<and> (\<exists>e. r = Inl e))"
proof -
  obtain k where k: "\<forall>i < k. transient (snd (attempt_of h exs host port token fp path verb body (Suc i)))"
      "r = snd (attempt_of h exs host port token fp path verb body (Suc k))" "sleeps = map (\<lambda>i. 2 ^ i) [0..<k]"
      "sents = map (\<lambda>i. fst (attempt_of h exs host port token fp path verb body (Suc i))) [0..<Suc k]"
    using with_retry_shape [OF assms(1), of "attempt_of h exs host port token fp path verb body"] assms(2)
    by (auto simp: pinned_get_with_retry_def simp del: upt_Suc)
  have "k = 0" if "wrong_certificate h (exs 1) fp"
    using wrong_certificate_outcome [OF that, of host port token path verb body] k(1) by (cases k) auto
  moreover have "pin_matches h (exs (Suc i)) fp" if "i < length sents" "sents ! i \<noteq> []" for i
    using that sent_needs_pin [of h "exs (Suc i)" host port token fp path verb body]
    unfolding k(4) by (simp del: upt_Suc)
  ultimately show ?thesis using k(2-4) wrong_certificate_outcome [of h "exs 1" fp host port token path verb body]
    by auto
qed

definition server_says :: "string \<Rightarrow> exchange" where
  "server_says http = \<lparr>ex_connect_error = None, ex_peer_der = Some ''DER'', ex_send_error = None,
     ex_chunks = [http], ex_read_error = None\<rparr>"

definition refused :: exchange where
  "refused = (server_says [])\<lparr>ex_connect_error := Some ''refused''\<rparr>"

lemma token_needs_pin_witness:
  "let fp = replicate 64 (CHR ''a'') in
   snd (snd (pinned_get_with_retry (\<lambda>_. fp) (\<lambda>i. if i = 1 then refused else server_says ''HTTP/1.1 200 OK'')
     ''h'' 1 ''tok'' fp ''/creds'' GET [] 3)) ! 1 \<noteq> [] \<and> pin_matches (\<lambda>_. fp) (server_says ''HTTP/1.1 200 OK'') fp"
proof -
  let ?fp = "replicate 64 (CHR ''a'')"
  let ?exs = "\<lambda>i. if i = 1 then refused else server_says ''HTTP/1.1 200 OK''"
  let ?res = "pinned_get_with_retry (\<lambda>_. ?fp) ?exs ''h'' 1 ''tok'' ?fp ''/creds'' GET [] 3"
  have "snd (snd ?res) ! 1 \<noteq> []" "length (snd (snd ?res)) = 2" by code_simp+
  moreover have "?res = (fst ?res, fst (snd ?res), snd (snd ?res))" by simp
  from token_needs_pin [OF _ this] have "\<forall>i < length (snd (snd ?res)). snd (snd ?res) ! i \<noteq> [] \<longrightarrow>
      pin_matches (\<lambda>_. ?fp) (?exs (Suc i)) ?fp" by (rule conjunct1) simp
  from this [rule_format, of 1] calculation show ?thesis by (simp add: Let_def)
qed

text \<open>
  The retries are bounded and back off: the request is attempted once at least and never
  more than \<open>max_attempts\<close> times, every attempt but the last failed transiently, there is one
  sleep fewer than attempts, they last 1, 2, 4, ... seconds and less than \<open>2 ^ (max_attempts - 1)\<close>
  together, and the outcome is that of the last attempt.
\<close>

theorem retry_bounded:
  assumes "0 < m" "with_retry m attempt_at = (r, sleeps, sents)"
  shows "0 < length sents \<and> length sents \<le> m
    \<and> (\<forall>i < length sents - 1. transient (snd (attempt_at (Suc i))))
    \<and> sleeps = map (\<lambda>i. 2 ^ i) [0..<length sents - 1] \<and> sum_list sleeps < 2 ^ (m - 1)
    \<and> r = snd (attempt_at (length sents)) \<and> (transient r \<longrightarrow> length sents = m)"
proof -
  obtain k where k: "k < m" "\<forall>i < k. transient (snd (attempt_at (Suc i)))"
      "\<not> transient (snd (attempt_at (Suc k))) \<or> Suc k = m"
      "with_retry m attempt_at = (snd (attempt_at (Suc k)), map (\<lambda>i. 2 ^ i) [0..<k],
        map (\<lambda>i. fst (attempt_at (Suc i))) [0..<Suc k])"
    using with_retry_shape [OF assms(1), of attempt_at] by blast
  have eqs: "r = snd (attempt_at (Suc k))" "sleeps = map (\<lambda>i. 2 ^ i) [0..<k]" "length sents = Suc k"
    using k(4) assms(2) by (simp_all del: upt_Suc)
  have "sum_list (map (\<lambda>i. 2 ^ i :: rat) [0..<k]) = 2 ^ k - 1" by (induction k) auto
  moreover have "(2::rat) ^ k \<le> 2 ^ (m - 1)" using k(1) by (intro power_increasing) auto
  ultimately have "sum_list sleeps < 2 ^ (m - 1)" unfolding eqs(2) by linarith
  then show ?thesis using k(1-3) eqs by auto
qed

lemma retry_bounded_witness:
  "with_retry 3 (\<lambda>i. ([], if i = 2 then Inr ''x'' else Inl (TransientErr ''e''))) = (Inr ''x'', [1], [[], []])
   \<and> sum_list [1::rat] < 2 ^ (3 - 1)"
proof -
  have "with_retry 3 (\<lambda>i. ([], if i = 2 then Inr ''x'' else Inl (TransientErr ''e''))) = (Inr ''x'', [1], [[], []])"
    by (simp add: with_retry_def FETCH_RETRY_BACKOFF_BASE_SEC_def eval_nat_numeral)
  from this retry_bounded [OF zero_less_numeral this] show ?thesis by blast
qed

section \<open>What the client makes of a reply\<close>

text \<open>The text of a reply; the header lines have no carriage return and are not empty.\<close>

definition http_text :: "int \<Rightarrow> string \<Rightarrow> string list \<Rightarrow> string \<Rightarrow> string" where
  "http_text code reason headers body =
     (''HTTP/1.0 '' @ str_of_int code @ '' '' @ reason) @ concat (map (\<lambda>h. crlf @ h) headers) @ crlf @ crlf @ body"

definition header_lines :: "string \<Rightarrow> string list \<Rightarrow> bool" where
  "header_lines reason headers \<longleftrightarrow> CHR 0x0D \<notin> set reason \<and> list_all (\<lambda>h. h \<noteq> [] \<and> CHR 0x0D \<notin> set h) headers"

lemma str_of_int_no_cr [simp]: "CHR 0x0D \<notin> set (str_of_int i)"
  using word_text_str_of_int [of i] by (auto simp: word_text_def is_space_def)

lemma printable_status: "\<bar>code\<bar> < 1000 \<Longrightarrow> printable code"
  by (rule printableI [of _ 3]) auto

lemma decode_http_text:
  assumes "header_lines reason headers" "printable code"
  shows "decode_http_response (http_text code reason headers body) =
    (let status_line = ''HTTP/1.0 '' @ str_of_int code @ '' '' @ reason;
         what = ''listener responded '' @ str_of_int code @ '': '' @
           (if str_strip body \<noteq> [] then str_strip body else status_line)
     in if code = 200 \<or> code = 202 then Inr body
        else if 500 \<le> code \<or> code = 408 then Inl (TransientErr what) else Inl (PermanentErr what))"
proof -
  define l where "l = ''HTTP/1.0 '' @ str_of_int code @ '' '' @ reason"
  have cr: "CHR 0x0D \<notin> set l" using assms by (simp add: header_lines_def l_def)
  have "word_text ''HTTP/1.0''" by (simp add: word_text_def is_space_def)
  then have ws: "split_ws l = ''HTTP/1.0'' # str_of_int code # split_ws reason"
    using split_ws_word [of "''HTTP/1.0''" "str_of_int code @ '' '' @ reason"] split_ws_word [of "str_of_int code" reason]
    by (simp add: l_def)
  define head where "head = l @ concat (map (\<lambda>h. crlf @ h) headers)"
  have blank: "str_partition (crlf @ crlf) (http_text code reason headers body) = (head, body)"
    using partition_blank_line [OF cr] assms unfolding header_lines_def http_text_def l_def head_def by blast
  have first: "fst (str_partition crlf head) = l" unfolding head_def by (rule partition_first_line [OF cr])
  have "\<not> (length (split_ws l) < 2 \<or> \<not> starts_with (split_ws l ! 0) ''HTTP/'')" "int_of_str (split_ws l ! 1) = Some code"
    by (simp_all add: ws starts_with_prefix int_of_str_of_int assms(2))
  then show ?thesis
    unfolding decode_http_response_def l_def [symmetric] Let_def blank prod.case first by (simp only: if_False option.case)
qed

definition delivers :: "(string \<Rightarrow> string) \<Rightarrow> exchange \<Rightarrow> string \<Rightarrow> string \<Rightarrow> bool" where
  "delivers sha256_hex ex fingerprint http \<longleftrightarrow> pin_matches sha256_hex ex fingerprint \<and> ex_send_error ex = None
     \<and> ex_read_error ex = None \<and> list_all (\<lambda>c. c \<noteq> []) (ex_chunks ex) \<and> concat (ex_chunks ex) = http
     \<and> int (length http) \<le> MAX_RESPONSE_BYTES"

definition valid_call :: "string \<Rightarrow> int \<Rightarrow> string \<Rightarrow> string \<Rightarrow> string \<Rightarrow> http_verb \<Rightarrow> string \<Rightarrow> bool" where
  "valid_call host port token fingerprint path verb body \<longleftrightarrow>
     length (normal_fingerprint fingerprint) = 64
     \<and> list_all (\<lambda>c. c \<in> set ''0123456789abcdef'') (normal_fingerprint fingerprint)
     \<and> CHR 0x0D \<notin> set host \<and> CHR 0x0A \<notin> set host \<and> CHR 0x0D \<notin> set path \<and> CHR 0x0A \<notin> set path
     \<and> build_http_request host port path verb token (int (length body)) \<noteq> None"

lemma read_all_chunks:
  "list_all (\<lambda>c. c \<noteq> []) chunks \<Longrightarrow> int (length (buf @ concat chunks)) \<le> MAX_RESPONSE_BYTES
     \<Longrightarrow> read_response_bytes chunks None buf = Inr (buf @ concat chunks)"
  by (induction chunks arbitrary: buf) auto

lemma pinned_get_delivers:
  assumes "valid_call host port token fp path verb body" "delivers h ex fp http"
  shows "pinned_get h ex host port token fp path verb body =
    (the (build_http_request host port path verb token (int (length body))) @ body, decode_http_response http)"
proof -
  have "read_response_bytes (ex_chunks ex) (ex_read_error ex) [] = Inr http"
    using assms(2) read_all_chunks [of "ex_chunks ex" "[]"] by (simp add: delivers_def)
  then have exchange: "connect_and_exchange h ex (normal_fingerprint fp) request body = (request @ body, Inr http)" for request
    using assms(2) by (auto simp: connect_and_exchange_def verify_peer_cert_pin_def pin_matches_def delivers_def hex_eq_def)
  have guards: "\<not> (length (normal_fingerprint fp) \<noteq> 64 \<or> \<not> list_all (\<lambda>c. c \<in> set ''0123456789abcdef'') (normal_fingerprint fp))"
    "\<not> (CHR 0x0D \<in> set host \<or> CHR 0x0A \<in> set host \<or> CHR 0x0D \<in> set path \<or> CHR 0x0A \<in> set path)"
    using assms(1) unfolding valid_call_def by blast+
  obtain request where "build_http_request host port path verb token (int (length body)) = Some request"
    using assms(1) unfolding valid_call_def by blast
  then show ?thesis unfolding pinned_get_def Let_def exchange using guards by (simp only: if_False option.case) simp
qed

text \<open>
  C22. What the client makes of a reply of the pinned server, however the network cuts it into
  chunks: the body follows the first empty line, 200 and 202 give exactly it, 408 and every
  status from 500 on is a transient failure, and every other status is a permanent one.
\<close>

theorem replies_classified:
  assumes "valid_call host port token fp path verb body" "header_lines reason headers" "100 \<le> code" "code \<le> 599"
    "delivers h ex fp (http_text code reason headers answer)"
    "pinned_get h ex host port token fp path verb body = (sent, outcome)"
  shows "(code \<in> {200, 202} \<longleftrightarrow> outcome = Inr answer) \<and> (transient outcome \<longleftrightarrow> 500 \<le> code \<or> code = 408)
    \<and> (code \<notin> {200, 202, 408} \<and> code < 500 \<longrightarrow> (\<exists>e. outcome = Inl (PermanentErr e)))"
proof -
  have "outcome = decode_http_response (http_text code reason headers answer)"
    using pinned_get_delivers [OF assms(1,5)] assms(6) by simp
  moreover have "printable code" using assms(3,4) by (intro printable_status) auto
  ultimately have "outcome = Inr answer \<and> code \<in> {200, 202} \<or> code \<notin> {200, 202} \<and>
      (\<exists>e. outcome = (if 500 \<le> code \<or> code = 408 then Inl (TransientErr e) else Inl (PermanentErr e)))"
    unfolding decode_http_text [OF assms(2) \<open>printable code\<close>] Let_def by (auto split: if_splits)
  then show ?thesis by (auto split: if_splits)
qed

lemma with_retry_prefix:
  assumes "k < m" "\<forall>i < k. transient (snd (attempt_at (Suc i)))" "\<not> transient (snd (attempt_at (Suc k)))"
  shows "with_retry m attempt_at = (snd (attempt_at (Suc k)), map (\<lambda>i. 2 ^ i) [0..<k],
     map (\<lambda>i. fst (attempt_at (Suc i))) [0..<Suc k])"
proof -
  from with_retry_shape [of m attempt_at] assms(1) obtain l where
    l: "l < m" "\<forall>i < l. transient (snd (attempt_at (Suc i)))" "\<not> transient (snd (attempt_at (Suc l))) \<or> Suc l = m"
      "with_retry m attempt_at = (snd (attempt_at (Suc l)), map (\<lambda>i. 2 ^ i) [0..<l],
         map (\<lambda>i. fst (attempt_at (Suc i))) [0..<Suc l])" by auto
  have "l = k"
    using assms l(1-3) by (cases l k rule: linorder_cases) auto
  then show ?thesis using l(4) by simp
qed

text \<open>
  C14. Waiting for the snapshot succeeds: when the server answers 503 to the first \<open>k\<close> polls,
  because it has not committed its final snapshots yet, and 200 with the snapshot to the next,
  then the client has the snapshot after \<open>k\<close> sleeps of 1, 2, 4, ... seconds, for every \<open>k\<close>
  below the attempts allowed (five); every poll sent the same request.
\<close>

theorem snapshot_poll_succeeds:
  assumes "valid_call host port token fp ''/snapshot'' GET []" "header_lines reason headers" "k < SNAPSHOT_MAX_ATTEMPTS"
    "\<forall>i < k. delivers h (exs (Suc i)) fp (http_text 503 reason headers pending)"
    "delivers h (exs (Suc k)) fp (http_text 200 reason headers snapshot)"
  shows "pinned_get_with_retry h exs host port token fp ''/snapshot'' GET [] SNAPSHOT_MAX_ATTEMPTS =
    (Inr snapshot, map (\<lambda>i. 2 ^ i) [0..<k],
     replicate (Suc k) (the (build_http_request host port ''/snapshot'' GET token 0)))"
proof -
  let ?a = "attempt_of h exs host port token fp ''/snapshot'' GET []"
  let ?req = "the (build_http_request host port ''/snapshot'' GET token 0)"
  have polls: "fst (?a (Suc i)) = ?req \<and> transient (snd (?a (Suc i)))" if "i < k" for i
    using pinned_get_delivers [OF assms(1) assms(4) [rule_format, OF that]]
    by (simp add: decode_http_text [OF assms(2)] printable_status Let_def)
  have last: "?a (Suc k) = (?req, Inr snapshot)"
    using pinned_get_delivers [OF assms(1,5)] by (simp add: decode_http_text [OF assms(2)] printable_status)
  have sents: "map (\<lambda>i. fst (?a (Suc i))) [0..<Suc k] = replicate (Suc k) ?req"
    using polls last by (intro replicate_eqI) (auto simp: less_Suc_eq)
  show ?thesis
    unfolding pinned_get_with_retry_def using with_retry_prefix [OF assms(3), of ?a] polls last sents
    by (simp del: upt_Suc)
qed

section \<open>Witnesses of the exchange\<close>

definition demo_pin :: string where "demo_pin = replicate 64 (CHR ''a'')"

lemma demo_pin_normal: "normal_fingerprint demo_pin = demo_pin" by code_simp

lemma demo_delivers:
  assumes "http \<noteq> []" "int (length http) \<le> MAX_RESPONSE_BYTES"
  shows "delivers (\<lambda>_. demo_pin) (server_says http) demo_pin http"
  using assms by (simp add: delivers_def pin_matches_def server_says_def demo_pin_normal)

lemma demo_call: "valid_call ''h'' 1 ''tok'' demo_pin ''/snapshot'' GET []"
proof -
  have "length (normal_fingerprint demo_pin) = 64" by (simp add: demo_pin_normal) (simp add: demo_pin_def)
  moreover have "list_all (\<lambda>c. c \<in> set ''0123456789abcdef'') (normal_fingerprint demo_pin)"
    by (simp add: demo_pin_normal) (simp add: demo_pin_def list_all_iff)
  moreover have "build_http_request ''h'' 1 ''/snapshot'' GET ''tok'' (int (length [])) \<noteq> None" by code_simp
  ultimately show ?thesis by (simp add: valid_call_def)
qed

lemma demo_reply:
  assumes "length body < 1000"
  shows "delivers (\<lambda>_. demo_pin) (server_says (http_text 503 ''Busy'' [''Server: x''] body)) demo_pin
      (http_text 503 ''Busy'' [''Server: x''] body)"
    "delivers (\<lambda>_. demo_pin) (server_says (http_text 200 ''Busy'' [''Server: x''] body)) demo_pin
      (http_text 200 ''Busy'' [''Server: x''] body)"
proof -
  have "length (str_of_int 503) = 3" "length (str_of_int 200) = 3" by code_simp+
  then show "delivers (\<lambda>_. demo_pin) (server_says (http_text 503 ''Busy'' [''Server: x''] body)) demo_pin
      (http_text 503 ''Busy'' [''Server: x''] body)"
    "delivers (\<lambda>_. demo_pin) (server_says (http_text 200 ''Busy'' [''Server: x''] body)) demo_pin
      (http_text 200 ''Busy'' [''Server: x''] body)"
    using assms by (auto intro!: demo_delivers simp: http_text_def MAX_RESPONSE_BYTES_def crlf_def)
qed

lemma demo_headers: "header_lines ''Busy'' [''Server: x'']"
  by (simp add: header_lines_def)

lemma replies_classified_witness:
  "transient (snd (pinned_get (\<lambda>_. demo_pin) (server_says (http_text 503 ''Busy'' [''Server: x''] ''wait''))
     ''h'' 1 ''tok'' demo_pin ''/snapshot'' GET []))"
proof -
  let ?r = "pinned_get (\<lambda>_. demo_pin) (server_says (http_text 503 ''Busy'' [''Server: x''] ''wait''))
     ''h'' 1 ''tok'' demo_pin ''/snapshot'' GET []"
  have "?r = (fst ?r, snd ?r)" by simp
  from replies_classified [OF demo_call demo_headers _ _ demo_reply(1) this] show ?thesis by simp
qed

lemma snapshot_poll_succeeds_witness:
  "fst (pinned_get_with_retry (\<lambda>_. demo_pin)
      (\<lambda>i. server_says (http_text (if i = 3 then 200 else 503) ''Busy'' [''Server: x''] ''{}''))
      ''h'' 1 ''tok'' demo_pin ''/snapshot'' GET [] SNAPSHOT_MAX_ATTEMPTS) = Inr ''{}''"
proof -
  have "2 < SNAPSHOT_MAX_ATTEMPTS" by (simp add: SNAPSHOT_MAX_ATTEMPTS_def)
  from snapshot_poll_succeeds [OF demo_call demo_headers this, where h = "\<lambda>_. demo_pin"
      and exs = "\<lambda>i. server_says (http_text (if i = 3 then 200 else 503) ''Busy'' [''Server: x''] ''{}'')"
      and pending = "''{}''" and snapshot = "''{}''"]
  show ?thesis using demo_reply [of "''{}''"] by simp
qed

section \<open>The probe loop and the table\<close>

lemma every_protocol_has_a_probe: "n \<in> set known_names \<Longrightarrow> \<exists>f. dict_get CLIENT_PROBES n = Some f"
  by (auto simp: known_names_def PROTOCOLS_def CLIENT_PROBES_def dict_get_def)

lemma dict_get_run_probe_loop:
  assumes "\<forall>(n, f) \<in> set jobs. F n = f"
  shows "run_probe_loop run jobs creds =
    foldl (\<lambda>d n. dict_set n (run_one_probe run n (F n) creds) d) [] (map fst jobs)"
proof -
  have "foldl (\<lambda>results (name, factory). dict_set name (run_one_probe run name factory creds) results) d jobs =
      foldl (\<lambda>d n. dict_set n (run_one_probe run n (F n) creds) d) d (map fst jobs)" for d
    using assms by (induction jobs arbitrary: d) auto
  then show ?thesis by (simp add: run_probe_loop_def)
qed

lemma job_list:
  assumes "\<And>js. mset (shuffle js) = mset js"
  shows "\<forall>(n, f) \<in> set (build_probe_jobs shuffle names). dict_get CLIENT_PROBES n = Some f"
    "fst ` set (build_probe_jobs shuffle names) = set names \<inter> set known_names"
proof -
  let ?js = "List.map_filter (\<lambda>spec. map_option (\<lambda>f. (ps_name spec, f)) (dict_get CLIENT_PROBES (ps_name spec)))
       (enabled_protocols names)"
  have same: "set (build_probe_jobs shuffle names) = set ?js"
    using mset_eq_setD [OF assms] by (simp add: build_probe_jobs_def)
  show "\<forall>(n, f) \<in> set (build_probe_jobs shuffle names). dict_get CLIENT_PROBES n = Some f"
    unfolding same by (auto simp: map_filter_def)
  have "set (map ps_name (enabled_protocols names)) = set names \<inter> set known_names"
    unfolding enabled_protocols_names by auto
  moreover have "fst ` set ?js = set (map ps_name (enabled_protocols names))" if "set (map ps_name (enabled_protocols names)) \<subseteq> set known_names"
    using that every_protocol_has_a_probe by (force simp: map_filter_def image_iff)
  ultimately show "fst ` set (build_probe_jobs shuffle names) = set names \<inter> set known_names"
    unfolding same by auto
qed

text \<open>
  C20. The probe loop is complete and isolates its probes: whatever order the shuffle picks and
  whatever the probes raise, there is exactly one result for every enabled protocol the
  registry knows and none for any other name; it is what its own probe returned for the
  credentials of that protocol, or an ERROR with the exception's text and the elapsed time.
\<close>

theorem probe_loop_complete:
  fixes shuffle :: "(string \<times> (read_creds \<Rightarrow> probe_call)) list \<Rightarrow> (string \<times> (read_creds \<Rightarrow> probe_call)) list"
  assumes "\<And>js. mset (shuffle js) = mset js"
  shows "let results = run_probe_loop run (build_probe_jobs shuffle names) creds in
    dict_ok results \<and> fst ` set results = set names \<inter> set known_names
    \<and> (\<forall>n \<in> set names \<inter> set known_names. \<exists>f. dict_get CLIENT_PROBES n = Some f
        \<and> dict_get results n = Some (case run n (f creds) of Inr r \<Rightarrow> r
            | Inl (e, t) \<Rightarrow> ProbeResult_default\<lparr>pb_verdict := ERROR, pb_error := Some e,
                pb_elapsed_ms := Some (fmul t 1000)\<rparr>))"
proof -
  let ?jobs = "build_probe_jobs shuffle names"
  let ?F = "\<lambda>n. the (dict_get CLIENT_PROBES n)"
  let ?h = "\<lambda>n. run_one_probe run n (?F n) creds"
  have res: "run_probe_loop run ?jobs creds = foldl (\<lambda>d n. dict_set n (?h n) d) [] (map fst ?jobs)"
    by (rule dict_get_run_probe_loop) (use job_list(1) [OF assms] in fastforce)
  have names: "set (map fst ?jobs) = set names \<inter> set known_names"
    using job_list(2) [OF assms] by simp
  have get: "dict_get (run_probe_loop run ?jobs creds) n = (if n \<in> set names \<inter> set known_names then Some (?h n) else None)" for n
    unfolding res dict_get_foldl_set names by simp
  have ok: "dict_ok (run_probe_loop run ?jobs creds)"
    unfolding res by (rule pydict.ok_foldl) (simp add: dict_ok_def)
  have "fst ` set (run_probe_loop run ?jobs creds) = {n. dict_get (run_probe_loop run ?jobs creds) n \<noteq> None}"
    by (auto simp: dict_get_def map_of_eq_None_iff)
  then have "fst ` set (run_probe_loop run ?jobs creds) = set names \<inter> set known_names"
    unfolding get by (auto split: if_splits)
  then show ?thesis
    using ok get every_protocol_has_a_probe by (fastforce simp: Let_def run_one_probe_def)
qed

lemma probe_loop_complete_witness:
  "\<forall>creds. dict_get (run_probe_loop (\<lambda>_ _. Inl (''boom'', 1)) (build_probe_jobs rev [''openvpn'', ''tor'', ''openvpn'']) creds)
     ''openvpn'' = Some (ProbeResult_default\<lparr>pb_verdict := ERROR, pb_error := Some ''boom'', pb_elapsed_ms := Some (fmul 1 1000)\<rparr>)
   \<and> fst ` set (run_probe_loop (\<lambda>_ _. Inl (''boom'', 1)) (build_probe_jobs rev [''openvpn'', ''tor'', ''openvpn'']) creds)
     = {''openvpn''}"
proof -
  have "set [''openvpn'', ''tor'', ''openvpn''] \<inter> set known_names = {''openvpn''}"
    by (simp add: known_names_def PROTOCOLS_def)
  then show ?thesis
    using probe_loop_complete [of rev "\<lambda>_ _. Inl (''boom'', 1)" "[''openvpn'', ''tor'', ''openvpn'']"]
    by (simp add: Let_def)
qed

lemma agreed_cases:
  assumes "agreed_verdict c l err p dc = (final, note)"
  shows "final = (if c = BLOCKED \<and> l = OK \<and> is_asymmetric_dpi_error err then HANDSHAKE_ONLY else l)
    \<and> (note = [] \<longleftrightarrow> c = l)"
  using assms by (cases c) (auto simp: agreed_verdict_def NOTE_CLIENT_OVERREAD_def NOTE_LISTENER_SAW_DATA_def
      NOTE_ASYMMETRIC_DPI_def NOTE_LISTENER_DC_UNREACHABLE_SHORT_def split: if_splits)

lemma agreed_rank:
  "agreed_verdict c l err p dc = (final, note) \<Longrightarrow> verdict_rank final \<le> verdict_rank l"
  using agreed_cases [of c l err p dc final "note"] by (simp add: verdict_rank_def split: if_splits)

lemma asymmetric_dpi_marked:
  "is_asymmetric_dpi_error err \<longleftrightarrow> (\<exists>e marker. err = Some e \<and> marker \<in> set ASYMMETRIC_DPI_ERROR_MARKERS \<and> str_contains e marker)"
proof -
  have "\<not> str_contains [] marker" if "marker \<in> set ASYMMETRIC_DPI_ERROR_MARKERS" for marker
    using that by (auto simp: ASYMMETRIC_DPI_ERROR_MARKERS_def)
  then show ?thesis by (auto simp: is_asymmetric_dpi_error_def split: option.splits)
qed

lemma listener_verdict_OK:
  "listener_verdict snap p = OK \<Longrightarrow> ls_data_transfer_ok snap
     \<or> (ls_data_counters_available snap = Some False \<and> 0 < ls_handshake_count snap)"
  by (auto simp: listener_verdict_def finalize_verdict Let_def apply_cap_def derived_OK_iff verdict_rank_def
      split: option.splits if_splits)

lemma listener_verdict_default: "listener_verdict LiveSnapshot_default p = BLOCKED"
  by (auto simp: listener_verdict_def finalize_verdict Let_def apply_cap_def derived_verdict_def verdict_rank_def
      LiveSnapshot_default_def split: option.splits)

lemma cross_row_fields:
  "xr_name (cross_row_of snaps (n, r)) = n" "xr_client (cross_row_of snaps (n, r)) = pb_verdict r"
  "agreed_verdict (pb_verdict r) (xr_listener (cross_row_of snaps (n, r))) (pb_error r) (Some n)
     (ls_dc_reach_ok (case dict_get snaps n of None \<Rightarrow> LiveSnapshot_default | Some s \<Rightarrow> s)) =
   (xr_final (cross_row_of snaps (n, r)), xr_note (cross_row_of snaps (n, r)))"
  "xr_listener (cross_row_of snaps (n, r)) =
     listener_verdict (case dict_get snaps n of None \<Rightarrow> LiveSnapshot_default | Some s \<Rightarrow> s) (Some n)"
  by (simp_all add: cross_row_of_def Let_def split: prod.splits)



end
