(* ===== verification/Session.thy ===== *)
theory Session
  imports Client
begin

text \<open>
  A session from both sides: the listener's snapshots as the client decodes them, and the
  client's measurements as the listener reports them. The lemmas connect \<open>Listener\<close>,
  \<open>CredServer\<close> and \<open>Client\<close>; the two theorems are the promises the parts make to each other.
\<close>

section \<open>The snapshot through the codec\<close>

lemma field_dumps [simp]:
  "field_opt (field_bool L) (json_bool_opt b) = Some b" "field_opt (field_int L) (json_int_opt i) = Some i"
  "field_opt (field_bool L) (JBool c) = Some (Some c)"
  by (cases b; simp) (cases i; simp_all)+

lemma dict_get_dump:
  "dict_get (snapshot_dump s) ''handshake_count'' = Some (JInt (ls_handshake_count s))"
  "dict_get (snapshot_dump s) ''data_transfer_ok'' = Some (JBool (ls_data_transfer_ok s))"
  "dict_get (snapshot_dump s) ''data_packets'' = Some (json_int_opt (ls_data_packets s))"
  "dict_get (snapshot_dump s) ''bytes_received'' = Some (json_int_opt (ls_bytes_received s))"
  "dict_get (snapshot_dump s) ''responder_self_test_ok'' = Some (json_bool_opt (ls_responder_self_test_ok s))"
  "dict_get (snapshot_dump s) ''dc_reach_ok'' = Some (json_bool_opt (ls_dc_reach_ok s))"
  "dict_get (snapshot_dump s) ''error'' = None"
  by (simp_all add: snapshot_dump_def dict_get_def)

definition decorated :: "(string, bool) dict \<Rightarrow> bool option \<Rightarrow> bool option \<Rightarrow> string \<Rightarrow> live_snapshot \<Rightarrow> live_snapshot" where
  "decorated self_tests dc_reach_ok iptables_cap_ok name s =
     s\<lparr>ls_responder_self_test_ok := (case dict_get self_tests name of None \<Rightarrow> ls_responder_self_test_ok s | Some ok \<Rightarrow> Some ok),
       ls_dc_reach_ok := (if requires_telegram_dc name then dc_reach_ok else ls_dc_reach_ok s),
       ls_data_counters_available := data_counters_available name iptables_cap_ok\<rparr>"

lemma snapshot_survives:
  assumes "dict_get failing name = None"
  shows "snapshot_of_payload L (JObj (final_snapshot v failing self_tests dc cap name r)) =
    decorated self_tests dc cap name (resp_live_snapshot v r)"
proof -
  let ?d = "final_snapshot v failing self_tests dc cap name r"
  let ?s = "resp_live_snapshot v r"
  have get: "dict_get ?d ''error'' = None"
    "dict_get ?d ''handshake_count'' = Some (JInt (ls_handshake_count ?s))"
    "dict_get ?d ''data_transfer_ok'' = Some (JBool (ls_data_transfer_ok ?s))"
    "dict_get ?d ''data_packets'' = Some (json_int_opt (ls_data_packets ?s))"
    "dict_get ?d ''bytes_received'' = Some (json_int_opt (ls_bytes_received ?s))"
    "dict_get ?d ''responder_self_test_ok'' = Some (case dict_get self_tests name of
       None \<Rightarrow> json_bool_opt (ls_responder_self_test_ok ?s) | Some ok \<Rightarrow> JBool ok)"
    "dict_get ?d ''dc_reach_ok'' = Some (json_bool_opt (if requires_telegram_dc name then dc else ls_dc_reach_ok ?s))"
    "dict_get ?d ''data_counters_available'' = Some (json_bool_opt (data_counters_available name cap))"
    using assms by (auto simp: final_snapshot_def Let_def dict_get_dump split: option.split)
  have "field_opt (field_bool L) (case dict_get self_tests name of
       None \<Rightarrow> json_bool_opt (ls_responder_self_test_ok ?s) | Some ok \<Rightarrow> JBool ok) =
      Some (case dict_get self_tests name of None \<Rightarrow> ls_responder_self_test_ok ?s | Some ok \<Rightarrow> Some ok)"
    by (cases "dict_get self_tests name") simp_all
  then show ?thesis
    by (simp add: snapshot_of_payload_def dict_has_iff get validate_snapshot_def take_field_def decorated_def)
qed

lemma dict_get_map: "dict_get (map (\<lambda>(n, x). (n, f n x)) d) k = map_option (f k) (dict_get d k)"
  by (induction d) (auto simp: dict_get_def)

lemma listener_verdict_decorated:
  "listener_verdict (decorated self_tests dc cap name s) (Some name) =
     apply_cap (if is_mtg_protocol name \<and> dc = Some False then Some HANDSHAKE_ONLY else None)
       (derived_verdict (ls_handshake_count s) (ls_data_transfer_ok s) (data_counters_available name cap))"
  using mtg_requires_dc [of name]
  by (auto simp: listener_verdict_def decorated_def Let_def finalize_verdict ProtocolResult_default_def)

lemma snapshot_request:
  assumes "is_snapshot rq" "check_bearer srv rq = Pass" "cs_final_snapshots srv = Some d"
  shows "snd (handle E srv rq) = finished rq (reply 200 (json_dumps E (JObj d)))"
proof -
  have "start_request rq = Snapshot rq" using assms(1) by (simp add: is_snapshot_def start_request_def do_GET_def)
  then show ?thesis using assms(2,3)
    by (simp add: handle_def authenticated_def finished_def eval_nat_numeral)
qed

lemma apply_cap_mono: "verdict_rank x \<le> verdict_rank y \<Longrightarrow> verdict_rank (apply_cap c x) \<le> verdict_rank (apply_cap c y)"
  by (auto simp: apply_cap_def split: option.splits)

text \<open>The signals of a stopped responder at the commit and in the report.\<close>

lemma resp_after_commit:
  assumes "vt_echo w = map_option (echo_winds_down late) (vt_echo v1)"
  shows "resp_connection_count w (resp_stop v0 r) = resp_connection_count v1 (resp_stop v0 r)"
    and "resp_data_transfer_ok v1 (resp_stop v0 r) \<Longrightarrow> resp_data_transfer_ok w (resp_stop v0 r)"
    and "resp_data_transfer_ok w (resp_stop v0 r) \<noteq> resp_data_transfer_ok v1 (resp_stop v0 r) \<longleftrightarrow>
      (\<exists>s es. r = Subprocess s \<and> vt_echo v1 = Some es \<and> dict_default (es_bytes_counts es) (sb_label s) 0 < MIN_BYTES
         \<and> MIN_BYTES \<le> dict_default (es_bytes_counts es) (sb_label s) 0 + late_bytes (sb_label s) late)"
proof -
  have same: "resp_connection_count w (resp_stop v0 r) = resp_connection_count v1 (resp_stop v0 r)
      \<and> resp_data_transfer_ok w (resp_stop v0 r) = resp_data_transfer_ok v1 (resp_stop v0 r)" if "\<forall>s. r \<noteq> Subprocess s"
    using resp_frozen [of w v1 r v0] that by blast
  have count: "resp_connection_count w (resp_stop v0 (Subprocess s)) = resp_connection_count v1 (resp_stop v0 (Subprocess s))" for s
    by simp
  have data: "resp_data_transfer_ok v (resp_stop v0 (Subprocess s)) \<longleftrightarrow>
      (case vt_echo v of None \<Rightarrow> False | Some es \<Rightarrow> data_ok es (sb_label s) MIN_BYTES)" for v s
    by (simp add: sub_data_transfer_ok_def sub_stop_def cong: option.case_cong)
  have grow: "data_ok es (sb_label s) MIN_BYTES \<Longrightarrow> data_ok (echo_winds_down late es) (sb_label s) MIN_BYTES" for es s
    using late_bytes_nonneg [of "sb_label s" late] by (simp add: data_ok_winds_down) (simp add: data_ok_def)
  show "resp_connection_count w (resp_stop v0 r) = resp_connection_count v1 (resp_stop v0 r)"
    using same count by (cases r) blast+
  show "resp_data_transfer_ok v1 (resp_stop v0 r) \<Longrightarrow> resp_data_transfer_ok w (resp_stop v0 r)"
    using same data assms grow by (cases r) (auto split: option.splits)
  show "resp_data_transfer_ok w (resp_stop v0 r) \<noteq> resp_data_transfer_ok v1 (resp_stop v0 r) \<longleftrightarrow>
      (\<exists>s es. r = Subprocess s \<and> vt_echo v1 = Some es \<and> dict_default (es_bytes_counts es) (sb_label s) 0 < MIN_BYTES
         \<and> MIN_BYTES \<le> dict_default (es_bytes_counts es) (sb_label s) 0 + late_bytes (sb_label s) late)"
  proof (cases "\<exists>s. r = Subprocess s")
    case True
    then obtain s where r: "r = Subprocess s" by blast
    show ?thesis using grow [of _ s] unfolding r data assms
      by (cases "vt_echo v1") (auto simp: data_ok_winds_down, auto simp: data_ok_def)
  qed (use same in blast)
qed

text \<open>
  C3. One session, one verdict: after the responders were stopped and the final snapshots
  committed, an authorised snapshot request is answered with 200; the client decodes the
  answer; and for every responder that stopped and took its snapshot, the verdict the client
  derives from it is the verdict of that protocol in the listener's report, whatever happens
  at the interfaces in between, while the echo server stops, and whatever its last handlers still
  read, with one exception, which can only raise the report's verdict: a proxy protocol (Shadowsocks,
  VLESS, Hysteria 2) whose echo counter stood below the 64 bytes at the commit and was brought over
  them by a handler that was still reading.
\<close>

theorem verdicts_agree:
  assumes "end_session_commit E v0 v1 stuck failing sn srv0 = (stopped, srv1)"
    "cs_final_snapshots srv1 = Some d" "json_loads E (json_dumps E (JObj d)) = Some (JObj d)"
    "is_snapshot rq" "check_bearer srv1 rq = Pass"
    "dict_get (sn_responders sn) name = Some r" "dict_get stuck name = None" "dict_get failing name = None"
  shows "\<exists>body snaps snap pr. snd (handle E srv1 rq) = finished rq (reply 200 body)
    \<and> parse_snapshot_body E L body = Some snaps \<and> dict_get snaps name = Some snap
    \<and> dict_get (lr_results (end_session_report enricher v1 late v2 client_ip stopped sn srv2)) name = Some pr
    \<and> verdict_rank (listener_verdict snap (Some name)) \<le> verdict_rank (pr_verdict pr)
    \<and> (listener_verdict snap (Some name) = pr_verdict pr
       \<or> (\<exists>s es. r = Subprocess s \<and> vt_echo v1 = Some es \<and> dict_default (es_bytes_counts es) (sb_label s) 0 < 64
            \<and> 64 \<le> dict_default (es_bytes_counts es) (sb_label s) 0 + late_bytes (sb_label s) late))"
proof -
  let ?st = "sn_self_tests sn" and ?dc = "sn_dc_reach_ok sn" and ?cap = "sn_iptables_cap_ok sn"
  define w where "w = v2\<lparr>vt_echo := map_option (echo_winds_down late) (vt_echo v1)\<rparr>"
  have stopped: "stopped = stop_responders v0 stuck (sn_responders sn)"
    and d: "d = build_final_snapshots v1 failing stopped ?st ?dc ?cap"
    using assms(1,2) by (auto simp: end_session_commit_def Let_def commit_final_snapshots_def)
  have here: "dict_get stopped name = Some (resp_stop v0 r)"
    using assms(6,7) unfolding stopped stop_responders_def by (simp add: dict_get_map)
  let ?snap = "decorated ?st ?dc ?cap name (resp_live_snapshot v1 (resp_stop v0 r))"
  let ?pr = "finalize_session_result w ?st ?dc ?cap (cs_client_throughput srv2) name (resp_stop v0 r)"
  have parsed: "parse_snapshot_body E L (json_dumps E (JObj d)) = Some (map (\<lambda>(n, p). (n, snapshot_of_payload L p)) d)"
    by (simp add: parse_snapshot_body_def assms(3))
  have snap: "dict_get (map (\<lambda>(n, p). (n, snapshot_of_payload L p)) d) name = Some ?snap"
    unfolding d build_final_snapshots_def dict_get_map here by (simp add: snapshot_survives [OF assms(8)])
  have result: "dict_get (lr_results (end_session_report enricher v1 late v2 client_ip stopped sn srv2)) name = Some ?pr"
    by (simp add: end_session_report_def Let_def finalize_session_results_def dict_get_map here w_def)
  have "vt_echo w = map_option (echo_winds_down late) (vt_echo v1)" by (simp add: w_def)
  note signals = resp_after_commit [OF this, of v0 r]
  let ?cap_at = "if is_mtg_protocol name \<and> ?dc = Some False then Some HANDSHAKE_ONLY else None"
  have both: "listener_verdict ?snap (Some name) = apply_cap ?cap_at (derived_verdict (resp_connection_count v1 (resp_stop v0 r))
        (resp_data_transfer_ok v1 (resp_stop v0 r)) (data_counters_available name ?cap))"
    "pr_verdict ?pr = apply_cap ?cap_at (derived_verdict (resp_connection_count v1 (resp_stop v0 r))
        (resp_data_transfer_ok w (resp_stop v0 r)) (data_counters_available name ?cap))"
    unfolding listener_verdict_decorated finalize_session_verdict resp.snap_count resp.snap_data signals(1) by (rule refl)+
  have "verdict_rank (listener_verdict ?snap (Some name)) \<le> verdict_rank (pr_verdict ?pr)"
    unfolding both using signals(2) by (intro apply_cap_mono derived_mono) auto
  moreover have "listener_verdict ?snap (Some name) = pr_verdict ?pr
       \<or> (\<exists>s es. r = Subprocess s \<and> vt_echo v1 = Some es \<and> dict_default (es_bytes_counts es) (sb_label s) 0 < 64
            \<and> 64 \<le> dict_default (es_bytes_counts es) (sb_label s) 0 + late_bytes (sb_label s) late)"
    using signals(3) unfolding both MIN_BYTES_def
    by (cases "resp_data_transfer_ok w (resp_stop v0 r) = resp_data_transfer_ok v1 (resp_stop v0 r)") auto
  ultimately show ?thesis using snapshot_request [OF assms(4,5,2)] parsed snap result by blast
qed

section \<open>The client's throughput in the report\<close>

definition measured :: "(string, probe_result) dict \<Rightarrow> string \<Rightarrow> rat option" where
  "measured results name =
     (case dict_get results name of
        None \<Rightarrow> None
      | Some r \<Rightarrow> (case pb_throughput_mbps r of Some (Fin q) \<Rightarrow> if 0 < q then Some q else None | _ \<Rightarrow> None))"

lemma dict_ok_Cons: "dict_ok ((k, v) # d) \<longleftrightarrow> dict_get d k = None \<and> dict_ok d"
  by (auto simp: dict_ok_def dict_get_def map_of_eq_None_iff)

lemma dict_get_Cons: "dict_get ((k, v) # d) j = (if j = k then Some v else dict_get d j)"
  by (simp add: dict_get_def)

lemma client_throughput_get:
  assumes "dict_ok results"
  shows "dict_ok (client_throughput_of results)
    \<and> (\<forall>k. dict_get (client_throughput_of results) k =
        (case dict_get results k of None \<Rightarrow> None | Some r \<Rightarrow>
           (case pb_throughput_mbps r of None \<Rightarrow> None | Some f \<Rightarrow> if pf_positive f then Some f else None)))"
  using assms
proof (induction results)
  case Nil
  then show ?case by (simp add: client_throughput_of_def List.map_filter_simps dict_ok_def)
next
  case (Cons p results)
  obtain n r where p: "p = (n, r)" by force
  let ?f = "case pb_throughput_mbps r of None \<Rightarrow> None | Some f \<Rightarrow> if pf_positive f then Some f else None"
  have head: "client_throughput_of (p # results) = (case ?f of None \<Rightarrow> client_throughput_of results
      | Some f \<Rightarrow> (n, f) # client_throughput_of results)"
    by (auto simp: p client_throughput_of_def List.map_filter_simps split: option.split)
  have rest: "dict_get results n = None" "dict_ok results" using Cons.prems unfolding p dict_ok_Cons by auto
  note ih = Cons.IH [OF rest(2)]
  have "dict_get (client_throughput_of results) n = None" using ih rest(1) by simp
  then show ?case using ih rest unfolding head
    by (cases ?f) (auto simp: p dict_get_Cons dict_ok_Cons)
qed

lemma collect_floats:
  assumes "dict_ok d" "dict_ok out"
  shows "\<exists>ct. collect_throughput (map (\<lambda>(n, f). (n, JFloat f)) d) out = Inr ct \<and> dict_ok ct
    \<and> (\<forall>k. dict_get ct k = (case dict_get d k of Some (Fin q) \<Rightarrow> if 0 < q then Some q else dict_get out k
        | _ \<Rightarrow> dict_get out k))"
  using assms
proof (induction d arbitrary: out)
  case Nil
  then show ?case by simp
next
  case (Cons p d)
  obtain n f where p: "p = (n, f)" by force
  let ?out = "case f of Fin q \<Rightarrow> if 0 < q then dict_set n q out else out | _ \<Rightarrow> out"
  have rest: "dict_get d n = None" "dict_ok d" using Cons.prems(1) unfolding p dict_ok_Cons by auto
  have step: "collect_throughput (map (\<lambda>(n, f). (n, JFloat f)) (p # d)) out =
      collect_throughput (map (\<lambda>(n, f). (n, JFloat f)) d) ?out"
    by (simp add: p split: pyfloat.split)
  have "dict_ok ?out" using Cons.prems(2) by (simp split: pyfloat.split)
  from Cons.IH [OF rest(2) this] obtain ct where
    ct: "collect_throughput (map (\<lambda>(n, f). (n, JFloat f)) d) ?out = Inr ct" "dict_ok ct"
      "\<forall>k. dict_get ct k = (case dict_get d k of Some (Fin q) \<Rightarrow> if 0 < q then Some q else dict_get ?out k
        | _ \<Rightarrow> dict_get ?out k)" by blast
  have "dict_get ct k = (case dict_get (p # d) k of Some (Fin q) \<Rightarrow> if 0 < q then Some q else dict_get out k
        | _ \<Rightarrow> dict_get out k)" for k
  proof (cases "k = n")
    case True
    then show ?thesis using ct(3) rest(1) by (simp add: p dict_get_Cons split: pyfloat.split)
  next
    case False
    then have same: "dict_get ?out k = dict_get out k" by (simp split: pyfloat.split)
    show ?thesis using ct(3) [rule_format, of k] False unfolding same by (simp add: p dict_get_Cons)
  qed
  then show ?case using ct(1,2) step by auto
qed

definition stop_request_with :: "string \<Rightarrow> request \<Rightarrow> bool" where
  "stop_request_with body rq \<longleftrightarrow> is_stop rq \<and> rq_body rq = body
     \<and> rq_content_length rq = Some (str_of_int (int (length body))) \<and> int (length body) \<le> 64 * 1024"

lemma body_is_read:
  assumes "stop_request_with body rq"
  shows "read_request_body rq (64 * 1024) = body"
proof -
  have "printable (int (length body))"
    using assms by (intro printableI [of _ 5]) (auto simp: stop_request_with_def)
  then show ?thesis using assms
    by (auto simp: stop_request_with_def read_request_body_def int_of_str_of_int min_def)
qed

lemma stop_merges:
  assumes "is_stop rq" "check_bearer srv rq = Pass"
    "parse_client_throughput (json_loads E) (read_request_body rq (64 * 1024)) = Inr ct"
  shows "cs_client_throughput (fst (handle E srv rq)) = dict_update (cs_client_throughput srv) ct"
proof -
  have "start_request rq = Stop rq" using assms(1) by (simp add: is_stop_def start_request_def do_POST_def)
  then show ?thesis using assms(2,3)
    by (cases "ct = []"; cases "cs_stop_event srv")
      (simp_all add: handle_def authenticated_def finished_def eval_nat_numeral dict_update_def)
qed

text \<open>
  C17. What the client measured reaches the report: the body of its stop request carries the
  positive throughputs of its probes, the server merges exactly the finite ones into its state
  (a protocol without one keeps the value it had), and the listener's report for a protocol
  shows that value.
\<close>

theorem throughput_arrives:
  assumes "dict_ok results" "stop_request_with (stop_body E (client_throughput_of results)) rq"
    "check_bearer srv rq = Pass"
    "json_dumps E (JObj [(''client_throughput'', JObj (map (\<lambda>(n, f). (n, JFloat f)) (client_throughput_of results)))]) \<noteq> []"
    "json_loads E (json_dumps E (JObj [(''client_throughput'', JObj (map (\<lambda>(n, f). (n, JFloat f)) (client_throughput_of results)))]))
      = Some (JObj [(''client_throughput'', JObj (map (\<lambda>(n, f). (n, JFloat f)) (client_throughput_of results)))])"
    "dict_get stopped name = Some r"
  shows "\<exists>pr. dict_get (lr_results (end_session_report enricher v1 late v2 client_ip stopped sn (fst (handle E srv rq)))) name = Some pr
    \<and> pr_client_avg_throughput_mbps pr = (case measured results name of
        None \<Rightarrow> dict_get (cs_client_throughput srv) name | Some q \<Rightarrow> Some q)"
proof -
  let ?ct = "client_throughput_of results"
  note ct = client_throughput_get [OF assms(1)]
  obtain got where got: "collect_throughput (map (\<lambda>(n, f). (n, JFloat f)) ?ct) [] = Inr got" "dict_ok got"
      "\<forall>k. dict_get got k = (case dict_get ?ct k of Some (Fin q) \<Rightarrow> if 0 < q then Some q else None | _ \<Rightarrow> None)"
    using collect_floats [OF conjunct1 [OF ct] dict_ok_Nil, unfolded dict_get_Nil] by blast
  have "parse_client_throughput (json_loads E) (stop_body E ?ct) = Inr got"
    using assms(4,5) got(1) by (auto simp: parse_client_throughput_def stop_body_def jget_def dict_default_def dict_get_def)
  then have merged: "cs_client_throughput (fst (handle E srv rq)) = dict_update (cs_client_throughput srv) got"
    using stop_merges [OF _ assms(3)] body_is_read [OF assms(2)] assms(2) by (simp add: stop_request_with_def)
  have "dict_get (rev got) name = dict_get got name"
    using got(2) map_of_inject_set [of "rev got" got] by (simp add: dict_ok_def dict_get_def rev_map [symmetric])
  then have "dict_get (dict_update (cs_client_throughput srv) got) name =
      (case measured results name of None \<Rightarrow> dict_get (cs_client_throughput srv) name | Some q \<Rightarrow> Some q)"
    using got(3) ct unfolding dict_get_update measured_def
    by (auto split: option.splits pyfloat.splits)
  moreover have "dict_get (lr_results (end_session_report enricher v1 late v2 client_ip stopped sn (fst (handle E srv rq)))) name
      = Some (finalize_session_result (v2\<lparr>vt_echo := map_option (echo_winds_down late) (vt_echo v1)\<rparr>) (sn_self_tests sn) (sn_dc_reach_ok sn) (sn_iptables_cap_ok sn)
          (dict_update (cs_client_throughput srv) got) name r)"
    by (simp add: end_session_report_def Let_def finalize_session_results_def dict_get_map assms(6) merged)
  moreover have "pr_client_avg_throughput_mbps (finalize_session_result w st dc cap tp name r) = dict_get tp name" for w st dc cap tp
    by (auto simp: finalize_session_result_def Let_def split: option.split)
  ultimately show ?thesis by simp
qed

section \<open>Witnesses\<close>

text \<open>A codec for one document.\<close>

definition one_document :: "json \<Rightarrow> codec" where
  "one_document doc = \<lparr>json_loads = (\<lambda>s. Some doc), json_dumps = (\<lambda>j. ''{}'')\<rparr>"

definition demo_session :: session where
  "demo_session = \<lparr>sn_test_id = ''t'', sn_session_id = ''s'', sn_is_mobile = False, sn_is_whitelist = False,
     sn_responders = [(''openvpn'', OpenVPN (ovpn_init 1194))], sn_self_tests = [], sn_dc_reach_ok = Some False,
     sn_iptables_cap_ok = Some True, sn_started_at = 0, sn_stopped_at = 1000000\<rparr>"

definition demo_srv :: cred_server where "demo_srv = cred_server_init ''creds'' ''tok''"

lemma check_bearer_committed: "check_bearer (commit_final_snapshots E d srv) rq = check_bearer srv rq"
proof -
  have "cs_token (commit_final_snapshots E d srv) = cs_token srv" by (simp add: commit_final_snapshots_def)
  then show ?thesis unfolding check_bearer_def by (simp only:)
qed

lemma verdicts_agree_witness:
  "let stopped = stop_responders (demo_vantage None) [] (sn_responders demo_session);
       E = one_document (JObj (build_final_snapshots (demo_vantage None) [] stopped [] (Some False) (Some True)));
       srv = commit_final_snapshots E (build_final_snapshots (demo_vantage None) [] stopped [] (Some False) (Some True)) demo_srv
   in \<exists>body snaps snap pr.
       snd (handle E srv (demo_request GET ''/snapshot'' ''tok'')) = finished (demo_request GET ''/snapshot'' ''tok'') (reply 200 body)
       \<and> parse_snapshot_body E \<lparr>lax_int = \<lambda>_. None, lax_bool = \<lambda>_. None\<rparr> body = Some snaps \<and> dict_get snaps ''openvpn'' = Some snap
       \<and> dict_get (lr_results (end_session_report (\<lambda>_. None) (demo_vantage None) [] (demo_vantage None) None stopped demo_session srv)) ''openvpn'' = Some pr
       \<and> listener_verdict snap (Some ''openvpn'') = pr_verdict pr"
proof -
  let ?stopped = "stop_responders (demo_vantage None) [] (sn_responders demo_session)"
  let ?final = "build_final_snapshots (demo_vantage None) [] ?stopped [] (Some False) (Some True)"
  let ?srv = "commit_final_snapshots (one_document (JObj ?final)) ?final demo_srv"
  have commit: "end_session_commit (one_document (JObj ?final)) (demo_vantage None) (demo_vantage None) [] [] demo_session demo_srv
      = (?stopped, ?srv)" by (simp add: end_session_commit_def demo_session_def Let_def)
  have final: "cs_final_snapshots ?srv = Some ?final" by (simp add: commit_final_snapshots_def)
  have loads: "json_loads (one_document (JObj ?final)) (json_dumps (one_document (JObj ?final)) (JObj ?final)) = Some (JObj ?final)"
    by (simp add: one_document_def)
  have req: "is_snapshot (demo_request GET ''/snapshot'' ''tok'')" by code_simp
  have "check_bearer demo_srv (demo_request GET ''/snapshot'' ''tok'') = Pass" by code_simp
  then have bearer: "check_bearer ?srv (demo_request GET ''/snapshot'' ''tok'') = Pass"
    by (simp add: check_bearer_committed)
  have resp: "dict_get (sn_responders demo_session) ''openvpn'' = Some (OpenVPN (ovpn_init 1194))"
    by (simp add: demo_session_def dict_get_def)
  from verdicts_agree [OF commit final loads req bearer resp dict_get_Nil dict_get_Nil,
      of "\<lparr>lax_int = \<lambda>_. None, lax_bool = \<lambda>_. None\<rparr>" "\<lambda>_. None" "[]" "demo_vantage None" None ?srv]
  show ?thesis unfolding Let_def by blast
qed

text \<open>The exception does happen: the client is told HANDSHAKE_ONLY, the report says OK.\<close>

lemma late_read_splits_verdict:
  "let r = Subprocess ((sub_init ''shadowsocks'' 8388 [''accepted tcp:''])\<lparr>sb_connection_count := 1\<rparr>);
       v = (demo_vantage None)\<lparr>vt_echo := Some (EchoServer_init None)\<rparr>
   in listener_verdict (snapshot_of_payload L (JObj (final_snapshot v [] [] None (Some True) ''shadowsocks'' r))) (Some ''shadowsocks'')
        = HANDSHAKE_ONLY
    \<and> map_option pr_verdict (dict_get (lr_results (end_session_report (\<lambda>_. None) v [LateRead ''shadowsocks'' (replicate 64 CHR ''x'')] v
        None [(''shadowsocks'', r)] demo_session demo_srv)) ''shadowsocks'') = Some OK"
proof -
  let ?r = "Subprocess ((sub_init ''shadowsocks'' 8388 [''accepted tcp:''])\<lparr>sb_connection_count := 1\<rparr>)"
  let ?v = "(demo_vantage None)\<lparr>vt_echo := Some (EchoServer_init None)\<rparr>"
  let ?w = "?v\<lparr>vt_echo := map_option (echo_winds_down [LateRead ''shadowsocks'' (replicate 64 CHR ''x'')]) (vt_echo ?v)\<rparr>"
  have mtg: "\<not> is_mtg_protocol ''shadowsocks''" by code_simp
  have counters: "data_counters_available ''shadowsocks'' (Some True) \<noteq> Some False" by code_simp
  have live: "ls_handshake_count (resp_live_snapshot ?v ?r) = 1" "\<not> ls_data_transfer_ok (resp_live_snapshot ?v ?r)" by code_simp+
  have signals: "resp_connection_count ?w ?r = 1" "resp_data_transfer_ok ?w ?r"
    by code_simp+
  have "listener_verdict (snapshot_of_payload L (JObj (final_snapshot ?v [] [] None (Some True) ''shadowsocks'' ?r))) (Some ''shadowsocks'')
      = HANDSHAKE_ONLY"
    unfolding snapshot_survives [OF dict_get_Nil] listener_verdict_decorated
    using mtg live counters by (simp del: resp_live_snapshot.simps add: derived_verdict_def apply_cap_def)
  moreover have "pr_verdict (finalize_session_result ?w [] (Some False) (Some True) [] ''shadowsocks'' ?r) = OK"
    using mtg signals unfolding finalize_session_verdict by (simp add: derived_verdict_def apply_cap_def)
  ultimately show ?thesis
    by (simp add: Let_def end_session_report_def finalize_session_results_def dict_get_def demo_session_def demo_srv_def cred_server_init_def)
qed

lemma throughput_arrives_witness:
  "let results = [(''openvpn'', ProbeResult_default\<lparr>pb_throughput_mbps := Some (Fin 5)\<rparr>)];
       doc = JObj [(''client_throughput'', JObj [(''openvpn'', JFloat (Fin 5))])];
       rq = (demo_request POST ''/stop'' ''tok'')\<lparr>rq_body := ''{}'', rq_content_length := Some ''2''\<rparr>
   in \<exists>pr. dict_get (lr_results (end_session_report (\<lambda>_. None) (demo_vantage None) [] (demo_vantage None) None (sn_responders demo_session)
         demo_session (fst (handle (one_document doc) demo_srv rq)))) ''openvpn'' = Some pr
     \<and> pr_client_avg_throughput_mbps pr = Some 5"
proof -
  let ?results = "[(''openvpn'', ProbeResult_default\<lparr>pb_throughput_mbps := Some (Fin 5)\<rparr>)]"
  let ?doc = "JObj [(''client_throughput'', JObj [(''openvpn'', JFloat (Fin 5))])]"
  let ?rq = "(demo_request POST ''/stop'' ''tok'')\<lparr>rq_body := ''{}'', rq_content_length := Some ''2''\<rparr>"
  have sent: "client_throughput_of ?results = [(''openvpn'', Fin 5)]"
    by (simp add: client_throughput_of_def List.map_filter_simps)
  have "str_of_int 2 = ''2''" by (simp add: str_of_int_def nat_digits_numeral)
  then have "stop_request_with (stop_body (one_document ?doc) (client_throughput_of ?results)) ?rq"
    by (simp add: sent stop_body_def one_document_def stop_request_with_def is_stop_def demo_request_def)
  moreover have "check_bearer demo_srv ?rq = Pass" by code_simp
  moreover have "dict_get (sn_responders demo_session) ''openvpn'' = Some (OpenVPN (ovpn_init 1194))"
    by (simp add: demo_session_def dict_get_def)
  moreover have "dict_ok ?results" by (simp add: dict_ok_def)
  moreover have "measured ?results ''openvpn'' = Some 5" by (simp add: measured_def dict_get_def)
  ultimately show ?thesis
    using throughput_arrives [of ?results "one_document ?doc" ?rq demo_srv "sn_responders demo_session" "''openvpn''"
        "OpenVPN (ovpn_init 1194)" "\<lambda>_. None" "demo_vantage None" "[]" "demo_vantage None" None demo_session]
    by (simp add: Let_def sent) (simp add: one_document_def)
qed

end
