(* ===== verification/Probing.thy ===== *)
theory Probing
  imports ServerMeta Utils PyText
begin

text \<open>
  What the probe modules share: a new \<open>TestResult\<close> with its defaults (the creation time is not
  modelled and left 0; no module reads it), names derived from targets, and replies of the
  HTTP client library.
\<close>

definition TestResult_new :: "string \<Rightarrow> string \<Rightarrow> string \<Rightarrow> verdict \<Rightarrow> test_result" where
  "TestResult_new test category target verdict = populate_subcategory
     \<lparr>tr_test = test, tr_category = category, tr_subcategory = [], tr_target = target, tr_verdict = verdict,
      tr_method = None, tr_confidence = 1, tr_evidence = [], tr_rtt_ms = None, tr_elapsed_ms = None,
      tr_attempts = 1, tr_timestamp = 0, tr_notes = None\<rparr>"

lemma TestResult_new_fields [simp]:
  "tr_test (TestResult_new t c g v) = t" "tr_category (TestResult_new t c g v) = c"
  "tr_target (TestResult_new t c g v) = g" "tr_verdict (TestResult_new t c g v) = v"
  "tr_method (TestResult_new t c g v) = None" "tr_confidence (TestResult_new t c g v) = 1"
  "tr_elapsed_ms (TestResult_new t c g v) = None" "tr_rtt_ms (TestResult_new t c g v) = None"
  "tr_notes (TestResult_new t c g v) = None" "tr_attempts (TestResult_new t c g v) = 1"
  "tr_evidence (TestResult_new t c g v) = []"
  by (simp_all add: TestResult_new_def populate_subcategory_def)

definition replace_char :: "char \<Rightarrow> char \<Rightarrow> string \<Rightarrow> string" where
  "replace_char a b s = map (\<lambda>c. if c = a then b else c) s"

lemma length_replace_char [simp]: "length (replace_char a b s) = length s"
  by (simp add: replace_char_def)

definition str_rstrip_char :: "char \<Rightarrow> string \<Rightarrow> string" where
  "str_rstrip_char c s = rev (dropWhile (\<lambda>x. x = c) (rev s))"

text \<open>The number of characters of a text given as UTF-8: continuation bytes do not count.\<close>

definition str_len :: "string \<Rightarrow> nat" where
  "str_len s = length (filter (\<lambda>c. \<not> (0x80 \<le> (of_char c :: int) \<and> (of_char c :: int) < 0xC0)) s)"

text \<open>\<open>s[:n]\<close> of such a text: the first \<open>n\<close> characters with their continuation bytes.\<close>

fun str_take :: "nat \<Rightarrow> string \<Rightarrow> string" where
  "str_take n [] = []"
| "str_take n (c # s) =
     (if 0x80 \<le> (of_char c :: int) \<and> (of_char c :: int) < 0xC0 then c # str_take n s
      else if n = 0 then [] else c # str_take (n - 1) s)"

definition json_str_opt :: "string option \<Rightarrow> json" where
  "json_str_opt s = (case s of None \<Rightarrow> JNull | Some t \<Rightarrow> JStr t)"

definition json_strs :: "string list \<Rightarrow> json" where
  "json_strs ss = JList (map JStr ss)"

text \<open>A reply: the status and the decoded body (\<open>None\<close>: the body is no JSON).\<close>

type_synonym http_reply = "int \<times> json option"

text \<open>The elapsed stamp on a result that is always there.\<close>

definition stamped :: "rat \<Rightarrow> rat \<Rightarrow> test_result \<Rightarrow> test_result" where
  "stamped t0 t1 r = (case stamp_test_elapsed t0 t1 (Some r) of Some r' \<Rightarrow> r' | None \<Rightarrow> r)"

lemma stamped_fields [simp]:
  "tr_test (stamped t0 t1 r) = tr_test r" "tr_category (stamped t0 t1 r) = tr_category r"
  "tr_target (stamped t0 t1 r) = tr_target r" "tr_verdict (stamped t0 t1 r) = tr_verdict r"
  "tr_method (stamped t0 t1 r) = tr_method r" "tr_confidence (stamped t0 t1 r) = tr_confidence r"
  "tr_rtt_ms (stamped t0 t1 r) = tr_rtt_ms r" "tr_notes (stamped t0 t1 r) = tr_notes r"
  "tr_attempts (stamped t0 t1 r) = tr_attempts r" "tr_evidence (stamped t0 t1 r) = tr_evidence r"
  by (simp_all add: stamped_def stamp_test_elapsed_def)

section \<open>Arithmetic on floats that may be infinite\<close>

fun pf_less :: "pyfloat \<Rightarrow> pyfloat \<Rightarrow> bool" where
  "pf_less (Fin a) (Fin b) = (a < b)"
| "pf_less NaN y = False"
| "pf_less x NaN = False"
| "pf_less PInf y = False"
| "pf_less x NInf = False"
| "pf_less NInf y = True"
| "pf_less x PInf = True"

definition pf_le :: "pyfloat \<Rightarrow> pyfloat \<Rightarrow> bool" where
  "pf_le x y \<longleftrightarrow> pf_less x y \<or> (x = y \<and> x \<noteq> NaN)"

definition pf_scale :: "pyfloat \<Rightarrow> rat \<Rightarrow> pyfloat" where
  "pf_scale x q = (case x of Fin a \<Rightarrow> to_float (a * q) | _ \<Rightarrow>
     if q = 0 then NaN else if 0 < q then x else (case x of PInf \<Rightarrow> NInf | NInf \<Rightarrow> PInf | _ \<Rightarrow> NaN))"

definition pf_round :: "nat \<Rightarrow> pyfloat \<Rightarrow> pyfloat" where
  "pf_round k x = (case x of Fin a \<Rightarrow> to_float (of_int (rhe (10 ^ k * a)) / 10 ^ k) | _ \<Rightarrow> x)"

text \<open>
  The first of the elements with the greatest key, as \<open>max\<close> picks it, and \<open>min\<close> of numbers.
\<close>

fun max_by :: "('a \<Rightarrow> 'k::linorder) \<Rightarrow> 'a \<Rightarrow> 'a list \<Rightarrow> 'a" where
  "max_by f best [] = best"
| "max_by f best (x # xs) = max_by f (if f best < f x then x else best) xs"

lemma max_by_in: "max_by f b xs \<in> insert b (set xs)"
  by (induction xs arbitrary: b) auto

lemma max_by_ge: "x \<in> insert b (set xs) \<Longrightarrow> f x \<le> f (max_by f b xs)"
proof (induction xs arbitrary: b x)
  case (Cons y xs)
  let ?c = "if f b < f y then y else b"
  have c: "f z \<le> f (max_by f ?c xs)" if "z \<in> insert ?c (set xs)" for z using Cons.IH that by blast
  have "f b \<le> f ?c" "f y \<le> f ?c" by auto
  then show ?case using Cons.prems c [of ?c] c [of x] by (auto intro: order.trans)
qed simp

definition min_list_opt :: "rat list \<Rightarrow> rat option" where
  "min_list_opt xs = (case xs of [] \<Rightarrow> None | x # r \<Rightarrow> Some (fold min r x))"

end
