(* ===== verification/DnsProbe.thy ===== *)
theory DnsProbe
  imports Probing
begin

text \<open>
  \<open>modules/dns.py\<close>: comparing the system resolver with trusted ones, the certificate check of
  the addresses it gave, and the wire format of DNS over TLS. What resolvers, servers and files
  answer is a \<open>dns_env\<close>; a list made from a set has the order of first occurrence here, and only
  goes to the evidence.
\<close>

section \<open>Resolvers\<close>

definition PUBLIC_RESOLVERS :: "(string \<times> string) list" where
  "PUBLIC_RESOLVERS = [(''google_1'', ''8.8.8.8''), (''google_2'', ''8.8.4.4''), (''cloudflare_1'', ''1.1.1.1''),
     (''yandex'', ''77.88.8.8''), (''quad9'', ''9.9.9.9'')]"

definition DOH_RESOLVERS :: "(string \<times> string) list" where
  "DOH_RESOLVERS = [(''cloudflare'', ''https://cloudflare-dns.com/dns-query''),
     (''google'', ''https://dns.google/resolve''), (''mozilla'', ''https://mozilla.cloudflare-dns.com/dns-query'')]"

definition DOT_RESOLVERS :: "(string \<times> string \<times> int) list" where
  "DOT_RESOLVERS = [(''cloudflare'', ''1.1.1.1'', 853), (''google'', ''8.8.8.8'', 853)]"

text \<open>What the resolver library does: an answer (with the record set's TTL) or one of its exceptions.\<close>

datatype resolution =
    Answered "string list" "int option"
  | NXDOMAIN | NoAnswer | DnsTimeout | NoNameservers
  | DnsError string

fun resolve_system_with_ttl :: "resolution \<Rightarrow> string list \<times> int option \<times> string" where
  "resolve_system_with_ttl (Answered ips ttl) = (ips, ttl, ''ok'')"
| "resolve_system_with_ttl NXDOMAIN = ([], None, ''nxdomain'')"
| "resolve_system_with_ttl NoAnswer = ([], None, ''noanswer'')"
| "resolve_system_with_ttl DnsTimeout = ([], None, ''timeout'')"
| "resolve_system_with_ttl NoNameservers = ([], None, ''servfail'')"
| "resolve_system_with_ttl (DnsError e) = ([], None, ''error:'' @ e)"

fun resolve_via :: "resolution \<Rightarrow> string list \<times> bool" where
  "resolve_via (Answered ips ttl) = (ips, False)"
| "resolve_via NXDOMAIN = ([], True)"
| "resolve_via _ = ([], False)"

text \<open>
  DNS over HTTPS. \<open>json_is_one\<close> is \<open>v == 1\<close>; \<open>None\<close> is an exception of the comprehension,
  which the caller suppresses.
\<close>

fun json_is_one :: "json \<Rightarrow> bool" where
  "json_is_one (JInt i) = (i = 1)"
| "json_is_one (JBool b) = b"
| "json_is_one (JFloat f) = (f = Fin 1)"
| "json_is_one _ = False"

fun answer_data :: "json list \<Rightarrow> json list option" where
  "answer_data [] = Some []"
| "answer_data (JObj ans # rest) =
     (if json_is_one (jget ans ''type'') then
        (case (dict_get ans ''data'', answer_data rest) of
           (Some d, Some ds) \<Rightarrow> Some (d # ds)
         | _ \<Rightarrow> None)
      else answer_data rest)"
| "answer_data (_ # rest) = None"

definition resolve_doh :: "string + http_reply \<Rightarrow> json list" where
  "resolve_doh r =
     (case r of
        Inl e \<Rightarrow> []
      | Inr (status_code, body) \<Rightarrow>
          if status_code \<noteq> 200 then []
          else (case body of
              Some (JObj data) \<Rightarrow>
                (case dict_get data ''Answer'' of
                   Some (JList answers) \<Rightarrow> (case answer_data answers of None \<Rightarrow> [] | Some ds \<Rightarrow> ds)
                 | _ \<Rightarrow> [])
            | _ \<Rightarrow> []))"

section \<open>DNS over TLS on the wire\<close>

type_synonym byte = "8 word"

definition bytes_of :: "string \<Rightarrow> byte list" where
  "bytes_of s = map of_char s"

definition u16 :: "nat \<Rightarrow> byte list" where
  "u16 n = [of_nat (n div 256), of_nat (n mod 256)]"

definition from_u16 :: "byte \<Rightarrow> byte \<Rightarrow> nat" where
  "from_u16 hi lo = 256 * unat hi + unat lo"

text \<open>\<open>None\<close>: a label of more than 255 characters does not fit \<open>bytes([len(p)])\<close>.\<close>

definition build_a_query :: "string \<Rightarrow> byte list option" where
  "build_a_query name =
     (let labels = split_on (CHR ''.'') (str_rstrip_char (CHR ''.'') name) in
      if list_ex (\<lambda>p. 255 < int (str_len p)) labels then None
      else Some (u16 1 @ u16 0x0100 @ u16 1 @ u16 0 @ u16 0 @ u16 0
        @ concat (map (\<lambda>p. of_nat (str_len p) # bytes_of p) labels) @ [0] @ u16 1 @ u16 1))"

function skip_labels :: "byte list \<Rightarrow> nat \<Rightarrow> nat" where
  "skip_labels data pos =
     (if pos < length data \<and> data ! pos \<noteq> 0 then skip_labels data (pos + unat (data ! pos) + 1) else pos)"
  by pat_completeness auto

termination by (relation "measure (\<lambda>(data, pos). length data - pos)") auto

declare skip_labels.simps [simp del]

definition skip_dns_qname :: "byte list \<Rightarrow> nat \<Rightarrow> nat" where
  "skip_dns_qname data pos =
     (if length data \<le> pos then pos
      else if and (data ! pos) 0xC0 = 0xC0 then pos + 2
      else skip_labels data pos + 1)"

definition ipv4_text :: "byte list \<Rightarrow> string" where
  "ipv4_text b = str_of_int (uint (b ! 0)) @ ''.'' @ str_of_int (uint (b ! 1)) @ ''.''
     @ str_of_int (uint (b ! 2)) @ ''.'' @ str_of_int (uint (b ! 3))"

fun answer_loop :: "nat \<Rightarrow> byte list \<Rightarrow> nat \<Rightarrow> string list" where
  "answer_loop 0 data pos = []"
| "answer_loop (Suc n) data pos =
     (if length data \<le> pos then []
      else let p = skip_dns_qname data pos in
        if length data < p + 10 then []
        else let rtype = from_u16 (data ! p) (data ! (p + 1));
                 rdlen = from_u16 (data ! (p + 8)) (data ! (p + 9)) in
          if rtype = 1 \<and> rdlen = 4 then
            (if length data < p + 14 then []
             else ipv4_text (take 4 (drop (p + 10) data)) # answer_loop n data (p + 10 + rdlen))
          else answer_loop n data (p + 10 + rdlen))"

definition parse_a_records :: "byte list \<Rightarrow> string list" where
  "parse_a_records data =
     (if length data < 12 then []
      else answer_loop (from_u16 (data ! 6) (data ! 7)) data (skip_dns_qname data 12 + 4))"

text \<open>
  One query: \<open>serve\<close> gives what arrives until the peer closes, \<open>None\<close> an exception. The
  receive loops take exactly the announced number of bytes, or what there is.
\<close>

definition dot_query_blocking :: "(byte list \<Rightarrow> byte list option) \<Rightarrow> byte list \<Rightarrow> string list" where
  "dot_query_blocking serve framed =
     (case serve framed of
        None \<Rightarrow> []
      | Some stream \<Rightarrow>
          if length stream < 2 then []
          else parse_a_records (take (from_u16 (stream ! 0) (stream ! 1)) (drop 2 stream)))"

definition resolve_dot :: "(byte list \<Rightarrow> byte list option) \<Rightarrow> string \<Rightarrow> string list" where
  "resolve_dot serve domain =
     (case build_a_query domain of
        None \<Rightarrow> []
      | Some query \<Rightarrow>
          if 65535 < int (length query) then [] else dot_query_blocking serve (u16 (length query) @ query))"

section \<open>Certificates\<close>

definition name_matches_with_apex :: "string \<Rightarrow> string \<Rightarrow> bool" where
  "name_matches_with_apex name target =
     (if name = target then True
      else if \<not> starts_with name ''*.'' then False
      else let wild_base = drop 2 name in
        if ends_with target (''.'' @ wild_base) \<and> count_list target (CHR ''.'') = count_list wild_base (CHR ''.'') + 1
        then True
        else wild_base = target)"

text \<open>The two fields of \<open>getpeercert()\<close> that are read; a value that is no string is \<open>None\<close>.\<close>

record peer_cert =
  ct_subject :: "(string \<times> string option) list list"
  ct_san :: "(string \<times> string) list"

definition subject_common_name :: "peer_cert \<Rightarrow> string option" where
  "subject_common_name cert =
     (case first_that (\<lambda>(key, value). key = ''commonName'') (concat (ct_subject cert)) of
        None \<Rightarrow> None
      | Some (key, value) \<Rightarrow> value)"

definition normal_name :: "string \<Rightarrow> string" where
  "normal_name s = str_rstrip_char (CHR ''.'') (str_lower s)"

definition cert_san_covers_domain_family :: "peer_cert \<Rightarrow> string \<Rightarrow> bool" where
  "cert_san_covers_domain_family cert domain =
     (let target = normal_name domain; dns_sans = filter (\<lambda>(kind, value). kind = ''DNS'') (ct_san cert) in
      if list_ex (\<lambda>(kind, value). name_matches_with_apex (normal_name value) target) dns_sans then True
      else if dns_sans \<noteq> [] then False
      else case subject_common_name cert of
          None \<Rightarrow> False
        | Some cn \<Rightarrow> name_matches_with_apex (normal_name cn) target)"

datatype tls_outcome = TlsVerified "peer_cert option" | TlsError | TlsOther

fun validate_cert :: "tls_outcome \<Rightarrow> string \<Rightarrow> bool option" where
  "validate_cert (TlsVerified None) domain = None"
| "validate_cert (TlsVerified (Some cert)) domain = Some (cert_san_covers_domain_family cert domain)"
| "validate_cert TlsError domain = Some False"
| "validate_cert TlsOther domain = None"

definition aggregate_cert_validity :: "(string \<Rightarrow> tls_outcome) \<Rightarrow> string \<Rightarrow> string list \<Rightarrow> bool option" where
  "aggregate_cert_validity tls domain sys_ips =
     (let cert_results = map (\<lambda>ip. validate_cert (tls ip) domain) sys_ips in
      if sys_ips = [] then None
      else if list_ex (\<lambda>r. r = Some False) cert_results then Some False
      else if list_all (\<lambda>r. r = Some True) cert_results then Some True
      else None)"

section \<open>The local resolver\<close>

definition LOCAL_STUB_ADDRESSES :: "string list" where
  "LOCAL_STUB_ADDRESSES = [''127.0.0.53'', ''127.0.0.54'', ''127.0.0.1'', ''::1'']"

fun first_nameserver :: "string list \<Rightarrow> string option" where
  "first_nameserver [] = None"
| "first_nameserver (raw # rest) =
     (let line = str_strip raw; parts = split_ws line in
      if starts_with line ''nameserver '' \<and> 2 \<le> length parts then Some (parts ! 1) else first_nameserver rest)"

definition parse_first_nameserver :: "string \<Rightarrow> string option" where
  "parse_first_nameserver content = first_nameserver (splitlines content)"

text \<open>The two files; \<open>None\<close> when one cannot be read.\<close>

definition get_isp_resolver :: "string option \<Rightarrow> string option \<Rightarrow> string option" where
  "get_isp_resolver resolv_conf systemd_conf =
     (let primary = Option.bind resolv_conf parse_first_nameserver;
          upstream = Option.bind systemd_conf parse_first_nameserver
      in case primary of
          Some p \<Rightarrow> if p \<notin> set LOCAL_STUB_ADDRESSES then Some p
            else (case upstream of Some u \<Rightarrow> Some u | None \<Rightarrow> Some p)
        | None \<Rightarrow> upstream)"

definition dns_slug :: "string \<Rightarrow> string" where
  "dns_slug domain = str_lower (replace_char (CHR ''-'') (CHR ''_'') (replace_char (CHR ''.'') (CHR ''_'') domain))"

section \<open>Evidence about one domain\<close>

record resolver_evidence =
  ev_sys_ips :: "string list"
  ev_sys_ttl :: "int option"
  ev_sys_status :: string
  ev_public_results :: "(string, string list) dict"
  ev_public_nxdomain :: "(string, bool) dict"
  ev_doh_ips :: "json list"
  ev_per_resolver_sets :: "json list list"
  ev_isp_resolver :: "string option"
  ev_isp_ips :: "string list"
  ev_isp_nxdomain :: bool

record dns_env =
  dn_system :: "string \<Rightarrow> resolution"
  dn_via :: "string \<Rightarrow> string \<Rightarrow> resolution"
  dn_http :: "string \<Rightarrow> string \<Rightarrow> string + http_reply"  \<comment> \<open>URL, name; an exception's text\<close>
  dn_dot :: "string \<Rightarrow> byte list \<Rightarrow> byte list option"
  dn_tls :: "string \<Rightarrow> string \<Rightarrow> tls_outcome"  \<comment> \<open>domain, address\<close>
  dn_resolv_conf :: "string option"
  dn_systemd_conf :: "string option"
  dn_asn :: "string \<Rightarrow> http_reply option"
  dn_now :: "string \<Rightarrow> rat"  \<comment> \<open>the clock when the address is looked up\<close>
  dn_backoff_sec :: rat
  dn_repr :: "json \<Rightarrow> string"

definition sys_nxdomain :: "resolver_evidence \<Rightarrow> bool" where
  "sys_nxdomain ev \<longleftrightarrow> ev_sys_status ev = ''nxdomain''"

definition sys_error :: "resolver_evidence \<Rightarrow> string option" where
  "sys_error ev = (if ev_sys_status ev \<in> {''ok'', ''nxdomain''} then None else Some (ev_sys_status ev))"

fun hashable :: "json \<Rightarrow> bool" where
  "hashable (JList _) = False"
| "hashable (JObj _) = False"
| "hashable _ = True"

text \<open>\<open>None\<close>: \<open>set(ips)\<close> raised on an answer that is a list or an object.\<close>

definition gather_resolver_evidence :: "dns_env \<Rightarrow> string \<Rightarrow> resolver_evidence option" where
  "gather_resolver_evidence E domain =
     (let (sys_ips, sys_ttl, sys_status) = resolve_system_with_ttl (dn_system E domain);
          public = map (\<lambda>(rname, rip). (rname, resolve_via (dn_via E rip domain))) PUBLIC_RESOLVERS;
          answers = map (\<lambda>(rname, url). resolve_doh (dn_http E url domain)) DOH_RESOLVERS
            @ map (\<lambda>(rname, h, port). map JStr (resolve_dot (dn_dot E h) domain)) DOT_RESOLVERS;
          isp_resolver = get_isp_resolver (dn_resolv_conf E) (dn_systemd_conf E);
          (isp_ips, isp_nxdomain) = (case isp_resolver of
             None \<Rightarrow> ([], False) | Some ip \<Rightarrow> resolve_via (dn_via E ip domain))
      in if list_all (list_all hashable) answers then Some
           \<lparr>ev_sys_ips = sys_ips, ev_sys_ttl = sys_ttl, ev_sys_status = sys_status,
            ev_public_results = map (\<lambda>(n, ips, nx). (n, ips)) public,
            ev_public_nxdomain = map (\<lambda>(n, ips, nx). (n, nx)) public,
            ev_doh_ips = remdups (concat answers), ev_per_resolver_sets = filter (\<lambda>ips. ips \<noteq> []) answers,
            ev_isp_resolver = isp_resolver, ev_isp_ips = isp_ips, ev_isp_nxdomain = isp_nxdomain\<rparr>
         else None)"

definition public_json :: "resolver_evidence \<Rightarrow> json" where
  "public_json ev = JObj (map (\<lambda>(n, ips). (n, json_strs ips)) (ev_public_results ev))"

definition build_nxdomain_result :: "string \<Rightarrow> resolver_evidence \<Rightarrow> test_result" where
  "build_nxdomain_result domain ev =
     (let public_has_answer = list_ex (\<lambda>(n, ips). ips \<noteq> []) (ev_public_results ev);
          common = [(''system_nxdomain'', JBool True), (''doh_ips'', JList (ev_doh_ips ev)),
            (''public_resolver_ips'', public_json ev),
            (''public_resolver_nxdomain'', JObj (map (\<lambda>(n, b). (n, JBool b)) (ev_public_nxdomain ev))),
            (''isp_resolver'', json_str_opt (ev_isp_resolver ev)), (''isp_ips'', json_strs (ev_isp_ips ev)),
            (''isp_nxdomain'', JBool (ev_isp_nxdomain ev))];
          test = ''dns_'' @ dns_slug domain @ ''_system''
      in if ev_doh_ips ev \<noteq> [] \<or> public_has_answer then
           (TestResult_new test ''dns'' domain BLOCKED)
             \<lparr>tr_method := Some DNS_BLOCKED_NXDOMAIN, tr_evidence := common, tr_confidence := fl (9 / 10)\<rparr>
         else (TestResult_new test ''dns'' domain INCONCLUSIVE)
             \<lparr>tr_method := Some DNS_BLOCKED_NXDOMAIN, tr_evidence := common, tr_confidence := 1 / 2,
              tr_notes := Some (''NXDOMAIN from all resolvers including DoH '' @ em_dash @ '' domain may not exist.'')\<rparr>)"

definition decide_dns_verdict ::
    "bool option \<Rightarrow> bool \<Rightarrow> bool \<Rightarrow> bool \<Rightarrow> verdict \<times> blocking_method option \<times> rat" where
  "decide_dns_verdict cert_valid ip_overlap has_doh has_sys =
     (if cert_valid = Some False then
        (if ip_overlap then (ANOMALY, None, fl (6 / 10))
         else if \<not> has_doh then (ANOMALY, None, fl (4 / 10))
         else (BLOCKED, Some DNS_POISONING, fl (9 / 10)))
      else if cert_valid = Some True then (OK, None, fl (9 / 10))
      else if ip_overlap then (OK, None, 1 / 2)
      else if has_doh \<and> has_sys then (INCONCLUSIVE, None, fl (3 / 10))
      else (INCONCLUSIVE, None, fl (2 / 10)))"

section \<open>The network of an address, with its cache\<close>

record asn_state =
  as_cache :: "(string, string option) dict"
  as_backoff_until :: rat

definition asn_of_body :: "(json \<Rightarrow> string) \<Rightarrow> json option \<Rightarrow> string option" where
  "asn_of_body rp body =
     (case body of
        Some (JObj data) \<Rightarrow>
          (case jor (jget data ''asn'') (JObj []) of
             JObj block \<Rightarrow> if truthy (jget block ''asn'') then Some (''AS'' @ str_of_json rp (jget block ''asn'')) else None
           | _ \<Rightarrow> None)
      | _ \<Rightarrow> None)"

definition ip_to_asn :: "dns_env \<Rightarrow> asn_state \<Rightarrow> string \<Rightarrow> string option \<times> asn_state" where
  "ip_to_asn E st ip =
     (case dict_get (as_cache st) ip of
        Some hit \<Rightarrow> (hit, st)
      | None \<Rightarrow>
          if dn_now E ip < as_backoff_until st then (None, st)
          else let remember = (\<lambda>asn. (asn, st\<lparr>as_cache := dict_set ip asn (as_cache st)\<rparr>)) in
            (case dn_asn E ip of
               None \<Rightarrow> remember None
             | Some (status_code, body) \<Rightarrow>
                 if status_code = 429 then (None, st\<lparr>as_backoff_until := fadd (dn_now E ip) (dn_backoff_sec E)\<rparr>)
                 else if status_code = 200 then remember (asn_of_body (dn_repr E) body)
                 else remember None))"

section \<open>The module\<close>

definition test_doh_accessibility :: "dns_env \<Rightarrow> test_result list" where
  "test_doh_accessibility E = map (\<lambda>(name, url).
     (case dn_http E url ''example.com'' of
        Inr (status_code, _) \<Rightarrow>
          (TestResult_new (''doh_access_'' @ name) ''dns'' url (if status_code = 200 then OK else ANOMALY))
            \<lparr>tr_evidence := [(''status_code'', JInt status_code)]\<rparr>
      | Inl e \<Rightarrow> (TestResult_new (''doh_access_'' @ name) ''dns'' url BLOCKED)
            \<lparr>tr_method := Some DOH_BLOCKED, tr_evidence := [(''error'', JStr e)]\<rparr>)) DOH_RESOLVERS"

definition ip_overlap :: "resolver_evidence \<Rightarrow> bool" where
  "ip_overlap ev \<longleftrightarrow> list_ex (\<lambda>ips. list_ex (\<lambda>ip. JStr ip \<in> set ips) (ev_sys_ips ev)) (ev_per_resolver_sets ev)"

definition test_domain :: "dns_env \<Rightarrow> asn_state \<Rightarrow> string \<Rightarrow> (test_result \<times> asn_state) option" where
  "test_domain E st domain =
     (case gather_resolver_evidence E domain of
        None \<Rightarrow> None
      | Some ev \<Rightarrow>
          if sys_nxdomain ev then Some (build_nxdomain_result domain ev, st)
          else if sys_error ev \<noteq> None \<and> ev_sys_ips ev = [] then
            Some ((TestResult_new (''dns_'' @ dns_slug domain @ ''_system'') ''dns'' domain INCONCLUSIVE)
              \<lparr>tr_evidence := [(''system_error'', json_str_opt (sys_error ev)), (''doh_ips'', JList (ev_doh_ips ev)),
                  (''public_resolver_ips'', public_json ev), (''isp_resolver'', json_str_opt (ev_isp_resolver ev))],
               tr_confidence := fl (2 / 10)\<rparr>, st)
          else
            let (resolved_asn, st') = (case ev_sys_ips ev of [] \<Rightarrow> (None, st) | ip # _ \<Rightarrow> ip_to_asn E st ip);
                cert_valid = aggregate_cert_validity (dn_tls E domain) domain (ev_sys_ips ev);
                (verdict, meth, confidence) = decide_dns_verdict cert_valid (ip_overlap ev)
                  (ev_doh_ips ev \<noteq> []) (ev_sys_ips ev \<noteq> [])
            in Some ((TestResult_new (''dns_'' @ dns_slug domain @ ''_system'') ''dns'' domain verdict)
              \<lparr>tr_method := meth,
               tr_evidence := [(''system_ips'', json_strs (ev_sys_ips ev)),
                 (''system_ttl'', (case ev_sys_ttl ev of None \<Rightarrow> JNull | Some t \<Rightarrow> JInt t)),
                 (''isp_ips'', json_strs (ev_isp_ips ev)), (''doh_ips'', JList (ev_doh_ips ev)),
                 (''resolved_asn'', json_str_opt resolved_asn),
                 (''cert_valid'', (case cert_valid of None \<Rightarrow> JNull | Some b \<Rightarrow> JBool b)),
                 (''ip_overlap_with_doh'', JBool (ip_overlap ev)),
                 (''isp_resolver'', json_str_opt (ev_isp_resolver ev)), (''public_resolver_ips'', public_json ev)],
               tr_confidence := confidence\<rparr>, st'))"

fun test_domains :: "dns_env \<Rightarrow> asn_state \<Rightarrow> string list \<Rightarrow> (test_result list \<times> asn_state) option" where
  "test_domains E st [] = Some ([], st)"
| "test_domains E st (d # ds) =
     (case test_domain E st d of
        None \<Rightarrow> None
      | Some (r, st') \<Rightarrow> map_option (\<lambda>(rs, st''). (r # rs, st'')) (test_domains E st' ds))"

text \<open>\<open>None\<close>: an exception ends the module.\<close>

definition run_dns_tests :: "dns_env \<Rightarrow> asn_state \<Rightarrow> string list \<Rightarrow> (test_result list \<times> asn_state) option" where
  "run_dns_tests E st domains =
     map_option (\<lambda>(rs, st'). (test_doh_accessibility E @ rs, st')) (test_domains E st domains)"

section \<open>What a verdict needs\<close>

lemma decide_ANOMALY: "fst (decide_dns_verdict c ov doh sys) = ANOMALY \<longleftrightarrow> c = Some False \<and> (ov \<or> \<not> doh)"
  by (auto simp: decide_dns_verdict_def)

text \<open>A handshake that failed is no hindrance to an OK, nor are resolvers that disagree.\<close>

lemma ok_without_certificate_or_consensus:
  "fst (decide_dns_verdict None True doh sys) = OK" "fst (decide_dns_verdict (Some True) False doh sys) = OK"
  by (simp_all add: decide_dns_verdict_def)

lemma decide_BLOCKED:
  "fst (decide_dns_verdict c ov has_doh has_sys) = BLOCKED \<longleftrightarrow> c = Some False \<and> \<not> ov \<and> has_doh"
  by (auto simp: decide_dns_verdict_def)

lemma decide_OK:
  "fst (decide_dns_verdict c ov has_doh has_sys) = OK \<longleftrightarrow> c = Some True \<or> (c = None \<and> ov)"
  by (cases c) (auto simp: decide_dns_verdict_def)

lemma aggregate_False:
  "aggregate_cert_validity tls d ips = Some False \<longleftrightarrow> (\<exists>ip \<in> set ips. validate_cert (tls ip) d = Some False)"
  by (force simp: aggregate_cert_validity_def Let_def list_ex_iff)

lemma aggregate_True:
  "aggregate_cert_validity tls d ips = Some True \<longleftrightarrow> ips \<noteq> [] \<and> (\<forall>ip \<in> set ips. validate_cert (tls ip) d = Some True)"
  by (auto simp: aggregate_cert_validity_def Let_def list_ex_iff list_all_iff)

lemma verdict_of_nxdomain:
  "tr_verdict (build_nxdomain_result d ev) =
     (if ev_doh_ips ev \<noteq> [] \<or> (\<exists>(n, ips) \<in> set (ev_public_results ev). ips \<noteq> []) then BLOCKED else INCONCLUSIVE)"
  by (auto simp: build_nxdomain_result_def Let_def list_ex_iff)

text \<open>
  C35. A DNS verdict of blocking has its evidence: a domain is reported BLOCKED exactly when the
  system resolver denies that it exists although a trusted one has an address, or when some
  address the system resolver gave presents a certificate that is not the domain's,
  DNS over HTTPS does have addresses, and no trusted resolver confirms an address of the system's. It is
  reported ANOMALY exactly when a certificate is refuted without the rest of that, and OK exactly when
  every address presents the right certificate (whatever the other resolvers answer), or none was
  refuted and a trusted resolver confirms one of them. The last case is the comment of
  \<open>_decide_dns_verdict\<close>, not the header of the module, which asks a valid certificate and consistent
  resolvers of every OK and calls a failed handshake INCONCLUSIVE.
\<close>

theorem dns_verdict_evidence:
  assumes "gather_resolver_evidence E d = Some ev" "test_domain E st d = Some (r, st')"
  shows "(tr_verdict r = BLOCKED \<longleftrightarrow>
      sys_nxdomain ev \<and> (ev_doh_ips ev \<noteq> [] \<or> (\<exists>(n, ips) \<in> set (ev_public_results ev). ips \<noteq> []))
      \<or> \<not> sys_nxdomain ev \<and> (\<exists>ip \<in> set (ev_sys_ips ev). validate_cert (dn_tls E d ip) d = Some False)
          \<and> ev_doh_ips ev \<noteq> [] \<and> \<not> ip_overlap ev)
    \<and> (tr_verdict r = OK \<longleftrightarrow> \<not> sys_nxdomain ev \<and> ev_sys_ips ev \<noteq> [] \<and>
        ((\<forall>ip \<in> set (ev_sys_ips ev). validate_cert (dn_tls E d ip) d = Some True)
         \<or> (\<forall>ip \<in> set (ev_sys_ips ev). validate_cert (dn_tls E d ip) d \<noteq> Some False) \<and> ip_overlap ev))
    \<and> (tr_verdict r = ANOMALY \<longleftrightarrow> \<not> sys_nxdomain ev
        \<and> (\<exists>ip \<in> set (ev_sys_ips ev). validate_cert (dn_tls E d ip) d = Some False) \<and> (ev_doh_ips ev = [] \<or> ip_overlap ev))"
proof (cases "sys_nxdomain ev")
  case True
  then have "r = build_nxdomain_result d ev" using assms by (simp add: test_domain_def)
  then show ?thesis using True by (auto simp: verdict_of_nxdomain)
next
  case nx: False
  let ?c = "aggregate_cert_validity (dn_tls E d) d (ev_sys_ips ev)"
  let ?v = "fst (decide_dns_verdict ?c (ip_overlap ev) (ev_doh_ips ev \<noteq> []) (ev_sys_ips ev \<noteq> []))"
  have empty: "ev_sys_ips ev = [] \<Longrightarrow> ?c = None \<and> \<not> ip_overlap ev"
    by (simp add: aggregate_cert_validity_def ip_overlap_def list_ex_iff)
  have v: "tr_verdict r = (if sys_error ev \<noteq> None \<and> ev_sys_ips ev = [] then INCONCLUSIVE else ?v)"
    using assms nx by (auto simp: test_domain_def Let_def split: prod.splits if_splits)
  have none: "?c = None \<longleftrightarrow> ?c \<noteq> Some True \<and> ?c \<noteq> Some False" by (cases ?c) auto
  show ?thesis
  proof (cases "ev_sys_ips ev = []")
    case True
    then have "tr_verdict r \<noteq> BLOCKED \<and> tr_verdict r \<noteq> OK \<and> tr_verdict r \<noteq> ANOMALY"
      unfolding v using empty decide_BLOCKED decide_OK decide_ANOMALY by simp
    then show ?thesis using nx True by simp
  next
    case False
    then have "tr_verdict r = ?v" unfolding v by simp
    then show ?thesis using nx False
      by (simp add: decide_BLOCKED decide_OK decide_ANOMALY none aggregate_False aggregate_True) blast
  qed
qed

definition demo_env :: dns_env where
  "demo_env = \<lparr>dn_system = (\<lambda>d. Answered [''10.0.0.1''] None), dn_via = (\<lambda>ip d. Answered [''5.6.7.8''] None),
     dn_http = (\<lambda>url d. Inr (200, Some (JObj [(''Answer'', JList [JObj [(''type'', JInt 1), (''data'', JStr ''5.6.7.8'')]])]))),
     dn_dot = (\<lambda>h q. None), dn_tls = (\<lambda>d ip. TlsError), dn_resolv_conf = None, dn_systemd_conf = None,
     dn_asn = (\<lambda>ip. None), dn_now = (\<lambda>ip. 0), dn_backoff_sec = 90, dn_repr = (\<lambda>v. [])\<rparr>"

definition demo_asn :: asn_state where "demo_asn = \<lparr>as_cache = [], as_backoff_until = 0\<rparr>"

lemma test_domain_total: "gather_resolver_evidence E d = Some ev \<Longrightarrow> \<exists>r st'. test_domain E st d = Some (r, st')"
  by (auto simp: test_domain_def Let_def split: prod.split)

theorem dns_verdict_evidence_witness:
  "\<exists>r st'. test_domain demo_env demo_asn ''a.b'' = Some (r, st') \<and> tr_verdict r = BLOCKED"
proof -
  let ?g = "gather_resolver_evidence demo_env ''a.b''"
  have facts: "?g \<noteq> None" "ev_sys_ips (the ?g) = [''10.0.0.1'']" "\<not> sys_nxdomain (the ?g)" "ev_doh_ips (the ?g) \<noteq> []"
    "\<not> ip_overlap (the ?g)" by code_simp+
  then have g: "?g = Some (the ?g)" by simp
  obtain r st' where r: "test_domain demo_env demo_asn ''a.b'' = Some (r, st')"
    using test_domain_total [OF g] by blast
  have "validate_cert (dn_tls demo_env ''a.b'' ''10.0.0.1'') ''a.b'' = Some False" by (simp add: demo_env_def)
  then show ?thesis using dns_verdict_evidence [OF g r] facts r by auto
qed

section \<open>The wire format\<close>

text \<open>A name in a message: labels of at most 63 octets, or a pointer.\<close>

datatype wire_name = Labels "byte list list" | Pointer byte byte

fun name_ok :: "wire_name \<Rightarrow> bool" where
  "name_ok (Labels ls) = list_all (\<lambda>l. 0 < length l \<and> length l \<le> 63) ls"
| "name_ok (Pointer hi lo) = (and hi 0xC0 = 0xC0)"

definition label_bytes :: "byte list \<Rightarrow> byte list" where
  "label_bytes l = of_nat (length l) # l"

fun encode_name :: "wire_name \<Rightarrow> byte list" where
  "encode_name (Labels ls) = concat (map label_bytes ls) @ [0]"
| "encode_name (Pointer hi lo) = [hi, lo]"

record answer =
  an_name :: wire_name
  an_type :: nat
  an_class_ttl :: "byte list"
  an_data :: "byte list"

definition answer_ok :: "answer \<Rightarrow> bool" where
  "answer_ok a \<longleftrightarrow> name_ok (an_name a) \<and> an_type a < 65536 \<and> length (an_class_ttl a) = 6 \<and> length (an_data a) < 65536"

definition encode_answer :: "answer \<Rightarrow> byte list" where
  "encode_answer a = encode_name (an_name a) @ u16 (an_type a) @ an_class_ttl a @ u16 (length (an_data a)) @ an_data a"

lemma from_u16_u16: "n < 65536 \<Longrightarrow> from_u16 (u16 n ! 0) (u16 n ! 1) = n"
  by (simp add: u16_def from_u16_def unat_of_nat)

lemma length_u16 [simp]: "length (u16 n) = 2" by (simp add: u16_def)

lemma unat_small: "n \<le> 63 \<Longrightarrow> unat (of_nat n :: byte) = n"
  by (simp add: unat_of_nat)

text \<open>A length octet of at most 63 is not the start of a pointer.\<close>

lemma length_octet:
  assumes "0 < n" "n \<le> 63"
  shows "(of_nat n :: byte) \<noteq> 0" "and (of_nat n :: byte) 0xC0 = 0"
proof -
  show "(of_nat n :: byte) \<noteq> 0" using unat_small [OF assms(2)] assms(1) by auto
  have "list_all (\<lambda>n. and (of_nat n :: byte) 0xC0 = 0) [0..<64]" by code_simp
  then show "and (of_nat n :: byte) 0xC0 = 0" using assms(2) by (simp add: list_all_iff)
qed

lemma skip_labels_encoded:
  "list_all (\<lambda>l. 0 < length l \<and> length l \<le> 63) ls \<Longrightarrow>
     skip_labels (pre @ concat (map label_bytes ls) @ 0 # rest) (length pre) = length pre + length (concat (map label_bytes ls))"
proof (induction ls arbitrary: pre)
  case Nil
  then show ?case by (simp add: skip_labels.simps)
next
  case (Cons l ls)
  then have l: "0 < length l" "length l \<le> 63" by auto
  have "skip_labels (pre @ concat (map label_bytes (l # ls)) @ 0 # rest) (length pre) =
      skip_labels ((pre @ label_bytes l) @ concat (map label_bytes ls) @ 0 # rest) (length (pre @ label_bytes l))"
    using length_octet(1) [OF l] unat_small [OF l(2)]
    by (subst skip_labels.simps) (simp add: label_bytes_def nth_append add.commute)
  then show ?case using Cons.IH [of "pre @ label_bytes l"] Cons.prems by simp
qed

lemma skip_encoded_name:
  assumes "name_ok n"
  shows "skip_dns_qname (pre @ encode_name n @ rest) (length pre) = length pre + length (encode_name n)"
proof (cases n)
  case (Pointer hi lo)
  then show ?thesis using assms by (simp add: skip_dns_qname_def)
next
  case (Labels ls)
  then have ok: "list_all (\<lambda>l. 0 < length l \<and> length l \<le> 63) ls" using assms by simp
  have "and ((pre @ encode_name n @ rest) ! length pre) 0xC0 \<noteq> 0xC0"
  proof (cases ls)
    case Nil
    then show ?thesis by (simp add: Labels)
  next
    case (Cons l ls')
    then show ?thesis using length_octet(2) [of "length l"] ok by (simp add: Labels label_bytes_def)
  qed
  then show ?thesis using skip_labels_encoded [OF ok, of pre rest] by (simp add: skip_dns_qname_def Labels)
qed

lemma nth_after: "(pre @ xs) ! (length pre + i) = xs ! i"
  by (simp add: nth_append)

lemma answer_loop_encoded:
  "list_all answer_ok as \<Longrightarrow>
     answer_loop (length as) (pre @ concat (map encode_answer as)) (length pre) =
       map (\<lambda>a. ipv4_text (an_data a)) (filter (\<lambda>a. an_type a = 1 \<and> length (an_data a) = 4) as)"
proof (induction as arbitrary: pre)
  case (Cons a as)
  define tail where "tail = concat (map encode_answer as)"
  define data where "data = pre @ concat (map encode_answer (a # as))"
  define p where "p = length pre + length (encode_name (an_name a))"
  have ok: "answer_ok a" using Cons.prems by simp
  then have len: "length (an_class_ttl a) = 6" "an_type a < 65536" "length (an_data a) < 65536" "name_ok (an_name a)"
    by (auto simp: answer_ok_def)
  let ?fields = "u16 (an_type a) @ an_class_ttl a @ u16 (length (an_data a)) @ an_data a @ tail"
  have d1: "data = (pre @ encode_name (an_name a)) @ ?fields"
    by (simp add: data_def encode_answer_def tail_def)
  have skip: "skip_dns_qname data (length pre) = p"
    using skip_encoded_name [OF len(4), of pre ?fields] by (simp add: d1 p_def)
  have at: "data ! (p + i) = ?fields ! i" for i
    unfolding d1 p_def using nth_after [of "pre @ encode_name (an_name a)" ?fields i] by simp
  have rtype: "from_u16 (data ! p) (data ! (p + 1)) = an_type a"
    using at [of 0] at [of 1] from_u16_u16 [OF len(2)] by (simp add: nth_append)
  have rdlen: "from_u16 (data ! (p + 8)) (data ! (p + 9)) = length (an_data a)"
    using at [of 8] at [of 9] from_u16_u16 [OF len(3)] by (simp add: nth_append len(1))
  have long: "p + 10 + length (an_data a) + length tail = length data"
    by (simp add: d1 p_def len(1))
  have body: "drop (p + 10) data = an_data a @ tail"
    unfolding d1 p_def by (simp add: len(1))
  have nonempty: "\<not> length data \<le> length pre" using long by (simp add: p_def)
  have rest: "answer_loop (length as) data (p + 10 + length (an_data a)) =
      map (\<lambda>a. ipv4_text (an_data a)) (filter (\<lambda>a. an_type a = 1 \<and> length (an_data a) = 4) as)"
  proof -
    have "data = (pre @ encode_answer a) @ tail" "p + 10 + length (an_data a) = length (pre @ encode_answer a)"
      by (simp_all add: data_def tail_def p_def encode_answer_def len(1))
    then show ?thesis using Cons.IH [of "pre @ encode_answer a"] Cons.prems by (simp add: tail_def)
  qed
  have step: "answer_loop (length (a # as)) data (length pre) =
      (if an_type a = 1 \<and> length (an_data a) = 4 then [ipv4_text (an_data a)] else []) @
      answer_loop (length as) data (p + 10 + length (an_data a))"
    using nonempty long body by (simp add: Let_def skip rtype [simplified] rdlen)
  show ?case unfolding data_def [symmetric] step rest by simp
qed simp

text \<open>
  C36. A DNS reply is read back exactly: of a message with one question and any answers whose
  names are plain labels or pointers, in any number up to 65535 and with data of any length,
  \<open>parse_a_records\<close> returns the addresses of exactly the A records, in their order.
\<close>

theorem dns_reply_round_trip:
  assumes "length header = 12" "from_u16 (header ! 6) (header ! 7) = length as" "name_ok qname" "length qtail = 4"
    "list_all answer_ok as"
  shows "parse_a_records (header @ encode_name qname @ qtail @ concat (map encode_answer as)) =
    map (\<lambda>a. ipv4_text (an_data a)) (filter (\<lambda>a. an_type a = 1 \<and> length (an_data a) = 4) as)"
proof -
  let ?q = "header @ encode_name qname @ qtail" and ?as = "concat (map encode_answer as)"
  have "skip_dns_qname (header @ encode_name qname @ qtail @ ?as) 12 + 4 = length ?q"
    using skip_encoded_name [OF assms(3), of header "qtail @ ?as"] assms(1,4) by simp
  then show ?thesis
    using answer_loop_encoded [OF assms(5), of ?q] assms(1,2)
    by (simp add: parse_a_records_def nth_append)
qed

lemma ipv4_text_demo: "ipv4_text [1, 2, 3, 4] = ''1.2.3.4''"
proof -
  have "str_of_int 1 = ''1''" "str_of_int 2 = ''2''" "str_of_int 3 = ''3''" "str_of_int 4 = ''4''" by code_simp+
  then show ?thesis by (simp add: ipv4_text_def)
qed

theorem dns_reply_round_trip_witness:
  "parse_a_records (replicate 7 0 @ [2] @ replicate 4 0 @ encode_name (Labels [[97]]) @ [0, 1, 0, 1]
     @ concat (map encode_answer
         [\<lparr>an_name = Pointer 0xC0 12, an_type = 5, an_class_ttl = replicate 6 0, an_data = [0]\<rparr>,
          \<lparr>an_name = Labels [[97]], an_type = 1, an_class_ttl = replicate 6 0, an_data = [1, 2, 3, 4]\<rparr>])) = [''1.2.3.4'']"
proof -
  let ?h = "replicate 7 0 @ [2] @ replicate 4 0 :: byte list"
  let ?as = "[\<lparr>an_name = Pointer 0xC0 12, an_type = 5, an_class_ttl = replicate 6 0, an_data = [0]\<rparr>,
          \<lparr>an_name = Labels [[97]], an_type = 1, an_class_ttl = replicate 6 0, an_data = [1, 2, 3, 4]\<rparr>]"
  have "length ?h = 12" "from_u16 (?h ! 6) (?h ! 7) = length ?as" by (simp_all add: from_u16_def nth_append)
  moreover have "name_ok (Labels [[97]])" "length ([0, 1, 0, 1] :: byte list) = 4" "list_all answer_ok ?as"
    by (simp_all add: answer_ok_def)
  ultimately have "parse_a_records (?h @ encode_name (Labels [[97]]) @ [0, 1, 0, 1] @ concat (map encode_answer ?as)) =
      map (\<lambda>a. ipv4_text (an_data a)) (filter (\<lambda>a. an_type a = 1 \<and> length (an_data a) = 4) ?as)"
    by (rule dns_reply_round_trip)
  then show ?thesis using ipv4_text_demo by simp
qed

text \<open>
  A name whose labels end in a pointer is skipped wrongly: the pointer is taken for a label of
  192 octets, so the record after it is lost.
\<close>

lemma partly_compressed_name:
  "skip_dns_qname [1, 97, 0xC0, 12, 0, 1] 0 = 196"
  by (simp add: skip_dns_qname_def skip_labels.simps)

end
