(* ===== verification/Urls.thy ===== *)
theory Urls
  imports PyText
begin

text \<open>
  \<open>urllib.parse\<close>, as far as the probes use it: \<open>urlparse\<close>, the host name of the result and
  \<open>urlunparse\<close>. \<open>None\<close> is the \<open>ValueError\<close> of a host with one bracket; the check that a bracketed
  host is an address, and the one on non-ASCII hosts, are arguments (\<open>host_check\<close>).
\<close>

record parsed_url =
  pu_scheme :: string
  pu_netloc :: string
  pu_path :: string
  pu_params :: string
  pu_query :: string
  pu_fragment :: string

definition is_c0_or_space :: "char \<Rightarrow> bool" where
  "is_c0_or_space c \<longleftrightarrow> (of_char c :: int) \<le> 32"

definition is_alpha :: "char \<Rightarrow> bool" where
  "is_alpha c \<longleftrightarrow> is_upper c \<or> is_lower c"

definition scheme_char :: "char \<Rightarrow> bool" where
  "scheme_char c \<longleftrightarrow> is_alpha c \<or> is_digit c \<or> c \<in> {CHR ''+'', CHR ''-'', CHR ''.''}"

text \<open>\<open>s.split(c, 1)\<close> with the absent second part empty.\<close>

definition split_at :: "char \<Rightarrow> string \<Rightarrow> string \<times> string" where
  "split_at c s = str_partition [c] s"

definition split_scheme :: "string \<Rightarrow> string \<times> string" where
  "split_scheme url =
     (let s = takeWhile (\<lambda>c. c \<noteq> CHR '':'') url in
      if s \<noteq> [] \<and> s \<noteq> url \<and> is_alpha (hd s) \<and> list_all scheme_char s
      then (str_lower s, drop (length s + 1) url) else ([], url))"

definition split_netloc :: "string \<Rightarrow> string \<times> string" where
  "split_netloc url =
     (if starts_with url ''//'' then
        (let inside = (\<lambda>c. c \<noteq> CHR ''/'' \<and> c \<noteq> CHR ''?'' \<and> c \<noteq> CHR ''#'')
         in (takeWhile inside (drop 2 url), dropWhile inside (drop 2 url)))
      else ([], url))"

definition USES_PARAMS :: "string list" where
  "USES_PARAMS = [[], ''ftp'', ''hdl'', ''prospero'', ''http'', ''imap'', ''https'', ''shttp'', ''rtsp'', ''rtsps'', ''rtspu'',
     ''sip'', ''sips'', ''mms'', ''sftp'', ''tel'']"

definition USES_NETLOC :: "string list" where
  "USES_NETLOC = [[], ''ftp'', ''http'', ''gopher'', ''nntp'', ''telnet'', ''imap'', ''wais'', ''file'', ''mms'', ''https'',
     ''shttp'', ''snews'', ''prospero'', ''rtsp'', ''rtsps'', ''rtspu'', ''rsync'', ''svn'', ''svn+ssh'', ''sftp'', ''nfs'',
     ''git'', ''git+ssh'', ''ws'', ''wss'']"

text \<open>The parameters follow the first semicolon of the last segment.\<close>

definition split_params :: "string \<Rightarrow> string \<times> string" where
  "split_params path =
     (let segment = rev (takeWhile (\<lambda>c. c \<noteq> CHR ''/'') (rev path));
          front = take (length path - length segment) path;
          (kept, params) = split_at (CHR '';'') segment
      in (front @ kept, params))"

definition urlparse :: "(string \<Rightarrow> bool) \<Rightarrow> string \<Rightarrow> parsed_url option" where
  "urlparse host_check url0 =
     (let url1 = filter (\<lambda>c. c \<noteq> CHR 0x09 \<and> c \<noteq> CHR 0x0A \<and> c \<noteq> CHR 0x0D) (dropWhile is_c0_or_space url0);
          (scheme, url2) = split_scheme url1;
          (netloc, url3) = split_netloc url2;
          (url4, fragment) = split_at (CHR ''#'') url3;
          (url5, query) = split_at (CHR ''?'') url4;
          (path, params) = (if scheme \<in> set USES_PARAMS then split_params url5 else (url5, []))
      in if (CHR ''['' \<in> set netloc) \<noteq> (CHR '']'' \<in> set netloc) \<or> \<not> host_check netloc then None
         else Some \<lparr>pu_scheme = scheme, pu_netloc = netloc, pu_path = path, pu_params = params,
                    pu_query = query, pu_fragment = fragment\<rparr>)"

text \<open>The host: what follows the last \<open>@\<close>, without brackets and port, in lower case up to a zone.\<close>

definition hostinfo :: "string \<Rightarrow> string" where
  "hostinfo netloc = rev (takeWhile (\<lambda>c. c \<noteq> CHR ''@'') (rev netloc))"

definition url_hostname :: "parsed_url \<Rightarrow> string option" where
  "url_hostname p =
     (let info = hostinfo (pu_netloc p);
          host = (if CHR ''['' \<in> set info then fst (split_at (CHR '']'') (snd (split_at (CHR ''['') info)))
                  else fst (split_at (CHR '':'') info));
          zone_at = takeWhile (\<lambda>c. c \<noteq> CHR ''%'') host
      in if host = [] then None else Some (str_lower zone_at @ drop (length zone_at) host))"

definition urlunparse :: "parsed_url \<Rightarrow> string" where
  "urlunparse p =
     (let url1 = (if pu_params p \<noteq> [] then pu_path p @ '';'' @ pu_params p else pu_path p);
          url2 = (if pu_netloc p \<noteq> [] \<or> (pu_scheme p \<noteq> [] \<and> pu_scheme p \<in> set USES_NETLOC) \<or> starts_with url1 ''//''
                  then ''//'' @ pu_netloc p @ (if url1 \<noteq> [] \<and> hd url1 \<noteq> CHR ''/'' then ''/'' @ url1 else url1)
                  else url1);
          url3 = (if pu_scheme p \<noteq> [] then pu_scheme p @ '':'' @ url2 else url2);
          url4 = (if pu_query p \<noteq> [] then url3 @ ''?'' @ pu_query p else url3)
      in if pu_fragment p \<noteq> [] then url4 @ ''#'' @ pu_fragment p else url4)"

section \<open>Plain web addresses\<close>

text \<open>
  Text in which none of the delimiters, blanks or control characters occurs, and addresses made
  of it: \<open>https://host/path\<close>. They are parsed into the parts they were made of and put together
  again unchanged.
\<close>

definition plain_char :: "char \<Rightarrow> bool" where
  "plain_char c \<longleftrightarrow> \<not> is_c0_or_space c \<and> c \<notin> set '':/?#[]@;%''"

definition plain :: "string \<Rightarrow> bool" where
  "plain s \<longleftrightarrow> list_all plain_char s"

definition web_url :: "string \<Rightarrow> string \<Rightarrow> string" where
  "web_url host file = ''https://'' @ host @ ''/'' @ file"

lemma plain_simps [simp]: "plain []" "plain (c # s) \<longleftrightarrow> plain_char c \<and> plain s"
  by (simp_all add: plain_def)

lemma plain_mem: "plain s \<Longrightarrow> c \<in> set s \<Longrightarrow> plain_char c"
  by (simp add: plain_def list_all_iff)

lemma split_at_absent: "c \<notin> set s \<Longrightarrow> split_at c s = (s, [])"
proof -
  assume c: "c \<notin> set s"
  have "partition_aux [c] acc s = None" for acc
    using c by (induction s arbitrary: acc) (auto simp: starts_with_def)
  then show ?thesis by (simp add: split_at_def str_partition_def)
qed

lemma takeWhile_plain:
  assumes "plain s" "\<And>c. plain_char c \<Longrightarrow> P c" "\<not> P d"
  shows "takeWhile P (s @ d # r) = s" "dropWhile P (s @ d # r) = d # r"
  using assms by (induction s) auto

lemma plain_not: "plain s \<Longrightarrow> \<not> plain_char c \<Longrightarrow> c \<notin> set s"
  using plain_mem by blast

lemma plain_char_no_space: "plain_char c \<Longrightarrow> c \<noteq> CHR 0x09 \<and> c \<noteq> CHR 0x0A \<and> c \<noteq> CHR 0x0D"
proof -
  have "is_c0_or_space (CHR 0x09)" "is_c0_or_space (CHR 0x0A)" "is_c0_or_space (CHR 0x0D)" by code_simp+
  then show "plain_char c \<Longrightarrow> ?thesis" unfolding plain_char_def by blast
qed

lemma strip_web_url:
  assumes "plain host" "plain file"
  shows "filter (\<lambda>c. c \<noteq> CHR 0x09 \<and> c \<noteq> CHR 0x0A \<and> c \<noteq> CHR 0x0D) (dropWhile is_c0_or_space (web_url host file))
    = web_url host file"
proof -
  have "dropWhile is_c0_or_space (web_url host file) = web_url host file"
    by (simp add: web_url_def is_c0_or_space_def)
  moreover have "c \<in> set (web_url host file) \<Longrightarrow> c \<noteq> CHR 0x09 \<and> c \<noteq> CHR 0x0A \<and> c \<noteq> CHR 0x0D" for c
    using plain_mem [OF assms(1), of c] plain_mem [OF assms(2), of c] plain_char_no_space [of c]
    unfolding web_url_def by auto
  ultimately show ?thesis by (simp add: filter_id_conv)
qed

lemma split_params_absent:
  assumes "CHR '';'' \<notin> set p"
  shows "split_params p = (p, [])"
proof -
  let ?Q = "\<lambda>c. c \<noteq> CHR ''/''"
  have p: "rev (dropWhile ?Q (rev p)) @ rev (takeWhile ?Q (rev p)) = p"
    by (metis rev_append rev_rev_ident takeWhile_dropWhile_id)
  have "CHR '';'' \<notin> set (rev (takeWhile ?Q (rev p)))" using assms by (auto dest: set_takeWhileD)
  moreover have "take (length p - length (rev (takeWhile ?Q (rev p)))) p = rev (dropWhile ?Q (rev p))"
    by (metis append_eq_conv_conj length_append diff_add_inverse2 p)
  ultimately show ?thesis using p by (simp add: split_params_def split_at_absent)
qed

lemma urlparse_web:
  assumes "plain host" "plain file" "host_check host"
  shows "urlparse host_check (web_url host file) = Some \<lparr>pu_scheme = ''https'', pu_netloc = host, pu_path = ''/'' @ file,
     pu_params = [], pu_query = [], pu_fragment = []\<rparr>"
proof -
  have "split_scheme (web_url host file) = (''https'', ''//'' @ host @ CHR ''/'' # file)"
    by (simp add: split_scheme_def web_url_def is_alpha_def scheme_char_def is_lower_def str_lower_def lower_char_def is_upper_def)
  moreover have "split_netloc (''//'' @ host @ CHR ''/'' # file) = (host, CHR ''/'' # file)"
    using takeWhile_plain [OF assms(1), where P = "\<lambda>c. c \<noteq> CHR ''/'' \<and> c \<noteq> CHR ''?'' \<and> c \<noteq> CHR ''#''" and d = "CHR ''/''"]
    by (simp add: split_netloc_def starts_with_def plain_char_def)
  moreover have "c \<notin> set (CHR ''/'' # file)" if "c \<in> {CHR ''#'', CHR ''?'', CHR '';''}" for c
    using that plain_not [OF assms(2), of c] by (auto simp: plain_char_def)
  moreover from this have "split_params (CHR ''/'' # file) = (CHR ''/'' # file, [])"
    by (intro split_params_absent) simp
  moreover have "CHR ''['' \<notin> set host" "CHR '']'' \<notin> set host"
    by (rule plain_not [OF assms(1)], simp add: plain_char_def)+
  ultimately show ?thesis
    unfolding urlparse_def Let_def strip_web_url [OF assms(1,2)]
    using assms(3) by (simp add: split_at_absent USES_PARAMS_def)
qed

end
