(* ===== verification/TcpProbe.thy ===== *)
theory TcpProbe
  imports Probing "HOL-Library.Product_Lexorder" "HOL-Library.Multiset"
begin

text \<open>
  The TCP module (\<^verbatim>\<open>modules/tcp.py\<close>): how one attempt is classified, the vote over the repeats, and
  the gate that keeps the reset heuristic inside censoring vantages. What a connection does and
  the readings of the clock are arguments; the module's semaphore only delays.
\<close>

section \<open>One attempt\<close>

text \<open>
  How \<open>open_connection\<close> ends: the kernel's statistics of a connected socket, a timeout, a
  refusal, another \<open>OSError\<close> with its message, any other exception; and the clock at the start of
  the attempt and when it ended.
\<close>

datatype connect_end =
    Connected "(nat \<Rightarrow> 8 word list option) option"
  | ConnectTimeout
  | ConnectRefused
  | ConnectOsError string
  | ConnectOther

type_synonym attempt_outcome = "verdict \<times> blocking_method option"

definition reset_or_refused :: "tcp_module \<Rightarrow> rat \<Rightarrow> attempt_outcome" where
  "reset_or_refused cfg elapsed_ms =
     (BLOCKED, Some (if elapsed_ms < of_int (tm_fast_rst_threshold_ms cfg) then TCP_RST_INJECTION else TCP_REFUSED))"

definition single_tcp_attempt :: "tcp_module \<Rightarrow> rat \<Rightarrow> connect_end \<Rightarrow> rat \<Rightarrow> attempt_outcome \<times> int option" where
  "single_tcp_attempt cfg t0 ending t1 =
     (let elapsed_ms = fmul (fsub t1 t0) 1000 in
      case ending of
        Connected sock \<Rightarrow> ((OK, None), read_kernel_rtt_us sock)
      | ConnectTimeout \<Rightarrow> ((BLOCKED, Some IP_DROPPED), None)
      | ConnectRefused \<Rightarrow> (reset_or_refused cfg elapsed_ms, None)
      | ConnectOsError msg \<Rightarrow>
          (let err_str = str_lower msg in
           if str_contains err_str ''reset'' \<or> str_contains err_str ''refused''
           then (reset_or_refused cfg elapsed_ms, None) else ((ERROR, None), None))
      | ConnectOther \<Rightarrow> ((ERROR, None), None))"

section \<open>The vote\<close>

definition VERDICT_SEVERITY :: "(verdict \<times> int) list" where
  "VERDICT_SEVERITY = [(BLOCKED, 0), (THROTTLED, 1), (ANOMALY, 2), (HANDSHAKE_ONLY, 3), (ERROR, 4),
     (SERVER_REFUSED, 5), (INCONCLUSIVE, 6), (OK, 7)]"

definition severity :: "verdict \<Rightarrow> int" where
  "severity v = dict_default VERDICT_SEVERITY v 99"

lemma severity_simps:
  "severity BLOCKED = 0" "severity THROTTLED = 1" "severity ANOMALY = 2" "severity HANDSHAKE_ONLY = 3"
  "severity ERROR = 4" "severity SERVER_REFUSED = 5" "severity INCONCLUSIVE = 6" "severity OK = 7"
  by code_simp+

lemma severity_inject: "severity v = severity w \<longleftrightarrow> v = w"
proof (rule injD [of severity, THEN iffI])
  show "inj severity" by (rule injI, rename_tac x y, case_tac x; case_tac y; simp only: severity_simps; simp)
qed simp_all

text \<open>The verdicts, ordered from the most conservative one.\<close>

instantiation verdict :: linorder
begin

definition less_eq_verdict :: "verdict \<Rightarrow> verdict \<Rightarrow> bool" where
  "less_eq_verdict v w \<longleftrightarrow> severity v \<le> severity w"

definition less_verdict :: "verdict \<Rightarrow> verdict \<Rightarrow> bool" where
  "less_verdict v w \<longleftrightarrow> severity v < severity w"

instance
  by standard (simp_all add: less_eq_verdict_def less_verdict_def severity_inject linear less_le_not_le)

end

text \<open>The counter dictionary, in the order of first occurrence, and its best entry.\<close>

definition count_outcomes :: "attempt_outcome list \<Rightarrow> (attempt_outcome, int) dict" where
  "count_outcomes outcomes = foldl (\<lambda>counts x. dict_set x (dict_default counts x 0 + 1) counts) [] outcomes"

definition majority :: "attempt_outcome list \<Rightarrow> attempt_outcome" where
  "majority outcomes =
     (case count_outcomes outcomes of
        [] \<Rightarrow> (INCONCLUSIVE, None)
      | item # items \<Rightarrow> fst (max_by (\<lambda>item. (snd item, - severity (fst (fst item)))) item items))"

declare severity_inject [simp]

lemma count_outcomes_snoc:
  "count_outcomes (xs @ [x]) = dict_set x (dict_default (count_outcomes xs) x 0 + 1) (count_outcomes xs)"
  by (simp add: count_outcomes_def)

lemma dict_get_count_outcomes:
  "dict_get (count_outcomes xs) x = (if x \<in> set xs then Some (int (count_list xs x)) else None)"
proof (induction xs rule: rev_induct)
  case Nil
  then show ?case by (simp add: count_outcomes_def)
next
  case (snoc y ys)
  then show ?case by (auto simp: count_outcomes_snoc dict_default_def count_list_0_iff)
qed

lemma dict_ok_count_outcomes: "dict_ok (count_outcomes xs)"
  by (induction xs rule: rev_induct) (simp_all add: count_outcomes_snoc, simp add: count_outcomes_def)

lemma in_count_outcomes: "(x, n) \<in> set (count_outcomes xs) \<longleftrightarrow> x \<in> set xs \<and> n = int (count_list xs x)"
proof
  assume "(x, n) \<in> set (count_outcomes xs)"
  then show "x \<in> set xs \<and> n = int (count_list xs x)"
    using dict_get_in [OF dict_ok_count_outcomes] dict_get_count_outcomes [of xs x] by (simp split: if_splits)
next
  assume "x \<in> set xs \<and> n = int (count_list xs x)"
  then show "(x, n) \<in> set (count_outcomes xs)"
    using dict_get_count_outcomes [of xs x] by (intro dict_get_SomeD) simp
qed

lemma majority_best:
  assumes "xs \<noteq> []"
  shows "majority xs \<in> set xs"
    and "x \<in> set xs \<Longrightarrow> (int (count_list xs x), - severity (fst x))
           \<le> (int (count_list xs (majority xs)), - severity (fst (majority xs)))"
proof -
  let ?key = "\<lambda>item. (snd item, - severity (fst (fst item)))"
  obtain z where z: "z \<in> set xs" using assms by (cases xs) auto
  then have "count_outcomes xs \<noteq> []" using in_count_outcomes [of z "int (count_list xs z)" xs] by auto
  then obtain a r where ar: "count_outcomes xs = a # r" by (cases "count_outcomes xs") auto
  define b where "b = max_by ?key a r"
  have m: "majority xs = fst b" by (simp add: majority_def ar b_def)
  have "b \<in> set (count_outcomes xs)" using max_by_in [of ?key a r] by (simp add: ar b_def)
  then have b: "fst b \<in> set xs \<and> snd b = int (count_list xs (fst b))"
    using in_count_outcomes [of "fst b" "snd b" xs] by simp
  show "majority xs \<in> set xs" using b m by simp
  show "(int (count_list xs x), - severity (fst x)) \<le> (int (count_list xs (majority xs)), - severity (fst (majority xs)))"
    if "x \<in> set xs"
  proof -
    have "(x, int (count_list xs x)) \<in> insert a (set r)"
      using that in_count_outcomes [of x "int (count_list xs x)" xs] ar by simp
    from max_by_ge [OF this, of ?key] show ?thesis using b by (simp add: m b_def [symmetric])
  qed
qed

text \<open>
  C33. The vote over the attempts: the outcome reported is one of the most frequent ones, and
  among those its verdict is the most conservative. The verdict depends on how often each outcome
  occurred, not on the order of the attempts.
\<close>

theorem majority_is_conservative:
  assumes "outcomes \<noteq> []"
  shows "majority outcomes \<in> set outcomes
    \<and> (\<forall>x \<in> set outcomes. count_list outcomes x \<le> count_list outcomes (majority outcomes)
         \<and> (count_list outcomes x = count_list outcomes (majority outcomes) \<longrightarrow> fst (majority outcomes) \<le> fst x))
    \<and> (\<forall>reordered. mset reordered = mset outcomes \<longrightarrow> fst (majority reordered) = fst (majority outcomes))"
proof (intro conjI ballI allI impI)
  show "majority outcomes \<in> set outcomes" using majority_best(1) [OF assms] .
  fix x assume x: "x \<in> set outcomes"
  note best = majority_best(2) [OF assms x]
  show "count_list outcomes x \<le> count_list outcomes (majority outcomes)" using best by auto
  show "fst (majority outcomes) \<le> fst x" if "count_list outcomes x = count_list outcomes (majority outcomes)"
    using best that by (simp add: less_eq_verdict_def)
next
  fix reordered assume re: "mset reordered = mset outcomes"
  then have same: "set reordered = set outcomes" "count_list reordered = count_list outcomes" "reordered \<noteq> []"
    using assms mset_eq_setD [OF re] by (auto simp: fun_eq_iff simp flip: count_mset)
  let ?a = "majority outcomes" and ?b = "majority reordered"
  have "(int (count_list outcomes ?b), - severity (fst ?b)) \<le> (int (count_list outcomes ?a), - severity (fst ?a))"
    using majority_best(2) [OF assms] majority_best(1) [OF same(3)] same(1) by simp
  moreover have "(int (count_list outcomes ?a), - severity (fst ?a)) \<le> (int (count_list outcomes ?b), - severity (fst ?b))"
    using majority_best(2) [OF same(3)] majority_best(1) [OF assms] same(1,2) by simp
  ultimately show "fst ?b = fst ?a" by auto
qed

theorem majority_is_conservative_witness:
  "majority [(OK, None), (BLOCKED, Some IP_DROPPED), (OK, None), (BLOCKED, Some IP_DROPPED)] = (BLOCKED, Some IP_DROPPED)
   \<and> fst (majority [(BLOCKED, Some IP_DROPPED), (OK, None), (BLOCKED, Some IP_DROPPED), (OK, None)]) = BLOCKED"
proof -
  let ?xs = "[(OK, None), (BLOCKED, Some IP_DROPPED), (OK, None), (BLOCKED, Some IP_DROPPED)]"
  have m: "majority ?xs = (BLOCKED, Some IP_DROPPED)" by code_simp
  show ?thesis using majority_is_conservative [of ?xs] m by simp
qed

text \<open>
  The method does depend on the order: a reset within the threshold and one beyond it, once each,
  have the same verdict and count, and the earlier one is reported.
\<close>

lemma majority_method_depends_on_order:
  "majority [(BLOCKED, Some TCP_RST_INJECTION), (BLOCKED, Some TCP_REFUSED)]
   \<noteq> majority [(BLOCKED, Some TCP_REFUSED), (BLOCKED, Some TCP_RST_INJECTION)]"
  by code_simp

section \<open>The test of one address\<close>

text \<open>
  The attempts of one target: how each ended, with the clock before the call, at its start, at its
  end and after it. \<open>range(repeats)\<close> is empty for a count that is not positive.
\<close>

record tcp_attempt =
  ta_before :: rat
  ta_t0 :: rat
  ta_ending :: connect_end
  ta_t1 :: rat
  ta_after :: rat

definition attempt_outcome_of :: "tcp_module \<Rightarrow> tcp_attempt \<Rightarrow> attempt_outcome \<times> int option" where
  "attempt_outcome_of cfg a = single_tcp_attempt cfg (ta_t0 a) (ta_ending a) (ta_t1 a)"

definition wallclock_ms :: "tcp_attempt \<Rightarrow> rat" where
  "wallclock_ms a = fmul (fsub (ta_after a) (ta_before a)) 1000"

definition rtt_of :: "tcp_module \<Rightarrow> tcp_attempt \<Rightarrow> rat" where
  "rtt_of cfg a = (case snd (attempt_outcome_of cfg a) of
     Some kernel_rtt_us \<Rightarrow> fdiv (of_int kernel_rtt_us) 1000 | None \<Rightarrow> wallclock_ms a)"

definition tcp_slug :: "string \<Rightarrow> string" where
  "tcp_slug ip = replace_char (CHR '':'') (CHR ''_'') (replace_char (CHR ''.'') (CHR ''_'') ip)"

definition heuristic_note :: "tcp_module \<Rightarrow> string" where
  "heuristic_note cfg = ''SUSPICION (heuristic, not confirmed): RST arrived within ''
     @ str_of_int (tm_fast_rst_threshold_ms cfg) @ '' ms of SYN, which is consistent ''
     @ ''with an in-path injector but also occurs naturally on ''
     @ ''same-AS / same-DC paths. No TTL-delta verification was ''
     @ ''performed; treat as a lead, not a verdict.''"

definition heuristic_disclaimer :: string where
  "heuristic_disclaimer = ''Fast-RST timing heuristic only '' @ em_dash @ '' same-AS / same-DC peers ''
     @ ''can produce sub-threshold REFUSED that this rule ''
     @ ''misclassifies. Confirm with an out-of-band TTL-delta ''
     @ ''capture before treating as evidence of TSPU injection.''"

definition tcp_evidence :: "tcp_module \<Rightarrow> tcp_attempt list \<Rightarrow> bool \<Rightarrow> (string, json) dict" where
  "tcp_evidence cfg attempts is_heuristic_rst =
     (let outcomes = map (fst \<circ> attempt_outcome_of cfg) attempts in
      [(''all_verdicts'', json_strs (map (verdict_str \<circ> fst) outcomes)),
       (''all_methods'', JList (map (json_str_opt \<circ> map_option method_str \<circ> snd) outcomes)),
       (''rtts_ms'', JList (map (JFloat \<circ> Fin \<circ> rtt_of cfg) attempts)),
       (''wallclock_rtts_ms'', JList (map (JFloat \<circ> Fin \<circ> wallclock_ms) attempts)),
       (''rst_detection'', JStr ''rtt_heuristic_no_scapy'')]
      @ (if is_heuristic_rst then
           [(''signal'', JStr ''suspicion''), (''heuristic'', JStr ''rst_timing_only''),
            (''heuristic_threshold_ms'', JInt (tm_fast_rst_threshold_ms cfg)),
            (''disclaimer'', JStr heuristic_disclaimer)] else []))"

text \<open>The vantage is asked only when the vote says reset injection; asking it can fail.\<close>

definition test_tcp :: "config_error + bool \<Rightarrow> tcp_module \<Rightarrow> int \<Rightarrow> rat \<Rightarrow> rat \<Rightarrow> (nat \<Rightarrow> tcp_attempt) \<Rightarrow> string \<Rightarrow> int
    \<Rightarrow> config_error + test_result" where
  "test_tcp censoring cfg repeats start finish attempt ip port =
     (let attempts = map attempt [0..<nat repeats];
          (final_verdict, voted_method) = majority (map (fst \<circ> attempt_outcome_of cfg) attempts)
      in bindE (if voted_method = Some TCP_RST_INJECTION
                then bindE censoring (\<lambda>c. Inr (if c then voted_method else Some TCP_REFUSED))
                else Inr voted_method) (\<lambda>final_method.
        let is_heuristic_rst = (final_method = Some TCP_RST_INJECTION) in
        Inr (stamped start finish
          ((TestResult_new (''tcp_'' @ tcp_slug ip @ ''_'' @ str_of_int port) ''tcp'' (ip @ '':'' @ str_of_int port) final_verdict)
             \<lparr>tr_method := final_method, tr_rtt_ms := min_list_opt (map (rtt_of cfg) attempts), tr_attempts := repeats,
              tr_confidence := if is_heuristic_rst then 1 / 2 else 1,
              tr_notes := if is_heuristic_rst then Some (heuristic_note cfg) else None,
              tr_evidence := tcp_evidence cfg attempts is_heuristic_rst\<rparr>))))"

record tcp_env =
  te_start :: "string \<times> int \<Rightarrow> rat"
  te_finish :: "string \<times> int \<Rightarrow> rat"
  te_attempt :: "string \<times> int \<Rightarrow> nat \<Rightarrow> tcp_attempt"

fun gather :: "('a \<Rightarrow> 'e + 'b) \<Rightarrow> 'a list \<Rightarrow> 'e + 'b list" where
  "gather f [] = Inr []"
| "gather f (x # xs) = bindE (f x) (\<lambda>y. bindE (gather f xs) (\<lambda>ys. Inr (y # ys)))"

definition run_tcp_tests :: "censprobe_config option \<Rightarrow> string option \<Rightarrow> tcp_env \<Rightarrow> (string \<times> int) list \<Rightarrow> int
    \<Rightarrow> config_error + test_result list" where
  "run_tcp_tests CONFIG VANTAGE E targets repeats =
     bindE (get_config CONFIG) (\<lambda>c. gather
       (\<lambda>t. test_tcp (is_censoring_vantage CONFIG VANTAGE) (mc_tcp (cc_modules c)) repeats (te_start E t) (te_finish E t)
              (te_attempt E t) (fst t) (snd t)) targets)"

section \<open>When reset injection is reported\<close>

lemma gather_Inr: "gather f xs = Inr ys \<longleftrightarrow> list_all2 (\<lambda>x y. f x = Inr y) xs ys"
  by (induction xs arbitrary: ys) (auto simp: bindE_Inr_iff list_all2_Cons1)

text \<open>An attempt that was reset or refused before the threshold.\<close>

definition fast_reset :: "tcp_module \<Rightarrow> tcp_attempt \<Rightarrow> bool" where
  "fast_reset cfg a \<longleftrightarrow> (case ta_ending a of
       ConnectRefused \<Rightarrow> True
     | ConnectOsError msg \<Rightarrow> str_contains (str_lower msg) ''reset'' \<or> str_contains (str_lower msg) ''refused''
     | _ \<Rightarrow> False)
   \<and> fmul (fsub (ta_t1 a) (ta_t0 a)) 1000 < of_int (tm_fast_rst_threshold_ms cfg)"

lemma attempt_reset:
  "fst (attempt_outcome_of cfg a) = (v, Some TCP_RST_INJECTION) \<longleftrightarrow> v = BLOCKED \<and> fast_reset cfg a"
  by (cases "ta_ending a")
    (auto simp: attempt_outcome_of_def single_tcp_attempt_def reset_or_refused_def fast_reset_def Let_def)

lemma test_tcp_fields:
  assumes "test_tcp censoring cfg repeats t0 t1 attempt ip port = Inr r"
    and vote: "vote = majority (map (fst \<circ> attempt_outcome_of cfg \<circ> attempt) [0..<nat repeats])"
  shows "tr_verdict r = fst vote" "tr_target r = ip @ '':'' @ str_of_int port"
    and "tr_method r = (if snd vote = Some TCP_RST_INJECTION \<and> censoring \<noteq> Inr True then Some TCP_REFUSED else snd vote)"
    and "tr_confidence r = (if tr_method r = Some TCP_RST_INJECTION then 1 / 2 else 1)"
    and "(tr_notes r \<noteq> None) = (tr_method r = Some TCP_RST_INJECTION)"
proof -
  have v: "majority (map (fst \<circ> attempt_outcome_of cfg) (map attempt [0..<nat repeats])) = (fst vote, snd vote)"
    by (simp add: vote comp_assoc)
  note facts = assms(1) [unfolded test_tcp_def Let_def v prod.case]
  show "tr_verdict r = fst vote" "tr_target r = ip @ '':'' @ str_of_int port"
    "tr_method r = (if snd vote = Some TCP_RST_INJECTION \<and> censoring \<noteq> Inr True then Some TCP_REFUSED else snd vote)"
    "tr_confidence r = (if tr_method r = Some TCP_RST_INJECTION then 1 / 2 else 1)"
    "(tr_notes r \<noteq> None) = (tr_method r = Some TCP_RST_INJECTION)"
    using facts by (auto simp: bindE_Inr_iff split: if_splits)
qed

text \<open>
  C34. Reset injection, the one TCP finding that is a guess, is reported of a target only from a
  censoring vantage and only when some attempt really ended in a reset or refusal before the
  threshold; it then has confidence one half and the note that says so, and no other result has.
  From any other vantage the method is a plain refusal. The verdict never depends on the vantage,
  and every target has its result, in order.
\<close>

theorem reset_injection_is_gated:
  assumes "get_config CONFIG = Inr c" "run_tcp_tests CONFIG VANTAGE E targets repeats = Inr results"
  shows "list_all2 (\<lambda>t r.
      tr_target r = fst t @ '':'' @ str_of_int (snd t)
      \<and> tr_verdict r = fst (majority (map (fst \<circ> attempt_outcome_of (mc_tcp (cc_modules c)) \<circ> te_attempt E t) [0..<nat repeats]))
      \<and> (tr_method r = Some TCP_RST_INJECTION \<longrightarrow> is_censoring_vantage CONFIG VANTAGE = Inr True
           \<and> (\<exists>i < nat repeats. fast_reset (mc_tcp (cc_modules c)) (te_attempt E t i)))
      \<and> tr_confidence r = (if tr_method r = Some TCP_RST_INJECTION then 1 / 2 else 1)
      \<and> (tr_notes r \<noteq> None) = (tr_method r = Some TCP_RST_INJECTION)) targets results"
proof -
  let ?cfg = "mc_tcp (cc_modules c)"
  have all: "list_all2 (\<lambda>t r. test_tcp (is_censoring_vantage CONFIG VANTAGE) ?cfg repeats (te_start E t) (te_finish E t)
      (te_attempt E t) (fst t) (snd t) = Inr r) targets results"
    using assms by (simp add: run_tcp_tests_def gather_Inr)
  show ?thesis
  proof (rule list_all2_mono [OF all], intro conjI impI)
    fix t r assume run: "test_tcp (is_censoring_vantage CONFIG VANTAGE) ?cfg repeats (te_start E t) (te_finish E t)
      (te_attempt E t) (fst t) (snd t) = Inr r"
    let ?os = "map (fst \<circ> attempt_outcome_of ?cfg \<circ> te_attempt E t) [0..<nat repeats]"
    note f = test_tcp_fields [OF run refl]
    show "tr_verdict r = fst (majority ?os)" "tr_target r = fst t @ '':'' @ str_of_int (snd t)"
      "tr_confidence r = (if tr_method r = Some TCP_RST_INJECTION then 1 / 2 else 1)"
      "(tr_notes r \<noteq> None) = (tr_method r = Some TCP_RST_INJECTION)" using f by simp_all
    assume rst: "tr_method r = Some TCP_RST_INJECTION"
    then have vote: "snd (majority ?os) = Some TCP_RST_INJECTION" and cens: "is_censoring_vantage CONFIG VANTAGE = Inr True"
      using f(3) by (auto split: if_splits)
    show "is_censoring_vantage CONFIG VANTAGE = Inr True" by (rule cens)
    have "?os \<noteq> []" using vote by (auto simp: majority_def count_outcomes_def split: list.splits)
    from majority_best(1) [OF this] obtain i where i: "i < nat repeats"
      and out: "majority ?os = fst (attempt_outcome_of ?cfg (te_attempt E t i))" by auto
    have "fst (attempt_outcome_of ?cfg (te_attempt E t i)) = (fst (majority ?os), Some TCP_RST_INJECTION)"
      using vote by (simp flip: out) (metis prod.collapse)
    then show "\<exists>i < nat repeats. fast_reset ?cfg (te_attempt E t i)" using i attempt_reset by blast
  qed
qed

definition demo_tcp_module :: tcp_module where
  "demo_tcp_module = \<lparr>mb_enabled = True, tm_repeats = 1, tm_syn_timeout_sec = 5, tm_fast_rst_threshold_ms = 5, tm_max_parallel = 4\<rparr>"

definition demo_tcp_env :: tcp_env where
  "demo_tcp_env = \<lparr>te_start = (\<lambda>_. 0), te_finish = (\<lambda>_. 1), te_attempt = (\<lambda>_ _.
     \<lparr>ta_before = 0, ta_t0 = 0, ta_ending = ConnectRefused, ta_t1 = 0, ta_after = 0\<rparr>)\<rparr>"

definition demo_tcp_config :: "censprobe_config \<Rightarrow> censprobe_config" where
  "demo_tcp_config c0 = (example_vantage None c0)\<lparr>cc_modules := (cc_modules c0)\<lparr>mc_tcp := demo_tcp_module\<rparr>\<rparr>"

theorem reset_injection_is_gated_witness:
  "\<forall>c0. \<exists>r. run_tcp_tests (Some (demo_tcp_config c0)) (Some ''RU'') demo_tcp_env [(''1.2.3.4'', 443)] 1 = Inr [r]
     \<and> tr_method r = Some TCP_RST_INJECTION \<and> tr_confidence r = 1 / 2 \<and> tr_notes r \<noteq> None"
proof
  fix c0
  let ?C = "Some (demo_tcp_config c0)" and ?a = "te_attempt demo_tcp_env (''1.2.3.4'', 443)"
  have get: "get_config ?C = Inr (demo_tcp_config c0)" by (simp add: get_config_def)
  have cfg: "mc_tcp (cc_modules (demo_tcp_config c0)) = demo_tcp_module" by (simp add: demo_tcp_config_def)
  have up: "str_upper ''RU'' = ''RU''" by code_simp
  have cens: "is_censoring_vantage ?C (Some ''RU'') = Inr True"
    by (simp add: is_censoring_vantage_def get_config_def demo_tcp_config_def example_vantage_def up)
  have "fst (attempt_outcome_of demo_tcp_module (?a 0)) = (BLOCKED, Some TCP_RST_INJECTION)"
    by (simp add: attempt_reset fast_reset_def demo_tcp_env_def demo_tcp_module_def fsub_def fmul_def)
  moreover have "majority [(BLOCKED, Some TCP_RST_INJECTION)] = (BLOCKED, Some TCP_RST_INJECTION)" by code_simp
  ultimately have vote: "majority (map (fst \<circ> attempt_outcome_of demo_tcp_module \<circ> ?a) [0..<nat 1])
      = (BLOCKED, Some TCP_RST_INJECTION)" by simp
  obtain r where t: "test_tcp (Inr True) demo_tcp_module 1 0 1 ?a ''1.2.3.4'' 443 = Inr r"
    using vote by (simp add: test_tcp_def Let_def comp_assoc del: One_nat_def)
  have "run_tcp_tests ?C (Some ''RU'') demo_tcp_env [(''1.2.3.4'', 443)] 1 = Inr [r]"
    using t by (simp add: run_tcp_tests_def get cens cfg) (simp add: demo_tcp_env_def)
  moreover have "tr_method r = Some TCP_RST_INJECTION" using test_tcp_fields(3) [OF t refl] vote by simp
  ultimately show "\<exists>r. run_tcp_tests ?C (Some ''RU'') demo_tcp_env [(''1.2.3.4'', 443)] 1 = Inr [r]
     \<and> tr_method r = Some TCP_RST_INJECTION \<and> tr_confidence r = 1 / 2 \<and> tr_notes r \<noteq> None"
    using reset_injection_is_gated [OF get] by fastforce
qed

end
