(* ===== verification/HttpProbe.thy ===== *)
theory HttpProbe
  imports Probing Urls Scoring Targets TcpProbe
begin

text \<open>
  The HTTP module (\<^verbatim>\<open>modules/http.py\<close>) and the middlebox module (\<^verbatim>\<open>modules/middlebox.py\<close>). What a
  request meets is an argument: the reply, or the exception of the HTTP client library; for raw
  sockets, the chunks received. Waiting times and the back-off between attempts are left out: they
  decide nothing.
\<close>

section \<open>One reply\<close>

definition verdict_from_response :: "int \<Rightarrow> bool \<Rightarrow> int option \<Rightarrow> verdict \<times> blocking_method option" where
  "verdict_from_response status tls_ok expected_status =
     (if status \<in> {403, 429, 451} \<and> tls_ok then (SERVER_REFUSED, None)
      else case expected_status of
          Some e \<Rightarrow> if status = e then (OK, None) else (ANOMALY, None)
        | None \<Rightarrow> if status = 200 then (OK, None) else (ANOMALY, None))"

record http_response =
  hr_status :: int
  hr_final_url :: string
  hr_content_type :: string
  hr_chunks :: "nat list"

text \<open>The length read: chunks are added until the cap is reached.\<close>

fun body_read :: "int \<Rightarrow> int \<Rightarrow> nat list \<Rightarrow> int" where
  "body_read cap len [] = len"
| "body_read cap len (c # cs) = (if cap \<le> len + int c then len + int c else body_read cap (len + int c) cs)"

text \<open>
  \<open>ConnectFailed e ssl_cause\<close>: \<open>httpx.ConnectError\<close>, its text and whether its cause is an SSL error.
\<close>

datatype fetch_end =
    Response http_response
  | ConnectFailed py_exc bool
  | ConnectTimedOut
  | FetchError string

definition target_domain :: "(string, json) dict \<Rightarrow> string \<Rightarrow> string" where
  "target_domain t url = (case dict_get t ''domain'' of Some (JStr d) \<Rightarrow> d | _ \<Rightarrow> url)"

definition target_expected :: "(string, json) dict \<Rightarrow> int option" where
  "target_expected t = (case dict_get t ''expected_status'' of Some (JInt e) \<Rightarrow> Some e | _ \<Rightarrow> None)"

definition target_urls :: "(string, json) dict \<Rightarrow> string list" where
  "target_urls t = (case dict_get t ''urls'' of
     Some (JList us) \<Rightarrow> map (\<lambda>u. case u of JStr s \<Rightarrow> s | _ \<Rightarrow> []) us | _ \<Rightarrow> [])"

text \<open>The URL was parsed once already when the test got its name, so parsing does not fail here.\<close>

definition url_is_https :: "(string \<Rightarrow> bool) \<Rightarrow> string \<Rightarrow> bool" where
  "url_is_https host_check url = (case urlparse host_check url of None \<Rightarrow> False | Some p \<Rightarrow> pu_scheme p = ''https'')"

definition attempt_url :: "(string \<Rightarrow> bool) \<Rightarrow> string \<Rightarrow> (string, json) dict \<Rightarrow> int \<Rightarrow> string \<Rightarrow> int \<Rightarrow> http_response \<Rightarrow> test_result" where
  "attempt_url host_check url t body_cap test_name attempt r =
     (let tls_ok = url_is_https host_check url;
          (verdict, meth) = verdict_from_response (hr_status r) tls_ok (target_expected t)
      in (TestResult_new test_name ''http'' url verdict)
           \<lparr>tr_method := meth, tr_attempts := attempt,
            tr_evidence := [(''status'', JInt (hr_status r)), (''body_length'', JInt (body_read body_cap 0 (hr_chunks r))),
              (''tls_ok'', JBool tls_ok), (''final_url'', JStr (hr_final_url r)), (''content_type'', JStr (hr_content_type r))],
            tr_confidence := if verdict = OK then 1 else fl (9 / 10)\<rparr>)"

section \<open>Failures and retries\<close>

definition classify_connect_error :: "py_exc \<Rightarrow> bool \<Rightarrow> string \<Rightarrow> string \<Rightarrow> int \<Rightarrow> test_result" where
  "classify_connect_error e ssl_cause url test_name attempt =
     (let err_text = describe_exception e; err_msg = str_lower err_text;
          blocked = (\<lambda>m key. (TestResult_new test_name ''http'' url BLOCKED)
            \<lparr>tr_method := Some m, tr_attempts := attempt, tr_evidence := [(key, JStr err_text)]\<rparr>)
      in if ssl_cause \<or> str_contains err_msg ''ssl'' \<or> str_contains err_msg ''certificate''
         then blocked TLS_HANDSHAKE_FAILURE ''ssl_error''
         else if str_contains err_msg ''connection reset'' then blocked TCP_RST_INJECTION ''error''
         else blocked IP_DROPPED ''connect_error'')"

definition timeout_result :: "string \<Rightarrow> string \<Rightarrow> int \<Rightarrow> test_result" where
  "timeout_result test_name url attempts = (TestResult_new test_name ''http'' url BLOCKED)
     \<lparr>tr_method := Some IP_DROPPED, tr_attempts := attempts,
      tr_evidence := [(''reason'', JStr ''connect_timeout_after_retries'')]\<rparr>"

text \<open>One round of the retry loop: a result that is returned, or one that is kept as the last error.\<close>

definition fetch_round :: "(string \<Rightarrow> bool) \<Rightarrow> string \<Rightarrow> (string, json) dict \<Rightarrow> int \<Rightarrow> string \<Rightarrow> int \<Rightarrow> fetch_end
    \<Rightarrow> test_result + test_result" where
  "fetch_round host_check url t body_cap test_name attempt ending =
     (case ending of
        Response r \<Rightarrow> Inr (attempt_url host_check url t body_cap test_name attempt r)
      | ConnectFailed e ssl_cause \<Rightarrow>
          (let classified = classify_connect_error e ssl_cause url test_name attempt in
           if tr_method classified \<noteq> Some IP_DROPPED then Inr classified else Inl classified)
      | ConnectTimedOut \<Rightarrow> Inl (timeout_result test_name url attempt)
      | FetchError msg \<Rightarrow> Inl ((TestResult_new test_name ''http'' url ERROR)
          \<lparr>tr_attempts := attempt, tr_evidence := [(''error'', JStr msg)]\<rparr>))"

fun fetch_loop :: "(int \<Rightarrow> test_result + test_result) \<Rightarrow> test_result option \<Rightarrow> int list \<Rightarrow> test_result option" where
  "fetch_loop f last_error [] = last_error"
| "fetch_loop f last_error (attempt # rest) =
     (case f attempt of Inr r \<Rightarrow> Some r | Inl err \<Rightarrow> fetch_loop f (Some err) rest)"

definition http_slug :: "string \<Rightarrow> string" where
  "http_slug s = str_lower (replace_char (CHR ''/'') (CHR ''_'') (replace_char (CHR ''-'') (CHR ''_'')
     (replace_char (CHR ''.'') (CHR ''_'') s)))"

definition http_test_name :: "(string \<Rightarrow> bool) \<Rightarrow> (string \<Rightarrow> string) \<Rightarrow> string \<Rightarrow> string \<Rightarrow> string option" where
  "http_test_name host_check sha1_hex domain url =
     (let base = ''http_'' @ http_slug domain in
      case urlparse host_check url of
        None \<Rightarrow> None
      | Some parsed \<Rightarrow>
          (if pu_scheme parsed = ''https'' \<and> url_hostname parsed = Some domain \<and> pu_path parsed \<in> {[], ''/''}
              \<and> pu_query parsed = [] \<and> pu_fragment parsed = []
           then Some base else Some (base @ ''__'' @ take 6 (sha1_hex url))))"

definition test_url :: "(string \<Rightarrow> bool) \<Rightarrow> (string \<Rightarrow> string) \<Rightarrow> (string \<Rightarrow> int \<Rightarrow> fetch_end) \<Rightarrow> int \<Rightarrow> int
    \<Rightarrow> (string, json) dict \<times> string \<Rightarrow> unit + test_result" where
  "test_url host_check sha1_hex fetch repeats body_cap = (\<lambda>(t, url).
     (case http_test_name host_check sha1_hex (target_domain t url) url of
        None \<Rightarrow> Inl ()
      | Some test_name \<Rightarrow> Inr
          (case fetch_loop (\<lambda>attempt. fetch_round host_check url t body_cap test_name attempt (fetch url attempt)) None
                  [1..repeats] of
             Some r \<Rightarrow> r | None \<Rightarrow> timeout_result test_name url repeats)))"

definition run_http_tests :: "(string \<Rightarrow> bool) \<Rightarrow> (string \<Rightarrow> string) \<Rightarrow> (string \<Rightarrow> int \<Rightarrow> fetch_end) \<Rightarrow> int
    \<Rightarrow> (string, json) dict list \<Rightarrow> int \<Rightarrow> unit + test_result list" where
  "run_http_tests host_check sha1_hex fetch body_cap targets repeats =
     gather (test_url host_check sha1_hex fetch repeats body_cap)
       (concat (map (\<lambda>t. map (\<lambda>url. (t, url)) (target_urls t)) targets))"

section \<open>What an HTTP result says\<close>

text \<open>The outcomes after which the loop tries again.\<close>

definition transient :: "fetch_end \<Rightarrow> bool" where
  "transient ending \<longleftrightarrow> (case ending of
       Response r \<Rightarrow> False
     | ConnectFailed e ssl_cause \<Rightarrow> tr_method (classify_connect_error e ssl_cause [] [] 1) = Some IP_DROPPED
     | _ \<Rightarrow> True)"

lemma classify_fields [simp]:
  "tr_verdict (classify_connect_error e c url name k) = BLOCKED"
  "tr_attempts (classify_connect_error e c url name k) = k"
  by (simp_all add: classify_connect_error_def Let_def)

lemma classify_method:
  "tr_method (classify_connect_error e c url name k) = Some
     (let m = str_lower (describe_exception e) in
      if c \<or> str_contains m ''ssl'' \<or> str_contains m ''certificate'' then TLS_HANDSHAKE_FAILURE
      else if str_contains m ''connection reset'' then TCP_RST_INJECTION else IP_DROPPED)"
  by (simp add: classify_connect_error_def Let_def)

lemma fetch_round_transient: "isl (fetch_round hc url t cap name k ending) \<longleftrightarrow> transient ending"
  by (cases ending) (simp_all add: fetch_round_def transient_def Let_def classify_method)

lemma fetch_round_attempts:
  "fetch_round hc url t cap name k ending = Inl r \<or> fetch_round hc url t cap name k ending = Inr r \<Longrightarrow> tr_attempts r = k"
  by (cases ending) (auto simp: fetch_round_def attempt_url_def timeout_result_def Let_def split: prod.splits if_splits)

lemma fetch_loop_split:
  "fetch_loop f e xs = Some r \<Longrightarrow> xs \<noteq> [] \<Longrightarrow>
   \<exists>ys k zs. xs = ys @ k # zs \<and> (\<forall>j \<in> set ys. isl (f j)) \<and> (f k = Inr r \<or> f k = Inl r \<and> zs = [])"
proof (induction xs arbitrary: e)
  case (Cons x xs)
  show ?case
  proof (cases "f x")
    case (Inr b)
    then show ?thesis using Cons.prems by (intro exI [of _ "[]"] exI [of _ x] exI [of _ xs]) simp
  next
    case (Inl a)
    then have next_step: "fetch_loop f (Some a) xs = Some r" using Cons.prems by simp
    show ?thesis
    proof (cases "xs = []")
      case True
      then show ?thesis using Inl next_step by (intro exI [of _ "[]"] exI [of _ x] exI [of _ xs]) simp
    next
      case False
      from Cons.IH [OF next_step False] obtain ys k zs where s: "xs = ys @ k # zs" "\<forall>j \<in> set ys. isl (f j)"
        "f k = Inr r \<or> f k = Inl r \<and> zs = []" by blast
      then show ?thesis using Inl by (intro exI [of _ "x # ys"] exI [of _ k] exI [of _ zs]) simp
    qed
  qed
qed simp

lemma fetch_loop_some: "fetch_loop f (Some e) xs \<noteq> None" "xs \<noteq> [] \<Longrightarrow> fetch_loop f l xs \<noteq> None"
  by (induction xs arbitrary: e l) (auto split: sum.splits)

lemma upto_parts:
  assumes "[a..b] = ys @ k # zs"
  shows "set ys = {a..k - 1}" "a \<le> k" "k \<le> b" "zs = [] \<longleftrightarrow> k = b"
proof -
  have w: "sorted_wrt (<) (ys @ k # zs)" by (simp flip: assms)
  have s: "set ys \<union> {k} \<union> set zs = {a..b}" using arg_cong [OF assms, of set] by auto
  show "a \<le> k" "k \<le> b" using s by auto
  show "set ys = {a..k - 1}"
    using w s by (auto simp: sorted_wrt_append set_eq_iff) (metis less_irrefl less_trans linorder_not_less)+
  have "b \<in> set ys \<union> {k} \<union> set zs" using s \<open>a \<le> k\<close> \<open>k \<le> b\<close> by auto
  moreover have "z \<in> set zs \<Longrightarrow> k < z \<and> z \<le> b" "y \<in> set ys \<Longrightarrow> y < k" for z y
    using w s by (auto simp: sorted_wrt_append)
  ultimately show "zs = [] \<longleftrightarrow> k = b" using \<open>k \<le> b\<close>
    by (cases zs) fastforce+
qed

lemma attempt_url_verdict [simp]:
  "tr_verdict (attempt_url hc url t cap name k reply) =
     fst (verdict_from_response (hr_status reply) (url_is_https hc url) (target_expected t))"
  by (simp add: attempt_url_def Let_def split: prod.split)

lemma verdict_from_response_cases:
  "fst (verdict_from_response st tls e) = SERVER_REFUSED \<longleftrightarrow> st \<in> {403, 429, 451} \<and> tls"
  "fst (verdict_from_response st tls e) = OK \<Longrightarrow> st = (case e of Some x \<Rightarrow> x | None \<Rightarrow> 200)"
  "500 \<le> st \<Longrightarrow> fst (verdict_from_response st tls e) \<notin> set NON_SCORING_VERDICTS"
  by (auto simp: verdict_from_response_def NON_SCORING_VERDICTS_def split: option.splits if_splits)

text \<open>
  The result of a URL is that of its first conclusive attempt, and of its last one when all
  were transient. It is OK only for the status expected of the target, and excused as the
  server's own refusal only for 403, 429 or 451 asked for over TLS. A server error (5xx), which a
  censor can forge, is never dropped from the score, and without a reply nothing is.
\<close>

theorem http_results_are_earned:
  assumes "test_url host_check sha1_hex fetch repeats body_cap (t, url) = Inr r" "1 \<le> repeats"
  shows "1 \<le> tr_attempts r \<and> tr_attempts r \<le> repeats
    \<and> (\<forall>j. 1 \<le> j \<and> j < tr_attempts r \<longrightarrow> transient (fetch url j))
    \<and> (transient (fetch url (tr_attempts r)) \<longrightarrow> tr_attempts r = repeats)
    \<and> (case fetch url (tr_attempts r) of
         Response reply \<Rightarrow>
           (tr_verdict r = SERVER_REFUSED \<longleftrightarrow> hr_status reply \<in> {403, 429, 451} \<and> url_is_https host_check url)
           \<and> (tr_verdict r = OK \<longrightarrow> hr_status reply = (case target_expected t of Some e \<Rightarrow> e | None \<Rightarrow> 200))
           \<and> (500 \<le> hr_status reply \<longrightarrow> tr_verdict r \<notin> set NON_SCORING_VERDICTS)
       | _ \<Rightarrow> tr_verdict r = BLOCKED \<or> tr_verdict r = ERROR)"
proof -
  obtain name where name: "http_test_name host_check sha1_hex (target_domain t url) url = Some name"
    using assms(1) by (simp add: test_url_def split: option.splits)
  let ?f = "\<lambda>k. fetch_round host_check url t body_cap name k (fetch url k)"
  have "fetch_loop ?f None [1..repeats] = Some r"
    using assms name fetch_loop_some(2) [of "[1..repeats]" ?f None] by (auto simp: test_url_def)
  from fetch_loop_split [OF this] assms(2) obtain ys k zs where parts: "[1..repeats] = ys @ k # zs"
    and before: "\<forall>j \<in> set ys. isl (?f j)" and k: "?f k = Inr r \<or> ?f k = Inl r \<and> zs = []" by auto
  note up = upto_parts [OF parts]
  have att: "tr_attempts r = k" using fetch_round_attempts k by blast
  have "\<forall>j. 1 \<le> j \<and> j < k \<longrightarrow> transient (fetch url j)" using before up(1) by (simp add: fetch_round_transient)
  moreover have "transient (fetch url k) \<longrightarrow> k = repeats"
    using k up(4) fetch_round_transient [of host_check url t body_cap name k "fetch url k"] by auto
  moreover have "case fetch url k of
         Response reply \<Rightarrow>
           (tr_verdict r = SERVER_REFUSED \<longleftrightarrow> hr_status reply \<in> {403, 429, 451} \<and> url_is_https host_check url)
           \<and> (tr_verdict r = OK \<longrightarrow> hr_status reply = (case target_expected t of Some e \<Rightarrow> e | None \<Rightarrow> 200))
           \<and> (500 \<le> hr_status reply \<longrightarrow> tr_verdict r \<notin> set NON_SCORING_VERDICTS)
       | _ \<Rightarrow> tr_verdict r = BLOCKED \<or> tr_verdict r = ERROR"
  proof (cases "fetch url k")
    case (Response reply)
    then have "r = attempt_url host_check url t body_cap name k reply" using k by (simp add: fetch_round_def)
    then show ?thesis using Response by (simp add: verdict_from_response_cases)
  qed (use k in \<open>auto simp: fetch_round_def timeout_result_def Let_def split: if_splits\<close>)
  ultimately show ?thesis using up(2,3) unfolding att by blast
qed

lemma http_test_name_some: "urlparse hc url = Some p \<Longrightarrow> \<exists>name. http_test_name hc sha d url = Some name"
  by (cases "pu_scheme p = ''https'' \<and> url_hostname p = Some d \<and> pu_path p \<in> {[], ''/''} \<and> pu_query p = [] \<and> pu_fragment p = []")
    (auto simp: http_test_name_def Let_def)

definition demo_fetch :: "string \<Rightarrow> int \<Rightarrow> fetch_end" where
  "demo_fetch url attempt = (if attempt = 1 then ConnectTimedOut
     else Response \<lparr>hr_status = 503, hr_final_url = url, hr_content_type = ''text/html'', hr_chunks = [10]\<rparr>)"

theorem http_results_are_earned_witness:
  "\<exists>r. test_url (\<lambda>_. True) (\<lambda>_. ''0123456789'') demo_fetch 3 1000 ([], ''https://a.org/'') = Inr r
     \<and> tr_attempts r = 2 \<and> tr_verdict r \<noteq> OK \<and> tr_verdict r \<notin> set NON_SCORING_VERDICTS"
proof -
  have "plain ''a.org''" by code_simp
  then obtain name where "http_test_name (\<lambda>_. True) (\<lambda>_. ''0123456789'') (target_domain [] ''https://a.org/'') ''https://a.org/'' = Some name"
    using http_test_name_some [OF urlparse_web [of "''a.org''" "[]" "\<lambda>_. True"]] by (simp add: web_url_def) blast
  then obtain r where r: "test_url (\<lambda>_. True) (\<lambda>_. ''0123456789'') demo_fetch 3 1000 ([], ''https://a.org/'') = Inr r"
    by (auto simp: test_url_def)
  have lim: "1 \<le> tr_attempts r" "tr_attempts r \<le> 3" and before: "\<forall>j. 1 \<le> j \<and> j < tr_attempts r \<longrightarrow> transient (demo_fetch ''https://a.org/'' j)"
    and last: "transient (demo_fetch ''https://a.org/'' (tr_attempts r)) \<longrightarrow> tr_attempts r = 3"
    using http_results_are_earned [OF r] by simp_all
  have d: "transient (demo_fetch u 1)" "\<not> transient (demo_fetch u 2)" for u by (simp_all add: transient_def demo_fetch_def)
  have "tr_attempts r \<noteq> 1" using last d(1) by auto
  moreover have "\<not> 2 < tr_attempts r" using spec [OF before, of 2] d(2) by auto
  ultimately have two: "tr_attempts r = 2" using lim by simp
  then have "tr_verdict r \<noteq> OK \<and> tr_verdict r \<notin> set NON_SCORING_VERDICTS"
    using http_results_are_earned [OF r] by (auto simp: demo_fetch_def target_expected_def)
  then show ?thesis using r two by blast
qed

text \<open>Following a redirect from TLS to plain HTTP, a refusal injected on the plain hop is excused all the same.\<close>

lemma redirected_refusal_not_scored:
  assumes "url_is_https host_check url" "hr_status reply = 403" "\<not> url_is_https host_check (hr_final_url reply)"
  shows "tr_verdict (attempt_url host_check url t cap name k reply) \<in> set NON_SCORING_VERDICTS"
  using assms by (simp add: attempt_url_def verdict_from_response_def NON_SCORING_VERDICTS_def)

text \<open>The port is no part of the name: two addresses of one host can share it.\<close>

lemma http_names_collide:
  "http_test_name (\<lambda>_. True) (\<lambda>_. []) ''a.org'' ''https://a.org/'' = Some ''http_a_org''
   \<and> http_test_name (\<lambda>_. True) (\<lambda>_. []) ''a.org'' ''https://a.org:8443/'' = Some ''http_a_org''"
  by code_simp

section \<open>Middleboxes: raw requests\<close>

definition CHROME_VERSION :: string where "CHROME_VERSION = ''145''"

definition CHROME_UA :: string where
  "CHROME_UA = ''Mozilla/5.0 (Windows NT 10.0; Win64; x64) '' @ ''AppleWebKit/537.36 (KHTML, like Gecko) ''
     @ ''Chrome/'' @ CHROME_VERSION @ ''.0.0.0 Safari/537.36''"

definition parse_status_code :: "string \<Rightarrow> string \<times> int option" where
  "parse_status_code response_head =
     (let status_line = fst (str_partition crlf response_head); parts = split_ws status_line in
      if 2 \<le> length parts \<and> starts_with (parts ! 0) ''HTTP/'' then (status_line, int_of_str (parts ! 1))
      else (status_line, None))"

text \<open>
  A peer: the error of connecting or sending, or the chunks it sends and how they end (closed, or
  the error of a read). An empty chunk is the end of the stream.
\<close>

datatype raw_peer = RawFailed string | RawSends "string list" "string option"

definition raw_request :: "string \<Rightarrow> (string \<times> string) list \<Rightarrow> string" where
  "raw_request path headers = ''GET '' @ path @ '' HTTP/1.1'' @ crlf
     @ concat (map (\<lambda>(name, value). name @ '': '' @ value @ crlf) headers) @ ''Connection: close'' @ crlf @ crlf"

fun read_head :: "(string \<Rightarrow> bool) \<Rightarrow> string \<Rightarrow> string list \<Rightarrow> string option \<Rightarrow> string + string" where
  "read_head enough buf [] ending =
     (if enough buf then Inr buf else case ending of None \<Rightarrow> Inr buf | Some err \<Rightarrow> Inl err)"
| "read_head enough buf (chunk # chunks) ending =
     (if enough buf then Inr buf else if chunk = [] then Inr buf else read_head enough (buf @ chunk) chunks ending)"

definition blank_line :: string where "blank_line = crlf @ crlf"

definition raw_http_request :: "(string \<Rightarrow> string) \<Rightarrow> raw_peer \<Rightarrow> string \<times> string option" where
  "raw_http_request decode_utf8 peer =
     (case peer of
        RawFailed err \<Rightarrow> ([], Some err)
      | RawSends chunks ending \<Rightarrow>
          (case read_head (\<lambda>buf. str_contains buf blank_line \<or> 4096 \<le> length buf) [] chunks ending of
             Inl err \<Rightarrow> ([], Some err)
           | Inr buf \<Rightarrow> (decode_utf8 buf, None)))"

text \<open>The same for the second test, whose buffer has no bound and is tested after each chunk.\<close>

definition raw_invalid_request :: "(string \<Rightarrow> string) \<Rightarrow> raw_peer \<Rightarrow> string \<times> string option" where
  "raw_invalid_request decode_utf8 peer =
     (case peer of
        RawFailed err \<Rightarrow> ([], Some err)
      | RawSends chunks ending \<Rightarrow>
          (case read_head (\<lambda>buf. str_contains buf blank_line) [] chunks ending of
             Inl err \<Rightarrow> ([], Some err)
           | Inr buf \<Rightarrow> (decode_utf8 buf, None)))"

text \<open>Waiting for the worker: it ends in time, or not, or waiting itself fails.\<close>

datatype 'a waited = InTime 'a | TooLate | WaitFailed string

record header_case =
  hc_name :: string
  hc_headers :: "(string \<times> string) list"
  hc_field :: string
  hc_notes :: string

definition header_cases :: "header_case list" where
  "header_cases =
     [\<lparr>hc_name = ''middlebox_header_host_case'', hc_headers = [(''hOsT'', ''1.1.1.1''), (''User-Agent'', CHROME_UA)],
       hc_field = ''hOsT'', hc_notes = ''Modified Host header case''\<rparr>,
      \<lparr>hc_name = ''middlebox_header_useragent_case'', hc_headers = [(''Host'', ''1.1.1.1''), (''uSeR-aGeNt'', CHROME_UA)],
       hc_field = ''uSeR-aGeNt'', hc_notes = ''Modified User-Agent case''\<rparr>]"

definition json_int_opt :: "int option \<Rightarrow> json" where
  "json_int_opt i = (case i of None \<Rightarrow> JNull | Some n \<Rightarrow> JInt n)"

definition run_header_case :: "(string \<Rightarrow> string) \<Rightarrow> (string \<Rightarrow> raw_peer waited) \<Rightarrow> header_case \<Rightarrow> test_result" where
  "run_header_case decode_utf8 exchange tc =
     (let failed = (\<lambda>v msg. (TestResult_new (hc_name tc) ''middlebox'' ''1.1.1.1:80'' v)
            \<lparr>tr_evidence := [(''error'', JStr msg)]\<rparr>) in
      case exchange (raw_request ''/'' (hc_headers tc)) of
        TooLate \<Rightarrow> failed INCONCLUSIVE ''timeout reaching 1.1.1.1:80''
      | WaitFailed msg \<Rightarrow> failed ERROR msg
      | InTime peer \<Rightarrow>
          let (response_head, err) = raw_http_request decode_utf8 peer in
          if err \<noteq> None \<and> err \<noteq> Some [] then failed INCONCLUSIVE (case err of Some e \<Rightarrow> e | None \<Rightarrow> [])
          else let (status_line, status_code) = parse_status_code response_head;
                   cloudflare_response = (status_code \<in> Some ` {301, 302, 400})
            in (TestResult_new (hc_name tc) ''middlebox'' ''1.1.1.1:80'' (if cloudflare_response then OK else ANOMALY))
                 \<lparr>tr_method := if cloudflare_response then None else Some MIDDLEBOX_HTTP_MANIPULATION,
                  tr_evidence := [(''sent_header'', JStr (hc_field tc)), (''status_line'', JStr status_line),
                    (''status_code'', json_int_opt status_code), (''response_head'', JStr (str_take 200 response_head)),
                    (''cloudflare_ok_statuses'', JList [JInt 301, JInt 302, JInt 400])],
                  tr_notes := Some (hc_notes tc)\<rparr>)"

definition invalid_request_line :: "(nat \<Rightarrow> char) \<Rightarrow> string" where
  "invalid_request_line choice = map choice [0..<7] @ '' / HTTP/1.1'' @ crlf @ ''Host: httpbin.org'' @ crlf @ crlf"

definition test_invalid_request_line :: "(string \<Rightarrow> string) \<Rightarrow> (string \<Rightarrow> raw_peer waited) \<Rightarrow> (nat \<Rightarrow> char) \<Rightarrow> rat \<Rightarrow> rat \<Rightarrow> test_result" where
  "test_invalid_request_line decode_utf8 exchange choice t0 t1 =
     (let random_method = map choice [0..<7]; new = TestResult_new ''middlebox_invalid_request_line'' ''middlebox'' ''httpbin.org:80''
      in stamped t0 t1 (case exchange (invalid_request_line choice) of
        TooLate \<Rightarrow> (new INCONCLUSIVE)\<lparr>tr_evidence := [(''error'', JStr ''timeout'')]\<rparr>
      | WaitFailed msg \<Rightarrow> (new ERROR)\<lparr>tr_evidence := [(''error'', JStr msg)]\<rparr>
      | InTime peer \<Rightarrow>
          let (response_text, err) = raw_invalid_request decode_utf8 peer in
          if err \<noteq> None \<and> err \<noteq> Some [] then (new INCONCLUSIVE)
            \<lparr>tr_evidence := [(''sent_method'', JStr random_method), (''error'', json_str_opt err),
               (''reason'', JStr ''Could not reach reference endpoint; test depends on it.'')]\<rparr>
          else let (status_line, status_code) = parse_status_code response_text; is_ok = (status_code \<in> Some ` {400, 405, 501})
            in (new (if is_ok then OK else ANOMALY))
                 \<lparr>tr_method := if is_ok then None else Some MIDDLEBOX_HTTP_MANIPULATION,
                  tr_evidence := [(''sent_method'', JStr random_method), (''status_line'', JStr status_line),
                    (''status_code'', json_int_opt status_code), (''response_head'', JStr (str_take 200 response_text)),
                    (''expected_one_of'', JList [JInt 400, JInt 405, JInt 501])]\<rparr>))"

definition run_middlebox_tests :: "(string \<Rightarrow> string) \<Rightarrow> (string \<Rightarrow> raw_peer waited) \<Rightarrow> (nat \<Rightarrow> char) \<Rightarrow> rat \<Rightarrow> rat \<Rightarrow> test_result list" where
  "run_middlebox_tests decode_utf8 exchange choice t0 t1 =
     map (run_header_case decode_utf8 exchange) header_cases @ [test_invalid_request_line decode_utf8 exchange choice t0 t1]"

section \<open>The verdict does not depend on the packets\<close>

lemma read_head_prefix:
  "[] \<notin> set chunks \<Longrightarrow> \<exists>buf rest. read_head enough b chunks None = Inr buf \<and> b @ concat chunks = buf @ rest
     \<and> (rest = [] \<or> enough buf)"
proof (induction chunks arbitrary: b)
  case (Cons c cs)
  then show ?case using Cons.IH [of "b @ c"] by (cases "enough b") auto
qed simp

lemma status_line_of:
  assumes "CHR 0x0D \<notin> set line"
  shows "parse_status_code (line @ crlf @ after) =
    (line, if 2 \<le> length (split_ws line) \<and> starts_with (split_ws line ! 0) ''HTTP/'' then int_of_str (split_ws line ! 1) else None)"
  using partition_crlf [OF assms, of after] by (simp add: parse_status_code_def Let_def)

text \<open>A prefix of the reply that holds a blank line or is long enough holds the status line.\<close>

lemma prefix_has_line:
  assumes "buf @ rest = line @ crlf @ after" "CHR 0x0D \<notin> set line" "length line + 2 \<le> n"
    and "rest = [] \<or> str_contains buf blank_line \<or> n \<le> length buf"
  shows "\<exists>after'. buf = line @ crlf @ after'"
proof (cases "length line + 2 \<le> length buf")
  case True
  then have "take (length line + 2) buf = take (length line + 2) (buf @ rest)" by simp
  then have "take (length line + 2) buf = line @ crlf" unfolding assms(1) by (simp add: crlf_def)
  then show ?thesis by (metis append.assoc append_take_drop_id)
next
  case False
  then have "length buf \<le> length line + 1" by simp
  moreover have "buf = take (length buf) (line @ crlf @ after)" by (metis append_eq_conv_conj assms(1))
  moreover have "k \<le> 1 \<Longrightarrow> take k (a # b # c) = take k [a]" for k and a b :: char and c by (cases k) auto
  ultimately have b: "buf = take (length buf) (line @ [CHR 0x0D])" by (simp add: crlf_def)
  have "\<not> sublist blank_line buf"
  proof
    assume "sublist blank_line buf"
    then obtain x y where "buf = x @ crlf @ crlf @ y" by (auto simp: sublist_def blank_line_def)
    then have "2 \<le> count_list buf (CHR 0x0D)" by (simp add: crlf_def)
    moreover have "count_list (line @ [CHR 0x0D]) (CHR 0x0D) = 1" using assms(2) by (simp add: count_notin)
    then have "count_list buf (CHR 0x0D) \<le> 1" using b
      by (metis append_take_drop_id count_list_append le_add1)
    ultimately show False by simp
  qed
  then have "rest = []" using assms(3,4) False by (auto simp: str_contains_sublist)
  then show ?thesis using assms(1) by auto
qed

text \<open>
  Whatever packets a reply to the probe of header names comes in, the verdict is decided by its
  status code alone: a reply \<open>HTTP/1.1 code reason\<close> with its status line in the first 4096 octets
  makes it OK for 301, 302 and 400 and otherwise an anomaly with the method of manipulation.
\<close>

theorem middlebox_verdict_by_status:
  assumes reply: "exchange (raw_request ''/'' (hc_headers tc)) = InTime (RawSends chunks None)" "[] \<notin> set chunks"
    and stream: "concat chunks = status_line @ crlf @ after" "status_line = ''HTTP/1.1 '' @ str_of_int code @ '' '' @ reason"
    and line: "CHR 0x0D \<notin> set reason" "length status_line + 2 \<le> 4096" "printable code"
    and decoder: "\<And>rest. decode_utf8 (status_line @ crlf @ rest) = status_line @ crlf @ decode_utf8 rest"
  shows "tr_verdict (run_header_case decode_utf8 exchange tc) = (if code \<in> {301, 302, 400} then OK else ANOMALY)
    \<and> tr_method (run_header_case decode_utf8 exchange tc) =
        (if code \<in> {301, 302, 400} then None else Some MIDDLEBOX_HTTP_MANIPULATION)"
proof -
  have cr: "CHR 0x0D \<notin> set status_line"
    using line(1) str_of_int_no_space [of "CHR 0x0D" code] by (auto simp: stream(2) is_digit_def)
  obtain buf rest where read: "read_head (\<lambda>buf. str_contains buf blank_line \<or> 4096 \<le> length buf) [] chunks None = Inr buf"
    and parts: "concat chunks = buf @ rest" "rest = [] \<or> str_contains buf blank_line \<or> 4096 \<le> length buf"
    using read_head_prefix [OF reply(2), of "\<lambda>buf. str_contains buf blank_line \<or> 4096 \<le> length buf" "[]"] by auto
  obtain after' where buf: "buf = status_line @ crlf @ after'"
    using prefix_has_line [OF _ cr line(2), of buf rest after] parts stream(1) by auto
  have "word_text ''HTTP/1.1''" by (simp add: word_text_def is_space_def)
  then have ws: "split_ws status_line = ''HTTP/1.1'' # str_of_int code # split_ws reason"
    using split_ws_word [of "''HTTP/1.1''" "str_of_int code @ '' '' @ reason"] split_ws_word [of "str_of_int code" reason]
    by (simp add: stream(2))
  have "parse_status_code (decode_utf8 buf) = (status_line, Some code)"
    unfolding buf decoder status_line_of [OF cr] using line(3) by (simp add: ws starts_with_prefix int_of_str_of_int)
  then show ?thesis
    by (auto simp: run_header_case_def reply(1) raw_http_request_def read Let_def image_iff)
qed

definition demo_peer :: "string \<Rightarrow> raw_peer waited" where
  "demo_peer request = InTime (RawSends [''HTTP/1.1 4'', ''00 Bad'' @ [CHR 0x0D], [CHR 0x0A] @ crlf] None)"

theorem middlebox_verdict_by_status_witness:
  "tr_verdict (run_header_case (\<lambda>s. s) demo_peer (hd header_cases)) = OK"
proof -
  let ?chunks = "[''HTTP/1.1 4'', ''00 Bad'' @ [CHR 0x0D], [CHR 0x0A] @ crlf]"
  have four: "str_of_int 400 = ''400''" by (simp add: str_of_int_def nat_digits_numeral)
  have p: "printable 400" by (rule printableI [of _ 3]) simp_all
  have reply: "demo_peer (raw_request ''/'' (hc_headers (hd header_cases))) = InTime (RawSends ?chunks None)"
    by (simp only: demo_peer_def)
  have "tr_verdict (run_header_case (\<lambda>s. s) demo_peer (hd header_cases)) = (if (400::int) \<in> {301, 302, 400} then OK else ANOMALY)"
    by (rule middlebox_verdict_by_status [where exchange = demo_peer and chunks = ?chunks and reason = "''Bad''" and code = 400
          and after = crlf and status_line = "''HTTP/1.1 '' @ str_of_int 400 @ '' '' @ ''Bad''", THEN conjunct1])
      (simp_all only: reply p, simp_all add: four crlf_def)
  then show ?thesis by simp
qed

text \<open>
  A connection that is reset is inconclusive, not an anomaly; an error without a text counts as
  a reply.
\<close>

lemma reset_is_inconclusive:
  "exchange (raw_request ''/'' (hc_headers tc)) = InTime (RawFailed err) \<Longrightarrow> err \<noteq> []
     \<Longrightarrow> tr_verdict (run_header_case d exchange tc) = INCONCLUSIVE"
  by (simp add: run_header_case_def raw_http_request_def)

lemma silent_error_is_anomaly:
  "exchange (raw_request ''/'' (hc_headers tc)) = InTime (RawFailed [])
     \<Longrightarrow> tr_verdict (run_header_case d exchange tc) = ANOMALY"
proof -
  have "parse_status_code [] = ([], None)" by code_simp
  then show "exchange (raw_request ''/'' (hc_headers tc)) = InTime (RawFailed []) \<Longrightarrow> ?thesis"
    by (auto simp: run_header_case_def raw_http_request_def)
qed

end
