(* ===== verification/ThrottleProbe.thy ===== *)
theory ThrottleProbe
  imports Probing Urls Config
begin

text \<open>
  The throttling module (\<^verbatim>\<open>modules/throttling.py\<close>): the command of one download, the reading of its
  output, and the comparison of the three server names. What running the command gives is an
  argument.
\<close>

section \<open>One download\<close>

definition curl_cmd :: "parsed_url \<Rightarrow> string \<Rightarrow> string \<Rightarrow> rat \<Rightarrow> string list" where
  "curl_cmd parsed sni connect_to_host timeout_sec =
     [''curl'', ''--connect-to'', ''::'' @ connect_to_host, ''-k'', ''-o'', ''/dev/null'',
      ''--write-out'', ''%{speed_download} %{time_total} %{http_code}'',
      ''--max-time'', str_of_int (if 0 \<le> timeout_sec then \<lfloor>timeout_sec\<rfloor> else - \<lfloor>- timeout_sec\<rfloor>),
      ''--limit-rate'', ''0'', ''-s'', urlunparse (parsed\<lparr>pu_netloc := sni\<rparr>)]"

text \<open>
  What the command gives: its output (decoded) with the return code and the time it took, no
  answer in time, no such program, or another error.
\<close>

datatype curl_end =
    CurlDone string int rat
  | CurlTimeout
  | CurlNotFound
  | CurlFailed string

record curl_run =
  cr_bandwidth_mbps :: pyfloat
  cr_rest :: "(string, json) dict"

text \<open>The numbers of the output; \<open>None\<close> is the \<open>ValueError\<close>, whose text is an argument.\<close>

definition curl_numbers :: "string \<Rightarrow> rat \<Rightarrow> (pyfloat \<times> pyfloat \<times> int) option" where
  "curl_numbers stdout elapsed =
     (let parts = split_ws (str_strip stdout) in
      case (if parts \<noteq> [] then float_of_str (parts ! 0) else Some (Fin 0)) of
        None \<Rightarrow> None
      | Some speed_bytes_sec \<Rightarrow>
      (case (if 1 < length parts then float_of_str (parts ! 1) else Some (Fin elapsed)) of
        None \<Rightarrow> None
      | Some time_total \<Rightarrow>
      (case (if 2 < length parts then int_of_str (parts ! 2) else Some 0) of
        None \<Rightarrow> None
      | Some http_code \<Rightarrow> Some (speed_bytes_sec, time_total, http_code))))"

definition bandwidth_of :: "pyfloat \<Rightarrow> pyfloat" where
  "bandwidth_of speed_bytes_sec = pf_scale (pf_scale speed_bytes_sec 8) (1 / 1000000)"

definition curl_failed :: "string \<Rightarrow> string \<Rightarrow> string \<Rightarrow> curl_run" where
  "curl_failed label sni err = \<lparr>cr_bandwidth_mbps = Fin 0,
     cr_rest = [(''label'', JStr label), (''sni'', JStr sni), (''error'', JStr err)]\<rparr>"

definition curl_connect_to_run :: "string \<Rightarrow> (string list \<Rightarrow> curl_end) \<Rightarrow> string \<Rightarrow> string \<Rightarrow> string \<Rightarrow> parsed_url \<Rightarrow> rat \<Rightarrow> curl_run" where
  "curl_connect_to_run value_error curl sni connect_to_host label parsed timeout_sec =
     (case curl (curl_cmd parsed sni connect_to_host timeout_sec) of
        CurlTimeout \<Rightarrow> curl_failed label sni ''timeout''
      | CurlNotFound \<Rightarrow> curl_failed label sni ''curl_not_found''
      | CurlFailed err \<Rightarrow> curl_failed label sni err
      | CurlDone stdout returncode elapsed \<Rightarrow>
          (case curl_numbers stdout elapsed of
             None \<Rightarrow> curl_failed label sni value_error
           | Some (speed_bytes_sec, time_total, http_code) \<Rightarrow>
               \<lparr>cr_bandwidth_mbps = bandwidth_of speed_bytes_sec,
                cr_rest = [(''label'', JStr label), (''sni'', JStr sni), (''speed_bytes_sec'', JFloat speed_bytes_sec),
                  (''time_total_sec'', JFloat time_total), (''http_code'', JInt http_code), (''curl_returncode'', JInt returncode)]\<rparr>))"

section \<open>The comparison\<close>

definition decide_method_b_verdict :: "pyfloat \<Rightarrow> pyfloat \<Rightarrow> pyfloat \<Rightarrow> rat \<Rightarrow> verdict" where
  "decide_method_b_verdict bw_correct bw_trigger bw_typo threshold_ratio =
     (if pf_le bw_correct (Fin 0) \<or> pf_le bw_trigger (Fin 0) \<or> pf_le bw_typo (Fin 0) then INCONCLUSIVE
      else if pf_less bw_trigger (pf_scale bw_correct threshold_ratio) \<and> pf_less bw_trigger (pf_scale bw_typo threshold_ratio)
      then THROTTLED else OK)"

definition run_json :: "curl_run \<Rightarrow> json" where
  "run_json r = JObj ((''bandwidth_mbps'', JFloat (cr_bandwidth_mbps r)) # cr_rest r)"

text \<open>The note in UTF-8: the four Cyrillic letters are eight octets.\<close>

definition method_b_note :: string where
  "method_b_note = ''Method B (Vetrov/Habr 2024): SNI-level ''
     @ map char_of [0xD0, 0xA2, 0xD0, 0xA1, 0xD0, 0x9F, 0xD0, 0xA3 :: nat] @ '' throttling attribution''"

text \<open>
  A URL that cannot be parsed raises inside the run, and the run then has only its error; the
  three runs are made one after the other.
\<close>

definition sni_run :: "string \<Rightarrow> (string \<Rightarrow> bool) \<Rightarrow> (string list \<Rightarrow> curl_end) \<Rightarrow> throttling_module \<Rightarrow> string \<Rightarrow> string \<Rightarrow> curl_run" where
  "sni_run value_error host_check curl cfg label sni =
     (case urlparse host_check (rm_target_url cfg) of
        None \<Rightarrow> \<lparr>cr_bandwidth_mbps = Fin 0, cr_rest = [(''error'', JStr value_error)]\<rparr>
      | Some parsed \<Rightarrow> curl_connect_to_run value_error curl sni (rm_correct_sni cfg) label parsed (rm_curl_timeout_sec cfg))"

definition run_method_b_sni_probe :: "string \<Rightarrow> (string \<Rightarrow> bool) \<Rightarrow> (string list \<Rightarrow> curl_end) \<Rightarrow> throttling_module \<Rightarrow> test_result" where
  "run_method_b_sni_probe value_error host_check curl cfg =
     (let run = sni_run value_error host_check curl cfg;
          correct = run ''correct_sni'' (rm_correct_sni cfg); trigger = run ''googlevideo_sni'' (rm_trigger_sni cfg);
          typo = run ''typo_sni'' (rm_typo_sni cfg);
          verdict = decide_method_b_verdict (cr_bandwidth_mbps correct) (cr_bandwidth_mbps trigger)
            (cr_bandwidth_mbps typo) (rm_bandwidth_ratio_threshold cfg)
      in (TestResult_new ''throttling_youtube_sni_probe_method_b'' ''throttling''
            (rm_correct_sni cfg @ '' (SNI='' @ rm_trigger_sni cfg @ '')'') verdict)
           \<lparr>tr_method := if verdict = THROTTLED then Some SNI_THROTTLING else None,
            tr_evidence := [(''control_host'', JStr (rm_correct_sni cfg)), (''target_url'', JStr (rm_target_url cfg)),
              (''trigger_sni'', JStr (rm_trigger_sni cfg)), (''typo_sni'', JStr (rm_typo_sni cfg)),
              (''ratio_threshold'', JFloat (Fin (rm_bandwidth_ratio_threshold cfg))),
              (''runs'', JObj [(''correct_sni'', run_json correct), (''googlevideo_sni'', run_json trigger), (''typo_sni'', run_json typo)]),
              (''bandwidth_correct_sni_mbps'', JFloat (pf_round 2 (cr_bandwidth_mbps correct))),
              (''bandwidth_googlevideo_sni_mbps'', JFloat (pf_round 2 (cr_bandwidth_mbps trigger))),
              (''bandwidth_typo_sni_mbps'', JFloat (pf_round 2 (cr_bandwidth_mbps typo)))],
            tr_confidence := if verdict \<noteq> INCONCLUSIVE then fl (95 / 100) else fl (3 / 10),
            tr_notes := Some method_b_note\<rparr>)"

definition not_censoring_note :: string where
  "not_censoring_note = ''Method B is a censor-specific test against a single throughput ''
     @ ''endpoint; from an uncensored vantage the relative bandwidth ''
     @ ''comparison is dominated by geographic latency rather than SNI ''
     @ ''policy. Override modules.throttling.require_censoring_vantage ''
     @ ''if you have supplied a custom target_url tied to your own ''
     @ ''in-country control.''"

definition run_throttling_tests :: "config_error + bool \<Rightarrow> string \<Rightarrow> (string \<Rightarrow> bool) \<Rightarrow> (string list \<Rightarrow> curl_end) \<Rightarrow> throttling_module
    \<Rightarrow> config_error + test_result list" where
  "run_throttling_tests censoring value_error host_check curl cfg =
     bindE (if rm_require_censoring_vantage cfg then censoring else Inr True) (\<lambda>proceed.
       if \<not> proceed then Inr [(TestResult_new ''throttling_youtube_sni_probe_method_b'' ''throttling''
            (rm_correct_sni cfg @ '' (SNI='' @ rm_trigger_sni cfg @ '')'') INCONCLUSIVE)
            \<lparr>tr_evidence := [(''reason'', JStr ''non_censoring_vantage_method_b_skipped'')],
             tr_confidence := 0, tr_notes := Some not_censoring_note\<rparr>]
       else Inr [run_method_b_sni_probe value_error host_check curl cfg])"

section \<open>What a throttling verdict needs\<close>

text \<open>The bandwidth a download really delivered.\<close>

definition delivered :: "throttling_module \<Rightarrow> (string list \<Rightarrow> curl_end) \<Rightarrow> parsed_url \<Rightarrow> string \<Rightarrow> rat \<Rightarrow> bool" where
  "delivered cfg curl parsed sni bw \<longleftrightarrow>
     (\<exists>stdout code elapsed speed total status. curl (curl_cmd parsed sni (rm_correct_sni cfg) (rm_curl_timeout_sec cfg)) = CurlDone stdout code elapsed
        \<and> curl_numbers stdout elapsed = Some (speed, total, status) \<and> bandwidth_of speed = Fin bw) \<and> 0 < bw"

lemma sni_run_delivered:
  assumes "cr_bandwidth_mbps (sni_run ve hc curl cfg label sni) = Fin bw" "0 < bw"
    "urlparse hc (rm_target_url cfg) = Some parsed"
  shows "delivered cfg curl parsed sni bw"
  using assms by (fastforce simp: sni_run_def curl_connect_to_run_def curl_failed_def delivered_def
      split: curl_end.splits option.splits)

lemma pf_le_0 [simp]: "pf_le (Fin x) (Fin 0) \<longleftrightarrow> x \<le> 0"
  by (auto simp: pf_le_def)

lemma bandwidth_rounded: "bandwidth_of speed = Fin bw \<Longrightarrow> fl bw = bw \<and> bw < pow2 1024"
  by (auto simp: bandwidth_of_def pf_scale_def to_float_def Let_def split: pyfloat.splits if_splits)

lemma scale_delivered:
  assumes "fl bw = bw" "bw < pow2 1024" "0 < bw" "0 \<le> ratio" "ratio \<le> 1"
  shows "pf_scale (Fin bw) ratio = Fin (fmul bw ratio)"
proof -
  have "bw * ratio \<le> bw" using assms(3,5) by (simp add: mult_left_le)
  then have "fl (bw * ratio) < pow2 1024" using fl_mono [of "bw * ratio" bw] assms(1,2) by simp
  moreover have "0 \<le> fl (bw * ratio)" using assms by (simp add: fl_nonneg)
  moreover have "(0::rat) < pow2 1024" by (rule pow2_pos)
  ultimately have "\<not> pow2 1024 \<le> fl (bw * ratio)" "\<not> fl (bw * ratio) \<le> - pow2 1024" by linarith+
  then show ?thesis by (simp add: pf_scale_def to_float_def Let_def fmul_def)
qed

lemma decide_delivered:
  assumes "fl c = c" "c < pow2 1024" "0 < c" "fl y = y" "y < pow2 1024" "0 < y" "0 < t" "0 \<le> ratio" "ratio \<le> 1"
  shows "decide_method_b_verdict (Fin c) (Fin t) (Fin y) ratio = (if t < fmul (min c y) ratio then THROTTLED else OK)"
proof -
  have "fmul (min c y) ratio = min (fmul c ratio) (fmul y ratio)"
    using assms fmul_mono [of c y ratio ratio] fmul_mono [of y c ratio ratio] by (auto simp: min_def)
  then show ?thesis using assms by (simp add: decide_method_b_verdict_def scale_delivered)
qed

text \<open>
  Throttling is reported of the trigger name exactly when the module may run at this vantage,
  all three downloads really delivered something, and the trigger's bandwidth lies below the
  threshold times the smaller of the two others, in the arithmetic of the machine. A download
  that failed in any way makes the result inconclusive.
\<close>

theorem throttling_by_comparison:
  assumes run: "run_throttling_tests censoring ve hc curl cfg = Inr [r]"
    and url: "urlparse hc (rm_target_url cfg) = Some parsed"
    and bw: "cr_bandwidth_mbps (sni_run ve hc curl cfg ''correct_sni'' (rm_correct_sni cfg)) = Fin c"
      "cr_bandwidth_mbps (sni_run ve hc curl cfg ''googlevideo_sni'' (rm_trigger_sni cfg)) = Fin t"
      "cr_bandwidth_mbps (sni_run ve hc curl cfg ''typo_sni'' (rm_typo_sni cfg)) = Fin y"
    and ratio: "0 \<le> rm_bandwidth_ratio_threshold cfg" "rm_bandwidth_ratio_threshold cfg \<le> 1"
  shows "(tr_verdict r = THROTTLED \<longleftrightarrow> (rm_require_censoring_vantage cfg \<longrightarrow> censoring = Inr True)
      \<and> delivered cfg curl parsed (rm_correct_sni cfg) c \<and> delivered cfg curl parsed (rm_trigger_sni cfg) t
      \<and> delivered cfg curl parsed (rm_typo_sni cfg) y \<and> t < fmul (min c y) (rm_bandwidth_ratio_threshold cfg))
    \<and> (tr_method r = Some SNI_THROTTLING \<longleftrightarrow> tr_verdict r = THROTTLED)
    \<and> (tr_verdict r = OK \<longrightarrow> 0 < c \<and> 0 < t \<and> 0 < y)"
proof (cases "rm_require_censoring_vantage cfg \<longrightarrow> censoring = Inr True")
  case False
  then have "tr_verdict r = INCONCLUSIVE" "tr_method r = None"
    using run by (auto simp: run_throttling_tests_def bindE_Inr_iff split: if_splits)
  then show ?thesis using False by simp
next
  case go: True
  let ?v = "decide_method_b_verdict (Fin c) (Fin t) (Fin y) (rm_bandwidth_ratio_threshold cfg)"
  have "r = run_method_b_sni_probe ve hc curl cfg"
    using go run by (auto simp: run_throttling_tests_def bindE_Inr_iff split: if_splits)
  then have v: "tr_verdict r = ?v" "tr_method r = (if ?v = THROTTLED then Some SNI_THROTTLING else None)"
    by (simp_all add: run_method_b_sni_probe_def Let_def bw)
  show ?thesis
  proof (cases "0 < c \<and> 0 < t \<and> 0 < y")
    case False
    then have "?v = INCONCLUSIVE" by (auto simp: decide_method_b_verdict_def)
    then show ?thesis using v False by (auto simp: delivered_def)
  next
    case True
    then have del: "delivered cfg curl parsed (rm_correct_sni cfg) c" "delivered cfg curl parsed (rm_trigger_sni cfg) t"
      "delivered cfg curl parsed (rm_typo_sni cfg) y"
      using sni_run_delivered [OF bw(1) _ url] sni_run_delivered [OF bw(2) _ url] sni_run_delivered [OF bw(3) _ url] by simp_all
    then have "fl c = c \<and> c < pow2 1024" "fl y = y \<and> y < pow2 1024" unfolding delivered_def using bandwidth_rounded by blast+
    then have "?v = (if t < fmul (min c y) (rm_bandwidth_ratio_threshold cfg) then THROTTLED else OK)"
      using True ratio by (intro decide_delivered) simp_all
    then show ?thesis using v go del True by auto
  qed
qed

lemma float_of_digits:
  assumes "list_all is_digit (d # ds)"
  shows "float_of_str (d # ds) = Some (to_float (of_nat (digits_val (d # ds))))"
proof -
  have d: "is_digit d" "list_all is_digit ds" using assms by simp_all
  have "is_digit (last (d # ds))" using assms by (metis last_in_set list.distinct(1) list_all_iff)
  then have "str_strip (d # ds) = d # ds" using d by (intro str_strip_id) (simp_all add: is_digit_not_space del: last.simps)
  moreover have "strip_sign (d # ds) = (False, d # ds)" using digit_not_sign [OF d(1)] by simp
  moreover have "hd (str_lower (d # ds)) = d" using d(1) by (simp add: str_lower_def lower_char_def is_upper_def is_digit_def)
  then have "str_lower (d # ds) \<noteq> ''inf''" "str_lower (d # ds) \<noteq> ''infinity''" "str_lower (d # ds) \<noteq> ''nan''"
    using d(1) by (auto simp: is_digit_def)
  moreover have "digitpart (d # ds) = Some (d # ds, [])" using d by (simp add: digitpart_def more_digits_all)
  ultimately show ?thesis
    by (simp add: float_of_str_def fraction_part_def decimal_float_def exponent_part_def pow10_def del: strip_sign.simps)
qed

lemma float_of_million: "float_of_str ''1000000'' = Some (Fin 1000000)" "float_of_str ''125000'' = Some (Fin 125000)"
proof -
  have "digits_val ''1000000'' = 1000000" "digits_val ''125000'' = 125000"
    by (simp_all add: digits_val_def digit_val_def)
  then show "float_of_str ''1000000'' = Some (Fin 1000000)" "float_of_str ''125000'' = Some (Fin 125000)"
    by (simp_all add: float_of_digits is_digit_def to_float_def fl_numeral)
qed

definition demo_throttling :: throttling_module where
  "demo_throttling = \<lparr>mb_enabled = True, rm_require_censoring_vantage = True, rm_target_url = ''https://c/f'', rm_correct_sni = ''c'',
     rm_typo_sni = ''y'', rm_trigger_sni = ''t'', rm_sequential_runs = 3, rm_bandwidth_ratio_threshold = 1 / 4, rm_curl_timeout_sec = 30\<rparr>"

definition demo_curl :: "string list \<Rightarrow> curl_end" where
  "demo_curl cmd = CurlDone (if last cmd = ''https://t/f'' then ''125000 1 200'' else ''1000000 1 200'') 0 1"

theorem throttling_by_comparison_witness:
  "\<exists>r. run_throttling_tests (Inr True) [] (\<lambda>_. True) demo_curl demo_throttling = Inr [r] \<and> tr_verdict r = THROTTLED"
proof -
  let ?p = "\<lparr>pu_scheme = ''https'', pu_netloc = ''c'', pu_path = ''/f'', pu_params = [], pu_query = [], pu_fragment = []\<rparr>"
  have "plain ''c''" "plain ''f''" by code_simp+
  then have u: "urlparse (\<lambda>_. True) ''https://c/f'' = Some ?p" using urlparse_web [of "''c''" "''f''" "\<lambda>_. True"] by (simp add: web_url_def)
  have unparse: "urlunparse \<lparr>pu_scheme = ''https'', pu_netloc = sni, pu_path = ''/f'', pu_params = [], pu_query = [], pu_fragment = []\<rparr>
      = ''https://'' @ sni @ ''/f''" for sni
    by (simp add: urlunparse_def USES_NETLOC_def)
  have eq: "sni @ ''/f'' = ''t/f'' \<longleftrightarrow> sni = ''t''" for sni using append_same_eq [of sni "''/f''" "''t''"] by simp
  have parts: "split_ws (str_strip ''1000000 1 200'') = [''1000000'', ''1'', ''200'']"
    "split_ws (str_strip ''125000 1 200'') = [''125000'', ''1'', ''200'']" "int_of_str ''200'' = Some 200" by code_simp+
  have one: "float_of_str ''1'' = Some (Fin 1)"
    using float_of_digits [of "CHR ''1''" "[]"] by (simp add: is_digit_def digits_val_def digit_val_def to_float_def)
  have bw: "bandwidth_of (Fin 1000000) = Fin 8" "bandwidth_of (Fin 125000) = Fin 1"
    by (simp_all add: bandwidth_of_def pf_scale_def to_float_def fl_numeral)
  have run: "cr_bandwidth_mbps (sni_run [] (\<lambda>_. True) demo_curl demo_throttling label sni) = Fin (if sni = ''t'' then 1 else 8)" for label sni
    by (simp add: sni_run_def curl_connect_to_run_def demo_throttling_def u demo_curl_def curl_cmd_def unparse eq
        curl_numbers_def parts one float_of_million bw)
  obtain r where r: "run_throttling_tests (Inr True) [] (\<lambda>_. True) demo_curl demo_throttling = Inr [r]"
    by (simp add: run_throttling_tests_def)
  have f: "rm_target_url demo_throttling = ''https://c/f''" "rm_correct_sni demo_throttling = ''c''" "rm_typo_sni demo_throttling = ''y''"
    "rm_trigger_sni demo_throttling = ''t''" "rm_bandwidth_ratio_threshold demo_throttling = 1 / 4"
    by (simp_all add: demo_throttling_def)
  have del: "delivered demo_throttling demo_curl ?p sni (if sni = ''t'' then 1 else 8)" for sni
    using sni_run_delivered [OF run [of "[]"], where parsed = ?p] u by (simp add: f)
  have "fmul (min 8 8) (1 / 4) = 2" by (simp add: fmul_def fl_numeral)
  then have "tr_verdict r = THROTTLED"
    using throttling_by_comparison [OF r, where parsed = ?p and c = 8 and t = 1 and y = 8] u run del [of "''c''"] del [of "''t''"] del [of "''y''"] by (simp add: f)
  then show ?thesis using r by blast
qed

end
