(* ===== verification/TlsProbe.thy ===== *)
theory TlsProbe
  imports DnsProbe Targets TcpProbe
begin

text \<open>
  The TLS module (\<^verbatim>\<open>modules/tls.py\<close>): handshakes with the suspected and with a neutral server name
  to the same address, their comparison, and the probe of encrypted client hello with the
  configuration found in the HTTPS record of the domain. How a handshake, a lookup or a
  subprocess ends is an argument; the module's globals are a record that the tests pass on.
\<close>

section \<open>The neutral server name\<close>

text \<open>
  Dotted IPv4 text as \<open>ip_address\<close> reads it: four decimal numbers of at most three digits without
  leading zeros. An IPv6 address is in none of the networks, so that it and a text that is no
  address are both \<open>None\<close> here.
\<close>

definition ipv4_octet :: "string \<Rightarrow> int option" where
  "ipv4_octet s =
     (if s = [] \<or> \<not> list_all is_digit s \<or> 3 < length s \<or> (s \<noteq> ''0'' \<and> hd s = CHR ''0'') \<or> 255 < digits_val s
      then None else Some (int (digits_val s)))"

definition ipv4_address :: "string \<Rightarrow> int option" where
  "ipv4_address s =
     (case map ipv4_octet (split_on (CHR ''.'') s) of
        [Some a, Some b, Some c, Some d] \<Rightarrow> Some (((a * 256 + b) * 256 + c) * 256 + d)
      | _ \<Rightarrow> None)"

text \<open>
  A network: its address and the length of its prefix. \<open>ip_network\<close> raises a \<open>ValueError\<close> when
  bits beyond the prefix are set.
\<close>

definition ip_network :: "string \<Rightarrow> (int \<times> nat) option" where
  "ip_network s =
     (let (base, len) = str_partition ''/'' s in
      case (ipv4_address base, int_of_str len) of
        (Some a, Some l) \<Rightarrow>
          if 0 \<le> l \<and> l \<le> 32 \<and> a mod 2 ^ (32 - nat l) = 0 then Some (a, nat l) else None
      | _ \<Rightarrow> None)"

definition in_network :: "int \<Rightarrow> int \<times> nat \<Rightarrow> bool" where
  "in_network a net \<longleftrightarrow> a div 2 ^ (32 - snd net) = fst net div 2 ^ (32 - snd net)"

definition AKAMAI_CIDRS :: "string list" where
  "AKAMAI_CIDRS = [''2.16.0.0/13'', ''23.0.0.0/12'', ''23.32.0.0/11'', ''92.122.0.0/15'', ''104.64.0.0/10'',
     ''184.24.0.0/13'', ''184.50.0.0/15'', ''184.84.0.0/14'']"

definition CLOUDFRONT_CIDRS :: "string list" where
  "CLOUDFRONT_CIDRS = [''13.32.0.0/15'', ''13.35.0.0/16'', ''13.224.0.0/14'', ''13.249.0.0/16'', ''18.64.0.0/14'',
     ''18.160.0.0/13'', ''52.84.0.0/15'', ''54.182.0.0/16'', ''54.192.0.0/16'', ''54.230.0.0/16'', ''54.239.128.0/18'',
     ''99.84.0.0/16'', ''99.86.0.0/16'', ''108.138.0.0/15'', ''108.156.0.0/14'', ''143.204.0.0/16'',
     ''204.246.164.0/22'', ''205.251.192.0/19'']"

definition in_cidrs :: "int \<Rightarrow> string list \<Rightarrow> bool" where
  "in_cidrs a cidrs \<longleftrightarrow> list_ex (\<lambda>c. case ip_network c of None \<Rightarrow> False | Some net \<Rightarrow> in_network a net) cidrs"

definition pick_neutral_sni :: "string \<Rightarrow> string" where
  "pick_neutral_sni ip =
     (case ipv4_address ip of
        None \<Rightarrow> ''cloudflare.com''
      | Some addr \<Rightarrow>
          if in_cidrs addr AKAMAI_CIDRS then ''www.akamai.com''
          else if in_cidrs addr CLOUDFRONT_CIDRS then ''aws.amazon.com''
          else ''cloudflare.com'')"

text \<open>
  No entry of the tables makes the import raise, and no two entries of different tables overlap:
  the order of the two loops does not matter.
\<close>

definition net_overlap :: "int \<times> nat \<Rightarrow> int \<times> nat \<Rightarrow> bool" where
  "net_overlap m n \<longleftrightarrow> (let k = 32 - min (snd m) (snd n) in fst m div 2 ^ k = fst n div 2 ^ k)"

lemma in_network_shorter:
  assumes "in_network a m" "l \<le> snd m"
  shows "a div 2 ^ (32 - l) = fst m div 2 ^ (32 - l)"
proof -
  have p: "(2 :: int) ^ (32 - l) = 2 ^ (32 - snd m) * 2 ^ ((32 - l) - (32 - snd m))"
    using assms(2) by (simp flip: power_add)
  show ?thesis using assms(1) unfolding p by (simp add: in_network_def zdiv_zmult2_eq)
qed

lemma in_both_networks: "in_network a m \<Longrightarrow> in_network a n \<Longrightarrow> net_overlap m n"
  using in_network_shorter [of a m "min (snd m) (snd n)"] in_network_shorter [of a n "min (snd m) (snd n)"]
  by (simp add: net_overlap_def Let_def)

lemma digit_val_simps:
  "digit_val (CHR ''0'') = 0" "digit_val (CHR ''1'') = 1" "digit_val (CHR ''2'') = 2" "digit_val (CHR ''3'') = 3" "digit_val (CHR ''4'') = 4"
  "digit_val (CHR ''5'') = 5" "digit_val (CHR ''6'') = 6" "digit_val (CHR ''7'') = 7" "digit_val (CHR ''8'') = 8" "digit_val (CHR ''9'') = 9"
  by (simp_all add: digit_val_def)
lemma is_digit_simps:
  "is_digit (CHR ''0'')" "is_digit (CHR ''1'')" "is_digit (CHR ''2'')" "is_digit (CHR ''3'')" "is_digit (CHR ''4'')"
  "is_digit (CHR ''5'')" "is_digit (CHR ''6'')" "is_digit (CHR ''7'')" "is_digit (CHR ''8'')" "is_digit (CHR ''9'')"
  by (simp_all add: is_digit_def)

lemmas net_eval =
  ip_network_def ipv4_address_def ipv4_octet_def split_on_def digits_val_def digit_val_simps is_digit_simps
  str_partition_def starts_with_def int_of_str_def str_strip_def is_space_def digitpart_def Let_def
lemma tables_well_formed:
  "map ip_network AKAMAI_CIDRS = map Some
     [(34603008, 13), (385875968, 12), (387973120, 11), (1551499264, 15), (1749024768, 10), (3088580608, 13),
     (3090284544, 15), (3092512768, 14)]"
  "map ip_network CLOUDFRONT_CIDRS = map Some
     [(220200960, 15), (220397568, 16), (232783872, 14), (234422272, 16), (306184192, 14), (312475648, 13),
     (877920256, 15), (917897216, 16), (918552576, 16), (921042944, 16), (921665536, 18), (1666449408, 16),
     (1666580480, 16), (1820983296, 15), (1822162944, 14), (2412511232, 16), (3438715904, 22), (3455827968, 19)]"
  by (simp_all add: AKAMAI_CIDRS_def CLOUDFRONT_CIDRS_def net_eval)

lemma tables_disjoint:
  "m \<in> set (map the (map ip_network AKAMAI_CIDRS)) \<Longrightarrow> n \<in> set (map the (map ip_network CLOUDFRONT_CIDRS)) \<Longrightarrow> \<not> net_overlap m n"
  unfolding tables_well_formed by (auto simp: net_overlap_def)

lemma in_cidrs_iff: "in_cidrs a cidrs \<longleftrightarrow> (\<exists>c \<in> set cidrs. \<exists>n. ip_network c = Some n \<and> in_network a n)"
  unfolding in_cidrs_def list_ex_iff by (intro bex_cong [OF refl]) (simp split: option.split)

lemma neutral_sni_unambiguous: "\<not> (in_cidrs a AKAMAI_CIDRS \<and> in_cidrs a CLOUDFRONT_CIDRS)"
proof
  assume "in_cidrs a AKAMAI_CIDRS \<and> in_cidrs a CLOUDFRONT_CIDRS"
  then obtain c d m n where cd: "c \<in> set AKAMAI_CIDRS" "ip_network c = Some m" "in_network a m"
    "d \<in> set CLOUDFRONT_CIDRS" "ip_network d = Some n" "in_network a n"
    unfolding in_cidrs_iff by blast
  have "m \<in> set (map the (map ip_network AKAMAI_CIDRS))" using cd(1,2) by force
  moreover have "n \<in> set (map the (map ip_network CLOUDFRONT_CIDRS))" using cd(4,5) by force
  ultimately show False using tables_disjoint in_both_networks [OF cd(3,6)] by blast
qed

section \<open>One handshake\<close>

text \<open>
  How the blocking handshake ends; the clock readings are after the connect and at the end. Of
  the certificate only the subject and the issuer are read, each a list of lists of attributes;
  an attribute is a list of strings.
\<close>

type_synonym rdn_seq = "string list list list"

datatype handshake_end =
    HsDone rat rat "string option" "(rdn_seq \<times> rdn_seq) option"
  | HsCertVerification string
  | HsSslError string
  | HsReset rat
  | HsTimeout
  | HsOther string string

definition extract_cn :: "rdn_seq \<Rightarrow> string option" where
  "extract_cn rdns =
     map_option (\<lambda>attr. attr ! 1) (first_that (\<lambda>attr. length attr = 2 \<and> attr ! 0 = ''commonName'') (concat rdns))"

definition ms_since :: "rat \<Rightarrow> rat \<Rightarrow> json" where
  "ms_since t0 t = JFloat (Fin (fmul (fsub t t0) 1000))"

fun tls_handshake_blocking :: "rat \<Rightarrow> handshake_end \<Rightarrow> (string, json) dict" where
  "tls_handshake_blocking t0 (HsDone t_connect t_end alpn cert) =
     [(''ok'', JBool True), (''rtt_connect_ms'', ms_since t0 t_connect), (''rtt_total_ms'', ms_since t0 t_end),
      (''alpn'', json_str_opt alpn),
      (''cert_subject_cn'', json_str_opt (Option.bind cert (extract_cn \<circ> fst))),
      (''cert_issuer_cn'', json_str_opt (Option.bind cert (extract_cn \<circ> snd)))]"
| "tls_handshake_blocking t0 (HsCertVerification e) =
     [(''ok'', JBool False), (''error'', JStr ''cert_verification_failed''), (''detail'', JStr e)]"
| "tls_handshake_blocking t0 (HsSslError e) =
     [(''ok'', JBool False), (''error'', JStr ''ssl_error''), (''detail'', JStr e)]"
| "tls_handshake_blocking t0 (HsReset t) =
     [(''ok'', JBool False), (''error'', JStr ''connection_reset''), (''elapsed_ms'', ms_since t0 t)]"
| "tls_handshake_blocking t0 HsTimeout = [(''ok'', JBool False), (''error'', JStr ''timeout'')]"
| "tls_handshake_blocking t0 (HsOther cls e) = [(''ok'', JBool False), (''error'', JStr cls), (''detail'', JStr e)]"

text \<open>The executor returns the handshake's result, or is cut off, or fails itself.\<close>

datatype tls_end = Handshake rat handshake_end | OuterTimeout | ExecutorError string

type_synonym tls_outcome_ev = "verdict \<times> (string, json) dict"

definition tls_connect :: "string \<Rightarrow> json \<Rightarrow> tls_end \<Rightarrow> tls_outcome_ev" where
  "tls_connect ip sni ending =
     (let evidence = [(''ip'', JStr ip), (''sni'', sni), (''port'', JInt 443)] in
      case ending of
        OuterTimeout \<Rightarrow> (BLOCKED, dict_set ''error'' (JStr ''outer_timeout'') evidence)
      | ExecutorError e \<Rightarrow> (ERROR, dict_set ''error'' (JStr e) evidence)
      | Handshake t0 h \<Rightarrow>
          let result = tls_handshake_blocking t0 h; evidence = dict_update evidence result in
          if truthy (jget result ''ok'') then (OK, evidence)
          else if jget result ''error'' \<in> {JStr ''connection_reset'', JStr ''timeout''} then (BLOCKED, evidence)
          else (ANOMALY, evidence))"

text \<open>Attempts \<open>n\<close>, \<open>n + 1\<close>, \<dots> of those left; the first success ends them.\<close>

fun connect_loop :: "(nat \<Rightarrow> tls_outcome_ev) \<Rightarrow> nat \<Rightarrow> nat \<Rightarrow> tls_outcome_ev \<Rightarrow> tls_outcome_ev \<times> nat" where
  "connect_loop attempt 0 n latest = (latest, n - 1)"
| "connect_loop attempt (Suc left) n latest =
     (if fst (attempt n) = OK then (attempt n, n) else connect_loop attempt left (n + 1) (attempt n))"

definition tls_connect_with_repeats :: "(nat \<Rightarrow> tls_end) \<Rightarrow> string \<Rightarrow> json \<Rightarrow> int \<Rightarrow> tls_outcome_ev \<times> nat" where
  "tls_connect_with_repeats ending ip sni repeats =
     connect_loop (\<lambda>n. tls_connect ip sni (ending n)) (nat (max 1 repeats)) 1 (INCONCLUSIVE, [])"

section \<open>The comparison of the two names\<close>

definition attribute_tls_failure :: "verdict \<Rightarrow> (string, json) dict \<Rightarrow> blocking_method option" where
  "attribute_tls_failure verdict evidence =
     (let err = dict_default evidence ''error'' (JStr []) in
      if verdict = OK then None
      else if err = JStr ''connection_reset'' then Some TCP_RST_AFTER_TLS_CH
      else if err \<in> {JStr ''timeout'', JStr ''outer_timeout''} then Some IP_DROPPED
      else if err \<in> {JStr ''ssl_error'', JStr ''cert_verification_failed''} then Some TLS_HANDSHAKE_FAILURE
      else None)"

definition confirmed_note :: string where
  "confirmed_note = ''Neutral SNI succeeds to same IP '' @ [CHR 0xE2, CHR 0x86, CHR 0x92] @ '' SNI-level blocking confirmed''"

definition likely_note :: string where
  "likely_note = ''Neutral SNI TCP-connects (server-side rejection confirms IP reachable) ''
     @ ''but blocked SNI fails '' @ [CHR 0xE2, CHR 0x86, CHR 0x92] @ '' likely SNI-level blocking''"

definition attribute_sni_blocking ::
    "test_result \<Rightarrow> tls_outcome_ev \<Rightarrow> tls_outcome_ev \<Rightarrow> test_result" where
  "attribute_sni_blocking blocked_result blocked neutral =
     (let (v_blocked, ev_blocked) = blocked; (v_neutral, ev_neutral) = neutral;
          neutral_tcp_ok = (v_neutral = OK \<or> (v_neutral = INCONCLUSIVE \<and> jget ev_neutral ''error'' = JStr ''ssl_error'')) in
      if \<not> neutral_tcp_ok \<or> v_blocked = OK then blocked_result
      else if dict_default ev_blocked ''error'' (JStr []) \<notin> {JStr ''connection_reset'', JStr ''timeout''} then blocked_result
      else blocked_result
        \<lparr>tr_method := Some TCP_RST_AFTER_TLS_CH,
         tr_confidence := if v_neutral = OK then fl (92 / 100) else fl (82 / 100),
         tr_notes := Some (if v_neutral = OK then confirmed_note else likely_note)\<rparr>)"

section \<open>Base64 and hexadecimal\<close>

definition B64_ALPHABET :: string where
  "B64_ALPHABET = ''ABCDEFGHIJKLMNOPQRSTUVWXYZabcdefghijklmnopqrstuvwxyz0123456789+/''"

definition b64_char :: "nat \<Rightarrow> char" where
  "b64_char n = B64_ALPHABET ! n"

fun b64encode :: "byte list \<Rightarrow> string" where
  "b64encode [] = []"
| "b64encode [a] = [b64_char (unat a div 4), b64_char (unat a mod 4 * 16), CHR ''='', CHR ''='']"
| "b64encode [a, b] = [b64_char (unat a div 4), b64_char (unat a mod 4 * 16 + unat b div 16),
     b64_char (unat b mod 16 * 4), CHR ''='']"
| "b64encode (a # b # c # bs) = b64_char (unat a div 4) # b64_char (unat a mod 4 * 16 + unat b div 16)
     # b64_char (unat b mod 16 * 4 + unat c div 64) # b64_char (unat c mod 64) # b64encode bs"

text \<open>
  \<open>b64decode(s, validate=True)\<close>: groups of four letters of the alphabet, only the last one padded;
  \<open>None\<close> is the \<open>binascii.Error\<close> or, for text outside ASCII, the \<open>ValueError\<close>. Bits that padding
  makes unused are ignored.
\<close>

definition b64_val :: "char \<Rightarrow> nat option" where
  "b64_val c = (let n = length (takeWhile (\<lambda>x. x \<noteq> c) B64_ALPHABET) in if n < 64 then Some n else None)"

fun b64decode :: "string \<Rightarrow> byte list option" where
  "b64decode [] = Some []"
| "b64decode (p # q # r # s # rest) =
     (case (b64_val p, b64_val q) of
        (Some x, Some y) \<Rightarrow>
          let a = of_nat (x * 4 + y div 16) in
          if r = CHR ''='' then (if s = CHR ''='' \<and> rest = [] then Some [a] else None)
          else (case b64_val r of
              None \<Rightarrow> None
            | Some z \<Rightarrow>
                let b = of_nat (y mod 16 * 16 + z div 4) in
                if s = CHR ''='' then (if rest = [] then Some [a, b] else None)
                else (case (b64_val s, b64decode rest) of
                    (Some w, Some bs) \<Rightarrow> Some (a # b # of_nat (z mod 4 * 64 + w) # bs)
                  | _ \<Rightarrow> None))
      | _ \<Rightarrow> None)"
| "b64decode _ = None"

text \<open>\<open>bytes.fromhex\<close> of a text without blanks.\<close>

definition hex_val :: "char \<Rightarrow> nat option" where
  "hex_val c =
     (if is_digit c then Some (digit_val c)
      else let n = of_char (lower_char c) :: nat in if 97 \<le> n \<and> n \<le> 102 then Some (n - 87) else None)"

fun fromhex :: "string \<Rightarrow> byte list option" where
  "fromhex [] = Some []"
| "fromhex (h # l # s) =
     (case (hex_val h, hex_val l, fromhex s) of
        (Some x, Some y, Some bs) \<Rightarrow> Some (of_nat (16 * x + y) # bs)
      | _ \<Rightarrow> None)"
| "fromhex [_] = None"

section \<open>The configuration in an HTTPS record\<close>

text \<open>\<open>Inl ()\<close> is an exception, which makes \<open>fetch_ech_config\<close> go on to the next source.\<close>

fun ech_part :: "string list \<Rightarrow> unit + string option" where
  "ech_part [] = Inr None"
| "ech_part (part # parts) =
     (if starts_with part ''ech='' then
        (case b64decode (drop 4 part) of None \<Rightarrow> Inl () | Some _ \<Rightarrow> Inr (Some (drop 4 part)))
      else ech_part parts)"

definition parse_ech_from_text_rdata :: "string \<Rightarrow> unit + string option" where
  "parse_ech_from_text_rdata rdata = ech_part (split_ws rdata)"

text \<open>The SvcParams from position \<open>i\<close>: a key, a length and that many bytes, or what is left.\<close>

function svc_params :: "byte list \<Rightarrow> nat \<Rightarrow> byte list option" where
  "svc_params raw i =
     (if i + 4 \<le> length raw then
        let key = from_u16 (raw ! i) (raw ! (i + 1)); vlen = from_u16 (raw ! (i + 2)) (raw ! (i + 3)) in
        if key = 5 then Some (take vlen (drop (i + 4) raw)) else svc_params raw (i + (4 + vlen))
      else None)"
  by pat_completeness auto

termination by (relation "measure (\<lambda>(raw, i). length raw - i)") auto

declare svc_params.simps [simp del]

definition parse_ech_from_hex_rdata :: "string \<Rightarrow> unit + string option" where
  "parse_ech_from_hex_rdata rdata =
     (if \<not> starts_with rdata [CHR 0x5C, CHR ''#''] then Inr None
      else let parts = split_ws rdata in
        if length parts < 3 then Inr None
        else (case fromhex (concat (drop 2 parts)) of
            None \<Rightarrow> Inl ()
          | Some raw \<Rightarrow> Inr (map_option b64encode (svc_params raw (skip_labels raw 2 + 1)))))"

fun json_is_int :: "int \<Rightarrow> json \<Rightarrow> bool" where
  "json_is_int n (JInt i) = (i = n)"
| "json_is_int n (JBool b) = (of_bool b = n)"
| "json_is_int n (JFloat f) = (f = Fin (of_int n))"
| "json_is_int n _ = False"

text \<open>
  The loop over the answers. An answer that is no object, a data field that is no string and a
  collection that is no list raise; an object's keys are strings, so that an empty one is only
  no answer.
\<close>

fun answers_of :: "json option \<Rightarrow> unit + json list" where
  "answers_of (Some (JObj d)) =
     (case dict_default d ''Answer'' (JList []) of
        JList as \<Rightarrow> Inr as
      | JObj e \<Rightarrow> if e = [] then Inr [] else Inl ()
      | JStr s \<Rightarrow> if s = [] then Inr [] else Inl ()
      | _ \<Rightarrow> Inl ())"
| "answers_of _ = Inl ()"

fun scan_answers :: "(string \<Rightarrow> unit + string option) \<Rightarrow> json list \<Rightarrow> unit + string option" where
  "scan_answers parse [] = Inr None"
| "scan_answers parse (JObj ans # rest) =
     (if \<not> json_is_int 65 (jget ans ''type'') then scan_answers parse rest
      else (case dict_default ans ''data'' (JStr []) of
          JStr rdata \<Rightarrow> bindE (parse rdata) (\<lambda>ech. case ech of
              Some e \<Rightarrow> Inr (Some e) | None \<Rightarrow> scan_answers parse rest)
        | _ \<Rightarrow> Inl ()))"
| "scan_answers parse (_ # rest) = Inl ()"

definition ech_of_reply :: "(string \<Rightarrow> unit + string option) \<Rightarrow> unit + http_reply \<Rightarrow> unit + string option" where
  "ech_of_reply parse rsp = bindE rsp (\<lambda>(status_code, body).
     if status_code \<noteq> 200 then Inr None else bindE (answers_of body) (scan_answers parse))"

definition try_google_ech :: "unit + http_reply \<Rightarrow> unit + string option" where
  "try_google_ech = ech_of_reply parse_ech_from_text_rdata"

text \<open>\<open>text or hex\<close>: an empty configuration in text form counts as none.\<close>

definition cloudflare_rdata :: "string \<Rightarrow> unit + string option" where
  "cloudflare_rdata dat = (let rdata = str_strip dat in
     bindE (parse_ech_from_text_rdata rdata) (\<lambda>ech. case ech of
         Some (c # s) \<Rightarrow> Inr (Some (c # s)) | _ \<Rightarrow> parse_ech_from_hex_rdata rdata))"

definition try_cloudflare_ech :: "unit + http_reply \<Rightarrow> unit + string option" where
  "try_cloudflare_ech = ech_of_reply cloudflare_rdata"

fun first_config :: "(unit + string option) list \<Rightarrow> string option" where
  "first_config [] = None"
| "first_config (Inr (Some e) # _) = Some e"
| "first_config (_ # rest) = first_config rest"

definition fetch_ech_config :: "unit + http_reply \<Rightarrow> unit + http_reply \<Rightarrow> string option" where
  "fetch_ech_config google cloudflare = first_config [try_google_ech google, try_cloudflare_ech cloudflare]"

section \<open>The globals of the module\<close>

record tls_globals =
  gl_curl_cache :: "bool option"
  gl_curl_binary :: string
  gl_resolve_path :: "(string, string) dict"

definition tls_globals_init :: tls_globals where
  "tls_globals_init = \<lparr>gl_curl_cache = None, gl_curl_binary = ''curl'', gl_resolve_path = []\<rparr>"

text \<open>How a subprocess ends: its return code and the two streams as text.\<close>

datatype subprocess_end = NotFound | SpawnFailed | TimedOut | Exited int string string

record tls_env =
  le_handshake :: "string \<Rightarrow> string \<Rightarrow> json \<Rightarrow> bool \<Rightarrow> nat \<Rightarrow> tls_end"
  le_doh_a :: "string \<Rightarrow> unit + http_reply"
  le_getaddrinfo :: "string \<Rightarrow> string list option"
  le_google :: "string \<Rightarrow> unit + http_reply"
  le_cloudflare :: "string \<Rightarrow> unit + http_reply"
  le_curl_version :: "string \<Rightarrow> subprocess_end"
  le_curl :: "string \<Rightarrow> string \<Rightarrow> string \<Rightarrow> subprocess_end"
  le_start :: "string \<Rightarrow> rat"
  le_finish :: "string \<Rightarrow> rat"
  le_repr :: "json \<Rightarrow> string"

text \<open>\<open>s.replace(sub, "")\<close> for a nonempty \<open>sub\<close>.\<close>

fun remove_all :: "string \<Rightarrow> string \<Rightarrow> string" where
  "remove_all sub [] = []"
| "remove_all sub (c # s) =
     (if sub \<noteq> [] \<and> starts_with (c # s) sub then remove_all sub (drop (length sub - 1) s) else c # remove_all sub s)"

definition features_have_ech :: "string \<Rightarrow> bool" where
  "features_have_ech out =
     (let feat_line = (case first_that (\<lambda>line. starts_with line ''features:'') (splitlines (str_lower out)) of
          Some line \<Rightarrow> line | None \<Rightarrow> [])
      in ''ech'' \<in> set (split_ws (remove_all ''features:'' feat_line)))"

fun ech_curl :: "(string \<Rightarrow> subprocess_end) \<Rightarrow> string list \<Rightarrow> string option" where
  "ech_curl version [] = None"
| "ech_curl version (candidate # candidates) =
     (case version candidate of
        Exited rc out err \<Rightarrow> if features_have_ech out then Some candidate else ech_curl version candidates
      | _ \<Rightarrow> ech_curl version candidates)"

definition curl_supports_ech :: "tls_env \<Rightarrow> tls_globals \<Rightarrow> bool \<times> tls_globals" where
  "curl_supports_ech E g =
     (case gl_curl_cache g of
        Some b \<Rightarrow> (b, g)
      | None \<Rightarrow> (case ech_curl (le_curl_version E) [''curl-ech'', ''curl''] of
            Some candidate \<Rightarrow> (True, g\<lparr>gl_curl_cache := Some True, gl_curl_binary := candidate\<rparr>)
          | None \<Rightarrow> (False, g\<lparr>gl_curl_cache := Some False\<rparr>)))"

section \<open>The address of a domain\<close>

text \<open>The first address record with data; \<open>None\<close> is none, or an exception, which is suppressed.\<close>

fun first_a_record :: "json list \<Rightarrow> json option" where
  "first_a_record [] = None"
| "first_a_record (JObj ans # rest) =
     (if json_is_int 1 (jget ans ''type'') \<and> truthy (jget ans ''data'') then Some (jget ans ''data'')
      else first_a_record rest)"
| "first_a_record (_ # rest) = None"

definition doh_address :: "unit + http_reply \<Rightarrow> json option" where
  "doh_address r =
     (case bindE r (\<lambda>(status_code, body). if status_code = 200 then answers_of body else Inr []) of
        Inl e \<Rightarrow> None | Inr answers \<Rightarrow> first_a_record answers)"

definition resolve_ip :: "tls_env \<Rightarrow> tls_globals \<Rightarrow> string \<Rightarrow> string option \<times> tls_globals" where
  "resolve_ip E g domain =
     (let path = (\<lambda>p. g\<lparr>gl_resolve_path := dict_set domain p (gl_resolve_path g)\<rparr>) in
      case doh_address (le_doh_a E domain) of
        Some d \<Rightarrow> (Some (str_of_json (le_repr E) d), path ''doh'')
      | None \<Rightarrow> (case le_getaddrinfo E domain of
            Some (ip # ips) \<Rightarrow> (Some ip, path ''system_resolver_fallback'')
          | _ \<Rightarrow> (None, path ''no_resolution'')))"

section \<open>Encrypted client hello\<close>

text \<open>\<open>s[-n:]\<close> of a text given as UTF-8.\<close>

fun drop_chars :: "nat \<Rightarrow> string \<Rightarrow> string" where
  "drop_chars n [] = []"
| "drop_chars n (c # s) =
     (if 0x80 \<le> (of_char c :: int) \<and> (of_char c :: int) < 0xC0 then drop_chars n s
      else if n = 0 then c # s else drop_chars (n - 1) s)"

definition str_tail :: "nat \<Rightarrow> string \<Rightarrow> string" where
  "str_tail n s = drop_chars (str_len s - n) s"

definition NETWORK_BLOCKED_RCS :: "int list" where
  "NETWORK_BLOCKED_RCS = [7, 28, 35, 52, 56]"

definition ECH_NOT_AVAILABLE_PHRASES :: "string list" where
  "ECH_NOT_AVAILABLE_PHRASES = [''ech is not available'', ''no ech configuration'', ''no echconfig'',
     ''not advertising ech'', ''ech retry-config'']"

definition no_ech_note :: string where
  "no_ech_note = ''Server has no ECH config '' @ em_dash @ '' cannot conclude about censorship.''"

definition ech_verdict :: "int \<Rightarrow> string \<Rightarrow> verdict \<times> blocking_method option \<times> string option \<times> rat" where
  "ech_verdict rc stderr_text =
     (let stderr_low = str_lower stderr_text in
      if rc = 0 then (OK, None, None, 1)
      else if list_ex (str_contains stderr_low) ECH_NOT_AVAILABLE_PHRASES then (INCONCLUSIVE, None, Some no_ech_note, 1)
      else if rc \<in> set NETWORK_BLOCKED_RCS then (BLOCKED, Some ECH_BLOCKED, None, 1)
      else (ANOMALY, None, None, fl (4 / 10)))"

definition test_ech_body :: "tls_env \<Rightarrow> tls_globals \<Rightarrow> string \<Rightarrow> test_result option \<times> tls_globals" where
  "test_ech_body E g domain =
     (let new = TestResult_new (''tls_'' @ dns_slug domain @ ''_ech'') ''tls'' domain;
          (supported, g) = curl_supports_ech E g in
      if \<not> supported then
        (Some ((new INCONCLUSIVE)\<lparr>tr_confidence := 0,
           tr_evidence := [(''status'', JStr ''curl_without_ech''),
             (''reason'', JStr ''local curl has no --ech feature flag in tls-features'')],
           tr_notes := Some ''ECH cannot be tested without a curl + TLS backend compiled with ECH.''\<rparr>), g)
      else (case fetch_ech_config (le_google E domain) (le_cloudflare E domain) of
          None \<Rightarrow> (Some ((new INCONCLUSIVE)\<lparr>tr_confidence := 1,
             tr_evidence := [(''status'', JStr ''no_ech_in_https_record'')], tr_notes := Some no_ech_note\<rparr>), g)
        | Some config \<Rightarrow>
            (case le_curl E (gl_curl_binary g) config domain of
               NotFound \<Rightarrow> (None, g)
             | SpawnFailed \<Rightarrow> (None, g)
             | TimedOut \<Rightarrow> (Some ((new INCONCLUSIVE)\<lparr>tr_confidence := fl (1 / 10),
                 tr_evidence := [(''status'', JStr ''curl_timeout'')]\<rparr>), g)
             | Exited rc out err \<Rightarrow>
                 let (verdict, meth, notes, confidence) = ech_verdict rc err in
                 (Some ((new verdict)\<lparr>tr_method := meth, tr_confidence := confidence,
                   tr_evidence := [(''curl_returncode'', JInt rc), (''ech_config_source'', JStr ''https_record_doh''),
                     (''stderr_tail'', JStr (str_tail 300 err))],
                   tr_notes := notes\<rparr>), g))))"

definition test_ech :: "tls_env \<Rightarrow> tls_globals \<Rightarrow> string \<Rightarrow> test_result option \<times> tls_globals" where
  "test_ech E g domain =
     (let (r, g) = test_ech_body E g domain in (stamp_test_elapsed (le_start E domain) (le_finish E domain) r, g))"

section \<open>The tests of a target\<close>

definition test_sni_scenarios ::
    "tls_env \<Rightarrow> tls_globals \<Rightarrow> string \<Rightarrow> string \<Rightarrow> json \<Rightarrow> int \<Rightarrow> bool \<Rightarrow> test_result list \<times> tls_globals" where
  "test_sni_scenarios E g domain ip blocked_sni repeats ech_advertised =
     (let ((v_blocked, ev_blocked), attempts_blocked) =
            tls_connect_with_repeats (le_handshake E domain ip blocked_sni True) ip blocked_sni repeats;
          ev_blocked = (case dict_default (gl_resolve_path g) domain [] of
              [] \<Rightarrow> ev_blocked | c # p \<Rightarrow> dict_set ''resolve_path'' (JStr (c # p)) ev_blocked);
          blocked_result = (TestResult_new (''tls_'' @ dns_slug domain @ ''_sni_blocked'') ''tls''
              (ip @ '':'' @ str_of_json (le_repr E) blocked_sni) v_blocked)
            \<lparr>tr_method := attribute_tls_failure v_blocked ev_blocked, tr_evidence := ev_blocked,
             tr_attempts := int attempts_blocked\<rparr>;
          neutral_sni = pick_neutral_sni ip;
          ((v_neutral, ev_neutral), attempts_neutral) =
            tls_connect_with_repeats (le_handshake E domain ip (JStr neutral_sni) False) ip (JStr neutral_sni) repeats;
          v_neutral = (if v_neutral = ANOMALY \<and> jget ev_neutral ''error'' = JStr ''ssl_error'' then INCONCLUSIVE
            else v_neutral);
          neutral_result = (TestResult_new (''tls_'' @ dns_slug domain @ ''_sni_neutral'') ''tls''
              (ip @ '':'' @ neutral_sni) v_neutral)
            \<lparr>tr_evidence := ev_neutral, tr_attempts := int attempts_neutral\<rparr>;
          results = [attribute_sni_blocking blocked_result (v_blocked, ev_blocked) (v_neutral, ev_neutral), neutral_result]
      in if ech_advertised then
           (let (r, g) = test_ech E g domain in (results @ (case r of Some e \<Rightarrow> [e] | None \<Rightarrow> []), g))
         else (results, g))"

text \<open>A target with the address its entry gives, if any; an empty one is resolved too.\<close>

definition target_address :: "tls_env \<Rightarrow> tls_globals \<Rightarrow> string option \<Rightarrow> string \<Rightarrow> string option \<times> tls_globals" where
  "target_address E g ip domain = (case ip of Some (c # s) \<Rightarrow> (ip, g) | _ \<Rightarrow> resolve_ip E g domain)"

definition test_target :: "tls_env \<Rightarrow> int \<Rightarrow> tls_globals \<Rightarrow> string option \<times> tls_target \<Rightarrow> test_result list \<times> tls_globals" where
  "test_target E repeats g = (\<lambda>(ip, t).
     let (ip, g) = target_address E g ip (tl_domain t) in
     case ip of
       Some (c # s) \<Rightarrow> test_sni_scenarios E g (tl_domain t) (c # s) (tl_blocked_sni t) repeats (tl_ech_advertised t)
     | _ \<Rightarrow> ([(TestResult_new (''tls_'' @ dns_slug (tl_domain t) @ ''_no_ip'') ''tls'' (tl_domain t) INCONCLUSIVE)
           \<lparr>tr_evidence := [(''reason'', JStr ''could_not_resolve_ip'')]\<rparr>], g))"

fun test_targets :: "tls_env \<Rightarrow> int \<Rightarrow> tls_globals \<Rightarrow> (string option \<times> tls_target) list
    \<Rightarrow> test_result list list \<times> tls_globals" where
  "test_targets E repeats g [] = ([], g)"
| "test_targets E repeats g (t # ts) =
     (let (r, g) = test_target E repeats g t; (rs, g) = test_targets E repeats g ts in (r # rs, g))"

text \<open>
  The schedule modelled runs each target to its end before the next; \<open>tls_targets_independent\<close>
  below shows that the results are those of each target alone.
\<close>

definition run_tls_tests :: "censprobe_config option \<Rightarrow> tls_env \<Rightarrow> tls_globals \<Rightarrow> (string option \<times> tls_target) list \<Rightarrow> int
    \<Rightarrow> config_error + test_result list \<times> tls_globals" where
  "run_tls_tests CONFIG E g targets repeats =
     bindE (get_config CONFIG) (\<lambda>c.
       let (rs, g) = test_targets E repeats (g\<lparr>gl_resolve_path := []\<rparr>) targets in Inr (concat rs, g))"

section \<open>Encodings are read back\<close>

lemma b64_alphabet:
  assumes "n < 64"
  shows "b64_val (b64_char n) = Some n" "b64_char n \<noteq> CHR ''=''"
proof -
  have "list_all (\<lambda>n. b64_val (b64_char n) = Some n \<and> b64_char n \<noteq> CHR ''='') [0..<64]" by code_simp
  then show "b64_val (b64_char n) = Some n" "b64_char n \<noteq> CHR ''=''" using assms by (simp_all add: list_all_iff)
qed

lemma of_nat_unat_byte: "n = unat b \<Longrightarrow> of_nat n = (b :: byte)"
  by simp

lemma byte_bound: "unat (b :: byte) < 256"
proof -
  have "unat b < 2 ^ LENGTH(8)" by (rule unsigned_less)
  then show ?thesis by simp
qed

lemma mult_add_div: "0 < n \<Longrightarrow> b < n \<Longrightarrow> (a * n + b) div n = (a :: nat)"
  by (simp add: add.commute)

lemma mult_add_mod: "b < n \<Longrightarrow> (a * n + b) mod n = (b :: nat)"
  by simp

lemma b64decode_encode: "b64decode (b64encode bs) = Some bs"
proof (induction bs rule: b64encode.induct)
  case (2 a)
  have "unat a div 4 < 64" "unat a mod 4 * 16 < 64" using byte_bound [of a] by auto
  moreover have "unat a div 4 * 4 + unat a mod 4 * 16 div 16 = unat a" by simp
  ultimately show ?case by (simp add: b64_alphabet of_nat_unat_byte flip: of_nat_add of_nat_mult)
next
  case (3 a b)
  let ?m = "unat a mod 4 * 16 + unat b div 16"
  have d: "unat b div 16 < 16" using byte_bound [of b] by simp
  have r: "unat a div 4 < 64" "?m < 64" "unat b mod 16 * 4 < 64" using byte_bound [of a] d by auto
  have "?m div 16 = unat a mod 4" "?m mod 16 = unat b div 16" using d by (simp_all add: mult_add_div mult_add_mod)
  then have "unat a div 4 * 4 + ?m div 16 = unat a" "?m mod 16 * 16 + unat b mod 16 * 4 div 4 = unat b" by simp_all
  then show ?case using r by (simp add: b64_alphabet of_nat_unat_byte del: of_nat_add of_nat_mult)
next
  case (4 a b c bs)
  let ?m = "unat a mod 4 * 16 + unat b div 16" and ?l = "unat b mod 16 * 4 + unat c div 64"
  have d: "unat b div 16 < 16" "unat c div 64 < 4" using byte_bound [of b] byte_bound [of c] by simp_all
  have r: "unat a div 4 < 64" "?m < 64" "?l < 64" "unat c mod 64 < 64" using byte_bound [of a] d by auto
  have "?m div 16 = unat a mod 4" "?m mod 16 = unat b div 16" "?l div 4 = unat b mod 16" "?l mod 4 = unat c div 64"
    using d by (simp_all add: mult_add_div mult_add_mod)
  then have "unat a div 4 * 4 + ?m div 16 = unat a" "?m mod 16 * 16 + ?l div 4 = unat b"
    "?l mod 4 * 64 + unat c mod 64 = unat c" by simp_all
  then show ?case using r 4 by (simp add: b64_alphabet of_nat_unat_byte del: of_nat_add of_nat_mult)
qed simp

lemma b64encode_no_space: "c \<in> set (b64encode bs) \<Longrightarrow> \<not> is_space c"
proof -
  have "list_all (\<lambda>n. \<not> is_space (b64_char n)) [0..<64]" by code_simp
  then have sp: "n < 64 \<Longrightarrow> \<not> is_space (b64_char n)" for n by (simp add: list_all_iff)
  have pad: "\<not> is_space (CHR ''='')" by (simp add: is_space_def)
  have r: "unat (a :: byte) div 4 < 64" "unat a mod 4 * 16 + unat (b :: byte) div 16 < 64" "unat a mod 4 * 16 < 64"
    "unat a mod 16 * 4 + unat b div 64 < 64" "unat a mod 16 * 4 < 64" "unat a mod 64 < 64" for a b
    using byte_bound [of a] byte_bound [of b] by auto
  show "c \<in> set (b64encode bs) \<Longrightarrow> \<not> is_space c"
    by (induction bs rule: b64encode.induct) (auto simp: sp pad r)
qed

definition hex_of_byte :: "byte \<Rightarrow> string" where
  "hex_of_byte b = (let d = (\<lambda>n. ''0123456789abcdef'' ! n) in [d (unat b div 16), d (unat b mod 16)])"

definition hex_of_bytes :: "byte list \<Rightarrow> string" where
  "hex_of_bytes bs = concat (map hex_of_byte bs)"

lemma hex_digit_val:
  assumes "n < 16"
  shows "hex_val (''0123456789abcdef'' ! n) = Some n" "\<not> is_space (''0123456789abcdef'' ! n)"
proof -
  have "list_all (\<lambda>n. hex_val (''0123456789abcdef'' ! n) = Some n \<and> \<not> is_space (''0123456789abcdef'' ! n)) [0..<16]"
    by code_simp
  then show "hex_val (''0123456789abcdef'' ! n) = Some n" "\<not> is_space (''0123456789abcdef'' ! n)"
    using assms by (simp_all add: list_all_iff)
qed

lemma fromhex_hex: "fromhex (hex_of_bytes bs) = Some bs"
proof (induction bs)
  case (Cons b bs)
  have "unat b div 16 < 16" using byte_bound [of b] by simp
  then show ?case using Cons
    by (simp add: hex_of_bytes_def hex_of_byte_def Let_def hex_digit_val of_nat_unat_byte del: of_nat_add of_nat_mult)
qed (simp add: hex_of_bytes_def)

lemma hex_word_text: "bs \<noteq> [] \<Longrightarrow> word_text (hex_of_bytes bs)"
proof -
  have "\<not> is_space c" if "c \<in> set (hex_of_byte b)" for b c
  proof -
    have "unat b div 16 < 16" using byte_bound [of b] by simp
    then show ?thesis using that hex_digit_val(2) by (auto simp: hex_of_byte_def Let_def)
  qed
  then show "bs \<noteq> [] \<Longrightarrow> word_text (hex_of_bytes bs)"
    by (cases bs) (auto simp: word_text_def hex_of_bytes_def, simp add: hex_of_byte_def Let_def)
qed

section \<open>The HTTPS record is read back\<close>

text \<open>The record's wire form: a priority, the target name and parameters, each a key with its value.\<close>

definition encode_param :: "nat \<times> byte list \<Rightarrow> byte list" where
  "encode_param = (\<lambda>(key, val). u16 key @ u16 (length val) @ val)"

definition param_ok :: "nat \<times> byte list \<Rightarrow> bool" where
  "param_ok p \<longleftrightarrow> fst p < 65536 \<and> length (snd p) < 65536"

definition svcb_rdata :: "byte list \<Rightarrow> byte list list \<Rightarrow> (nat \<times> byte list) list \<Rightarrow> byte list" where
  "svcb_rdata priority labels params = priority @ encode_name (Labels labels) @ concat (map encode_param params)"

text \<open>
  Its unknown-format text: \<open>\#\<close>, the length and the bytes in hexadecimal, with blanks anywhere between
  the digits (Cloudflare writes one after every byte).
\<close>

fun blank_sep :: "string list \<Rightarrow> string" where
  "blank_sep [] = []"
| "blank_sep [w] = w"
| "blank_sep (w # v # ws) = w @ CHR '' '' # blank_sep (v # ws)"

definition svcb_text :: "byte list \<Rightarrow> string list \<Rightarrow> string" where
  "svcb_text raw ws = blank_sep ([CHR 0x5C, CHR ''#''] # str_of_int (int (length raw)) # ws)"

definition hex_words :: "byte list \<Rightarrow> string list \<Rightarrow> bool" where
  "hex_words raw ws \<longleftrightarrow> concat ws = hex_of_bytes raw \<and> [] \<notin> set ws"

lemma split_blank_sep: "list_all word_text ws \<Longrightarrow> split_ws (blank_sep ws) = ws"
proof (induction ws rule: blank_sep.induct)
  case 1
  show ?case by code_simp
qed (simp_all add: split_ws_word split_ws_last)

lemma hex_words_text:
  assumes "hex_words raw ws" "raw \<noteq> []"
  shows "list_all word_text ws" "ws \<noteq> []"
proof -
  have "\<not> is_space c" if "w \<in> set ws" "c \<in> set w" for w c
  proof -
    have "c \<in> set (hex_of_bytes raw)" using that assms(1) by (metis (no_types) UN_I hex_words_def set_concat)
    then show ?thesis using hex_word_text [OF assms(2)] by (auto simp: word_text_def)
  qed
  then show "list_all word_text ws" using assms(1) by (auto simp: list_all_iff word_text_def hex_words_def)
  show "ws \<noteq> []" using assms hex_word_text [OF assms(2)] by (auto simp: hex_words_def word_text_def)
qed

lemma ech_part_skips:
  "list_all (\<lambda>w. \<not> starts_with w ''ech='') before \<Longrightarrow> ech_part (before @ ws) = ech_part ws"
  by (induction before) simp_all

lemma svc_params_encoded:
  "list_all param_ok params \<Longrightarrow>
     svc_params (pre @ concat (map encode_param params)) (length pre) = dict_get params 5"
proof (induction params arbitrary: pre)
  case Nil
  then show ?case by (simp add: svc_params.simps)
next
  case (Cons p params)
  obtain key val where p: "p = (key, val)" by force
  then have ok: "key < 65536" "length val < 65536" using Cons.prems by (simp_all add: param_ok_def)
  define rest where "rest = concat (map encode_param params)"
  define raw where "raw = pre @ concat (map encode_param (p # params))"
  let ?fields = "u16 key @ u16 (length val) @ val @ rest"
  have raw: "raw = pre @ ?fields" by (simp add: raw_def encode_param_def p rest_def)
  have at: "raw ! (length pre + i) = ?fields ! i" for i unfolding raw by (rule nth_after)
  have k: "from_u16 (raw ! length pre) (raw ! (length pre + 1)) = key"
    using at [of 0] at [of 1] from_u16_u16 [OF ok(1)] by (simp add: nth_append)
  have v: "from_u16 (raw ! (length pre + 2)) (raw ! (length pre + 3)) = length val"
    using at [of 2] at [of 3] from_u16_u16 [OF ok(2)] by (simp add: nth_append)
  have body: "take (length val) (drop (length pre + 4) raw) = val" by (simp add: raw)
  have long: "length pre + 4 \<le> length raw" by (simp add: raw)
  have rec: "svc_params raw (length pre + (4 + length val)) = dict_get params 5"
    using Cons.IH [of "pre @ encode_param p"] Cons.prems
    by (simp add: raw_def p encode_param_def add.assoc numeral_eq_Suc)
  have "svc_params raw (length pre) = (if key = 5 then Some val else svc_params raw (length pre + (4 + length val)))"
    by (subst svc_params.simps) (simp add: long k [simplified] v [simplified] body Let_def)
  then show ?case unfolding raw_def [symmetric] rec by (simp add: p dict_get_def)
qed


text \<open>
  C38. The encrypted-client-hello configuration survives its way through the resolver. From the
  unknown-format text of an HTTPS record with any priority, target name and parameters, its hex digits
  in one word or any number of them, \<open>parse_ech_from_hex_rdata\<close> gives the base64 form of exactly the value
  of the \<open>ech\<close> parameter, or nothing when the record has none. From the text form of a record, a
  sequence of words such as \<open>1 . alpn=h2 ech=... ipv4hint=...\<close>, \<open>parse_ech_from_text_rdata\<close> gives back
  the first \<open>ech=\<close> word's base64 form, which decodes to the configuration, or nothing when there is no
  such word.
\<close>

theorem https_record_round_trip:
  assumes "length priority = 2" "list_all (\<lambda>l. 0 < length l \<and> length l \<le> 63) labels" "list_all param_ok params"
    and "hex_words (svcb_rdata priority labels params) ws"
    and "list_all (\<lambda>w. word_text w \<and> \<not> starts_with w ''ech='') before" "list_all word_text after"
  shows "parse_ech_from_hex_rdata (svcb_text (svcb_rdata priority labels params) ws) =
      Inr (map_option b64encode (dict_get params 5))
    \<and> b64decode (b64encode ech) = Some ech
    \<and> parse_ech_from_text_rdata (blank_sep (before @ (''ech='' @ b64encode ech) # after)) = Inr (Some (b64encode ech))
    \<and> parse_ech_from_text_rdata (blank_sep before) = Inr None"
proof (intro conjI)
  let ?raw = "svcb_rdata priority labels params" and ?ps = "concat (map encode_param params)"
  have ne: "?raw \<noteq> []" using assms(1) by (auto simp: svcb_rdata_def)
  have mark: "word_text [CHR 0x5C, CHR ''#'']" by (simp add: word_text_def is_space_def)
  have parts: "split_ws (svcb_text ?raw ws) = [CHR 0x5C, CHR ''#''] # str_of_int (int (length ?raw)) # ws"
    unfolding svcb_text_def using hex_words_text(1) [OF assms(4) ne] mark by (intro split_blank_sep) (simp add: word_text_str_of_int)
  have hex: "concat ws = hex_of_bytes ?raw" "ws \<noteq> []" using assms(4) hex_words_text(2) [OF assms(4) ne] by (simp_all add: hex_words_def)
  have "skip_labels ?raw 2 + 1 = length (priority @ encode_name (Labels labels))"
    using skip_labels_encoded [OF assms(2), of priority ?ps] assms(1) by (simp add: svcb_rdata_def)
  then have "svc_params ?raw (skip_labels ?raw 2 + 1) = dict_get params 5"
    using svc_params_encoded [OF assms(3), of "priority @ encode_name (Labels labels)"] by (simp add: svcb_rdata_def)
  moreover have "starts_with (svcb_text ?raw ws) [CHR 0x5C, CHR ''#'']" by (simp add: svcb_text_def starts_with_def)
  moreover have "\<not> length ([CHR 0x5C, CHR ''#''] # str_of_int (int (length ?raw)) # ws) < 3" using hex(2) by (cases ws) simp_all
  ultimately show "parse_ech_from_hex_rdata (svcb_text ?raw ws) = Inr (map_option b64encode (dict_get params 5))"
    unfolding parse_ech_from_hex_rdata_def parts Let_def by (simp add: hex(1) fromhex_hex)
  show "b64decode (b64encode ech) = Some ech" by (rule b64decode_encode)
  have w: "word_text (''ech='' @ b64encode ech)" using b64encode_no_space [of _ ech] by (auto simp: word_text_def is_space_def)
  have before: "list_all word_text before" "list_all (\<lambda>w. \<not> starts_with w ''ech='') before"
    using assms(5) by (simp_all add: list_all_iff)
  have "split_ws (blank_sep (before @ (''ech='' @ b64encode ech) # after)) = before @ (''ech='' @ b64encode ech) # after"
    using before(1) w assms(6) by (intro split_blank_sep) simp
  then show "parse_ech_from_text_rdata (blank_sep (before @ (''ech='' @ b64encode ech) # after)) = Inr (Some (b64encode ech))"
    using ech_part_skips [OF before(2)] by (simp add: parse_ech_from_text_rdata_def starts_with_def b64decode_encode)
  show "parse_ech_from_text_rdata (blank_sep before) = Inr None"
    using ech_part_skips [OF before(2), of "[]"] by (simp add: parse_ech_from_text_rdata_def split_blank_sep [OF before(1)])
qed


theorem https_record_round_trip_witness:
  "let raw = svcb_rdata [0, 1] [[97]] [(1, [2, 104, 50]), (5, [1, 2, 3])] in
     parse_ech_from_hex_rdata (svcb_text raw (map hex_of_byte raw)) = Inr (Some (b64encode [1, 2, 3]))
     \<and> parse_ech_from_text_rdata (blank_sep ([''1'', ''.'', ''alpn=h2''] @ (''ech='' @ b64encode [1, 2, 3]) # [''ipv4hint=1.2.3.4'']))
         = Inr (Some (b64encode [1, 2, 3]))"
proof -
  let ?params = "[(1, [2, 104, 50]), (5, [1, 2, 3])] :: (nat \<times> byte list) list"
  let ?raw = "svcb_rdata [0, 1] [[97]] ?params"
  have "length ([0, 1] :: byte list) = 2" "list_all (\<lambda>l. 0 < length l \<and> length l \<le> 63) [[97 :: byte]]"
    "list_all param_ok ?params" by (simp_all add: param_ok_def)
  moreover have "hex_words ?raw (map hex_of_byte ?raw)"
    by (auto simp: hex_words_def hex_of_bytes_def hex_of_byte_def Let_def)
  moreover have "list_all (\<lambda>w. word_text w \<and> \<not> starts_with w ''ech='') [''1'', ''.'', ''alpn=h2'']" "list_all word_text [''ipv4hint=1.2.3.4'']"
    by code_simp+
  ultimately have "parse_ech_from_hex_rdata (svcb_text ?raw (map hex_of_byte ?raw)) = Inr (map_option b64encode (dict_get ?params 5))
     \<and> parse_ech_from_text_rdata (blank_sep ([''1'', ''.'', ''alpn=h2''] @ (''ech='' @ b64encode [1, 2, 3]) # [''ipv4hint=1.2.3.4'']))
         = Inr (Some (b64encode [1, 2, 3]))"
    using https_record_round_trip by blast
  moreover have "dict_get ?params 5 = Some [1, 2, 3]" by (simp add: dict_get_def)
  ultimately show ?thesis unfolding Let_def by (simp only: option.map)
qed

section \<open>When blocking of the name is reported\<close>

fun hs_error :: "handshake_end \<Rightarrow> string option" where
  "hs_error (HsDone a b c d) = None"
| "hs_error (HsCertVerification e) = Some ''cert_verification_failed''"
| "hs_error (HsSslError e) = Some ''ssl_error''"
| "hs_error (HsReset t) = Some ''connection_reset''"
| "hs_error HsTimeout = Some ''timeout''"
| "hs_error (HsOther cls e) = Some cls"

fun end_error :: "tls_end \<Rightarrow> string option" where
  "end_error (Handshake t0 h) = hs_error h"
| "end_error OuterTimeout = Some ''outer_timeout''"
| "end_error (ExecutorError e) = Some e"

text \<open>The neutral name reached a TLS peer, which then refused the handshake.\<close>

fun peer_refused :: "tls_end \<Rightarrow> bool" where
  "peer_refused (Handshake t0 h) = (hs_error h = Some ''ssl_error'')"
| "peer_refused _ = False"

lemma handshake_result:
  "truthy (jget (tls_handshake_blocking t0 h) ''ok'') \<longleftrightarrow> hs_error h = None"
  "jget (tls_handshake_blocking t0 h) ''error'' = json_str_opt (hs_error h)"
  "dict_get (tls_handshake_blocking t0 h) ''error'' = map_option JStr (hs_error h)"
  by (cases h; simp add: jget_def dict_default_def dict_get_def json_str_opt_def)+

lemma handshake_evidence:
  "dict_get (dict_update [(''ip'', JStr ip), (''sni'', sni), (''port'', JInt 443)] (tls_handshake_blocking t0 h)) ''error'' =
     map_option JStr (hs_error h)"
  by (cases h) (simp_all add: dict_update_def dict_get_def dict_set_def)

lemma tls_connect_handshake:
  "tls_connect ip sni (Handshake t0 h) =
     (if hs_error h = None then OK else if hs_error h \<in> {Some ''connection_reset'', Some ''timeout''} then BLOCKED else ANOMALY,
      dict_update [(''ip'', JStr ip), (''sni'', sni), (''port'', JInt 443)] (tls_handshake_blocking t0 h))"
  by (simp add: tls_connect_def Let_def handshake_result json_str_opt_def split: option.split)

lemma tls_connect_facts:
  "fst (tls_connect ip sni e) = OK \<longleftrightarrow> end_error e = None"
  "dict_get (snd (tls_connect ip sni e)) ''error'' = map_option JStr (end_error e)"
  "fst (tls_connect ip sni e) = ANOMALY \<and> end_error e = Some ''ssl_error'' \<longleftrightarrow> peer_refused e"
  "fst (tls_connect ip sni e) \<noteq> INCONCLUSIVE"
proof -
  show "fst (tls_connect ip sni e) = OK \<longleftrightarrow> end_error e = None"
    by (cases e) (simp_all add: tls_connect_handshake, simp_all add: tls_connect_def)
  show "dict_get (snd (tls_connect ip sni e)) ''error'' = map_option JStr (end_error e)"
    by (cases e) (simp_all add: tls_connect_handshake handshake_evidence, simp_all add: tls_connect_def)
  show "fst (tls_connect ip sni e) = ANOMALY \<and> end_error e = Some ''ssl_error'' \<longleftrightarrow> peer_refused e"
  proof (cases e)
    case (Handshake t0 h)
    then show ?thesis by (cases "hs_error h = Some ''ssl_error''") (simp_all add: tls_connect_handshake)
  qed (simp_all add: tls_connect_def)
  show "fst (tls_connect ip sni e) \<noteq> INCONCLUSIVE"
    by (cases e) (simp_all add: tls_connect_handshake, simp_all add: tls_connect_def)
qed

lemma connect_loop_spec:
  assumes "connect_loop attempt left n latest = (outcome, k)" "0 < left"
  shows "n \<le> k \<and> k < n + left \<and> outcome = attempt k \<and> (fst outcome \<noteq> OK \<longrightarrow> k = n + left - 1)
    \<and> (\<forall>i \<in> {n..<k}. fst (attempt i) \<noteq> OK)"
  using assms
proof (induction left arbitrary: n latest)
  case (Suc left)
  show ?case
  proof (cases "fst (attempt n) = OK \<or> left = 0")
    case True
    then show ?thesis using Suc.prems(1) by (cases left) (auto split: if_splits)
  next
    case False
    then have r: "connect_loop attempt left (n + 1) (attempt n) = (outcome, k)" "0 < left" using Suc.prems(1) by auto
    have ih: "n + 1 \<le> k" "k < n + 1 + left" "outcome = attempt k"
      "fst outcome \<noteq> OK \<longrightarrow> k = n + 1 + left - 1" "\<forall>i \<in> {n + 1..<k}. fst (attempt i) \<noteq> OK"
      using Suc.IH [OF r] by blast+
    have all: "\<forall>i \<in> {n..<k}. fst (attempt i) \<noteq> OK"
    proof
      fix i assume "i \<in> {n..<k}"
      then show "fst (attempt i) \<noteq> OK" using ih(5) False by (cases "i = n") simp_all
    qed
    have "n \<le> k" "k < n + Suc left" "n + Suc left - 1 = n + 1 + left - 1" using ih(1,2) by linarith+
    then show ?thesis using ih(3,4) all by metis
  qed
qed simp

text \<open>What one name got over its attempts, by the ends of the handshakes alone.\<close>

definition attempts_of :: "int \<Rightarrow> nat" where
  "attempts_of repeats = nat (max 1 repeats)"

lemma repeats_facts:
  assumes "tls_connect_with_repeats ending ip sni repeats = ((v, ev), k)"
  defines "final \<equiv> ending (attempts_of repeats)"
  defines "success \<equiv> \<exists>i \<in> {1..attempts_of repeats}. end_error (ending i) = None"
  shows "v = OK \<longleftrightarrow> success" "1 \<le> k \<and> k \<le> attempts_of repeats"
    "\<not> success \<Longrightarrow> (v, ev) = tls_connect ip sni final \<and> k = attempts_of repeats"
    "\<not> success \<Longrightarrow> dict_get ev ''error'' = map_option JStr (end_error final)"
    "v = ANOMALY \<and> dict_get ev ''error'' = Some (JStr ''ssl_error'') \<longleftrightarrow> \<not> success \<and> peer_refused final"
    "v \<noteq> INCONCLUSIVE"
proof -
  have pos: "0 < attempts_of repeats" by (simp add: attempts_of_def)
  note spec = connect_loop_spec [OF assms(1) [unfolded tls_connect_with_repeats_def, folded attempts_of_def] pos]
  have out: "(v, ev) = tls_connect ip sni (ending k)" using spec by simp
  then have v: "v = fst (tls_connect ip sni (ending k))" "ev = snd (tls_connect ip sni (ending k))" by (auto simp: prod_eq_iff)
  show k: "1 \<le> k \<and> k \<le> attempts_of repeats" using spec by auto
  have ok: "v = OK \<longleftrightarrow> end_error (ending k) = None" unfolding v by (rule tls_connect_facts)
  show s: "v = OK \<longleftrightarrow> success"
  proof
    assume "v = OK" then show success using ok k by (auto simp: success_def)
  next
    assume success
    then obtain i where i: "i \<in> {1..attempts_of repeats}" "end_error (ending i) = None" by (auto simp: success_def)
    show "v = OK"
    proof (rule ccontr)
      assume "v \<noteq> OK"
      then have "k = attempts_of repeats" using spec by simp
      then have "i \<in> {1..<k} \<or> i = k" using i(1) by auto
      moreover have "i \<notin> {1..<k}" using spec i(2) tls_connect_facts(1) [of ip sni "ending i"] by blast
      ultimately have "i = k" by blast
      then show False using i(2) ok \<open>v \<noteq> OK\<close> by simp
    qed
  qed
  show last: "(v, ev) = tls_connect ip sni final \<and> k = attempts_of repeats" if "\<not> success"
  proof -
    have "v \<noteq> OK" using that s by simp
    then have "k = attempts_of repeats" using spec by simp
    then show ?thesis using out by (simp add: final_def)
  qed
  show err: "dict_get ev ''error'' = map_option JStr (end_error final)" if "\<not> success"
    using last [OF that] tls_connect_facts(2) [of ip sni final] by (metis snd_conv)
  show "v \<noteq> INCONCLUSIVE" unfolding v by (rule tls_connect_facts)
  show "v = ANOMALY \<and> dict_get ev ''error'' = Some (JStr ''ssl_error'') \<longleftrightarrow> \<not> success \<and> peer_refused final"
  proof (cases success)
    case True
    then show ?thesis using s by auto
  next
    case False
    then show ?thesis using tls_connect_facts(3) [of ip sni final] last err by (auto simp: prod_eq_iff)
  qed
qed


definition reached :: "(nat \<Rightarrow> tls_end) \<Rightarrow> int \<Rightarrow> bool" where
  "reached ending repeats \<longleftrightarrow> (\<exists>i \<in> {1..attempts_of repeats}. end_error (ending i) = None)"

text \<open>What a failed handshake stands for, and by which method.\<close>

fun ended_with :: "tls_end \<Rightarrow> verdict" where
  "ended_with (Handshake t0 h) =
     (if hs_error h = Some ''connection_reset'' \<or> hs_error h = Some ''timeout'' then BLOCKED else ANOMALY)"
| "ended_with OuterTimeout = BLOCKED"
| "ended_with (ExecutorError e) = ERROR"

definition method_for :: "string option \<Rightarrow> blocking_method option" where
  "method_for e =
     (if e = Some ''connection_reset'' then Some TCP_RST_AFTER_TLS_CH
      else if e = Some ''timeout'' \<or> e = Some ''outer_timeout'' then Some IP_DROPPED
      else if e = Some ''ssl_error'' \<or> e = Some ''cert_verification_failed'' then Some TLS_HANDSHAKE_FAILURE
      else None)"

lemma tls_connect_ended: "end_error e \<noteq> None \<Longrightarrow> fst (tls_connect ip sni e) = ended_with e"
  by (cases e) (auto simp: tls_connect_handshake, simp_all add: tls_connect_def)

text \<open>
  C37. A TLS result says what the handshakes showed. The test with the suspected name is OK exactly
  when some attempt completed; otherwise verdict and method follow from how the last attempt ended: a
  reset or a timeout is BLOCKED (a reset as \<open>tcp_rst_after_tls_ch\<close>, a timeout as \<open>ip_dropped\<close>), a TLS or
  certificate error ANOMALY (\<open>tls_handshake_failure\<close>), an error of the executor ERROR. It is
  marked as blocking of the name (method, note and confidence) exactly when the last attempt was reset
  or timed out while the neutral name reached the peer, with the higher confidence when that
  handshake completed and the lower one when the peer refused it; otherwise it has no note and the
  default confidence. The test with the neutral name has no method, and a refusal of it counts as
  INCONCLUSIVE.
\<close>

theorem sni_blocking_needs_both_names:
  assumes "test_sni_scenarios E g domain ip sni repeats ech = (results, g')"
  defines "suspected \<equiv> le_handshake E domain ip sni True"
    and "neutral \<equiv> le_handshake E domain ip (JStr (pick_neutral_sni ip)) False"
  defines "final \<equiv> end_error (suspected (attempts_of repeats))"
    and "cut_off \<equiv> \<lambda>e. e = Some ''connection_reset'' \<or> e = Some ''timeout''"
    and "refused \<equiv> \<not> reached neutral repeats \<and> peer_refused (neutral (attempts_of repeats))"
  shows "\<exists>r n rest. results = r # n # rest
    \<and> tr_verdict r = (if reached suspected repeats then OK else ended_with (suspected (attempts_of repeats)))
    \<and> tr_verdict n = (if reached neutral repeats then OK else if refused then INCONCLUSIVE
         else ended_with (neutral (attempts_of repeats)))
    \<and> tr_method n = None \<and> tr_notes n = None \<and> tr_confidence n = 1
    \<and> (let marked = (\<not> reached suspected repeats \<and> cut_off final \<and> (reached neutral repeats \<or> refused)) in
       tr_method r = (if reached suspected repeats then None else if marked then Some TCP_RST_AFTER_TLS_CH else method_for final)
       \<and> tr_notes r = (if \<not> marked then None else if reached neutral repeats then Some confirmed_note else Some likely_note)
       \<and> tr_confidence r = (if \<not> marked then 1 else if reached neutral repeats then fl (92 / 100) else fl (82 / 100)))"
proof -
  obtain vb evb kb where b: "tls_connect_with_repeats suspected ip sni repeats = ((vb, evb), kb)" by (metis prod.exhaust)
  obtain vn evn kn where n: "tls_connect_with_repeats neutral ip (JStr (pick_neutral_sni ip)) repeats = ((vn, evn), kn)"
    by (metis prod.exhaust)
  note fb = repeats_facts [OF b, folded reached_def] and fn = repeats_facts [OF n, folded reached_def]
  define ev where "ev = (case dict_default (gl_resolve_path g) domain [] of
      [] \<Rightarrow> evb | c # p \<Rightarrow> dict_set ''resolve_path'' (JStr (c # p)) evb)"
  define v where "v = (if vn = ANOMALY \<and> jget evn ''error'' = JStr ''ssl_error'' then INCONCLUSIVE else vn)"
  define r0 where "r0 = (TestResult_new (''tls_'' @ dns_slug domain @ ''_sni_blocked'') ''tls''
        (ip @ '':'' @ str_of_json (le_repr E) sni) vb)
      \<lparr>tr_method := attribute_tls_failure vb ev, tr_evidence := ev, tr_attempts := int kb\<rparr>"
  define r where "r = attribute_sni_blocking r0 (vb, ev) (v, evn)"
  define n0 where "n0 = (TestResult_new (''tls_'' @ dns_slug domain @ ''_sni_neutral'') ''tls''
        (ip @ '':'' @ pick_neutral_sni ip) v)\<lparr>tr_evidence := evn, tr_attempts := int kn\<rparr>"
  have results: "\<exists>rest. results = r # n0 # rest"
    using assms(1) b n unfolding suspected_def neutral_def
    by (auto simp: test_sni_scenarios_def Let_def ev_def v_def r0_def r_def n0_def split: prod.splits if_splits)
  have err: "dict_get ev ''error'' = dict_get evb ''error''" by (simp add: ev_def split: list.split)
  have js: "jget d k = JStr t \<longleftrightarrow> dict_get d k = Some (JStr t)" for d k t
    by (auto simp: jget_def dict_default_def split: option.split)
  have v: "v = OK \<longleftrightarrow> reached neutral repeats" "v = INCONCLUSIVE \<longleftrightarrow> refused"
    "v = INCONCLUSIVE \<Longrightarrow> jget evn ''error'' = JStr ''ssl_error''"
  proof -
    have c: "vn = ANOMALY \<and> jget evn ''error'' = JStr ''ssl_error'' \<longleftrightarrow> refused"
      unfolding refused_def js using fn(5) by simp
    have w: "v = (if refused then INCONCLUSIVE else vn)" unfolding v_def c ..
    have "refused \<Longrightarrow> \<not> reached neutral repeats" by (simp add: refused_def)
    then show "v = OK \<longleftrightarrow> reached neutral repeats" using fn(1) by (auto simp: w)
    show i: "v = INCONCLUSIVE \<longleftrightarrow> refused" using fn(6) by (auto simp: w)
    show "v = INCONCLUSIVE \<Longrightarrow> jget evn ''error'' = JStr ''ssl_error''" using i c by blast
  qed
  have dflt: "dict_default ev ''error'' (JStr []) = JStr t \<longleftrightarrow> final = Some t"
    if "\<not> reached suspected repeats" "t \<noteq> []" for t
    using fb(4) [OF that(1)] that(2) by (cases final) (auto simp: dict_default_def err final_def)
  have r0: "tr_notes r0 = None" "tr_confidence r0 = 1" "tr_verdict r0 = vb" "tr_method r0 = attribute_tls_failure vb ev"
    by (simp_all add: r0_def)
  define marked where "marked \<longleftrightarrow> \<not> reached suspected repeats \<and> cut_off final \<and> (reached neutral repeats \<or> refused)"
  have r: "r = (if marked then r0\<lparr>tr_method := Some TCP_RST_AFTER_TLS_CH,
      tr_confidence := if reached neutral repeats then fl (92 / 100) else fl (82 / 100),
      tr_notes := Some (if reached neutral repeats then confirmed_note else likely_note)\<rparr> else r0)"
    using v dflt [of "''connection_reset''"] dflt [of "''timeout''"] fb(1)
    by (auto simp: r_def attribute_sni_blocking_def marked_def cut_off_def Let_def)
  have m0: "tr_method r0 = (if reached suspected repeats then None else method_for final)"
  proof (cases "reached suspected repeats")
    case True
    then show ?thesis using fb(1) by (simp add: r0 attribute_tls_failure_def)
  next
    case False
    then show ?thesis using fb(1) dflt [OF False]
      by (simp add: r0 attribute_tls_failure_def method_for_def Let_def)
  qed
  have suspected: "vb = (if reached suspected repeats then OK else ended_with (suspected (attempts_of repeats)))"
  proof (cases "reached suspected repeats")
    case False
    have "end_error (suspected (attempts_of repeats)) \<noteq> None" using False by (auto simp: reached_def attempts_of_def)
    then show ?thesis using fb(3) [OF False] tls_connect_ended False by (metis fst_conv)
  qed (use fb(1) in simp)
  have neutral: "vn = (if reached neutral repeats then OK else ended_with (neutral (attempts_of repeats)))"
  proof (cases "reached neutral repeats")
    case False
    have "end_error (neutral (attempts_of repeats)) \<noteq> None" using False by (auto simp: reached_def attempts_of_def)
    then show ?thesis using fn(3) [OF False] tls_connect_ended False by (metis fst_conv)
  qed (use fn(1) in simp)
  have excl: "refused \<Longrightarrow> \<not> reached neutral repeats" by (simp add: refused_def)
  have "tr_verdict r = vb" by (simp add: r r0)
  moreover have "tr_verdict n0 = (if refused then INCONCLUSIVE else vn)" using v(2) by (auto simp: n0_def v_def)
  moreover have "tr_method n0 = None \<and> tr_notes n0 = None \<and> tr_confidence n0 = 1" by (simp add: n0_def)
  moreover have "tr_notes r = (if \<not> marked then None else if reached neutral repeats then Some confirmed_note else Some likely_note)"
    "tr_confidence r = (if \<not> marked then 1 else if reached neutral repeats then fl (92 / 100) else fl (82 / 100))"
    by (simp_all add: r r0)
  moreover have "tr_method r = (if reached suspected repeats then None else if marked then Some TCP_RST_AFTER_TLS_CH else method_for final)"
    using m0 by (simp add: r) (simp add: marked_def)
  ultimately show ?thesis using results suspected neutral excl unfolding Let_def marked_def by auto
qed


definition demo_tls :: "tls_end \<Rightarrow> tls_end \<Rightarrow> tls_env" where
  "demo_tls suspected neutral = \<lparr>le_handshake = (\<lambda>d ip sni verify i. if verify then suspected else neutral),
     le_doh_a = (\<lambda>d. Inr (200, Some (JObj [(''Answer'', JList [JObj [(''type'', JInt 1), (''data'', JStr ''5.6.7.8'')]])]))),
     le_getaddrinfo = (\<lambda>d. None), le_google = (\<lambda>d. Inl ()), le_cloudflare = (\<lambda>d. Inl ()),
     le_curl_version = (\<lambda>c. NotFound), le_curl = (\<lambda>b c d. NotFound), le_start = (\<lambda>d. 0), le_finish = (\<lambda>d. 0),
     le_repr = (\<lambda>v. [])\<rparr>"

theorem sni_blocking_needs_both_names_witness:
  "\<exists>r n rest g'. test_sni_scenarios (demo_tls (Handshake 0 HsTimeout) (Handshake 0 (HsDone 0 0 None None))) tls_globals_init
       ''a.b'' ''5.6.7.8'' (JStr ''a.b'') 2 False = (r # n # rest, g')
     \<and> tr_method r = Some TCP_RST_AFTER_TLS_CH \<and> tr_confidence r = fl (92 / 100) \<and> tr_verdict n = OK"
proof -
  let ?E = "demo_tls (Handshake 0 HsTimeout) (Handshake 0 (HsDone 0 0 None None))"
  obtain results g' where t: "test_sni_scenarios ?E tls_globals_init ''a.b'' ''5.6.7.8'' (JStr ''a.b'') 2 False = (results, g')"
    by (metis prod.exhaust)
  have "\<not> reached (le_handshake ?E ''a.b'' ''5.6.7.8'' (JStr ''a.b'') True) 2"
    "reached (le_handshake ?E ''a.b'' ''5.6.7.8'' (JStr (pick_neutral_sni ''5.6.7.8'')) False) 2"
    "end_error (le_handshake ?E ''a.b'' ''5.6.7.8'' (JStr ''a.b'') True i) = Some ''timeout''" for i
    by (auto simp: reached_def demo_tls_def attempts_of_def)
  then show ?thesis using sni_blocking_needs_both_names [OF t] t by (auto simp: Let_def)
qed

text \<open>
  The module's introduction says that failure with both names collapses to \<open>ip_dropped\<close> or
  \<open>tls_handshake_failure\<close>. A reset keeps the method of name-based blocking although the neutral
  name fails the same way, and with the full confidence that the confirmed case does not get.
\<close>

lemma reset_on_both_names_keeps_the_method:
  assumes "test_sni_scenarios (demo_tls (Handshake 0 (HsReset 0)) (Handshake 0 (HsReset 0))) g domain ip sni 1 False = (results, g')"
  shows "tr_method (hd results) = Some TCP_RST_AFTER_TLS_CH \<and> tr_confidence (hd results) = 1"
  using assms
  by (auto simp: test_sni_scenarios_def Let_def demo_tls_def tls_connect_with_repeats_def numeral_eq_Suc tls_connect_handshake
      attribute_sni_blocking_def attribute_tls_failure_def dict_default_def handshake_evidence [of _ _ _ "HsReset 0", simplified]
      jget_def split: list.splits)

section \<open>The targets do not influence each other\<close>

definition curl_ok :: "tls_env \<Rightarrow> tls_globals \<Rightarrow> bool" where
  "curl_ok E g \<longleftrightarrow> (let found = ech_curl (le_curl_version E) [''curl-ech'', ''curl''] in
     case gl_curl_cache g of None \<Rightarrow> True | Some b \<Rightarrow> b = (found \<noteq> None) \<and> (b \<longrightarrow> found = Some (gl_curl_binary g)))"

lemma curl_ok_init [simp]: "curl_ok E tls_globals_init"
  by (simp add: curl_ok_def tls_globals_init_def)

lemma curl_ok_path [simp]: "curl_ok E (g\<lparr>gl_resolve_path := p\<rparr>) = curl_ok E g"
  by (cases "gl_curl_cache g") (simp_all add: curl_ok_def Let_def del: ech_curl.simps)

lemma curl_supports_ech_ok:
  assumes "curl_ok E g" "curl_supports_ech E g = (b, g')"
  shows "b = (ech_curl (le_curl_version E) [''curl-ech'', ''curl''] \<noteq> None)"
    "b \<Longrightarrow> ech_curl (le_curl_version E) [''curl-ech'', ''curl''] = Some (gl_curl_binary g')"
    "curl_ok E g'" "gl_resolve_path g' = gl_resolve_path g" "gl_curl_cache g' = Some b"
  using assms by (auto simp: curl_ok_def curl_supports_ech_def Let_def simp del: ech_curl.simps split: option.splits)

lemma test_ech_body_ok:
  assumes "curl_ok E g"
  shows "fst (test_ech_body E g d) = fst (test_ech_body E tls_globals_init d)"
    "curl_ok E (snd (test_ech_body E g d))" "gl_resolve_path (snd (test_ech_body E g d)) = gl_resolve_path g"
proof -
  obtain b h where h: "curl_supports_ech E g = (b, h)" by force
  obtain b' k where k: "curl_supports_ech E tls_globals_init = (b', k)" by force
  note fh = curl_supports_ech_ok [OF assms h] and fk = curl_supports_ech_ok [OF curl_ok_init k]
  have same: "b = b'" "b \<Longrightarrow> gl_curl_binary h = gl_curl_binary k" using fh(1,2) fk(1,2) by auto
  show "fst (test_ech_body E g d) = fst (test_ech_body E tls_globals_init d)"
    using same by (auto simp: test_ech_body_def h k Let_def split: option.split subprocess_end.split prod.split)
  have "snd (test_ech_body E g d) = h"
    by (simp add: test_ech_body_def h Let_def split: option.split subprocess_end.split prod.split)
  then show "curl_ok E (snd (test_ech_body E g d))" "gl_resolve_path (snd (test_ech_body E g d)) = gl_resolve_path g"
    using fh(3,4) by simp_all
qed

lemma test_ech_ok:
  assumes "curl_ok E g"
  shows "fst (test_ech E g d) = fst (test_ech E tls_globals_init d)"
    "curl_ok E (snd (test_ech E g d))" "gl_resolve_path (snd (test_ech E g d)) = gl_resolve_path g"
  using test_ech_body_ok [OF assms, of d] by (simp_all add: test_ech_def split_beta)

lemma test_sni_ok:
  assumes "curl_ok E g" "curl_ok E h" "dict_get (gl_resolve_path g) d = dict_get (gl_resolve_path h) d"
  shows "fst (test_sni_scenarios E g d ip sni repeats ech) = fst (test_sni_scenarios E h d ip sni repeats ech)"
    "curl_ok E (snd (test_sni_scenarios E g d ip sni repeats ech))"
    "gl_resolve_path (snd (test_sni_scenarios E g d ip sni repeats ech)) = gl_resolve_path g"
  using assms test_ech_ok [OF assms(1), of d] test_ech_ok [OF assms(2), of d]
  by (simp_all add: test_sni_scenarios_def Let_def split_beta dict_default_def)

lemma resolve_ip_ok:
  "fst (resolve_ip E g d) = fst (resolve_ip E h d)" "curl_ok E (snd (resolve_ip E g d)) = curl_ok E g"
  "dict_get (gl_resolve_path (snd (resolve_ip E g d))) d = dict_get (gl_resolve_path (snd (resolve_ip E h d))) d"
  "d' \<noteq> d \<Longrightarrow> dict_get (gl_resolve_path (snd (resolve_ip E g d))) d' = dict_get (gl_resolve_path g) d'"
  by (simp_all add: resolve_ip_def split: option.split list.split)


text \<open>
  A target tested alone, and after others: the same results. Its own lookup overwrites whatever
  path was stored for its domain; a target whose address is given keeps the path that is there.
\<close>

lemma test_target_ok:
  assumes "curl_ok E g" "dict_get (gl_resolve_path g) (tl_domain (snd t)) = None"
  shows "fst (test_target E repeats g t) = fst (test_target E repeats tls_globals_init t)"
    "curl_ok E (snd (test_target E repeats g t))"
    "d' \<noteq> tl_domain (snd t) \<Longrightarrow>
       dict_get (gl_resolve_path (snd (test_target E repeats g t))) d' = dict_get (gl_resolve_path g) d'"
proof -
  obtain given x where t: "t = (given, x)" by force
  let ?G = "\<lambda>g. target_address E g given (tl_domain x)"
  let ?rest = "\<lambda>ip g. case ip of
       Some (c # s) \<Rightarrow> test_sni_scenarios E g (tl_domain x) (c # s) (tl_blocked_sni x) repeats (tl_ech_advertised x)
     | _ \<Rightarrow> ([(TestResult_new (''tls_'' @ dns_slug (tl_domain x) @ ''_no_ip'') ''tls'' (tl_domain x) INCONCLUSIVE)
           \<lparr>tr_evidence := [(''reason'', JStr ''could_not_resolve_ip'')]\<rparr>], g)"
  have split: "test_target E repeats g t = ?rest (fst (?G g)) (snd (?G g))" for g
    by (simp add: test_target_def t Let_def split_beta cong: option.case_cong list.case_cong)
  have none: "dict_get (gl_resolve_path g) (tl_domain x) = dict_get (gl_resolve_path tls_globals_init) (tl_domain x)"
    using assms(2) by (simp add: t tls_globals_init_def)
  have ok: "fst (?G g) = fst (?G tls_globals_init)" "curl_ok E (snd (?G g))" "curl_ok E (snd (?G tls_globals_init))"
    "dict_get (gl_resolve_path (snd (?G g))) (tl_domain x) = dict_get (gl_resolve_path (snd (?G tls_globals_init))) (tl_domain x)"
    "d' \<noteq> tl_domain x \<Longrightarrow> dict_get (gl_resolve_path (snd (?G g))) d' = dict_get (gl_resolve_path g) d'"
    unfolding target_address_def using assms(1) none resolve_ip_ok(2-4) [where E = E and d = "tl_domain x"] resolve_ip_ok(1) [of E g "tl_domain x" tls_globals_init]
    by (auto split: option.split list.split)
  note sni = test_sni_ok [OF ok(2) ok(3) ok(4)]
  show "fst (test_target E repeats g t) = fst (test_target E repeats tls_globals_init t)"
    unfolding split ok(1) using sni(1) by (simp split: option.split list.split)
  show "curl_ok E (snd (test_target E repeats g t))"
    unfolding split using sni(2) ok(2) by (simp split: option.split list.split)
  show "dict_get (gl_resolve_path (snd (test_target E repeats g t))) d' = dict_get (gl_resolve_path g) d'"
    if "d' \<noteq> tl_domain (snd t)"
  proof -
    have "dict_get (gl_resolve_path (snd (?G g))) d' = dict_get (gl_resolve_path g) d'" using ok(5) that by (simp add: t)
    then show ?thesis unfolding split using sni(3) by (simp split: option.split list.split)
  qed
qed

lemma test_targets_ok:
  assumes "curl_ok E g" "distinct (map (tl_domain \<circ> snd) ts)" "\<forall>t \<in> set ts. dict_get (gl_resolve_path g) (tl_domain (snd t)) = None"
    "test_targets E repeats g ts = (rs, g')"
  shows "rs = map (\<lambda>t. fst (test_target E repeats tls_globals_init t)) ts \<and> curl_ok E g'"
  using assms
proof (induction ts arbitrary: g rs)
  case (Cons t ts)
  let ?h = "snd (test_target E repeats g t)"
  have none: "dict_get (gl_resolve_path g) (tl_domain (snd t)) = None" using Cons.prems(3) by simp
  note ok = test_target_ok [OF Cons.prems(1) none, where repeats = repeats]
  obtain rs' where rs': "test_targets E repeats ?h ts = (rs', g')" "rs = fst (test_target E repeats g t) # rs'"
    using Cons.prems(4) by (auto simp: Let_def split: prod.splits)
  have "\<forall>u \<in> set ts. dict_get (gl_resolve_path ?h) (tl_domain (snd u)) = None"
  proof
    fix u assume u: "u \<in> set ts"
    then have "tl_domain (snd u) \<noteq> tl_domain (snd t)" using Cons.prems(2) by (metis (no_types) comp_apply distinct.simps(2) image_eqI list.set_map list.simps(9))
    then show "dict_get (gl_resolve_path ?h) (tl_domain (snd u)) = None" using ok(3) Cons.prems(3) u by simp
  qed
  then show ?case using Cons.IH [OF ok(2) _ _ rs'(1)] Cons.prems(2) rs'(2) ok(1) by simp
qed simp

text \<open>
  The targets of a run share the cache of the ECH-capable binary and the table of resolution
  paths, and still do not influence each other: with distinct domains, the results are those of
  each target tested alone with fresh globals, in the order of the targets, whatever an earlier
  run left behind; and the globals are again such that this holds for the next run.
\<close>

theorem tls_targets_independent:
  assumes "curl_ok E g" "distinct (map (tl_domain \<circ> snd) targets)"
    "run_tls_tests (Some c) E g targets repeats = Inr (results, g')"
  shows "results = concat (map (\<lambda>t. fst (test_target E repeats tls_globals_init t)) targets) \<and> curl_ok E g'"
proof -
  obtain rs where rs: "test_targets E repeats (g\<lparr>gl_resolve_path := []\<rparr>) targets = (rs, g')" "results = concat rs"
    using assms(3) by (auto simp: run_tls_tests_def get_config_def Let_def split: prod.splits)
  have "curl_ok E (g\<lparr>gl_resolve_path := []\<rparr>)" using assms(1) by simp
  from test_targets_ok [OF this assms(2) _ rs(1)] show ?thesis using rs(2) by simp
qed


lemma two_results: "length (fst (test_sni_scenarios E g d ip sni repeats False)) = 2"
  by (simp add: test_sni_scenarios_def Let_def split_beta)

theorem tls_targets_independent_witness:
  "\<exists>results g'. run_tls_tests (Some undefined) (demo_tls (Handshake 0 HsTimeout) OuterTimeout) tls_globals_init
       [(None, \<lparr>tl_domain = ''a.b'', tl_blocked_sni = JStr ''a.b'', tl_url = [], tl_ech_advertised = False\<rparr>),
        (Some ''1.2.3.4'', \<lparr>tl_domain = ''c.d'', tl_blocked_sni = JStr ''c.d'', tl_url = [], tl_ech_advertised = False\<rparr>)] 1
       = Inr (results, g') \<and> length results = 4 \<and> curl_ok (demo_tls (Handshake 0 HsTimeout) OuterTimeout) g'"
proof -
  let ?E = "demo_tls (Handshake 0 HsTimeout) OuterTimeout"
  let ?t = "(None, \<lparr>tl_domain = ''a.b'', tl_blocked_sni = JStr ''a.b'', tl_url = [], tl_ech_advertised = False\<rparr>)"
  let ?u = "(Some ''1.2.3.4'', \<lparr>tl_domain = ''c.d'', tl_blocked_sni = JStr ''c.d'', tl_url = [], tl_ech_advertised = False\<rparr>)"
  obtain results g' where r: "run_tls_tests (Some undefined) ?E tls_globals_init [?t, ?u] 1 = Inr (results, g')"
    by (simp add: run_tls_tests_def get_config_def split_beta Let_def)
  have "fst (resolve_ip ?E tls_globals_init ''a.b'') = Some ''5.6.7.8''" by code_simp
  then have "length (fst (test_target ?E 1 tls_globals_init ?t)) = 2" "length (fst (test_target ?E 1 tls_globals_init ?u)) = 2"
    by (simp_all add: test_target_def target_address_def split_beta two_results)
  then show ?thesis using tls_targets_independent [OF curl_ok_init _ r] r by simp
qed

section \<open>When blocked ECH is reported\<close>

lemma ech_verdict_BLOCKED:
  "fst (ech_verdict rc err) = BLOCKED \<longleftrightarrow>
     rc \<in> set NETWORK_BLOCKED_RCS \<and> \<not> (\<exists>p \<in> set ECH_NOT_AVAILABLE_PHRASES. str_contains (str_lower err) p)"
  by (auto simp: ech_verdict_def Let_def list_ex_iff NETWORK_BLOCKED_RCS_def)

lemma ech_blocked_evidence:
  assumes "curl_ok E g" "test_ech E g d = (Some r, g')"
  shows "tr_verdict r = BLOCKED \<longleftrightarrow> (\<exists>binary config rc out err.
      ech_curl (le_curl_version E) [''curl-ech'', ''curl''] = Some binary
      \<and> fetch_ech_config (le_google E d) (le_cloudflare E d) = Some config
      \<and> le_curl E binary config d = Exited rc out err \<and> rc \<in> {7, 28, 35, 52, 56}
      \<and> \<not> (\<exists>p \<in> set ECH_NOT_AVAILABLE_PHRASES. str_contains (str_lower err) p))"
proof -
  obtain b h where h: "curl_supports_ech E g = (b, h)" by force
  note f = curl_supports_ech_ok [OF assms(1) h]
  obtain r0 where r0: "fst (test_ech_body E g d) = Some r0" "tr_verdict r = tr_verdict r0"
  proof (cases "fst (test_ech_body E g d)")
    case None
    then show ?thesis using assms(2) by (simp add: test_ech_def stamp_test_elapsed_def split_beta)
  next
    case (Some r0)
    then have "r = r0 \<or> r = r0\<lparr>tr_elapsed_ms := Some (fmul (fsub (le_finish E d) (le_start E d)) 1000)\<rparr>"
      using assms(2) by (simp add: test_ech_def stamp_test_elapsed_def split_beta split: if_splits)
    then show ?thesis using that Some by auto
  qed
  let ?config = "fetch_ech_config (le_google E d) (le_cloudflare E d)"
  have "tr_verdict r0 = BLOCKED \<longleftrightarrow> b \<and> (\<exists>config. ?config = Some config
      \<and> (\<exists>rc out err. le_curl E (gl_curl_binary h) config d = Exited rc out err \<and> fst (ech_verdict rc err) = BLOCKED))"
  proof (cases "b \<and> ?config \<noteq> None")
    case True
    then obtain config where c: "?config = Some config" by blast
    show ?thesis using r0(1) True
      by (cases "le_curl E (gl_curl_binary h) config d")
        (simp_all add: test_ech_body_def h Let_def c split_beta, auto)
  next
    case False
    then show ?thesis using r0(1) by (cases b; cases ?config; simp add: test_ech_body_def h Let_def; auto)
  qed
  then show ?thesis using f(1,2) unfolding r0(2) ech_verdict_BLOCKED NETWORK_BLOCKED_RCS_def by auto
qed

end
