(* ===== verification/TelegramProbe.thy ===== *)
theory TelegramProbe
  imports TlsProbe
begin

text \<open>
  The Telegram module (\<^verbatim>\<open>modules/telegram.py\<close>): the data-centre probes, the HTTPS probes with the
  reconciliation of certificates of the Telegram family, and the health score. What sockets,
  the HTTP client and the certificate parser do is the environment argument.
\<close>

section \<open>Endpoints of the data centres\<close>

fun normalise_ip_list :: "json \<Rightarrow> string list" where
  "normalise_ip_list (JStr s) = (if s = [] then [] else [s])"
| "normalise_ip_list (JList raw) = concat (map (\<lambda>v. case v of JStr ip \<Rightarrow> if ip = [] then [] else [ip] | _ \<Rightarrow> []) raw)"
| "normalise_ip_list _ = []"

text \<open>An endpoint: data centre, version of the address, address and port.\<close>

type_synonym dc_endpoint = "int \<times> string \<times> string \<times> int"

definition dc_endpoints :: "bool \<Rightarrow> telegram_dc \<Rightarrow> dc_endpoint list" where
  "dc_endpoints skip_ipv6 dc =
     (let endpoints = (\<lambda>ip_ver raw. concat (map (\<lambda>ip. map (\<lambda>port. (dc_id dc, ip_ver, ip, port)) (dc_ports dc))
            (normalise_ip_list raw)))
      in endpoints ''v4'' (JList (map JStr (dc_ipv4 dc)))
         @ (if skip_ipv6 then [] else endpoints ''v6'' (JList (map JStr (dc_ipv6 dc)))))"

definition enumerate_dc_endpoints :: "bool \<Rightarrow> telegram_dc list \<Rightarrow> dc_endpoint list" where
  "enumerate_dc_endpoints skip_ipv6 dcs = concat (map (dc_endpoints skip_ipv6) dcs)"

definition count_v6_endpoints :: "telegram_dc list \<Rightarrow> int" where
  "count_v6_endpoints dcs = sum_list (map (\<lambda>dc. if dc_ipv6 dc \<noteq> [] then int (length (dc_ports dc)) else 0) dcs)"

section \<open>A data-centre probe\<close>

text \<open>\<open>struct.pack\<close> of \<open>n\<close> bytes, little-endian.\<close>

fun little_endian :: "nat \<Rightarrow> int \<Rightarrow> byte list" where
  "little_endian 0 i = []"
| "little_endian (Suc n) i = of_int (i mod 256) # little_endian n (i div 256)"

lemma length_little_endian [simp]: "length (little_endian n i) = n"
  by (induction n i rule: little_endian.induct) simp_all

text \<open>The abridged frame sent at clock reading \<open>now\<close>: its marker, its length in words, the message.\<close>

definition message_id :: "rat \<Rightarrow> int" where
  "message_id now = \<lfloor>fmul now (2 ^ 32)\<rfloor> mod 2 ^ 63"

definition mtproto_message :: "rat \<Rightarrow> byte list" where
  "mtproto_message now = little_endian 8 0 @ little_endian 8 (message_id now) @ little_endian 4 4 @ [0xF1, 0x8E, 0x7E, 0xBE]"

definition mtproto_frame :: "rat \<Rightarrow> byte list" where
  "mtproto_frame now = (let mtproto = mtproto_message now in 0xEF # of_nat (length mtproto div 4) # mtproto)"

text \<open>The check of the frame's length before it is sent never raises: the model has no such branch.\<close>

lemma mtproto_frame_length:
  "length (mtproto_message now) = 24" "length (mtproto_frame now) = 26" "mtproto_frame now ! 1 = 6"
  by (simp_all add: mtproto_message_def mtproto_frame_def Let_def)

text \<open>
  How a probe ends: connected (with the kernel's statistics), and then the bytes of the answer or
  \<open>None\<close> for the read timeout; or one of the exceptions, at any point before the end. The clock is
  read at the start, after the connect and at the end.
\<close>

datatype dc_end =
    DcConnected "(nat \<Rightarrow> 8 word list option) option" rat rat rat "nat option"
  | DcTimeout
  | DcRefused
  | DcOsError string
  | DcCrash string string

definition ms_round1 :: "rat \<Rightarrow> json" where
  "ms_round1 x = JFloat (Fin (round1 x))"

definition dc_test_name :: "dc_endpoint \<Rightarrow> string" where
  "dc_test_name = (\<lambda>(dc, ip_ver, ip, port). ''telegram_dc'' @ str_of_int dc @ ''_'' @ ip_ver @ ''_'' @ str_of_int port)"

definition dc_target :: "dc_endpoint \<Rightarrow> string" where
  "dc_target = (\<lambda>(dc, ip_ver, ip, port). ip @ '':'' @ str_of_int port)"

definition UNREACHABLE_PHRASES :: "string list" where
  "UNREACHABLE_PHRASES = [''network is unreachable'', ''no route to host'', ''address family not supported'', ''unreachable'']"

text \<open>The result of a probe, or the exception that it lets through.\<close>

definition test_dc_port :: "dc_endpoint \<Rightarrow> dc_end \<Rightarrow> (string \<times> string) + test_result" where
  "test_dc_port ep ending =
     (let new = TestResult_new (dc_test_name ep) ''telegram'' (dc_target ep) in
      case ending of
        DcConnected sock t0 t_connect t_end response \<Rightarrow>
          let wallclock = fmul (fsub t_connect t0) 1000;
              rtt_connect = (case read_kernel_rtt_us sock of Some us \<Rightarrow> fdiv (of_int us) 1000 | None \<Rightarrow> wallclock);
              count = (case response of Some n \<Rightarrow> n | None \<Rightarrow> 0)
          in Inr ((new OK)\<lparr>tr_rtt_ms := Some rtt_connect,
               tr_evidence := [(''tcp_connect_ms'', ms_round1 rtt_connect), (''tcp_connect_wallclock_ms'', ms_round1 wallclock),
                 (''mtproto_response'', JBool (0 < count)), (''response_bytes'', JInt (int count)),
                 (''probe_total_ms'', ms_round1 (fmul (fsub t_end t0) 1000))]\<rparr>)
      | DcTimeout \<Rightarrow> Inr ((new BLOCKED)\<lparr>tr_method := Some IP_DROPPED, tr_evidence := [(''error'', JStr ''tcp_timeout'')]\<rparr>)
      | DcRefused \<Rightarrow> Inr ((new BLOCKED)\<lparr>tr_method := Some TCP_REFUSED, tr_evidence := [(''error'', JStr ''connection_refused'')]\<rparr>)
      | DcOsError e \<Rightarrow>
          (let err = str_lower e in
           if list_ex (str_contains err) UNREACHABLE_PHRASES then
             Inr ((new INCONCLUSIVE)\<lparr>tr_confidence := 0,
               tr_evidence := [(''error'', JStr e), (''reason'', JStr ''network_unreachable_local'')],
               tr_notes := Some (''Local probe has no route to this address '' @ em_dash @ '' not censorship.'')\<rparr>)
           else Inr ((new BLOCKED)\<lparr>tr_method := if str_contains err ''reset'' then Some TCP_RST_INJECTION else None,
               tr_evidence := [(''error'', JStr e)]\<rparr>))
      | DcCrash r cls \<Rightarrow> Inl (r, cls))"

record telegram_env =
  ge_start :: "dc_endpoint \<Rightarrow> rat"
  ge_finish :: "dc_endpoint \<Rightarrow> rat"
  ge_dc :: "dc_endpoint \<Rightarrow> dc_end"

definition crashed_dc_result :: "dc_endpoint \<Rightarrow> string \<Rightarrow> string \<Rightarrow> test_result" where
  "crashed_dc_result ep r cls = (TestResult_new (dc_test_name ep) ''telegram'' (dc_target ep) ERROR)
     \<lparr>tr_evidence := [(''error'', JStr r), (''error_type'', JStr cls)], tr_confidence := 0,
      tr_notes := Some (''DC probe raised an unexpected exception '' @ em_dash @ '' see logs.'')\<rparr>"

definition test_dc_reachability :: "'a telegram_env_scheme \<Rightarrow> telegram_dc list \<Rightarrow> bool \<Rightarrow> test_result list" where
  "test_dc_reachability E dcs skip_ipv6 =
     map (\<lambda>ep. case test_dc_port ep (ge_dc E ep) of
            Inr r \<Rightarrow> stamped (ge_start E ep) (ge_finish E ep) r
          | Inl (r, cls) \<Rightarrow> crashed_dc_result ep r cls)
       (enumerate_dc_endpoints skip_ipv6 dcs)"

section \<open>Certificates of the Telegram family\<close>

text \<open>
  The globs of the target file as the anchored regular expressions match them: a star is one or
  more characters but dots, letters are compared without case (ASCII), and the end anchor also
  matches before a final newline.
\<close>

fun glob_match :: "string \<Rightarrow> string \<Rightarrow> bool" where
  "glob_match [] s = (s = [] \<or> s = [CHR 0x0A])"
| "glob_match (c # p) [] = False"
| "glob_match (c # p) (x # s) =
     (if c = CHR ''*'' then x \<noteq> CHR ''.'' \<and> (glob_match p s \<or> glob_match (c # p) s)
      else lower_char c = lower_char x \<and> glob_match p s)"

text \<open>
  The certificate parser: it fails, or the extensions do, or it gives the DNS names of the
  subject alternative name (\<open>None\<close>: no such extension) and the common names (\<open>None\<close>: no text).
\<close>

datatype cert_load = LoadFails | ExtensionsFail string | CertNames "string list option" "string option list"

definition match_owned_cert :: "cert_load \<Rightarrow> string list \<Rightarrow> string + string option" where
  "match_owned_cert loaded patterns =
     (if patterns = [] then Inr None
      else case loaded of
          LoadFails \<Rightarrow> Inr None
        | ExtensionsFail e \<Rightarrow> Inl e
        | CertNames sans cns \<Rightarrow>
            Inr (first_that (\<lambda>name. list_ex (\<lambda>pat. glob_match pat name) patterns)
              ((case sans of None \<Rightarrow> [] | Some names \<Rightarrow> names) @ concat (map (\<lambda>cn. case cn of None \<Rightarrow> [] | Some v \<Rightarrow> [v]) cns))))"

text \<open>
  One HTTPS probe: a reply (status and the clock before and after), or an exception of the client,
  a connect error with its text and whether its cause is a TLS error.
\<close>

datatype https_end =
    HttpsReply int rat rat
  | HttpsConnectTimeout
  | HttpsConnectError string bool
  | HttpsOther string

record telegram_https_env = telegram_env +
  ge_https :: "string \<Rightarrow> https_end"
  ge_doh :: "string \<Rightarrow> unit + http_reply"
  ge_gethostbyname :: "string \<Rightarrow> string option"
  ge_peer_cert :: "string \<Rightarrow> string \<Rightarrow> string option"
  ge_chain_valid :: "string \<Rightarrow> string \<Rightarrow> bool"
  ge_capture_in_time :: "string \<Rightarrow> string \<Rightarrow> bool"
  ge_load_cert :: "string \<Rightarrow> cert_load"
  ge_repr :: "json \<Rightarrow> string"

definition doh_resolve :: "telegram_https_env \<Rightarrow> string \<Rightarrow> string option" where
  "doh_resolve E domain = map_option (str_of_json (ge_repr E)) (doh_address (ge_doh E domain))"

definition capture_cert :: "telegram_https_env \<Rightarrow> string \<Rightarrow> string option \<times> bool" where
  "capture_cert E domain =
     (case (case doh_resolve E domain of Some ip \<Rightarrow> Some ip | None \<Rightarrow> ge_gethostbyname E domain) of
        None \<Rightarrow> (None, False)
      | Some ip \<Rightarrow>
          if \<not> ge_capture_in_time E ip domain then (None, False)
          else (case ge_peer_cert E ip domain of
              Some (c # der) \<Rightarrow> (Some (c # der), ge_chain_valid E ip domain)
            | _ \<Rightarrow> (None, False)))"

definition owned_note :: string where
  "owned_note = ''TLS hostname check failed but cert chain is system-trusted ''
     @ ''and belongs to the Telegram-owned domain family '' @ em_dash @ '' proof ''
     @ ''the Telegram edge is reachable from this vantage; only ''
     @ ''the specific SAN routing is inconsistent. TSPU cannot ''
     @ ''forge a chain to a public CA for *.t.me, so this is not ''
     @ ''censorship.''"

definition classify_tls_failure ::
    "telegram_https_env \<Rightarrow> string \<Rightarrow> string \<Rightarrow> string \<Rightarrow> string list \<Rightarrow> string \<Rightarrow> string + test_result" where
  "classify_tls_failure E test_name url domain owned_patterns err_msg =
     (let blocked_result = (TestResult_new test_name ''telegram'' url BLOCKED)
            \<lparr>tr_method := Some TLS_HANDSHAKE_FAILURE, tr_evidence := [(''error'', JStr err_msg)]\<rparr>;
          (cert_der, chain_valid) = capture_cert E domain
      in case cert_der of
           None \<Rightarrow> Inr blocked_result
         | Some der \<Rightarrow> bindE (match_owned_cert (ge_load_cert E der) owned_patterns) (\<lambda>matched_name.
             case matched_name of
               Some name \<Rightarrow> Inr (if chain_valid then
                   (TestResult_new test_name ''telegram'' url OK)\<lparr>tr_confidence := fl (7 / 10),
                     tr_evidence := [(''error'', JStr err_msg), (''reason'', JStr ''wrong_cert_owned_family''),
                       (''cert_san_match'', JStr name)],
                     tr_notes := Some owned_note\<rparr>
                 else blocked_result)
             | None \<Rightarrow> Inr blocked_result))"

definition is_tls_error :: "string \<Rightarrow> bool \<Rightarrow> bool" where
  "is_tls_error e cause_is_ssl \<longleftrightarrow>
     cause_is_ssl \<or> str_contains (str_lower e) ''ssl'' \<or> str_contains (str_lower e) ''certificate''"

definition probe_https :: "telegram_https_env \<Rightarrow> string \<Rightarrow> string list \<Rightarrow> string \<Rightarrow> string + test_result" where
  "probe_https E prfx owned_patterns domain =
     (let url = ''https://'' @ domain @ ''/''; test_name = prfx @ ''_'' @ dns_slug domain;
          new = TestResult_new test_name ''telegram'' url in
      case ge_https E domain of
        HttpsReply status_code t0 t1 \<Rightarrow> Inr ((new (if status_code < 500 then OK else ANOMALY))
          \<lparr>tr_evidence := [(''status'', JInt status_code), (''http_response_ms'', ms_round1 (fmul (fsub t1 t0) 1000))]\<rparr>)
      | HttpsConnectTimeout \<Rightarrow> Inr ((new BLOCKED)\<lparr>tr_method := Some IP_DROPPED, tr_evidence := [(''error'', JStr ''connect_timeout'')]\<rparr>)
      | HttpsConnectError e cause_is_ssl \<Rightarrow>
          if is_tls_error e cause_is_ssl then classify_tls_failure E test_name url domain owned_patterns e
          else Inr ((new BLOCKED)\<lparr>tr_method := Some IP_DROPPED, tr_evidence := [(''error'', JStr e)]\<rparr>)
      | HttpsOther e \<Rightarrow> Inr ((new ERROR)\<lparr>tr_evidence := [(''error'', JStr e)]\<rparr>))"

definition test_https_domains :: "telegram_https_env \<Rightarrow> string list \<Rightarrow> string \<Rightarrow> string list \<Rightarrow> string + test_result list" where
  "test_https_domains E hosts prfx owned_patterns = gather (probe_https E prfx owned_patterns) hosts"

section \<open>IPv6 on the probe host\<close>

definition default_route_line :: "string \<Rightarrow> bool" where
  "default_route_line line =
     (let parts = split_ws line in
      10 \<le> length parts \<and> parts ! 0 = replicate 32 (CHR ''0'') \<and> parts ! 1 = ''00'' \<and> parts ! 9 \<noteq> ''lo'')"

definition has_ipv6_default_route :: "string option \<Rightarrow> bool" where
  "has_ipv6_default_route route_file =
     (case route_file of None \<Rightarrow> False | Some f \<Rightarrow> list_ex default_route_line (split_on (CHR 0x0A) f))"

definition host_has_ipv6 :: "bool \<Rightarrow> bool \<Rightarrow> string option \<Rightarrow> bool" where
  "host_has_ipv6 socket_ok bind_ok route_file \<longleftrightarrow> socket_ok \<and> bind_ok \<and> has_ipv6_default_route route_file"

section \<open>The health score\<close>

definition ok_ratio :: "test_result list \<Rightarrow> rat" where
  "ok_ratio results =
     (let decisive = filter (\<lambda>r. tr_verdict r \<noteq> INCONCLUSIVE) results in
      if decisive = [] then 0
      else fdiv (of_nat (length (filter (\<lambda>r. tr_verdict r = OK) decisive))) (of_nat (length decisive)))"

definition compute_health_score :: "test_result list \<Rightarrow> (string, rat) dict \<Rightarrow> rat" where
  "compute_health_score results weights =
     (let w_dc = dict_default weights ''dc_reachability'' (fl (55 / 100));
          w_web = dict_default weights ''web_access'' (1 / 4);
          w_cdn = dict_default weights ''cdn_access'' (fl (20 / 100));
          score = (\<lambda>p. ok_ratio (filter (\<lambda>r. starts_with (tr_test r) p) results));
          total_w = fadd (fadd w_dc w_web) w_cdn
      in if total_w = 0 then 1
         else fdiv (fadd (fadd (fmul (score ''telegram_dc'') w_dc) (fmul (score ''telegram_web'') w_web))
                (fmul (score ''telegram_cdn'') w_cdn)) total_w)"

definition health_verdict :: "rat \<Rightarrow> verdict" where
  "health_verdict health = (if fl (7 / 10) \<le> health then OK else if fl (3 / 10) \<le> health then ANOMALY else BLOCKED)"

definition round_n :: "nat \<Rightarrow> rat \<Rightarrow> json" where
  "round_n k x = JFloat (pf_round k (Fin x))"

definition health_result :: "rat \<Rightarrow> test_result" where
  "health_result health = (TestResult_new ''telegram_health_score'' ''telegram'' ''telegram'' (health_verdict health))
     \<lparr>tr_evidence := [(''health_score'', round_n 3 health), (''health_pct'', round_n 1 (fmul health 100))]\<rparr>"

definition ipv6_skipped_result :: "telegram_dc list \<Rightarrow> test_result" where
  "ipv6_skipped_result dcs = (TestResult_new ''telegram_ipv6_skipped'' ''telegram'' ''ipv6'' INCONCLUSIVE)
     \<lparr>tr_evidence := [(''reason'', JStr ''host_has_no_ipv6''), (''skipped_endpoints'', JInt (count_v6_endpoints dcs))],
      tr_notes := Some (''IPv6 unavailable on probe host '' @ em_dash @ '' DC v6 endpoints not tested.''), tr_confidence := 0\<rparr>"

text \<open>The module: \<open>Inl\<close> is the exception that leaves it.\<close>

definition run_telegram_tests :: "telegram_https_env \<Rightarrow> bool \<Rightarrow> target_file \<Rightarrow> string + test_result list" where
  "run_telegram_tests E ipv6_available cfg =
     (let owned = tf_owned_cert_patterns cfg; dcs = tf_api_datacenters cfg;
          dc_results = (if ipv6_available then [] else [ipv6_skipped_result dcs])
            @ test_dc_reachability E dcs (\<not> ipv6_available)
      in bindE (test_https_domains E (tf_web cfg) ''telegram_web'' owned) (\<lambda>web.
         bindE (test_https_domains E (tf_auxiliary cfg) ''telegram_aux'' owned) (\<lambda>aux.
         bindE (test_https_domains E (tf_cdn cfg) ''telegram_cdn'' owned) (\<lambda>cdn.
           let results = dc_results @ web @ aux @ cdn in
           Inr (results @ [health_result (compute_health_score results (tf_health_weights cfg))])))))"

section \<open>The health score follows the results\<close>

definition ok_count :: "test_result list \<Rightarrow> nat" where
  "ok_count rs = length (filter (\<lambda>r. tr_verdict r = OK) rs)"

definition decisive_count :: "test_result list \<Rightarrow> nat" where
  "decisive_count rs = length (filter (\<lambda>r. tr_verdict r \<noteq> INCONCLUSIVE) rs)"

lemma ok_ratio_counts: "ok_ratio rs = (if decisive_count rs = 0 then 0 else fdiv (of_nat (ok_count rs)) (of_nat (decisive_count rs)))"
proof -
  have "filter (\<lambda>r. tr_verdict r = OK) (filter (\<lambda>r. tr_verdict r \<noteq> INCONCLUSIVE) rs) = filter (\<lambda>r. tr_verdict r = OK) rs"
    by (induction rs) auto
  then show ?thesis by (simp add: ok_ratio_def ok_count_def decisive_count_def Let_def)
qed

lemma ok_le_decisive: "ok_count rs \<le> decisive_count rs"
  unfolding ok_count_def decisive_count_def by (induction rs) auto

lemma ok_ratio_range: "0 \<le> ok_ratio rs" "ok_ratio rs \<le> 1"
proof -
  show "0 \<le> ok_ratio rs" by (simp add: ok_ratio_counts fdiv_nonneg)
  have "(of_nat (ok_count rs) :: rat) / of_nat (decisive_count rs) \<le> 1"
    using ok_le_decisive [of rs] by (cases "decisive_count rs = 0") simp_all
  then show "ok_ratio rs \<le> 1" by (simp add: ok_ratio_counts fdiv_def fl_le_1)
qed

text \<open>The same tests, where some verdicts became OK.\<close>

definition repaired :: "test_result list \<Rightarrow> test_result list \<Rightarrow> bool" where
  "repaired rs rs' \<longleftrightarrow>
     list_all2 (\<lambda>r r'. tr_test r' = tr_test r \<and> (tr_verdict r' = tr_verdict r \<or> tr_verdict r' = OK)) rs rs'"

lemma repaired_filter: "repaired rs rs' \<Longrightarrow> repaired (filter (\<lambda>r. P (tr_test r)) rs) (filter (\<lambda>r. P (tr_test r)) rs')"
  unfolding repaired_def by (induction rs rs' rule: list_all2_induct) auto

lemma repaired_counts:
  "repaired rs rs' \<Longrightarrow> ok_count rs \<le> ok_count rs' \<and> decisive_count rs \<le> decisive_count rs'
     \<and> decisive_count rs' + ok_count rs \<le> decisive_count rs + ok_count rs'"
  unfolding repaired_def ok_count_def decisive_count_def by (induction rs rs' rule: list_all2_induct) auto

lemma ratio_grows:
  fixes k n k' n' :: nat
  assumes "k \<le> n" "k \<le> k'" "n \<le> n'" "n' + k \<le> n + k'" "0 < n"
  shows "(of_nat k :: rat) / of_nat n \<le> of_nat k' / of_nat n'"
proof -
  obtain d e where d: "k' = k + d" and e: "n' = n + e" using assms(2,3) le_Suc_ex by metis
  have "e \<le> d" using assms(4) by (simp add: d e)
  then have "k * e \<le> n * d" using assms(1) by (simp add: mult_le_mono)
  then have "k * n' \<le> k' * n" by (simp add: d e algebra_simps)
  then have "(of_nat (k * n') :: rat) \<le> of_nat (k' * n)" by (simp only: of_nat_le_iff)
  then show ?thesis using assms(3,5) by (simp add: divide_simps mult.commute)
qed

lemma ok_ratio_repaired:
  assumes "repaired rs rs'"
  shows "ok_ratio rs \<le> ok_ratio rs'"
proof (cases "decisive_count rs = 0")
  case True
  then show ?thesis using ok_ratio_range(1) [of rs'] by (simp add: ok_ratio_counts [of rs])
next
  case False
  note c = repaired_counts [OF assms]
  have "(of_nat (ok_count rs) :: rat) / of_nat (decisive_count rs) \<le> of_nat (ok_count rs') / of_nat (decisive_count rs')"
    using ratio_grows c ok_le_decisive False by blast
  then show ?thesis using False c by (simp add: ok_ratio_counts fdiv_def fl_mono)
qed

text \<open>Weights as the loader gives them: floats that are not negative.\<close>

definition weights_ok :: "(string, rat) dict \<Rightarrow> bool" where
  "weights_ok weights \<longleftrightarrow> list_all (\<lambda>(k, w). 0 \<le> w \<and> fl w = w) weights"

lemma weights_okD: "weights_ok weights \<Longrightarrow> 0 \<le> d \<Longrightarrow> fl d = d \<Longrightarrow>
    0 \<le> dict_default weights k d \<and> fl (dict_default weights k d) = dict_default weights k d"
  by (auto simp: weights_ok_def dict_default_def list_all_iff split: option.split dest!: dict_get_SomeD)

definition weighted :: "rat \<Rightarrow> rat \<Rightarrow> rat \<Rightarrow> rat \<Rightarrow> rat \<Rightarrow> rat \<Rightarrow> rat" where
  "weighted a b c u v w = fadd (fadd (fmul a u) (fmul b v)) (fmul c w)"

lemma weighted_mono:
  assumes "0 \<le> u" "0 \<le> v" "0 \<le> w" "a \<le> a'" "b \<le> b'" "c \<le> c'"
  shows "weighted a b c u v w \<le> weighted a' b' c' u v w"
  unfolding weighted_def fadd_def fmul_def using assms by (intro fl_mono add_mono mult_right_mono) auto

lemma weighted_one: "fl u = u \<Longrightarrow> fl v = v \<Longrightarrow> fl w = w \<Longrightarrow> weighted 1 1 1 u v w = fadd (fadd u v) w"
  by (simp add: weighted_def fmul_def)

lemma weighted_zero: "weighted 0 0 0 u v w = 0"
  by (simp add: weighted_def fmul_def fadd_def)

text \<open>
  C39. The Telegram health score is a mean and behaves like one in floating point: for weights that
  are not negative it lies between 0 and 1, the verdict is read off it at the thresholds 0.7 and
  0.3, and results that become OK, decisive before or not, never lower it nor worsen the verdict.
\<close>

theorem telegram_health_sound:
  assumes "weights_ok weights"
  shows "0 \<le> compute_health_score results weights \<and> compute_health_score results weights \<le> 1
    \<and> (\<forall>better. repaired results better \<longrightarrow>
         compute_health_score results weights \<le> compute_health_score better weights
         \<and> (tr_verdict (health_result (compute_health_score results weights)) = OK \<longrightarrow>
              tr_verdict (health_result (compute_health_score better weights)) = OK)
         \<and> (tr_verdict (health_result (compute_health_score better weights)) = BLOCKED \<longrightarrow>
              tr_verdict (health_result (compute_health_score results weights)) = BLOCKED))"
proof -
  define u where "u = dict_default weights ''dc_reachability'' (fl (55 / 100))"
  define v where "v = dict_default weights ''web_access'' (1 / 4)"
  define w where "w = dict_default weights ''cdn_access'' (fl (20 / 100))"
  let ?total = "fadd (fadd u v) w"
  let ?score = "\<lambda>rs p. ok_ratio (filter (\<lambda>r. starts_with (tr_test r) p) rs)"
  let ?sum = "\<lambda>rs. weighted (?score rs ''telegram_dc'') (?score rs ''telegram_web'') (?score rs ''telegram_cdn'') u v w"
  have quarter: "fl (1 / 4) = 1 / 4" using fl_exact [of 1 "- 2"] by (simp add: power_int_def power_divide)
  have uvw: "0 \<le> u \<and> fl u = u" "0 \<le> v \<and> fl v = v" "0 \<le> w \<and> fl w = w"
    unfolding u_def v_def w_def by (rule weights_okD [OF assms]; simp add: fl_nonneg quarter)+
  have h: "compute_health_score rs weights = (if ?total = 0 then 1 else fdiv (?sum rs) ?total)" for rs
    by (simp add: compute_health_score_def Let_def u_def v_def w_def weighted_def)
  have total: "0 \<le> ?total" using uvw by (simp add: fadd_nonneg)
  have sums: "0 \<le> ?sum rs" "?sum rs \<le> ?total" for rs
  proof -
    show "0 \<le> ?sum rs" using weighted_mono [of u v w 0 _ 0 _ 0 _] uvw ok_ratio_range(1) weighted_zero by metis
    show "?sum rs \<le> ?total" using weighted_mono [of u v w _ 1 _ 1 _ 1] uvw ok_ratio_range(2) weighted_one by metis
  qed
  have range: "0 \<le> compute_health_score rs weights" "compute_health_score rs weights \<le> 1" for rs
  proof -
    show "0 \<le> compute_health_score rs weights" using sums total by (simp add: h fdiv_nonneg)
    show "compute_health_score rs weights \<le> 1"
    proof (cases "?total = 0")
      case False
      then have "?sum rs / ?total \<le> 1" using sums(2) [of rs] total by (simp add: divide_le_eq)
      then show ?thesis using False by (simp add: h fdiv_def fl_le_1)
    qed (simp add: h)
  qed
  have mono: "compute_health_score results weights \<le> compute_health_score better weights" if "repaired results better" for better
  proof -
    have "?score results p \<le> ?score better p" for p by (rule ok_ratio_repaired [OF repaired_filter [OF that]])
    then have "?sum results \<le> ?sum better" using uvw by (intro weighted_mono) auto
    then show ?thesis using total by (simp add: h fdiv_def fl_mono divide_right_mono)
  qed
  have verdict: "tr_verdict (health_result x) = health_verdict x" for x by (simp add: health_result_def)
  show ?thesis unfolding verdict health_verdict_def using range mono by (auto split: if_splits dest!: mono)
qed

theorem telegram_health_sound_witness:
  "weights_ok [(''dc_reachability'', 1 / 2)]
   \<and> compute_health_score [] [(''dc_reachability'', 1 / 2)] \<le>
       compute_health_score [] [(''dc_reachability'', 1 / 2)]
   \<and> 0 \<le> compute_health_score [TestResult_new ''telegram_dc1_v4_443'' ''telegram'' [] OK] [(''dc_reachability'', 1 / 2)]"
proof -
  have "fl (1 / 2) = 1 / 2" using fl_half_int [of 1] by simp
  then have w: "weights_ok [(''dc_reachability'', 1 / 2)]" by (simp add: weights_ok_def)
  then show ?thesis using telegram_health_sound [OF w, of "[TestResult_new ''telegram_dc1_v4_443'' ''telegram'' [] OK]"] by simp
qed

text \<open>
  Without any decisive result the score is 0 and the summary says BLOCKED with full confidence:
  a host that has no route to the data centres, which each probe notes as no censorship, reports
  Telegram as blocked.
\<close>

lemma unreachable_dc:
  assumes "ge_dc E ep = DcOsError e" "list_ex (str_contains (str_lower e)) UNREACHABLE_PHRASES"
  shows "tr_verdict (case test_dc_port ep (ge_dc E ep) of Inr r \<Rightarrow> stamped t0 t1 r | Inl (r, cls) \<Rightarrow> crashed_dc_result ep r cls)
    = INCONCLUSIVE"
  using assms by (simp add: test_dc_port_def Let_def)

lemma unreachable_host_reports_blocked:
  assumes "run_telegram_tests E False cfg = Inr results" "tf_web cfg = []" "tf_auxiliary cfg = []" "tf_cdn cfg = []"
    "tf_health_weights cfg = [(''dc_reachability'', 1)]"
    "\<And>ep. ge_dc E ep = DcOsError e" "list_ex (str_contains (str_lower e)) UNREACHABLE_PHRASES"
  shows "tr_verdict (last results) = BLOCKED \<and> tr_confidence (last results) = 1"
proof -
  let ?rs = "ipv6_skipped_result (tf_api_datacenters cfg) # test_dc_reachability E (tf_api_datacenters cfg) True"
  have dc: "tr_verdict r = INCONCLUSIVE" if r: "r \<in> set (test_dc_reachability E (tf_api_datacenters cfg) True)" for r
  proof -
    obtain ep where "r = (case test_dc_port ep (ge_dc E ep) of
        Inr r \<Rightarrow> stamped (ge_start E ep) (ge_finish E ep) r | Inl (r, cls) \<Rightarrow> crashed_dc_result ep r cls)"
      using r unfolding test_dc_reachability_def by auto
    then show ?thesis using unreachable_dc [OF assms(6,7)] by simp
  qed
  have "tr_verdict (ipv6_skipped_result dcs) = INCONCLUSIVE" for dcs by (simp add: ipv6_skipped_result_def)
  then have "tr_verdict r = INCONCLUSIVE" if "r \<in> set (filter (\<lambda>r. starts_with (tr_test r) p) ?rs)" for r p
    using that dc by (auto split: if_splits)
  then have "decisive_count (filter (\<lambda>r. starts_with (tr_test r) p) ?rs) = 0" for p
    by (simp add: decisive_count_def filter_empty_conv)
  then have "ok_ratio (filter (\<lambda>r. starts_with (tr_test r) p) ?rs) = 0" for p by (simp add: ok_ratio_counts)
  moreover have "fadd (fadd 1 (1 / 4)) (fl (20 / 100)) \<noteq> 0"
  proof -
    have "1 \<le> fadd 1 (1 / 4)" using fl_mono [of 1 "1 + 1 / 4"] by (simp add: fadd_def)
    then have "1 \<le> fadd 1 (1 / 4) + fl (20 / 100)" using fl_nonneg [of "20 / 100"] by linarith
    then show ?thesis using fl_mono [of 1 "fadd 1 (1 / 4) + fl (20 / 100)"] by (simp add: fadd_def)
  qed
  ultimately have "compute_health_score ?rs [(''dc_reachability'', 1)] = 0"
    by (simp add: compute_health_score_def Let_def dict_default_def dict_get_def fmul_def fdiv_def fadd_def del: filter.simps)
  moreover have "0 < fl (3 / 10)" "0 < fl (7 / 10)"
    using fl_mono [of "1 / 4" "3 / 10"] fl_mono [of "1 / 4" "7 / 10"] fl_exact [of 1 "- 2"]
    by (simp_all add: power_int_def power_divide)
  ultimately show ?thesis using assms(1-5)
    by (auto simp: run_telegram_tests_def test_https_domains_def Let_def health_result_def health_verdict_def)
qed

section \<open>When a failed certificate check counts as reachable\<close>

lemma glob_plain:
  "CHR ''*'' \<notin> set p \<Longrightarrow> glob_match p s \<longleftrightarrow>
     str_lower s = str_lower p \<or> (\<exists>s'. s = s' @ [CHR 0x0A] \<and> str_lower s' = str_lower p)"
proof (induction p s rule: glob_match.induct)
  case (3 c p x s)
  have "(\<exists>s'. x # s = s' @ [CHR 0x0A] \<and> str_lower s' = str_lower (c # p)) \<longleftrightarrow>
      lower_char x = lower_char c \<and> (\<exists>s'. s = s' @ [CHR 0x0A] \<and> str_lower s' = str_lower p)"
    by (auto simp: str_lower_def Cons_eq_append_conv)
  then show ?case using 3 by (auto simp: str_lower_def)
qed (auto simp: str_lower_def)

lemma glob_star:
  "glob_match (CHR ''*'' # p) s \<longleftrightarrow> (\<exists>l r. s = l @ r \<and> l \<noteq> [] \<and> CHR ''.'' \<notin> set l \<and> glob_match p r)"
proof (induction s)
  case (Cons x s)
  have "(\<exists>l r. x # s = l @ r \<and> l \<noteq> [] \<and> CHR ''.'' \<notin> set l \<and> glob_match p r) \<longleftrightarrow>
      x \<noteq> CHR ''.'' \<and> (glob_match p s \<or> (\<exists>l r. s = l @ r \<and> l \<noteq> [] \<and> CHR ''.'' \<notin> set l \<and> glob_match p r))"
  proof
    assume "\<exists>l r. x # s = l @ r \<and> l \<noteq> [] \<and> CHR ''.'' \<notin> set l \<and> glob_match p r"
    then obtain l r where "s = l @ r" "CHR ''.'' \<notin> set (x # l)" "glob_match p r"
      by (metis append_Cons list.exhaust list.inject)
    then show "x \<noteq> CHR ''.'' \<and> (glob_match p s \<or> (\<exists>l r. s = l @ r \<and> l \<noteq> [] \<and> CHR ''.'' \<notin> set l \<and> glob_match p r))"
      by (metis append_Nil list.set_intros(1) list.set_intros(2))
  next
    assume a: "x \<noteq> CHR ''.'' \<and> (glob_match p s \<or> (\<exists>l r. s = l @ r \<and> l \<noteq> [] \<and> CHR ''.'' \<notin> set l \<and> glob_match p r))"
    then obtain l r where "s = l @ r" "CHR ''.'' \<notin> set l" "glob_match p r" by fastforce
    then have "x # s = (x # l) @ r" "CHR ''.'' \<notin> set (x # l)" "glob_match p r" using a by auto
    then show "\<exists>l r. x # s = l @ r \<and> l \<noteq> [] \<and> CHR ''.'' \<notin> set l \<and> glob_match p r" by (metis list.discI)
  qed
  then show ?case using Cons.IH by simp
qed simp

fun names_of :: "cert_load \<Rightarrow> string list" where
  "names_of (CertNames sans cns) = (case sans of None \<Rightarrow> [] | Some names \<Rightarrow> names) @ concat (map (\<lambda>cn. case cn of None \<Rightarrow> [] | Some v \<Rightarrow> [v]) cns)"
| "names_of _ = []"

lemma first_that_Some_iff: "(\<exists>x. first_that P xs = Some x) \<longleftrightarrow> (\<exists>x \<in> set xs. P x)"
  by (induction xs) (auto simp: first_that_def)

lemma match_owned_iff:
  "(\<exists>name. match_owned_cert loaded patterns = Inr (Some name)) \<longleftrightarrow>
     (\<exists>name \<in> set (names_of loaded). \<exists>pat \<in> set patterns. glob_match pat name)"
  by (cases loaded; cases patterns; simp add: match_owned_cert_def first_that_Some_iff list_ex_iff)

definition capture_address :: "telegram_https_env \<Rightarrow> string \<Rightarrow> string option" where
  "capture_address E d = (case doh_resolve E d of Some ip \<Rightarrow> Some ip | None \<Rightarrow> ge_gethostbyname E d)"

text \<open>The address presents a certificate of the family, and its chain is trusted.\<close>

definition owned_endpoint :: "telegram_https_env \<Rightarrow> string list \<Rightarrow> string \<Rightarrow> bool" where
  "owned_endpoint E patterns d \<longleftrightarrow> (\<exists>ip der. capture_address E d = Some ip \<and> ge_capture_in_time E ip d
     \<and> ge_peer_cert E ip d = Some der \<and> der \<noteq> [] \<and> ge_chain_valid E ip d
     \<and> (\<exists>name \<in> set (names_of (ge_load_cert E der)). \<exists>pat \<in> set patterns. glob_match pat name))"

lemma classify_OK:
  assumes "classify_tls_failure E t url d patterns e = Inr r"
  shows "tr_verdict r = OK \<longleftrightarrow> owned_endpoint E patterns d"
proof -
  obtain cert valid where c: "capture_cert E d = (cert, valid)" by force
  have cap: "cert = Some der \<and> valid \<longleftrightarrow> (\<exists>ip. capture_address E d = Some ip \<and> ge_capture_in_time E ip d
      \<and> ge_peer_cert E ip d = Some der \<and> der \<noteq> [] \<and> ge_chain_valid E ip d)" for der
    using c by (auto simp: capture_cert_def capture_address_def split: option.splits list.splits if_splits)
  show ?thesis
  proof (cases cert)
    case None
    then show ?thesis using assms cap by (auto simp: classify_tls_failure_def c Let_def owned_endpoint_def)
  next
    case (Some der)
    then obtain m where m: "match_owned_cert (ge_load_cert E der) patterns = Inr m"
      using assms by (auto simp: classify_tls_failure_def c Let_def bindE_Inr_iff)
    have "tr_verdict r = OK \<longleftrightarrow> valid \<and> m \<noteq> None"
      using assms Some m by (auto simp: classify_tls_failure_def c Let_def split: option.splits if_splits)
    moreover have "m \<noteq> None \<longleftrightarrow> (\<exists>name \<in> set (names_of (ge_load_cert E der)). \<exists>pat \<in> set patterns. glob_match pat name)"
      using match_owned_iff [of "ge_load_cert E der" patterns] m by auto
    moreover have "owned_endpoint E patterns d \<longleftrightarrow> (\<exists>der'. (cert = Some der' \<and> valid)
        \<and> (\<exists>name \<in> set (names_of (ge_load_cert E der')). \<exists>pat \<in> set patterns. glob_match pat name))"
      unfolding owned_endpoint_def cap by blast
    ultimately show ?thesis using Some by simp
  qed
qed

text \<open>
  A Telegram site is reported OK exactly when it answered with a status below 500, or the
  client's TLS check failed but the address the probe found, independently of the failed attempt,
  presents a certificate whose chain is trusted and one of whose names matches an owned pattern;
  and a pattern \<open>*.base\<close> stands for one nonempty label before \<open>base\<close> and nothing else, without
  regard to case.
\<close>

theorem telegram_site_ok_is_earned:
  assumes "probe_https E prfx patterns d = Inr r"
  shows "(tr_verdict r = OK \<longleftrightarrow> (\<exists>code t0 t1. ge_https E d = HttpsReply code t0 t1 \<and> code < 500)
      \<or> (\<exists>e ssl. ge_https E d = HttpsConnectError e ssl \<and> is_tls_error e ssl \<and> owned_endpoint E patterns d))
    \<and> (\<forall>base name. CHR ''*'' \<notin> set base \<and> CHR 0x0A \<notin> set name \<longrightarrow>
         glob_match (''*.'' @ base) name \<longleftrightarrow>
           (\<exists>label rest. name = label @ CHR ''.'' # rest \<and> label \<noteq> [] \<and> CHR ''.'' \<notin> set label \<and> str_lower rest = str_lower base))"
proof (intro conjI allI impI)
  show "tr_verdict r = OK \<longleftrightarrow> (\<exists>code t0 t1. ge_https E d = HttpsReply code t0 t1 \<and> code < 500)
      \<or> (\<exists>e ssl. ge_https E d = HttpsConnectError e ssl \<and> is_tls_error e ssl \<and> owned_endpoint E patterns d)"
    using assms classify_OK by (cases "ge_https E d") (auto simp: probe_https_def Let_def split: if_splits)
  fix base name :: string assume a: "CHR ''*'' \<notin> set base \<and> CHR 0x0A \<notin> set name"
  have dot: "lower_char x = CHR ''.'' \<longleftrightarrow> x = CHR ''.''" for x
    by (auto simp: lower_char_def is_upper_def dest!: arg_cong [where f = "of_char :: char \<Rightarrow> nat"])
  have rest: "glob_match (CHR ''.'' # base) r \<longleftrightarrow> (\<exists>rest. r = CHR ''.'' # rest \<and> str_lower rest = str_lower base)"
    if "CHR 0x0A \<notin> set r" for r
  proof (cases r)
    case (Cons x s)
    have "CHR 0x0A \<notin> set s" using that Cons by simp
    then have "glob_match base s \<longleftrightarrow> str_lower s = str_lower base" using glob_plain [of base s] a by auto
    moreover have "lower_char (CHR ''.'') = CHR ''.''" by (simp add: dot)
    ultimately show ?thesis using dot [of x] by (auto simp: Cons)
  qed simp
  show "glob_match (''*.'' @ base) name \<longleftrightarrow>
      (\<exists>label rest. name = label @ CHR ''.'' # rest \<and> label \<noteq> [] \<and> CHR ''.'' \<notin> set label \<and> str_lower rest = str_lower base)"
  proof -
    have "glob_match (''*.'' @ base) name \<longleftrightarrow>
        (\<exists>l r. name = l @ r \<and> l \<noteq> [] \<and> CHR ''.'' \<notin> set l \<and> glob_match (CHR ''.'' # base) r)"
      using glob_star [of "CHR ''.'' # base" name] by simp
    also have "\<dots> \<longleftrightarrow> (\<exists>l r. name = l @ r \<and> l \<noteq> [] \<and> CHR ''.'' \<notin> set l
        \<and> (\<exists>rest. r = CHR ''.'' # rest \<and> str_lower rest = str_lower base))"
    proof -
      have "CHR 0x0A \<notin> set r" if "name = l @ r" for l r using a that by simp
      then show ?thesis using rest by blast
    qed
    also have "\<dots> \<longleftrightarrow> (\<exists>label rest. name = label @ CHR ''.'' # rest \<and> label \<noteq> [] \<and> CHR ''.'' \<notin> set label \<and> str_lower rest = str_lower base)"
      by blast
    finally show ?thesis .
  qed
qed


lemma match_owned_total: "(\<And>x. loaded \<noteq> ExtensionsFail x) \<Longrightarrow> \<exists>m. match_owned_cert loaded patterns = Inr m"
  by (cases loaded) (auto simp: match_owned_cert_def)

lemma probe_https_total:
  assumes "\<And>der x. ge_load_cert E der \<noteq> ExtensionsFail x"
  shows "\<exists>r. probe_https E prfx patterns d = Inr r"
proof -
  have "\<exists>r. classify_tls_failure E t url d patterns e = Inr r" for t url e
  proof (cases "fst (capture_cert E d)")
    case (Some der)
    then obtain m where "match_owned_cert (ge_load_cert E der) patterns = Inr m" using match_owned_total assms by blast
    then show ?thesis using Some by (simp add: classify_tls_failure_def Let_def split_beta split: option.split)
  qed (simp add: classify_tls_failure_def Let_def split_beta)
  then show ?thesis by (cases "ge_https E d") (simp_all add: probe_https_def Let_def)
qed

definition demo_telegram :: telegram_https_env where
  "demo_telegram = \<lparr>ge_start = (\<lambda>ep. 0), ge_finish = (\<lambda>ep. 0), ge_dc = (\<lambda>ep. DcTimeout),
     ge_https = (\<lambda>d. HttpsConnectError ''certificate verify failed'' True), ge_doh = (\<lambda>d. Inl ()),
     ge_gethostbyname = (\<lambda>d. Some ''1.2.3.4''), ge_peer_cert = (\<lambda>ip d. Some ''der''), ge_chain_valid = (\<lambda>ip d. True),
     ge_capture_in_time = (\<lambda>ip d. True), ge_load_cert = (\<lambda>der. CertNames (Some [''cdn.T.me'']) []), ge_repr = (\<lambda>v. [])\<rparr>"

theorem telegram_site_ok_is_earned_witness:
  "\<exists>r. probe_https demo_telegram ''telegram_cdn'' [''*.t.me''] ''cdn1.cdn-telegram.org'' = Inr r \<and> tr_verdict r = OK
     \<and> glob_match ''*.t.me'' ''cdn.T.me''"
proof -
  let ?d = "''cdn1.cdn-telegram.org''"
  have "ge_load_cert demo_telegram der \<noteq> ExtensionsFail x" for der x by (simp add: demo_telegram_def)
  then obtain r where r: "probe_https demo_telegram ''telegram_cdn'' [''*.t.me''] ?d = Inr r"
    using probe_https_total by blast
  have doh: "doh_resolve demo_telegram ?d = None" by code_simp
  have "\<exists>name \<in> set (names_of (ge_load_cert demo_telegram ''der'')). \<exists>pat \<in> set [''*.t.me'']. glob_match pat name" by code_simp
  then have "owned_endpoint demo_telegram [''*.t.me''] ?d"
    unfolding owned_endpoint_def capture_address_def doh by (simp add: demo_telegram_def)
  moreover have "ge_https demo_telegram ?d = HttpsConnectError ''certificate verify failed'' True" "is_tls_error ''certificate verify failed'' True"
    by (simp_all add: demo_telegram_def is_tls_error_def)
  moreover have "glob_match ''*.t.me'' ''cdn.T.me''" by code_simp
  ultimately show ?thesis using telegram_site_ok_is_earned [OF r] r by blast
qed

text \<open>
  The names of a captured certificate are read before its chain is looked at, and outside any
  handler: a certificate whose extensions do not parse, trusted or not, ends the whole module
  with an exception and no Telegram result at all.
\<close>

lemma malformed_certificate_ends_module:
  assumes "d \<in> set (tf_web cfg)" "ge_https E d = HttpsConnectError e ssl" "is_tls_error e ssl"
    "capture_cert E d = (Some der, valid)" "ge_load_cert E der = ExtensionsFail x" "tf_owned_cert_patterns cfg \<noteq> []"
  shows "\<exists>x. run_telegram_tests E ipv6 cfg = Inl x"
proof -
  let ?f = "probe_https E ''telegram_web'' (tf_owned_cert_patterns cfg)"
  have bad: "\<exists>x. ?f d = Inl x"
    using assms(2-6) by (simp add: probe_https_def classify_tls_failure_def match_owned_cert_def Let_def)
  have "\<nexists>rs. gather ?f (tf_web cfg) = Inr rs"
    using assms(1) bad by (force simp: gather_Inr list_all2_conv_all_nth in_set_conv_nth)
  then obtain x where "gather ?f (tf_web cfg) = Inl x" by (meson sum.exhaust)
  then show ?thesis by (simp add: run_telegram_tests_def test_https_domains_def Let_def)
qed

section \<open>Data centres\<close>

text \<open>
  Every configured endpoint gives one result in its place, also when its probe crashes, and the
  marker of a host without IPv6 counts what was left out, for data centres with at most one
  address of that version.
\<close>

lemma one_result_per_endpoint:
  "map tr_test (test_dc_reachability E dcs skip) = map dc_test_name (enumerate_dc_endpoints skip dcs)"
proof -
  have ok: "test_dc_port ep ending = Inr r \<Longrightarrow> tr_test r = dc_test_name ep" for ep ending r
    by (cases ending) (auto simp: test_dc_port_def Let_def split: if_splits)
  show ?thesis unfolding test_dc_reachability_def
    by (auto simp: crashed_dc_result_def split: sum.split dest: ok)
qed

lemma skipped_endpoints_counted:
  assumes "\<And>dc. dc \<in> set dcs \<Longrightarrow> length (dc_ipv6 dc) \<le> 1 \<and> [] \<notin> set (dc_ipv6 dc)"
  shows "count_v6_endpoints dcs = int (length (enumerate_dc_endpoints False dcs)) - int (length (enumerate_dc_endpoints True dcs))"
  using assms
proof (induction dcs)
  case (Cons dc dcs)
  have one: "dc_ipv6 dc = [] \<or> (\<exists>ip. ip \<noteq> [] \<and> dc_ipv6 dc = [ip])"
    using Cons.prems [of dc] by (cases "dc_ipv6 dc") auto
  then have "int (length (dc_endpoints False dc)) - int (length (dc_endpoints True dc)) =
      (if dc_ipv6 dc \<noteq> [] then int (length (dc_ports dc)) else 0)"
    by (auto simp: dc_endpoints_def Let_def)
  then show ?case using Cons by (simp add: count_v6_endpoints_def enumerate_dc_endpoints_def)
qed (simp add: count_v6_endpoints_def enumerate_dc_endpoints_def)

end
