(* ===== verification/CloudflareProbe.thy ===== *)
theory CloudflareProbe
  imports TelegramProbe
begin

text \<open>
  The Cloudflare module (\<^verbatim>\<open>modules/cloudflare.py\<close>): QUIC and tunnel probes over UDP, TCP probes of the
  control plane, HTTPS probes, and the gathering of their results. How a probe ends is an argument;
  so are the random bytes of the packets.
\<close>

section \<open>Packets\<close>

definition build_quic_vn_trigger :: "byte list \<Rightarrow> byte list \<Rightarrow> byte list" where
  "build_quic_vn_trigger dcid scid =
     (let header = [0xC0] @ [0x0A, 0x0A, 0x0A, 0x0A] @ [of_nat (length dcid)] @ dcid @ [of_nat (length scid)] @ scid
            @ [0] @ [0x40, 2] @ [0] @ [0]
      in header @ replicate (1200 - length header) 0)"

definition build_wg_handshake_init :: "byte list \<Rightarrow> byte list \<Rightarrow> byte list \<Rightarrow> byte list \<Rightarrow> byte list \<Rightarrow> byte list" where
  "build_wg_handshake_init sender ephemeral static timestamp mac1 =
     [1] @ [0, 0, 0] @ sender @ ephemeral @ static @ timestamp @ mac1 @ replicate 16 0"

lemma packet_lengths:
  "length dcid = 8 \<Longrightarrow> length scid = 4 \<Longrightarrow> length (build_quic_vn_trigger dcid scid) = 1200"
  "length sender = 4 \<Longrightarrow> length ephemeral = 32 \<Longrightarrow> length static = 48 \<Longrightarrow> length timestamp = 28 \<Longrightarrow> length mac1 = 16
     \<Longrightarrow> length (build_wg_handshake_init sender ephemeral static timestamp mac1) = 148"
  by (simp_all add: build_quic_vn_trigger_def build_wg_handshake_init_def Let_def)

text \<open>
  \<open>len(d) >= 5 and (d[0] & 0x80) and d[1:5] == b"\0\0\0\0"\<close> is \<open>False\<close>, the integer 0 or the comparison.
\<close>

definition version_negotiation :: "byte list \<Rightarrow> json" where
  "version_negotiation d =
     (if length d < 5 then JBool False
      else if and (d ! 0) 0x80 = 0 then JInt 0
      else JBool (take 4 (drop 1 d) = [0, 0, 0, 0]))"

section \<open>How probes end\<close>

text \<open>
  A datagram comes back (with the clock before and after), the wait ends, the socket reports an
  error or anything else goes wrong. Of a TCP probe, the kernel statistics and the clock before
  and after. A probe may also raise what it does not handle, or be cancelled when its transport
  is lost.
\<close>

datatype udp_end =
    UdpReply "byte list" rat rat
  | UdpTimeout
  | UdpRefused string
  | UdpOsError string
  | UdpOther string

datatype warp_tcp_end =
    WarpConnected "(nat \<Rightarrow> 8 word list option) option" rat rat
  | WarpTimeout
  | WarpRefused
  | WarpOsError string

datatype cf_http_end =
    CfReply int rat rat
  | CfConnectTimeout
  | CfConnectError py_exc
  | CfOther py_exc

datatype 'e probe_end = Ended 'e | Raises string string | Lost

text \<open>A coroutine returns a result, raises (what \<open>repr\<close> and the class say), or is cancelled.\<close>

datatype probe_outcome = Returned test_result | Crashed string string | Cancelled

text \<open>
  A result needs a name: the schema lets it be absent, and then the result's own validation raises,
  again in the handler of the first failure.
\<close>

definition ended :: "'e probe_end \<Rightarrow> ('e \<Rightarrow> probe_outcome) \<Rightarrow> probe_outcome" where
  "ended ending f = (case ending of Ended e \<Rightarrow> f e | Raises r cls \<Rightarrow> Crashed r cls | Lost \<Rightarrow> Cancelled)"

definition with_name :: "(string \<Rightarrow> string) \<Rightarrow> string option \<Rightarrow> (string \<Rightarrow> test_result) \<Rightarrow> probe_outcome" where
  "with_name validation_error name mk =
     (case name of None \<Rightarrow> Crashed (validation_error ''test'') ''ValidationError'' | Some n \<Rightarrow> Returned (mk n))"

definition cf_result :: "string \<Rightarrow> verdict \<Rightarrow> blocking_method option \<Rightarrow> (string, json) dict \<Rightarrow> string \<Rightarrow> test_result" where
  "cf_result target verdict meth evidence name =
     (TestResult_new name ''cloudflare'' target verdict)\<lparr>tr_method := meth, tr_evidence := evidence\<rparr>"

section \<open>QUIC\<close>

definition udp_target :: "string \<Rightarrow> int \<Rightarrow> string" where
  "udp_target host port = ''udp://'' @ host @ '':'' @ str_of_int port"

definition tcp_target_text :: "string \<Rightarrow> int \<Rightarrow> string" where
  "tcp_target_text host port = ''tcp://'' @ host @ '':'' @ str_of_int port"

definition quic_result :: "bool \<Rightarrow> string \<Rightarrow> udp_end \<Rightarrow> string \<Rightarrow> test_result" where
  "quic_result censoring target ending name =
     (case ending of
        UdpReply d t0 t1 \<Rightarrow>
          (cf_result target OK None [(''response_bytes'', JInt (int (length d))),
             (''is_version_negotiation'', version_negotiation d),
             (''note'', JStr (''UDP 443 passes TSPU '' @ em_dash @ '' QUIC/HTTP3 accessible''))] name)
            \<lparr>tr_rtt_ms := Some (fmul (fsub t1 t0) 1000)\<rparr>
      | UdpTimeout \<Rightarrow>
          if censoring then
            (cf_result target BLOCKED (Some QUIC_DROPPED) [(''error'', JStr ''udp_timeout''), (''timeout_sec'', JFloat (Fin 3))] name)
              \<lparr>tr_notes := Some (''No QUIC VN response '' @ em_dash @ '' UDP 443 blocked or filtered ''
                 @ ''(HTTP3/QUIC unusable from this server)''), tr_confidence := 3 / 4\<rparr>
          else
            (cf_result target INCONCLUSIVE None [(''error'', JStr ''udp_timeout''), (''timeout_sec'', JFloat (Fin 3)),
               (''reason'', JStr ''non_ru_vantage_no_quic_drop_attribution'')] name)
              \<lparr>tr_notes := Some (''UDP 443 timeout from non-RU vantage '' @ em_dash @ '' not attributed to TSPU.''),
               tr_confidence := fl (3 / 10)\<rparr>
      | UdpOther e \<Rightarrow> cf_result target INCONCLUSIVE None [(''error'', JStr e)] name
      | UdpRefused e \<Rightarrow> (cf_result target INCONCLUSIVE None [(''error'', JStr e), (''reason'', JStr ''socket_error'')] name)
            \<lparr>tr_notes := Some (''UDP socket error '' @ em_dash @ '' cannot attribute to TSPU'')\<rparr>
      | UdpOsError e \<Rightarrow> (cf_result target INCONCLUSIVE None [(''error'', JStr e), (''reason'', JStr ''socket_error'')] name)
            \<lparr>tr_notes := Some (''UDP socket error '' @ em_dash @ '' cannot attribute to TSPU'')\<rparr>)"

text \<open>The vantage is asked after a timeout; asking it can raise.\<close>

definition test_quic :: "(string \<Rightarrow> string) \<Rightarrow> (config_error \<Rightarrow> string) \<Rightarrow> config_error + bool \<Rightarrow> cf_quic_target
    \<Rightarrow> udp_end probe_end \<Rightarrow> probe_outcome" where
  "test_quic validation_error config_repr censoring t ending = ended ending (\<lambda>e.
     let result = (\<lambda>c. with_name validation_error (cq_name t) (quic_result c (udp_target (cq_host t) (cq_port t)) e)) in
     if e = UdpTimeout then
       (case censoring of Inl err \<Rightarrow> Crashed (config_repr err) ''RuntimeError'' | Inr c \<Rightarrow> result c)
     else result False)"

section \<open>TCP to the control plane\<close>

definition warp_tcp_result :: "string \<Rightarrow> warp_tcp_end \<Rightarrow> string \<Rightarrow> test_result" where
  "warp_tcp_result target ending name =
     (case ending of
        WarpConnected sock t0 t1 \<Rightarrow>
          (let wallclock_ms = fmul (fsub t1 t0) 1000;
               rtt_ms = (case read_kernel_rtt_us sock of Some us \<Rightarrow> fdiv (of_int us) 1000 | None \<Rightarrow> wallclock_ms)
           in (cf_result target OK None [(''tcp_connect_ms'', ms_round1 rtt_ms), (''wallclock_ms'', ms_round1 wallclock_ms)] name)
                \<lparr>tr_rtt_ms := Some rtt_ms\<rparr>)
      | WarpTimeout \<Rightarrow> (cf_result target BLOCKED (Some IP_DROPPED) [(''error'', JStr ''tcp_timeout'')] name)
            \<lparr>tr_notes := Some (''TCP timeout to WARP endpoint '' @ em_dash @ '' IP likely blocked'')\<rparr>
      | WarpRefused \<Rightarrow> cf_result target BLOCKED (Some TCP_REFUSED) [(''error'', JStr ''connection_refused'')] name
      | WarpOsError e \<Rightarrow>
          (let err = str_lower e in
           if str_contains err ''network is unreachable'' \<or> str_contains err ''no route'' then
             (cf_result target INCONCLUSIVE None [(''error'', JStr e), (''reason'', JStr ''no_route_local'')] name)
               \<lparr>tr_notes := Some (''No route to host '' @ em_dash @ '' local connectivity issue, not TSPU'')\<rparr>
           else cf_result target BLOCKED (if str_contains err ''reset'' then Some TCP_RST_INJECTION else None)
             [(''error'', JStr e)] name))"

definition test_warp_tcp :: "(string \<Rightarrow> string) \<Rightarrow> cf_warp_tcp_target \<Rightarrow> warp_tcp_end probe_end \<Rightarrow> probe_outcome" where
  "test_warp_tcp validation_error t ending = ended ending (\<lambda>e.
     with_name validation_error (cw_name t) (warp_tcp_result (tcp_target_text (cw_host t) (cw_port_tcp t)) e))"

section \<open>UDP to the tunnel ports\<close>

definition build_warp_ok_result :: "string \<Rightarrow> string option \<Rightarrow> byte list \<Rightarrow> rat \<Rightarrow> string \<Rightarrow> test_result" where
  "build_warp_ok_result target protocol d rtt_ms name =
     (let is_masque_vn = (protocol = Some ''masque'' \<and> truthy (version_negotiation d)) in
      (cf_result target OK None [(''protocol'', json_str_opt protocol), (''response_bytes'', JInt (int (length d))),
         (''note'', JStr (if is_masque_vn then ''QUIC VN reply '' @ em_dash @ '' MASQUE port reachable and running HTTP/3''
            else ''Got UDP reply (unexpected for unauthenticated probe; on-path device may be answering)''))] name)
        \<lparr>tr_rtt_ms := Some rtt_ms, tr_confidence := if is_masque_vn then fl (9 / 10) else fl (6 / 10)\<rparr>)"

definition warp_udp_timeout_result :: "string \<Rightarrow> string option \<Rightarrow> string \<Rightarrow> test_result" where
  "warp_udp_timeout_result target protocol name =
     (cf_result target INCONCLUSIVE None [(''protocol'', json_str_opt protocol), (''error'', JStr ''udp_timeout''),
        (''timeout_sec'', JFloat (Fin 2)), (''reason'', JStr ''tunnel_silently_drops_invalid'')] name)
       \<lparr>tr_notes := Some (''UDP timeout on a '' @ (case protocol of None \<Rightarrow> ''None'' | Some p \<Rightarrow> p) @ '' port is the protocol's default ''
          @ ''behaviour '' @ em_dash @ '' cannot be attributed to censorship without a '' @ ''positive control signal.''),
        tr_confidence := fl (1 / 10)\<rparr>"

definition warp_udp_icmp_unreachable_result :: "string \<Rightarrow> string option \<Rightarrow> string \<Rightarrow> test_result" where
  "warp_udp_icmp_unreachable_result target protocol name =
     (cf_result target INCONCLUSIVE None [(''protocol'', json_str_opt protocol), (''error'', JStr ''icmp_unreachable''),
        (''reason'', JStr ''pop_doesnt_bind_fallback_port'')] name)
       \<lparr>tr_notes := Some (''ICMP Port Unreachable. Network path open; this Cloudflare ''
          @ ''anycast member is just not advertising this fallback port. '' @ ''Not a censorship signal.''),
        tr_confidence := fl (3 / 10)\<rparr>"

definition UDP_REJECTIONS :: "string list" where
  "UDP_REJECTIONS = [''network is unreachable'', ''no route'', ''permission denied'']"

definition classify_warp_udp_oserror :: "string \<Rightarrow> string \<Rightarrow> string option \<Rightarrow> string \<Rightarrow> test_result" where
  "classify_warp_udp_oserror e target protocol name =
     (let evidence = [(''protocol'', json_str_opt protocol), (''error'', JStr e)] in
      if list_ex (str_contains (str_lower e)) UDP_REJECTIONS then
        (cf_result target BLOCKED (Some IP_DROPPED) evidence name)
          \<lparr>tr_notes := Some (''Network rejection on outbound UDP '' @ em_dash @ '' IP-level filter.'')\<rparr>
      else cf_result target INCONCLUSIVE None evidence name)"

definition warp_udp_result :: "string \<Rightarrow> string option \<Rightarrow> udp_end \<Rightarrow> string \<Rightarrow> test_result" where
  "warp_udp_result target protocol ending =
     (case ending of
        UdpReply d t0 t1 \<Rightarrow> build_warp_ok_result target protocol d (fmul (fsub t1 t0) 1000)
      | UdpTimeout \<Rightarrow> warp_udp_timeout_result target protocol
      | UdpRefused e \<Rightarrow> warp_udp_icmp_unreachable_result target protocol
      | UdpOsError e \<Rightarrow> classify_warp_udp_oserror e target protocol
      | UdpOther e \<Rightarrow> cf_result target INCONCLUSIVE None [(''protocol'', json_str_opt protocol), (''error'', JStr e)])"

definition test_warp_udp :: "(string \<Rightarrow> string) \<Rightarrow> cf_warp_udp_target \<Rightarrow> udp_end probe_end \<Rightarrow> probe_outcome" where
  "test_warp_udp validation_error t ending = ended ending (\<lambda>e.
     with_name validation_error (cu_name t) (warp_udp_result (udp_target (cu_host t) (cu_port_udp t)) (cu_protocol t) e))"

section \<open>HTTPS\<close>

definition cf_slug :: "string \<Rightarrow> string" where
  "cf_slug s = replace_char (CHR ''/'') (CHR ''_'') (replace_char (CHR ''-'') (CHR ''_'') (replace_char (CHR ''.'') (CHR ''_'') s))"

definition cf_http_result :: "string \<Rightarrow> int \<Rightarrow> cf_http_end \<Rightarrow> string \<Rightarrow> test_result" where
  "cf_http_result url expected_status ending name =
     (case ending of
        CfReply status_code t0 t1 \<Rightarrow>
          (let ms = ms_round1 (fmul (fsub t1 t0) 1000) in
           if status_code \<in> {403, 429, 451} then
             cf_result url SERVER_REFUSED None [(''status'', JInt status_code), (''http_response_ms'', ms)] name
           else cf_result url (if status_code = expected_status then OK else ANOMALY) None
             [(''status'', JInt status_code), (''expected'', JInt expected_status), (''http_response_ms'', ms)] name)
      | CfConnectTimeout \<Rightarrow> cf_result url BLOCKED (Some IP_DROPPED) [(''error'', JStr ''connect_timeout'')] name
      | CfConnectError e \<Rightarrow>
          (let err_lower = str_lower (describe_exception e) in
           cf_result url BLOCKED (Some (if str_contains err_lower ''ssl'' \<or> str_contains err_lower ''certificate''
               then TLS_HANDSHAKE_FAILURE else IP_DROPPED))
             [(''error'', JStr (describe_exception e))] name)
      | CfOther e \<Rightarrow> cf_result url INCONCLUSIVE None [(''error'', JStr (describe_exception e))] name)"

text \<open>The name is built from \<open>domain\<close>, before any handler; without one the slug raises.\<close>

definition test_cf_http :: "cf_http_target \<Rightarrow> string \<Rightarrow> cf_http_end probe_end \<Rightarrow> probe_outcome" where
  "test_cf_http t url ending =
     (case ch_domain t of
        None \<Rightarrow> Crashed ''AttributeError(\"'NoneType' object has no attribute 'replace'\")'' ''AttributeError''
      | Some domain \<Rightarrow> ended ending (\<lambda>e.
          Returned (cf_http_result url (ch_expected_status t) e (''cloudflare_http_'' @ cf_slug domain))))"

section \<open>The run\<close>

text \<open>The probes in the order of their creation; an HTTP target carries its URLs.\<close>

datatype cf_probe =
    Quic cf_quic_target | WarpTcp cf_warp_tcp_target | WarpUdp cf_warp_udp_target | CfHttp cf_http_target string

record cloudflare_env =
  fe_udp :: "cf_probe \<Rightarrow> udp_end probe_end"
  fe_tcp :: "cf_probe \<Rightarrow> warp_tcp_end probe_end"
  fe_http :: "cf_probe \<Rightarrow> cf_http_end probe_end"
  fe_start :: "cf_probe \<Rightarrow> rat"
  fe_finish :: "cf_probe \<Rightarrow> rat"
  fe_validation_error :: "string \<Rightarrow> string"
  fe_config_repr :: "config_error \<Rightarrow> string"

fun probe_outcome_of :: "cloudflare_env \<Rightarrow> config_error + bool \<Rightarrow> cf_probe \<Rightarrow> probe_outcome" where
  "probe_outcome_of E censoring (Quic t) = test_quic (fe_validation_error E) (fe_config_repr E) censoring t (fe_udp E (Quic t))"
| "probe_outcome_of E censoring (WarpTcp t) = test_warp_tcp (fe_validation_error E) t (fe_tcp E (WarpTcp t))"
| "probe_outcome_of E censoring (WarpUdp t) = test_warp_udp (fe_validation_error E) t (fe_udp E (WarpUdp t))"
| "probe_outcome_of E censoring (CfHttp t url) = test_cf_http t url (fe_http E (CfHttp t url))"

definition cf_probes :: "target_file \<Rightarrow> (cf_http_target \<Rightarrow> string list) \<Rightarrow> cf_probe list" where
  "cf_probes cfg urls_of = map Quic (tf_quic_targets cfg) @ map WarpTcp (tf_warp_targets cfg)
     @ map WarpUdp (tf_warp_tunnel_udp_targets cfg)
     @ concat (map (\<lambda>t. map (CfHttp t) (urls_of t)) (tf_http_targets cfg))"

definition crashed_cf_result :: "string \<Rightarrow> string \<Rightarrow> test_result" where
  "crashed_cf_result r cls = (TestResult_new ''cloudflare_probe_crashed'' ''cloudflare'' ''(internal)'' ERROR)
     \<lparr>tr_evidence := [(''error'', JStr r), (''error_type'', JStr cls)], tr_confidence := 0,
      tr_notes := Some ''Probe coroutine raised; see listener log for traceback.''\<rparr>"

definition results_of :: "cloudflare_env \<Rightarrow> cf_probe \<Rightarrow> probe_outcome \<Rightarrow> test_result list" where
  "results_of E p outcome =
     (case outcome of
        Returned r \<Rightarrow> [stamped (fe_start E p) (fe_finish E p) r]
      | Crashed r cls \<Rightarrow> [crashed_cf_result r cls]
      | Cancelled \<Rightarrow> [])"

definition run_cloudflare_tests ::
    "censprobe_config option \<Rightarrow> string option \<Rightarrow> cloudflare_env \<Rightarrow> target_file \<Rightarrow> (cf_http_target \<Rightarrow> string list) \<Rightarrow> test_result list" where
  "run_cloudflare_tests CONFIG VANTAGE E cfg urls_of =
     concat (map (\<lambda>p. results_of E p (probe_outcome_of E (is_censoring_vantage CONFIG VANTAGE) p)) (cf_probes cfg urls_of))"

section \<open>What each verdict of the module means\<close>

fun probe_lost :: "cloudflare_env \<Rightarrow> cf_probe \<Rightarrow> bool" where
  "probe_lost E (Quic t) = (fe_udp E (Quic t) = Lost)"
| "probe_lost E (WarpTcp t) = (fe_tcp E (WarpTcp t) = Lost)"
| "probe_lost E (WarpUdp t) = (fe_udp E (WarpUdp t) = Lost)"
| "probe_lost E (CfHttp t url) = (fe_http E (CfHttp t url) = Lost \<and> ch_domain t \<noteq> None)"

fun probe_named :: "cf_probe \<Rightarrow> bool" where
  "probe_named (Quic t) = (cq_name t \<noteq> None)"
| "probe_named (WarpTcp t) = (cw_name t \<noteq> None)"
| "probe_named (WarpUdp t) = (cu_name t \<noteq> None)"
| "probe_named (CfHttp t url) = (ch_domain t \<noteq> None)"

fun probe_answered :: "cloudflare_env \<Rightarrow> cf_probe \<Rightarrow> bool" where
  "probe_answered E (Quic t) = (\<exists>d t0 t1. fe_udp E (Quic t) = Ended (UdpReply d t0 t1))"
| "probe_answered E (WarpTcp t) = (\<exists>sock t0 t1. fe_tcp E (WarpTcp t) = Ended (WarpConnected sock t0 t1))"
| "probe_answered E (WarpUdp t) = (\<exists>d t0 t1. fe_udp E (WarpUdp t) = Ended (UdpReply d t0 t1))"
| "probe_answered E (CfHttp t url) = (\<exists>t0 t1. fe_http E (CfHttp t url) = Ended (CfReply (ch_expected_status t) t0 t1)
     \<and> ch_expected_status t \<notin> {403, 429, 451})"

definition local_routing :: "string \<Rightarrow> bool" where
  "local_routing e \<longleftrightarrow> str_contains (str_lower e) ''network is unreachable'' \<or> str_contains (str_lower e) ''no route''"

fun probe_interfered :: "cloudflare_env \<Rightarrow> config_error + bool \<Rightarrow> cf_probe \<Rightarrow> bool" where
  "probe_interfered E censoring (Quic t) = (fe_udp E (Quic t) = Ended UdpTimeout \<and> censoring = Inr True)"
| "probe_interfered E censoring (WarpTcp t) = (fe_tcp E (WarpTcp t) = Ended WarpTimeout \<or> fe_tcp E (WarpTcp t) = Ended WarpRefused
     \<or> (\<exists>e. fe_tcp E (WarpTcp t) = Ended (WarpOsError e) \<and> \<not> local_routing e))"
| "probe_interfered E censoring (WarpUdp t) = (\<exists>e. fe_udp E (WarpUdp t) = Ended (UdpOsError e)
     \<and> (local_routing e \<or> str_contains (str_lower e) ''permission denied''))"
| "probe_interfered E censoring (CfHttp t url) = (fe_http E (CfHttp t url) = Ended CfConnectTimeout
     \<or> (\<exists>e. fe_http E (CfHttp t url) = Ended (CfConnectError e)))"

text \<open>The web server's own refusals, and answers that are neither these nor the expected one.\<close>

fun probe_refused :: "cloudflare_env \<Rightarrow> cf_probe \<Rightarrow> bool" where
  "probe_refused E (CfHttp t url) = (\<exists>status t0 t1. fe_http E (CfHttp t url) = Ended (CfReply status t0 t1)
     \<and> (status = 403 \<or> status = 429 \<or> status = 451))"
| "probe_refused E p = False"

fun probe_unexpected :: "cloudflare_env \<Rightarrow> cf_probe \<Rightarrow> bool" where
  "probe_unexpected E (CfHttp t url) = (\<exists>status t0 t1. fe_http E (CfHttp t url) = Ended (CfReply status t0 t1)
     \<and> status \<notin> {403, 429, 451} \<and> status \<noteq> ch_expected_status t)"
| "probe_unexpected E p = False"

text \<open>What says nothing: a QUIC timeout elsewhere, a silent tunnel port, a local error.\<close>

fun probe_unclear :: "cloudflare_env \<Rightarrow> config_error + bool \<Rightarrow> cf_probe \<Rightarrow> bool" where
  "probe_unclear E censoring (Quic t) = (fe_udp E (Quic t) = Ended UdpTimeout \<and> censoring = Inr False
     \<or> (\<exists>e. fe_udp E (Quic t) = Ended (UdpRefused e) \<or> fe_udp E (Quic t) = Ended (UdpOsError e) \<or> fe_udp E (Quic t) = Ended (UdpOther e)))"
| "probe_unclear E censoring (WarpTcp t) = (\<exists>e. fe_tcp E (WarpTcp t) = Ended (WarpOsError e) \<and> local_routing e)"
| "probe_unclear E censoring (WarpUdp t) = (fe_udp E (WarpUdp t) = Ended UdpTimeout
     \<or> (\<exists>e. fe_udp E (WarpUdp t) = Ended (UdpRefused e) \<or> fe_udp E (WarpUdp t) = Ended (UdpOther e)
          \<or> fe_udp E (WarpUdp t) = Ended (UdpOsError e) \<and> \<not> local_routing e \<and> \<not> str_contains (str_lower e) ''permission denied''))"
| "probe_unclear E censoring (CfHttp t url) = (\<exists>e. fe_http E (CfHttp t url) = Ended (CfOther e))"

text \<open>What raises: the probe itself, or asking for the vantage after a QUIC timeout.\<close>

fun probe_raises :: "cloudflare_env \<Rightarrow> config_error + bool \<Rightarrow> cf_probe \<Rightarrow> bool" where
  "probe_raises E censoring (Quic t) = ((\<exists>r c. fe_udp E (Quic t) = Raises r c)
     \<or> fe_udp E (Quic t) = Ended UdpTimeout \<and> (\<exists>e. censoring = Inl e))"
| "probe_raises E censoring (WarpTcp t) = (\<exists>r c. fe_tcp E (WarpTcp t) = Raises r c)"
| "probe_raises E censoring (WarpUdp t) = (\<exists>r c. fe_udp E (WarpUdp t) = Raises r c)"
| "probe_raises E censoring (CfHttp t url) = (\<exists>r c. fe_http E (CfHttp t url) = Raises r c)"

text \<open>The method of a blocked probe.\<close>

fun probe_method :: "cloudflare_env \<Rightarrow> cf_probe \<Rightarrow> blocking_method option" where
  "probe_method E (Quic t) = Some QUIC_DROPPED"
| "probe_method E (WarpTcp t) =
     (case fe_tcp E (WarpTcp t) of
        Ended WarpTimeout \<Rightarrow> Some IP_DROPPED
      | Ended WarpRefused \<Rightarrow> Some TCP_REFUSED
      | Ended (WarpOsError e) \<Rightarrow> if str_contains (str_lower e) ''reset'' then Some TCP_RST_INJECTION else None
      | _ \<Rightarrow> None)"
| "probe_method E (WarpUdp t) = Some IP_DROPPED"
| "probe_method E (CfHttp t url) =
     (case fe_http E (CfHttp t url) of
        Ended (CfConnectError e) \<Rightarrow> (let said = str_lower (describe_exception e) in
          if str_contains said ''ssl'' \<or> str_contains said ''certificate'' then Some TLS_HANDSHAKE_FAILURE else Some IP_DROPPED)
      | _ \<Rightarrow> Some IP_DROPPED)"

definition explained :: "cloudflare_env \<Rightarrow> config_error + bool \<Rightarrow> cf_probe \<Rightarrow> test_result \<Rightarrow> bool" where
  "explained E censoring p r \<longleftrightarrow>
     (tr_verdict r = OK \<longleftrightarrow> probe_named p \<and> probe_answered E p)
   \<and> (tr_verdict r = BLOCKED \<longleftrightarrow> probe_named p \<and> probe_interfered E censoring p)
   \<and> (tr_verdict r = SERVER_REFUSED \<longleftrightarrow> probe_named p \<and> probe_refused E p)
   \<and> (tr_verdict r = ANOMALY \<longleftrightarrow> probe_named p \<and> probe_unexpected E p)
   \<and> (tr_verdict r = INCONCLUSIVE \<longleftrightarrow> probe_named p \<and> probe_unclear E censoring p)
   \<and> (tr_verdict r = ERROR \<longleftrightarrow> \<not> probe_named p \<or> probe_raises E censoring p)
   \<and> tr_method r = (if tr_verdict r = BLOCKED then probe_method E p else None)"

lemma cf_result_fields [simp]:
  "tr_verdict (cf_result g v m ev n) = v" "tr_method (cf_result g v m ev n) = m"
  by (simp_all add: cf_result_def)

lemma crashed_fields [simp]:
  "tr_verdict (crashed_cf_result r cls) = ERROR" "tr_method (crashed_cf_result r cls) = None"
  by (simp_all add: crashed_cf_result_def)

lemmas outcome_defs = test_quic_def quic_result_def test_warp_tcp_def warp_tcp_result_def test_warp_udp_def warp_udp_result_def
  build_warp_ok_result_def warp_udp_timeout_result_def warp_udp_icmp_unreachable_result_def classify_warp_udp_oserror_def
  UDP_REJECTIONS_def test_cf_http_def cf_http_result_def ended_def with_name_def local_routing_def

lemma probe_explained:
  "if probe_lost E p then results_of E p (probe_outcome_of E censoring p) = []
   else \<exists>r. results_of E p (probe_outcome_of E censoring p) = [r] \<and> explained E censoring p r"
proof (cases p)
  case (Quic t)
  then show ?thesis
    by (cases "fe_udp E (Quic t)"; cases "cq_name t"; cases censoring)
      (auto simp: explained_def results_of_def outcome_defs Let_def split: udp_end.splits)
next
  case (WarpTcp t)
  then show ?thesis
    by (cases "fe_tcp E (WarpTcp t)"; cases "cw_name t")
      (auto simp: explained_def results_of_def outcome_defs Let_def split: warp_tcp_end.splits)
next
  case (WarpUdp t)
  then show ?thesis
    by (cases "fe_udp E (WarpUdp t)"; cases "cu_name t")
      (auto simp: explained_def results_of_def outcome_defs Let_def split: udp_end.splits)
next
  case (CfHttp t url)
  then show ?thesis
    by (cases "fe_http E (CfHttp t url)"; cases "ch_domain t")
      (auto simp: explained_def results_of_def outcome_defs Let_def split: cf_http_end.splits)
qed

text \<open>
  C40. The results of the Cloudflare module are one per probe that was not cancelled, in the order
  of the target file whatever other probes did, and each verdict has exactly its cause. For a target
  with the name its probe needs: OK, that it answered (the web server with the expected status);
  BLOCKED, one of the timeouts, refusals and errors listed for its kind of probe, for QUIC only from a
  censoring vantage; SERVER_REFUSED, a status 403, 429 or 451; ANOMALY, another status; INCONCLUSIVE,
  what says nothing of the path. ERROR stands for a target without that name, or a probe that raised.
  A blocked probe has the method of its cause, and no other result has one.
\<close>

theorem cloudflare_results_explained:
  "list_all2 (explained E (is_censoring_vantage CONFIG VANTAGE))
     (filter (\<lambda>p. \<not> probe_lost E p) (cf_probes cfg urls_of)) (run_cloudflare_tests CONFIG VANTAGE E cfg urls_of)"
proof -
  let ?c = "is_censoring_vantage CONFIG VANTAGE"
  have "list_all2 (explained E ?c) (filter (\<lambda>p. \<not> probe_lost E p) ps)
      (concat (map (\<lambda>p. results_of E p (probe_outcome_of E ?c p)) ps))" for ps
  proof (induction ps)
    case (Cons p ps)
    then show ?case using probe_explained [of E p ?c] by (cases "probe_lost E p") auto
  qed simp
  then show ?thesis by (simp add: run_cloudflare_tests_def)
qed

text \<open>
  The comments promise BLOCKED when the host refuses the outbound path with \<open>EPERM\<close>; its text is
  not among the phrases. The same routing error is no censorship over TCP and censorship over UDP.
\<close>

lemma eperm_is_inconclusive:
  "tr_verdict (warp_udp_result target protocol (UdpOsError ''[Errno 1] Operation not permitted'') name) = INCONCLUSIVE"
proof -
  have "\<not> list_ex (str_contains (str_lower ''[Errno 1] Operation not permitted'')) UDP_REJECTIONS" by code_simp
  then show ?thesis by (simp add: warp_udp_result_def classify_warp_udp_oserror_def Let_def)
qed

lemma routing_error_depends_on_probe:
  "tr_verdict (warp_tcp_result target (WarpOsError ''[Errno 101] Network is unreachable'') name) = INCONCLUSIVE
   \<and> tr_verdict (warp_udp_result target protocol (UdpOsError ''[Errno 101] Network is unreachable'') name) = BLOCKED"
proof -
  have "str_contains (str_lower ''[Errno 101] Network is unreachable'') ''network is unreachable''" by code_simp
  then show ?thesis by (simp add: warp_udp_result_def warp_tcp_result_def classify_warp_udp_oserror_def UDP_REJECTIONS_def Let_def)
qed

text \<open>A target given by \<open>host\<close>, which the loader accepts in place of \<open>domain\<close>, is never requested.\<close>

lemma host_only_target_crashes:
  assumes "ch_domain t = None"
  shows "\<exists>r. results_of E (CfHttp t url) (probe_outcome_of E censoring (CfHttp t url)) = [crashed_cf_result r ''AttributeError'']"
  using assms by (simp add: test_cf_http_def results_of_def) blast

end
