(* ===== verification/ReportParser.thy ===== *)
theory ReportParser
  imports PyJson Subcategories
begin

text \<open>
  The dashboard's report parser (\<^verbatim>\<open>sync_api/parser.py\<close>) and the value migrations of its database
  (\<^verbatim>\<open>sync_api/db.py\<close>). Decoding JSON, printing a JSON value (\<open>rp\<close>) and \<open>datetime.fromisoformat\<close>
  (\<open>fromiso\<close>) are arguments; an instant is its distance from the epoch in microseconds.
\<close>

section \<open>Legacy verdicts\<close>

definition LEGACY_VERDICT_TRANSLATION :: "(string \<times> (string \<times> string option)) list" where
  "LEGACY_VERDICT_TRANSLATION =
     [(''DNS_POISONING'', (''BLOCKED'', Some ''dns_poisoning'')),
      (''DNS_BLOCKED'', (''BLOCKED'', Some ''dns_blocked_nxdomain'')),
      (''DOH_BLOCKED'', (''BLOCKED'', Some ''doh_blocked'')),
      (''IP_DROPPED'', (''BLOCKED'', Some ''ip_dropped'')),
      (''RST_INJECTED'', (''BLOCKED'', Some ''tcp_rst_injection'')),
      (''REFUSED'', (''BLOCKED'', Some ''tcp_refused'')),
      (''YOUTUBE_SNI_THROTTLED'', (''THROTTLED'', Some ''sni_throttling'')),
      (''GEOBLOCK_NOT_CENSORSHIP'', (''SERVER_REFUSED'', None))]"

definition translate_legacy_verdict :: "string \<Rightarrow> string option \<Rightarrow> string \<times> string option" where
  "translate_legacy_verdict verdict meth =
     (case dict_get LEGACY_VERDICT_TRANSLATION verdict of
        None \<Rightarrow> (verdict, meth)
      | Some (new_verdict, default_method) \<Rightarrow>
          (new_verdict, if meth \<noteq> None \<and> meth \<noteq> Some [] then meth else default_method))"

section \<open>Values\<close>

text \<open>An exception other than \<open>TypeError\<close> and \<open>ValueError\<close> escapes.\<close>

definition parse_float :: "json \<Rightarrow> pyfloat option \<Rightarrow> coercion_error + pyfloat option" where
  "parse_float value default_value =
     (if value = JNull \<or> value = JStr [] then Inr default_value
      else case float_of_json value of
          Inr f \<Rightarrow> Inr (Some f)
        | Inl e \<Rightarrow> if e = OverflowErr then Inl e else Inr default_value)"

definition int_via_float :: "json \<Rightarrow> coercion_error + int" where
  "int_via_float value = bindE (float_of_json value) int_of_float"

definition parse_int :: "json \<Rightarrow> int \<Rightarrow> coercion_error + int" where
  "parse_int value default_value =
     (if value = JNull \<or> value = JStr [] then Inr default_value
      else case int_of_json value of
          Inr i \<Rightarrow> Inr i
        | Inl e \<Rightarrow> if e = OverflowErr then Inl e
            else (case int_via_float value of
                Inr i \<Rightarrow> Inr i
              | Inl e2 \<Rightarrow> if e2 = OverflowErr then Inl e2 else Inr default_value))"

datatype iso_time = AwareTime int | NaiveTime int

definition replace_Z :: "string \<Rightarrow> string" where
  "replace_Z s = concat (map (\<lambda>c. if c = CHR ''Z'' then ''+00:00'' else [c]) s)"

text \<open>A naive time is taken as UTC.\<close>

definition parse_dt :: "(json \<Rightarrow> string) \<Rightarrow> (string \<Rightarrow> iso_time option) \<Rightarrow> json \<Rightarrow> int option" where
  "parse_dt rp fromiso value =
     (if \<not> truthy value then None
      else case fromiso (replace_Z (str_of_json rp value)) of
          None \<Rightarrow> None
        | Some (AwareTime t) \<Rightarrow> Some t
        | Some (NaiveTime t) \<Rightarrow> Some t)"

section \<open>Files\<close>

text \<open>A path: whether it is a symlink, its size (\<open>None\<close>: \<open>stat\<close> fails), its content (\<open>None\<close>: reading fails).\<close>

record json_file =
  jf_symlink :: bool
  jf_size :: "int option"
  jf_payload :: "string option"

definition MAX_REPORT_BYTES :: int where
  "MAX_REPORT_BYTES = 50 * 1024 * 1024"

definition load_json :: "(string \<Rightarrow> json option) \<Rightarrow> json_file \<Rightarrow> (string, json) dict option" where
  "load_json json_loads f =
     (if jf_symlink f then None
      else case jf_size f of
        None \<Rightarrow> None
      | Some bytes \<Rightarrow>
          if MAX_REPORT_BYTES < bytes then None
          else case jf_payload f of
              None \<Rightarrow> None
            | Some payload \<Rightarrow>
                if payload = [] then None
                else (case json_loads payload of Some (JObj d) \<Rightarrow> Some d | _ \<Rightarrow> None))"

definition is_solo_report :: "string \<Rightarrow> bool" where
  "is_solo_report filename \<longleftrightarrow> starts_with filename ''server-solo-'' \<and> ends_with filename ''.json''"

definition is_listener_report :: "string \<Rightarrow> bool" where
  "is_listener_report filename \<longleftrightarrow> starts_with filename ''server-listener-'' \<and> ends_with filename ''.json''"

section \<open>Solo reports\<close>

record report_meta =
  pm_report_type :: json
  pm_test_id :: json
  pm_generated_at :: "int option"
  pm_server_meta :: json
  pm_scores :: json
  pm_results :: json
  pm_summary :: json

definition parse_report_meta :: "(json \<Rightarrow> string) \<Rightarrow> (string \<Rightarrow> iso_time option) \<Rightarrow> (string, json) dict \<Rightarrow> report_meta" where
  "parse_report_meta rp fromiso data =
     \<lparr>pm_report_type = dict_default data ''report_type'' (JStr ''solo''), pm_test_id = dict_default data ''test_id'' (JStr []),
      pm_generated_at = parse_dt rp fromiso (jget data ''generated_at''),
      pm_server_meta = jor (jget data ''server_meta'') (JObj []), pm_scores = jor (jget data ''scores'') (JObj []),
      pm_results = jor (jget data ''results'') (JList []), pm_summary = jor (jget data ''summary'') (JObj [])\<rparr>"

record solo_row =
  sr_report_file :: string
  sr_test :: string
  sr_category :: string
  sr_subcategory :: string
  sr_target :: string
  sr_verdict :: string
  sr_method :: "string option"
  sr_confidence :: "pyfloat option"
  sr_rtt_ms :: "pyfloat option"
  sr_elapsed_ms :: "pyfloat option"
  sr_attempts :: int
  sr_notes :: json
  sr_timestamp :: "int option"

definition str_or :: "(json \<Rightarrow> string) \<Rightarrow> (string, json) dict \<Rightarrow> string \<Rightarrow> string \<Rightarrow> string" where
  "str_or rp d k s = str_of_json rp (jor (jget d k) (JStr s))"

definition row_subcategory :: "(json \<Rightarrow> string) \<Rightarrow> (string, json) dict \<Rightarrow> string" where
  "row_subcategory rp r =
     (case jget r ''subcategory'' of
        JStr s \<Rightarrow> if s \<noteq> [] then s else derive (str_or rp r ''test'' []) (Some (str_or rp r ''category'' []))
      | _ \<Rightarrow> derive (str_or rp r ''test'' []) (Some (str_or rp r ''category'' [])))"

definition parse_solo_row :: "(json \<Rightarrow> string) \<Rightarrow> (string \<Rightarrow> iso_time option) \<Rightarrow> string \<Rightarrow> (string, json) dict \<Rightarrow> coercion_error + solo_row" where
  "parse_solo_row rp fromiso name r =
     (let method_str = (if jget r ''method'' = JNull then None else Some (str_of_json rp (jget r ''method'')));
          (verdict_str, method_str) = translate_legacy_verdict (str_or rp r ''verdict'' ''INCONCLUSIVE'') method_str in
      bindE (parse_float (jget r ''confidence'') (Some (Fin 1))) (\<lambda>confidence.
      bindE (parse_float (jget r ''rtt_ms'') None) (\<lambda>rtt.
      bindE (parse_float (jget r ''elapsed_ms'') None) (\<lambda>elapsed.
      bindE (parse_int (jget r ''attempts'') 1) (\<lambda>attempts.
      Inr \<lparr>sr_report_file = name, sr_test = str_or rp r ''test'' [], sr_category = str_or rp r ''category'' [],
           sr_subcategory = row_subcategory rp r, sr_target = str_or rp r ''target'' [], sr_verdict = verdict_str,
           sr_method = method_str, sr_confidence = confidence, sr_rtt_ms = rtt, sr_elapsed_ms = elapsed,
           sr_attempts = attempts, sr_notes = jget r ''notes'', sr_timestamp = parse_dt rp fromiso (jget r ''timestamp'')\<rparr>)))))"

fun parse_rows :: "((string, json) dict \<Rightarrow> 'e + 'r) \<Rightarrow> json list \<Rightarrow> 'e + 'r list" where
  "parse_rows f [] = Inr []"
| "parse_rows f (JObj r # rs) = bindE (f r) (\<lambda>row. bindE (parse_rows f rs) (\<lambda>rows. Inr (row # rows)))"
| "parse_rows f (_ # rs) = parse_rows f rs"

definition parse_solo_report :: "(json \<Rightarrow> string) \<Rightarrow> (string \<Rightarrow> iso_time option) \<Rightarrow> (string \<Rightarrow> json option) \<Rightarrow> string \<Rightarrow> json_file
    \<Rightarrow> coercion_error + report_meta option \<times> solo_row list" where
  "parse_solo_report rp fromiso json_loads name f =
     (case load_json json_loads f of
        None \<Rightarrow> Inr (None, [])
      | Some raw \<Rightarrow>
          if raw = [] then Inr (None, [])
          else let meta = parse_report_meta rp fromiso raw in
            (case dict_default raw ''results'' (JList []) of
               JList raw_results \<Rightarrow> bindE (parse_rows (parse_solo_row rp fromiso name) raw_results) (\<lambda>rows. Inr (Some meta, rows))
             | _ \<Rightarrow> Inr (Some meta, [])))"

section \<open>Listener reports\<close>

record session_meta =
  sm_report_file :: string
  sm_session_id :: string
  sm_started_at :: "int option"
  sm_stopped_at :: "int option"
  sm_duration_sec :: "pyfloat option"
  sm_client_connected :: bool
  sm_client_meta :: "(string, json) dict option"
  sm_is_mobile :: bool
  sm_is_whitelist :: bool

record protocol_row =
  pw_protocol :: string
  pw_verdict :: string
  pw_handshake_count :: int
  pw_data_transfer_ok :: bool
  pw_avg_throughput_mbps :: "pyfloat option"
  pw_client_avg_throughput_mbps :: "pyfloat option"
  pw_throughput_throttled :: bool
  pw_note :: "string option"

definition parse_session_meta :: "(json \<Rightarrow> string) \<Rightarrow> (string \<Rightarrow> iso_time option) \<Rightarrow> string \<Rightarrow> (string, json) dict
    \<Rightarrow> coercion_error + session_meta" where
  "parse_session_meta rp fromiso name raw =
     (let client_meta = (case jget raw ''client'' of JObj c \<Rightarrow> Some c | _ \<Rightarrow> None);
          client_connected = (case jget raw ''client_connected'' of JBool b \<Rightarrow> b | _ \<Rightarrow> client_meta \<noteq> None) in
      bindE (parse_float (jget raw ''duration_sec'') None) (\<lambda>duration.
      Inr \<lparr>sm_report_file = name, sm_session_id = str_or rp raw ''session_id'' [],
           sm_started_at = parse_dt rp fromiso (jget raw ''listener_started_at''),
           sm_stopped_at = parse_dt rp fromiso (jget raw ''listener_stopped_at''), sm_duration_sec = duration,
           sm_client_connected = client_connected, sm_client_meta = client_meta,
           sm_is_mobile = truthy (dict_default raw ''is_mobile'' (JBool False)),
           sm_is_whitelist = truthy (dict_default raw ''is_whitelist'' (JBool False))\<rparr>))"

definition parse_protocol_row :: "(json \<Rightarrow> string) \<Rightarrow> string \<Rightarrow> (string, json) dict \<Rightarrow> coercion_error + protocol_row" where
  "parse_protocol_row rp protocol pr =
     bindE (parse_int (jget pr ''handshake_count'') 0) (\<lambda>handshakes.
     bindE (parse_float (jget pr ''avg_throughput_mbps'') None) (\<lambda>avg.
     bindE (parse_float (jget pr ''client_avg_throughput_mbps'') None) (\<lambda>client_avg.
     Inr \<lparr>pw_protocol = protocol, pw_verdict = fst (translate_legacy_verdict (str_or rp pr ''verdict'' ''BLOCKED'') None),
          pw_handshake_count = handshakes, pw_data_transfer_ok = truthy (jget pr ''data_transfer_ok''),
          pw_avg_throughput_mbps = avg, pw_client_avg_throughput_mbps = client_avg,
          pw_throughput_throttled = truthy (dict_default pr ''throughput_throttled'' (JBool False)),
          pw_note = (case jget pr ''note'' of JStr s \<Rightarrow> Some s | _ \<Rightarrow> None)\<rparr>)))"

fun parse_protocol_rows :: "(json \<Rightarrow> string) \<Rightarrow> (string, json) dict \<Rightarrow> coercion_error + protocol_row list" where
  "parse_protocol_rows rp [] = Inr []"
| "parse_protocol_rows rp ((protocol, JObj pr) # rs) = bindE (parse_protocol_row rp protocol pr) (\<lambda>row.
     bindE (parse_protocol_rows rp rs) (\<lambda>rows. Inr (row # rows)))"
| "parse_protocol_rows rp (_ # rs) = parse_protocol_rows rp rs"

definition parse_listener_report :: "(json \<Rightarrow> string) \<Rightarrow> (string \<Rightarrow> iso_time option) \<Rightarrow> (string \<Rightarrow> json option) \<Rightarrow> string \<Rightarrow> json_file
    \<Rightarrow> coercion_error + (session_meta \<times> protocol_row list) option" where
  "parse_listener_report rp fromiso json_loads name f =
     (case load_json json_loads f of
        None \<Rightarrow> Inr None
      | Some raw \<Rightarrow>
          if raw = [] then Inr None
          else bindE (parse_session_meta rp fromiso name raw) (\<lambda>meta.
            (case dict_default raw ''results'' (JObj []) of
               JObj raw_proto \<Rightarrow> bindE (parse_protocol_rows rp raw_proto) (\<lambda>rows. Inr (Some (meta, rows)))
             | _ \<Rightarrow> Inr (Some (meta, [])))))"

section \<open>Value migrations of existing rows\<close>

text \<open>
  The conditional updates of the two tables: a verdict is replaced where it is one of a list, a
  method is filled in where it is \<open>NULL\<close> and the verdict matches.
\<close>

datatype row_update = SetVerdict string "string list" | FillMethod string string

definition LEGACY_BLOCKING :: "string list" where
  "LEGACY_BLOCKING = [''DNS_POISONING'', ''DNS_BLOCKED'', ''DOH_BLOCKED'', ''IP_DROPPED'', ''RST_INJECTED'', ''REFUSED'']"

definition TEST_RESULT_MIGRATIONS :: "row_update list" where
  "TEST_RESULT_MIGRATIONS =
     [SetVerdict ''SERVER_REFUSED'' [''GEOBLOCK_NOT_CENSORSHIP''], SetVerdict ''THROTTLED'' [''YOUTUBE_SNI_THROTTLED''],
      FillMethod ''dns_poisoning'' ''DNS_POISONING'', FillMethod ''dns_blocked_nxdomain'' ''DNS_BLOCKED'',
      FillMethod ''doh_blocked'' ''DOH_BLOCKED'', FillMethod ''ip_dropped'' ''IP_DROPPED'',
      FillMethod ''tcp_rst_injection'' ''RST_INJECTED'', FillMethod ''tcp_refused'' ''REFUSED'',
      SetVerdict ''BLOCKED'' LEGACY_BLOCKING]"

definition PROTOCOL_RESULT_MIGRATIONS :: "row_update list" where
  "PROTOCOL_RESULT_MIGRATIONS =
     [SetVerdict ''SERVER_REFUSED'' [''GEOBLOCK_NOT_CENSORSHIP''], SetVerdict ''THROTTLED'' [''YOUTUBE_SNI_THROTTLED''],
      SetVerdict ''BLOCKED'' LEGACY_BLOCKING]"

fun apply_update :: "row_update \<Rightarrow> string \<times> string option \<Rightarrow> string \<times> string option" where
  "apply_update (SetVerdict new_verdict olds) (v, m) = (if v \<in> set olds then (new_verdict, m) else (v, m))"
| "apply_update (FillMethod meth old) (v, m) = (if v = old \<and> m = None then (v, Some meth) else (v, m))"

definition migrate :: "row_update list \<Rightarrow> string \<times> string option \<Rightarrow> string \<times> string option" where
  "migrate updates row = fold apply_update updates row"

lemma migrate_test_row:
  "migrate TEST_RESULT_MIGRATIONS (v, m) =
     (if v = ''GEOBLOCK_NOT_CENSORSHIP'' then (''SERVER_REFUSED'', m)
      else if v = ''YOUTUBE_SNI_THROTTLED'' then (''THROTTLED'', m)
      else if v \<in> set LEGACY_BLOCKING then (''BLOCKED'', if m = None then snd (the (dict_get LEGACY_VERDICT_TRANSLATION v)) else m)
      else (v, m))"
  by (cases m) (simp_all add: migrate_def TEST_RESULT_MIGRATIONS_def LEGACY_BLOCKING_def LEGACY_VERDICT_TRANSLATION_def dict_get_def)

lemma translate_row:
  "translate_legacy_verdict v m =
     (if v = ''GEOBLOCK_NOT_CENSORSHIP'' then (''SERVER_REFUSED'', if m = Some [] then None else m)
      else if v = ''YOUTUBE_SNI_THROTTLED'' then (''THROTTLED'', if m = None \<or> m = Some [] then Some ''sni_throttling'' else m)
      else if v \<in> set LEGACY_BLOCKING
        then (''BLOCKED'', if m = None \<or> m = Some [] then snd (the (dict_get LEGACY_VERDICT_TRANSLATION v)) else m)
      else (v, m))"
  by (simp add: translate_legacy_verdict_def LEGACY_BLOCKING_def LEGACY_VERDICT_TRANSLATION_def dict_get_def)

text \<open>
  The two ways old rows reach the new taxonomy agree: migrating a stored row gives what
  re-importing its report would, for every verdict and method but an empty method and a
  throttling row without one. Both are idempotent, and leave no legacy verdict behind.
\<close>

theorem migrations_agree_with_parser:
  "(m \<noteq> Some [] \<and> \<not> (v = ''YOUTUBE_SNI_THROTTLED'' \<and> m = None)
      \<longrightarrow> migrate TEST_RESULT_MIGRATIONS (v, m) = translate_legacy_verdict v m)
   \<and> fst (migrate PROTOCOL_RESULT_MIGRATIONS (v, None)) = fst (translate_legacy_verdict v None)
   \<and> migrate TEST_RESULT_MIGRATIONS (migrate TEST_RESULT_MIGRATIONS (v, m)) = migrate TEST_RESULT_MIGRATIONS (v, m)
   \<and> (case translate_legacy_verdict v m of (v', m') \<Rightarrow> translate_legacy_verdict v' m' = (v', m')
        \<and> dict_get LEGACY_VERDICT_TRANSLATION v' = None)"
proof -
  let ?old = "v \<in> set (''GEOBLOCK_NOT_CENSORSHIP'' # ''YOUTUBE_SNI_THROTTLED'' # LEGACY_BLOCKING)"
  have known: "dict_get LEGACY_VERDICT_TRANSLATION w \<noteq> None \<longleftrightarrow> w \<in> set (''GEOBLOCK_NOT_CENSORSHIP'' # ''YOUTUBE_SNI_THROTTLED'' # LEGACY_BLOCKING)" for w
    by (simp add: LEGACY_VERDICT_TRANSLATION_def LEGACY_BLOCKING_def dict_get_def)
  have new: "''BLOCKED'' \<notin> set LEGACY_BLOCKING" "''THROTTLED'' \<notin> set LEGACY_BLOCKING" "''SERVER_REFUSED'' \<notin> set LEGACY_BLOCKING"
    by (simp_all add: LEGACY_BLOCKING_def)
  have proto: "fst (migrate PROTOCOL_RESULT_MIGRATIONS (v, None)) = fst (translate_legacy_verdict v None)"
    by (simp add: migrate_def PROTOCOL_RESULT_MIGRATIONS_def translate_row LEGACY_BLOCKING_def)
  have "migrate TEST_RESULT_MIGRATIONS (migrate TEST_RESULT_MIGRATIONS (v, m)) = migrate TEST_RESULT_MIGRATIONS (v, m)"
    using new by (simp add: migrate_test_row)
  moreover have "case translate_legacy_verdict v m of (v', m') \<Rightarrow> translate_legacy_verdict v' m' = (v', m')
      \<and> dict_get LEGACY_VERDICT_TRANSLATION v' = None"
  proof (cases ?old)
    case True
    have "dict_get LEGACY_VERDICT_TRANSLATION ''BLOCKED'' = None" "dict_get LEGACY_VERDICT_TRANSLATION ''THROTTLED'' = None"
      "dict_get LEGACY_VERDICT_TRANSLATION ''SERVER_REFUSED'' = None" by (simp_all add: LEGACY_VERDICT_TRANSLATION_def dict_get_def)
    then show ?thesis using True new by (auto simp: translate_row)
  next
    case False
    then have "dict_get LEGACY_VERDICT_TRANSLATION v = None" using known [of v] by blast
    then show ?thesis by (simp add: translate_legacy_verdict_def)
  qed
  moreover have "m \<noteq> Some [] \<and> \<not> (v = ''YOUTUBE_SNI_THROTTLED'' \<and> m = None)
      \<longrightarrow> migrate TEST_RESULT_MIGRATIONS (v, m) = translate_legacy_verdict v m"
    by (simp add: migrate_test_row translate_row)
  ultimately show ?thesis using proto by blast
qed

theorem migrations_agree_with_parser_witness:
  "migrate TEST_RESULT_MIGRATIONS (''RST_INJECTED'', None) = (''BLOCKED'', Some ''tcp_rst_injection'')"
proof -
  have "translate_legacy_verdict ''RST_INJECTED'' None = (''BLOCKED'', Some ''tcp_rst_injection'')" by code_simp
  then show ?thesis using migrations_agree_with_parser [of None "''RST_INJECTED''"] by simp
qed

text \<open>The exception: the migration leaves a throttling row without its method, the parser fills it in.\<close>

lemma throttled_row_keeps_no_method:
  "migrate TEST_RESULT_MIGRATIONS (''YOUTUBE_SNI_THROTTLED'', None) = (''THROTTLED'', None)
   \<and> translate_legacy_verdict ''YOUTUBE_SNI_THROTTLED'' None = (''THROTTLED'', Some ''sni_throttling'')"
  by (simp add: migrate_test_row translate_row)

text \<open>One number that is too large for a float makes the whole report unreadable.\<close>

lemma infinite_count_escapes: "parse_int (JFloat PInf) 1 = Inl OverflowErr"
  by (simp add: parse_int_def)

end
