(* ===== verification/Importer.thy ===== *)
theory Importer
  imports ReportParser Scoring Utils Prelude
begin

text \<open>
  The dashboard importer (\<^verbatim>\<open>sync_api/main.py\<close>): one pass over the reports directory. The database is
  a service; the model keeps the tables as records, with the unique constraints the schema declares
  and a test of the environment for the limits of its columns. A nested transaction that fails
  leaves what it found. JSON, times and the validation of the core models are arguments.
\<close>

section \<open>The directory\<close>

record disk_file = json_file +
  df_stable :: bool

record disk_dir =
  dd_name :: string
  dd_symlink :: bool
  dd_is_dir :: bool
  dd_meta :: json
  dd_files :: "(string \<times> disk_file) list"

type_synonym report_dir = "string \<times> json \<times> (string \<times> disk_file) list"

text \<open>\<open>None\<close> is a missing root; the contents of \<open>meta.yaml\<close> are read with the directory.\<close>

definition list_report_files :: "disk_dir list \<Rightarrow> report_dir list" where
  "list_report_files dirs = map (\<lambda>d. (dd_name d, dd_meta d,
       sort_key fst (filter (\<lambda>(name, f). ends_with name ''.json'' \<and> \<not> jf_symlink f) (dd_files d))))
     (filter (\<lambda>d. \<not> dd_symlink d \<and> dd_is_dir d \<and> safe_id (dd_name d)) (sort_key dd_name dirs))"

section \<open>The tables\<close>

record session_row =
  sess_meta :: session_meta
  sess_protocols :: "protocol_row list"

record score_columns =
  col_entry_score :: "rat option"
  col_exit_score :: "rat option"
  col_relay_score :: "rat option"
  col_overall_score :: "rat option"
  col_listener_session_count :: nat
  col_throttling_detected :: bool
  col_dns_integrity :: "rat option"
  col_tls_integrity :: "rat option"
  col_telegram_health :: "pyfloat option"
  col_detected_techniques :: "string list option"
  col_recommended_protocols :: "string list option"

record test_run =
  run_server_meta :: "(string, json) dict option"
  run_ipv6_available :: bool
  run_kernel :: json
  run_distro :: json
  run_created_at :: int
  run_scores :: score_columns
  run_results :: "solo_row list"
  run_sessions :: "session_row list"

type_synonym database = "(string, test_run) dict"

text \<open>
  The environment: the decoders, the two validators of the core models, what the score is computed
  with, whether rows fit the columns of their table, and the clock.
\<close>

record importer_env =
  ie_repr :: "json \<Rightarrow> string"
  ie_fromiso :: "string \<Rightarrow> iso_time option"
  ie_json_loads :: "string \<Rightarrow> json option"
  ie_validate_result :: "json \<Rightarrow> test_result option"
  ie_validate_listener :: "(string, json) dict \<Rightarrow> listener_report option"
  ie_weights :: scoring_config
  ie_priority :: "string list"
  ie_iter :: "string list"
  ie_fits_run :: "string \<Rightarrow> test_run \<Rightarrow> bool"
  ie_fits_result :: "solo_row \<Rightarrow> bool"
  ie_fits_session :: "session_row \<Rightarrow> bool"
  ie_now :: int

definition sess_file :: "session_row \<Rightarrow> string" where "sess_file s = sm_report_file (sess_meta s)"
definition sess_id :: "session_row \<Rightarrow> string" where "sess_id s = sm_session_id (sess_meta s)"
definition sess_started :: "session_row \<Rightarrow> int option" where "sess_started s = sm_started_at (sess_meta s)"

definition no_scores :: "nat \<Rightarrow> score_columns" where
  "no_scores n = \<lparr>col_entry_score = None, col_exit_score = None, col_relay_score = None, col_overall_score = None,
     col_listener_session_count = n, col_throttling_detected = False, col_dns_integrity = None, col_tls_integrity = None,
     col_telegram_health = None, col_detected_techniques = None, col_recommended_protocols = None\<rparr>"

section \<open>Importing one file\<close>

text \<open>The key of the unique constraint on results: file, test and target.\<close>

definition result_key :: "solo_row \<Rightarrow> string \<times> string \<times> string" where
  "result_key r = (sr_report_file r, sr_test r, sr_target r)"

text \<open>\<open>None\<close>: the nested transaction fails; otherwise the run and the number of rows added.\<close>

definition import_solo_report :: "importer_env \<Rightarrow> test_run \<Rightarrow> string \<Rightarrow> disk_file \<Rightarrow> (test_run \<times> nat) option" where
  "import_solo_report E run name f =
     (case parse_solo_report (ie_repr E) (ie_fromiso E) (ie_json_loads E) name (json_file.truncate f) of
        Inl _ \<Rightarrow> None
      | Inr (_, results) \<Rightarrow>
          if results = [] then Some (run, 0)
          else if list_all (ie_fits_result E) results \<and> distinct (map result_key (run_results run @ results))
            then Some (run\<lparr>run_results := run_results run @ results\<rparr>, length results)
          else None)"

definition existing_is_newer :: "session_row \<Rightarrow> session_row \<Rightarrow> bool" where
  "existing_is_newer existing new =
     (case (sess_started existing, sess_started new) of
        (Some e, Some n) \<Rightarrow> n \<le> e
      | _ \<Rightarrow> sess_file new \<le> sess_file existing)"

definition insert_session :: "importer_env \<Rightarrow> test_run \<Rightarrow> session_row \<Rightarrow> (test_run \<times> nat) option" where
  "insert_session E run s =
     (if ie_fits_session E s \<and> sess_file s \<notin> sess_file ` set (run_sessions run)
      then Some (run\<lparr>run_sessions := run_sessions run @ [s]\<rparr>, 1) else None)"

definition import_listener_report :: "importer_env \<Rightarrow> test_run \<Rightarrow> string \<Rightarrow> disk_file \<Rightarrow> (test_run \<times> nat) option" where
  "import_listener_report E run name f =
     (case parse_listener_report (ie_repr E) (ie_fromiso E) (ie_json_loads E) name (json_file.truncate f) of
        Inl _ \<Rightarrow> None
      | Inr None \<Rightarrow> Some (run, 0)
      | Inr (Some (meta, protocols)) \<Rightarrow>
          let s = \<lparr>sess_meta = meta, sess_protocols = protocols\<rparr> in
          if sess_id s = [] then insert_session E run s
          else (case filter (\<lambda>t. sess_id t = sess_id s) (run_sessions run) of
              [] \<Rightarrow> insert_session E run s
            | [existing] \<Rightarrow>
                if existing_is_newer existing s then Some (run, 0)
                else insert_session E (run\<lparr>run_sessions := remove1 existing (run_sessions run)\<rparr>) s
            | _ \<Rightarrow> None))"

definition try_import_one_file :: "importer_env \<Rightarrow> test_run \<Rightarrow> string \<times> disk_file \<Rightarrow> test_run \<times> bool" where
  "try_import_one_file E run p =
     (let (name, f) = p;
          outcome = (if is_solo_report name then import_solo_report E run name f
                     else if is_listener_report name then import_listener_report E run name f
                     else Some (run, 0))
      in case outcome of None \<Rightarrow> (run, False) | Some (run', n) \<Rightarrow> (run', n \<noteq> 0))"

section \<open>Scores\<close>

definition apply_scores :: "importer_env \<Rightarrow> test_result list \<Rightarrow> listener_report list \<Rightarrow> test_run \<Rightarrow> coercion_error + test_run" where
  "apply_scores E solo_results listener_reports run =
     (if solo_results = [] then Inr (run\<lparr>run_scores := no_scores (length listener_reports)\<rparr>)
      else bindE (compute_scores (ie_weights E) (ie_priority E) (ie_iter E) solo_results listener_reports) (\<lambda>scores.
        Inr (run\<lparr>run_scores :=
          \<lparr>col_entry_score = Some (ss_entry_score scores), col_exit_score = Some (ss_exit_score scores),
           col_relay_score = Some (ss_relay_score scores), col_overall_score = Some (ss_overall scores),
           col_listener_session_count = ss_listener_session_count scores,
           col_throttling_detected = ss_throttling_detected scores, col_dns_integrity = ss_dns_integrity scores,
           col_tls_integrity = ss_tls_integrity scores, col_telegram_health = ss_telegram_health scores,
           col_detected_techniques = (if ss_detected_techniques scores = [] then None else Some (ss_detected_techniques scores)),
           col_recommended_protocols = (if ss_recommended_protocols scores = [] then None else Some (ss_recommended_protocols scores))\<rparr>\<rparr>)))"

definition somes :: "'a option list \<Rightarrow> 'a list" where
  "somes xs = map the (filter (\<lambda>x. x \<noteq> None) xs)"

definition load_latest_solo_results :: "importer_env \<Rightarrow> (string \<times> disk_file) list \<Rightarrow> test_result list" where
  "load_latest_solo_results E solo_files =
     (if solo_files = [] then []
      else case load_json (ie_json_loads E) (json_file.truncate (snd (last solo_files))) of
          None \<Rightarrow> []
        | Some raw \<Rightarrow>
            (case jor (dict_default raw ''results'' (JList [])) (JList []) of
               JList raw_results \<Rightarrow> somes (map (ie_validate_result E) raw_results)
             | _ \<Rightarrow> []))"

definition load_listener_reports :: "importer_env \<Rightarrow> (string \<times> disk_file) list \<Rightarrow> listener_report list" where
  "load_listener_reports E listener_files =
     somes (map (\<lambda>(name, f). Option.bind (load_json (ie_json_loads E) (json_file.truncate f)) (ie_validate_listener E)) listener_files)"

definition load_reports_for_scoring :: "importer_env \<Rightarrow> (string \<times> disk_file) list \<Rightarrow> test_result list \<times> listener_report list" where
  "load_reports_for_scoring E files =
     (load_latest_solo_results E (sort_key fst (filter (\<lambda>p. is_solo_report (fst p)) files)),
      load_listener_reports E (sort_key fst (filter (\<lambda>p. is_listener_report (fst p)) files)))"

text \<open>An error while scoring leaves the columns as they are stored.\<close>

definition recompute_scores_if_touched :: "importer_env \<Rightarrow> (string \<times> disk_file) list \<Rightarrow> bool \<Rightarrow> test_run \<Rightarrow> test_run" where
  "recompute_scores_if_touched E files touched run =
     (if \<not> touched then run
      else let (solo, listener) = load_reports_for_scoring E files in
        case apply_scores E solo listener run of Inl _ \<Rightarrow> run | Inr run' \<Rightarrow> run')"

section \<open>One directory, and the pass\<close>

definition get_or_create_test_run :: "importer_env \<Rightarrow> database \<Rightarrow> string \<Rightarrow> json \<Rightarrow> test_run option" where
  "get_or_create_test_run E db test_id meta =
     (case dict_get db test_id of
        Some row \<Rightarrow> Some row
      | None \<Rightarrow>
         (case jor meta (JObj []) of
            JObj meta_data \<Rightarrow>
              let server = jor (jget meta_data ''server'') (JObj []);
                  fields = (case server of JObj s \<Rightarrow> s | _ \<Rightarrow> []);
                  run = \<lparr>run_server_meta = (case jget fields ''endpoint'' of JObj e \<Rightarrow> Some e | _ \<Rightarrow> None),
                    run_ipv6_available = truthy (dict_default fields ''ipv6_available'' (JBool False)),
                    run_kernel = jget fields ''kernel'', run_distro = jget fields ''distro'', run_created_at = ie_now E,
                    run_scores = no_scores 0, run_results = [], run_sessions = []\<rparr>
              in if ie_fits_run E test_id run then Some run else None
          | _ \<Rightarrow> None))"

definition delete_orphaned_files :: "string set \<Rightarrow> test_run \<Rightarrow> test_run" where
  "delete_orphaned_files on_disk run = run
     \<lparr>run_results := filter (\<lambda>r. sr_report_file r \<in> on_disk) (run_results run),
      run_sessions := filter (\<lambda>s. sess_file s \<in> on_disk) (run_sessions run)\<rparr>"

definition imported_files :: "test_run \<Rightarrow> string set" where
  "imported_files run = sr_report_file ` set (run_results run) \<union> sess_file ` set (run_sessions run)"

definition import_files :: "importer_env \<Rightarrow> string set \<Rightarrow> (string \<times> disk_file) list \<Rightarrow> test_run \<times> bool \<Rightarrow> test_run \<times> bool" where
  "import_files E imported files start = foldl (\<lambda>(run, touched) p.
     if fst p \<in> imported \<or> \<not> df_stable (snd p) then (run, touched)
     else let (run', added) = try_import_one_file E run p in (run', touched \<or> added)) start files"

definition import_run :: "importer_env \<Rightarrow> (string \<times> disk_file) list \<Rightarrow> test_run \<Rightarrow> test_run" where
  "import_run E files run0 =
     (let imported = imported_files run0; on_disk = fst ` set files;
          (run, touched) = import_files E imported files (delete_orphaned_files on_disk run0, \<not> imported \<subseteq> on_disk)
      in recompute_scores_if_touched E files touched run)"

definition import_one_test_dir :: "importer_env \<Rightarrow> database \<Rightarrow> report_dir \<Rightarrow> database" where
  "import_one_test_dir E db d =
     (case d of (test_id, meta, files) \<Rightarrow>
        if files = [] then dict_pop test_id db
        else case get_or_create_test_run E db test_id meta of
            None \<Rightarrow> db
          | Some run \<Rightarrow> dict_set test_id (import_run E files run) db)"

definition reconcile_missing_test_runs :: "string set \<Rightarrow> database \<Rightarrow> database" where
  "reconcile_missing_test_runs on_disk db = filter (\<lambda>(test_id, run). test_id \<in> on_disk) db"

definition import_once :: "importer_env \<Rightarrow> disk_dir list option \<Rightarrow> database \<Rightarrow> database" where
  "import_once E reports_root db =
     (case reports_root of
        None \<Rightarrow> db
      | Some dirs \<Rightarrow>
          let test_dirs = list_report_files dirs in
          reconcile_missing_test_runs (fst ` set test_dirs) (foldl (import_one_test_dir E) db test_dirs))"

section \<open>Well-formed tables\<close>

definition sid_ok :: "session_row list \<Rightarrow> bool" where
  "sid_ok rows \<longleftrightarrow> distinct (map sess_id (filter (\<lambda>s. sess_id s \<noteq> []) rows))"

definition run_ok :: "test_run \<Rightarrow> bool" where
  "run_ok run \<longleftrightarrow> distinct (map result_key (run_results run)) \<and> distinct (map sess_file (run_sessions run))
     \<and> sid_ok (run_sessions run)"

text \<open>What a file contributes: a session, or result rows, when its report can be imported at all.\<close>

definition session_of :: "importer_env \<Rightarrow> string \<times> disk_file \<Rightarrow> session_row option" where
  "session_of E p =
     (if is_solo_report (fst p) \<or> \<not> is_listener_report (fst p) then None
      else case parse_listener_report (ie_repr E) (ie_fromiso E) (ie_json_loads E) (fst p) (json_file.truncate (snd p)) of
          Inr (Some (meta, protocols)) \<Rightarrow>
            let s = \<lparr>sess_meta = meta, sess_protocols = protocols\<rparr> in if ie_fits_session E s then Some s else None
        | _ \<Rightarrow> None)"

definition solo_rows_of :: "importer_env \<Rightarrow> string \<times> disk_file \<Rightarrow> solo_row list" where
  "solo_rows_of E p =
     (if \<not> is_solo_report (fst p) then []
      else case parse_solo_report (ie_repr E) (ie_fromiso E) (ie_json_loads E) (fst p) (json_file.truncate (snd p)) of
          Inr (_, rows) \<Rightarrow> if list_all (ie_fits_result E) rows \<and> distinct (map result_key rows) then rows else []
        | _ \<Rightarrow> [])"

lemma parse_session_meta_file: "parse_session_meta rp fi name raw = Inr m \<Longrightarrow> sm_report_file m = name"
  by (auto simp: parse_session_meta_def Let_def bindE_Inr_iff)

lemma parse_listener_file: "parse_listener_report rp fi loads name f = Inr (Some (m, ps)) \<Longrightarrow> sm_report_file m = name"
proof -
  assume h: "parse_listener_report rp fi loads name f = Inr (Some (m, ps))"
  then obtain raw where raw: "load_json loads f = Some raw" "raw \<noteq> []"
    by (auto simp: parse_listener_report_def split: option.splits if_splits)
  then have "parse_session_meta rp fi name raw = Inr m"
    using h by (cases "dict_default raw ''results'' (JObj [])") (auto simp: parse_listener_report_def bindE_Inr_iff)
  then show "sm_report_file m = name" by (rule parse_session_meta_file)
qed

lemma session_of_Some:
  "session_of E p = Some s \<longleftrightarrow> \<not> is_solo_report (fst p) \<and> is_listener_report (fst p) \<and> ie_fits_session E s
     \<and> parse_listener_report (ie_repr E) (ie_fromiso E) (ie_json_loads E) (fst p) (json_file.truncate (snd p))
         = Inr (Some (sess_meta s, sess_protocols s))"
  by (cases s) (auto simp: session_of_def Let_def split: sum.split option.split)

lemma session_of_file: "session_of E p = Some s \<Longrightarrow> sess_file s = fst p"
  by (auto simp: session_of_Some sess_file_def dest: parse_listener_file)

lemma parse_rows_all:
  "parse_rows f js = Inr rows \<Longrightarrow> (\<And>d r. f d = Inr r \<Longrightarrow> P r) \<Longrightarrow> list_all P rows"
  by (induction f js arbitrary: rows rule: parse_rows.induct) (auto simp: bindE_Inr_iff)

lemma solo_rows_file: "r \<in> set (solo_rows_of E p) \<Longrightarrow> sr_report_file r = fst p"
proof -
  have row: "parse_solo_row rp fi name d = Inr r \<Longrightarrow> sr_report_file r = name" for rp fi name d r
    by (auto simp: parse_solo_row_def Let_def bindE_Inr_iff split: prod.splits)
  have "parse_solo_report rp fi loads name f = Inr (m, rows) \<Longrightarrow> list_all (\<lambda>r. sr_report_file r = name) rows" for rp fi loads name f m rows
    using parse_rows_all [of "parse_solo_row rp fi name" _ rows, OF _ row]
    by (auto simp: parse_solo_report_def Let_def bindE_Inr_iff split: option.splits if_splits json.splits)
  then show "r \<in> set (solo_rows_of E p) \<Longrightarrow> sr_report_file r = fst p"
    by (auto simp: solo_rows_of_def list_all_iff split: if_splits sum.splits dest!: sym [of "Inr _"])
qed

lemma solo_rows_distinct: "distinct (map result_key (solo_rows_of E p))"
  by (auto simp: solo_rows_of_def split: sum.splits)

lemma solo_not_listener: "is_solo_report n \<Longrightarrow> \<not> is_listener_report n"
  by (cases n) (auto simp: is_solo_report_def is_listener_report_def starts_with_prefix prefix_def)

lemma solo_no_session: "is_solo_report (fst p) \<Longrightarrow> session_of E p = None"
  by (simp add: session_of_def)

lemma try_import_solo:
  assumes "is_solo_report (fst p)" "run_ok run" "fst p \<notin> sr_report_file ` set (run_results run)"
  shows "try_import_one_file E run p =
    (run\<lparr>run_results := run_results run @ solo_rows_of E p\<rparr>, solo_rows_of E p \<noteq> [])"
proof (cases "parse_solo_report (ie_repr E) (ie_fromiso E) (ie_json_loads E) (fst p) (json_file.truncate (snd p))")
  case (Inl e)
  then show ?thesis using assms(1) by (auto simp: try_import_one_file_def import_solo_report_def solo_rows_of_def split: prod.split)
next
  case (Inr mr)
  obtain m rows where mr: "mr = (m, rows)" by (cases mr)
  have files: "list_all (\<lambda>r. sr_report_file r = fst p) rows \<or> solo_rows_of E p = []"
    using solo_rows_file [of _ E p] Inr mr assms(1) by (auto simp: solo_rows_of_def list_all_iff)
  have "distinct (map result_key (run_results run @ rows)) \<longleftrightarrow> distinct (map result_key rows)"
    if "list_all (\<lambda>r. sr_report_file r = fst p) rows"
    using assms(2,3) that imageI [of _ "set (run_results run)" sr_report_file]
    by (force simp: run_ok_def list_all_iff result_key_def)
  then show ?thesis using assms(1) Inr mr files
    by (auto simp: try_import_one_file_def import_solo_report_def solo_rows_of_def split: prod.split)
qed

text \<open>The rows of a run after one more session, and whether it was added.\<close>

definition add_session :: "session_row list \<Rightarrow> session_row \<Rightarrow> session_row list \<times> bool" where
  "add_session rows s =
     (case (if sess_id s = [] then [] else filter (\<lambda>t. sess_id t = sess_id s) rows) of
        [] \<Rightarrow> (rows @ [s], True)
      | existing # _ \<Rightarrow> if existing_is_newer existing s then (rows, False) else (remove1 existing rows @ [s], True))"

lemma filter_mem: "filter P xs = ys \<Longrightarrow> x \<in> set ys \<longleftrightarrow> x \<in> set xs \<and> P x"
  by auto

lemma sid_at_most_one:
  assumes "sid_ok rows" "i \<noteq> []"
  shows "filter (\<lambda>t. sess_id t = i) rows = [] \<or> (\<exists>t. filter (\<lambda>t. sess_id t = i) rows = [t])"
proof -
  have "distinct (map sess_id (filter (\<lambda>t. sess_id t = i) (filter (\<lambda>s. sess_id s \<noteq> []) rows)))"
    using assms(1) unfolding sid_ok_def by (rule distinct_map_filter)
  moreover have "filter (\<lambda>t. sess_id t = i) (filter (\<lambda>s. sess_id s \<noteq> []) rows) = filter (\<lambda>t. sess_id t = i) rows"
    using assms(2) by (simp add: filter_filter) (rule filter_cong, auto)
  ultimately have d: "distinct (map sess_id (filter (\<lambda>t. sess_id t = i) rows))" by simp
  show ?thesis
  proof (cases "filter (\<lambda>t. sess_id t = i) rows")
    case (Cons a as)
    then have "x \<in> set (a # as) \<Longrightarrow> sess_id x = i" for x using filter_mem [OF Cons] by blast
    then show ?thesis using d Cons by (cases as) auto
  qed simp
qed

lemma try_import_listener:
  assumes "\<not> is_solo_report (fst p)" "run_ok run" "fst p \<notin> sess_file ` set (run_sessions run)"
  shows "try_import_one_file E run p = (case session_of E p of None \<Rightarrow> (run, False)
    | Some s \<Rightarrow> (run\<lparr>run_sessions := fst (add_session (run_sessions run) s)\<rparr>, snd (add_session (run_sessions run) s)))"
proof (cases "is_listener_report (fst p)")
  case False
  then show ?thesis using assms(1) by (cases p) (simp add: try_import_one_file_def session_of_def Let_def)
next
  case lst: True
  let ?parse = "parse_listener_report (ie_repr E) (ie_fromiso E) (ie_json_loads E) (fst p) (json_file.truncate (snd p))"
  have one: "try_import_one_file E run p = (case import_listener_report E run (fst p) (snd p) of
      None \<Rightarrow> (run, False) | Some (run', n) \<Rightarrow> (run', n \<noteq> 0))"
    using assms(1) lst by (cases p) (simp add: try_import_one_file_def Let_def)
  consider e where "?parse = Inl e" | "?parse = Inr None" | m ps where "?parse = Inr (Some (m, ps))"
    by (metis old.sum.exhaust option.exhaust prod.exhaust)
  then show ?thesis
  proof cases
    case 3
    define s where "s = \<lparr>sess_meta = m, sess_protocols = ps\<rparr>"
    have fname: "sess_file s = fst p" using parse_listener_file [OF 3] by (simp add: s_def sess_file_def)
    have so: "session_of E p = (if ie_fits_session E s then Some s else None)"
      using 3 assms(1) lst by (simp add: session_of_def s_def Let_def)
    have sub: "set (remove1 t (run_sessions run)) \<subseteq> set (run_sessions run)" for t by (rule set_remove1_subset)
    have imp: "import_listener_report E run (fst p) (snd p) =
      (if sess_id s = [] then insert_session E run s
       else (case filter (\<lambda>t. sess_id t = sess_id s) (run_sessions run) of
              [] \<Rightarrow> insert_session E run s
            | [existing] \<Rightarrow>
                if existing_is_newer existing s then Some (run, 0)
                else insert_session E (run\<lparr>run_sessions := remove1 existing (run_sessions run)\<rparr>) s
            | _ \<Rightarrow> None))" by (simp only: import_listener_report_def 3 sum.case option.case prod.case Let_def s_def)
    have sid: "sid_ok (run_sessions run)" using assms(2) by (simp add: run_ok_def)
    have new: "fst p \<notin> sess_file ` set (remove1 t (run_sessions run))" for t using assms(3) sub by blast
    show ?thesis
    proof (cases "sess_id s = []")
      case True
      then show ?thesis using assms(3) by (simp add: one imp so insert_session_def add_session_def fname)
    next
      case False
      show ?thesis using sid_at_most_one [OF sid False] assms(3) False new
        by (auto simp: one imp so insert_session_def add_session_def fname)
    qed
  qed (use assms(1) lst in \<open>simp_all add: one session_of_def import_listener_report_def\<close>)
qed

section \<open>Keys stay unique\<close>

lemma sid_ok_mset: "distinct rows \<Longrightarrow> sid_ok rows \<longleftrightarrow> (\<forall>s \<in> set rows. \<forall>t \<in> set rows. sess_id s \<noteq> [] \<longrightarrow> sess_id s = sess_id t \<longrightarrow> s = t)"
  by (auto simp: sid_ok_def distinct_map inj_on_def)

lemma files_distinct: "distinct (map sess_file rows) \<Longrightarrow> distinct rows"
  by (simp add: distinct_map)

definition superseded :: "session_row list \<Rightarrow> session_row \<Rightarrow> bool" where
  "superseded rows s \<longleftrightarrow> (\<exists>t \<in> set rows. sess_id s \<noteq> [] \<and> sess_id t = sess_id s \<and> existing_is_newer t s)"

lemma add_session_cases:
  assumes "distinct (map sess_file rows)" "sid_ok rows"
  shows "superseded rows s \<Longrightarrow> add_session rows s = (rows, False)"
    and "\<not> superseded rows s \<Longrightarrow> snd (add_session rows s)
      \<and> set (fst (add_session rows s)) = insert s {t \<in> set rows. sess_id s = [] \<or> sess_id t \<noteq> sess_id s}"
proof -
  note d = files_distinct [OF assms(1)]
  have "(superseded rows s \<longrightarrow> add_session rows s = (rows, False))
    \<and> (\<not> superseded rows s \<longrightarrow> snd (add_session rows s)
      \<and> set (fst (add_session rows s)) = insert s {t \<in> set rows. sess_id s = [] \<or> sess_id t \<noteq> sess_id s})"
  proof (cases "sess_id s = []")
    case True
    then show ?thesis by (auto simp: add_session_def superseded_def)
  next
    case False
    consider "filter (\<lambda>t. sess_id t = sess_id s) rows = []" | t where "filter (\<lambda>t. sess_id t = sess_id s) rows = [t]"
      using sid_at_most_one [OF assms(2) False] by blast
    then show ?thesis
    proof cases
      case 1
      then have "\<forall>t \<in> set rows. sess_id t \<noteq> sess_id s" by (simp add: filter_empty_conv)
      then show ?thesis using 1 by (auto simp: add_session_def superseded_def)
    next
      case (2 t)
      then have same: "x \<in> set rows \<and> sess_id x = sess_id s \<longleftrightarrow> x = t" for x
        using filter_mem [OF 2] by auto
      then have sup: "superseded rows s \<longleftrightarrow> existing_is_newer t s" using False unfolding superseded_def by metis
      have others: "{x \<in> set rows. sess_id s = [] \<or> sess_id x \<noteq> sess_id s} = set rows - {t}" using same False by blast
      show ?thesis unfolding sup others using False 2 d by (simp add: add_session_def set_remove1_eq)
    qed
  qed
  then show "superseded rows s \<Longrightarrow> add_session rows s = (rows, False)"
    "\<not> superseded rows s \<Longrightarrow> snd (add_session rows s)
      \<and> set (fst (add_session rows s)) = insert s {t \<in> set rows. sess_id s = [] \<or> sess_id t \<noteq> sess_id s}" by blast+
qed

lemma add_session_ok:
  assumes "distinct (map sess_file rows)" "sid_ok rows" "sess_file s \<notin> sess_file ` set rows"
  shows "distinct (map sess_file (fst (add_session rows s))) \<and> sid_ok (fst (add_session rows s))
    \<and> set (fst (add_session rows s)) \<subseteq> insert s (set rows)"
proof (cases "superseded rows s")
  case True
  then show ?thesis using add_session_cases(1) [OF assms(1,2)] assms by auto
next
  case False
  let ?r = "fst (add_session rows s)"
  have r: "set ?r = insert s {t \<in> set rows. sess_id s = [] \<or> sess_id t \<noteq> sess_id s}"
    using add_session_cases(2) [OF assms(1,2) False] by blast
  have "distinct (map sess_file (remove1 t rows @ [s]))" for t
    using assms(1,3) files_distinct [OF assms(1)] by (auto simp: distinct_map inj_on_def)
  then have d: "distinct (map sess_file ?r)" using assms(1,3) by (auto simp: add_session_def split: list.split)
  have u: "\<forall>s \<in> set rows. \<forall>t \<in> set rows. sess_id s \<noteq> [] \<longrightarrow> sess_id s = sess_id t \<longrightarrow> s = t"
    using assms(2) sid_ok_mset [OF files_distinct [OF assms(1)]] by blast
  then have "\<forall>s \<in> set ?r. \<forall>t \<in> set ?r. sess_id s \<noteq> [] \<longrightarrow> sess_id s = sess_id t \<longrightarrow> s = t"
  proof (unfold r, intro ballI impI)
    fix x y assume u: "\<forall>s \<in> set rows. \<forall>t \<in> set rows. sess_id s \<noteq> [] \<longrightarrow> sess_id s = sess_id t \<longrightarrow> s = t"
      and xy: "x \<in> insert s {t \<in> set rows. sess_id s = [] \<or> sess_id t \<noteq> sess_id s}"
        "y \<in> insert s {t \<in> set rows. sess_id s = [] \<or> sess_id t \<noteq> sess_id s}" and id: "sess_id x \<noteq> []" "sess_id x = sess_id y"
    show "x = y"
    proof (cases "x = s \<or> y = s")
      case True
      then show ?thesis using xy id by auto
    next
      case False
      then have "x \<in> set rows" "y \<in> set rows" using xy by auto
      then show ?thesis using u id by blast
    qed
  qed
  then show ?thesis using d r sid_ok_mset [OF files_distinct [OF d]] by blast
qed

lemma try_import_ok:
  assumes "run_ok run" "fst p \<notin> imported_files run"
  shows "run_ok (fst (try_import_one_file E run p)) \<and> imported_files (fst (try_import_one_file E run p)) \<subseteq> insert (fst p) (imported_files run)"
proof (cases "is_solo_report (fst p)")
  case True
  have new: "fst p \<notin> sr_report_file ` set (run_results run)" using assms(2) by (auto simp: imported_files_def)
  have "result_key x \<noteq> result_key y" if "x \<in> set (run_results run)" "y \<in> set (solo_rows_of E p)" for x y
    using that(1) new solo_rows_file [OF that(2)] by (metis image_eqI prod.inject result_key_def)
  then have "distinct (map result_key (run_results run @ solo_rows_of E p))"
    using assms(1) solo_rows_distinct [of E p] by (force simp: run_ok_def)
  then show ?thesis using assms(1) solo_rows_file [of _ E p] unfolding try_import_solo [OF True assms(1) new]
    by (auto simp: run_ok_def imported_files_def)
next
  case False
  have new: "fst p \<notin> sess_file ` set (run_sessions run)" using assms(2) by (auto simp: imported_files_def)
  have rows: "distinct (map sess_file (run_sessions run))" "sid_ok (run_sessions run)" using assms(1) by (simp_all add: run_ok_def)
  show ?thesis
  proof (cases "session_of E p")
    case None
    then show ?thesis using assms(1) by (auto simp: try_import_listener [OF False assms(1) new])
  next
    case (Some s)
    then have "sess_file s = fst p" by (rule session_of_file)
    then show ?thesis using assms(1) new Some add_session_ok [OF rows, of s]
      by (auto simp: try_import_listener [OF False assms(1) new] run_ok_def imported_files_def split: if_splits)
  qed
qed

lemma import_files_Cons:
  "import_files E I (p # ps) (run, touched) =
     (if fst p \<in> I \<or> \<not> df_stable (snd p) then import_files E I ps (run, touched)
      else import_files E I ps (fst (try_import_one_file E run p), touched \<or> snd (try_import_one_file E run p)))"
  by (simp add: import_files_def split: prod.split)

lemma import_files_Nil [simp]: "import_files E I [] start = start"
  by (simp add: import_files_def)

lemma import_files_ok:
  assumes "run_ok run" "distinct (map fst fs)" "fst ` set fs \<inter> imported_files run \<subseteq> I"
  shows "run_ok (fst (import_files E I fs (run, touched)))
    \<and> imported_files (fst (import_files E I fs (run, touched))) \<subseteq> imported_files run \<union> fst ` set fs"
  using assms
proof (induction fs arbitrary: run touched)
  case (Cons p fs)
  show ?case
  proof (cases "fst p \<in> I \<or> \<not> df_stable (snd p)")
    case True
    then show ?thesis using Cons.IH [of run touched] Cons.prems by (auto simp: import_files_Cons)
  next
    case False
    let ?r = "fst (try_import_one_file E run p)"
    have new: "fst p \<notin> imported_files run" using Cons.prems(3) False by auto
    note ok = try_import_ok [OF Cons.prems(1) new, of E]
    have "a \<in> I" if "a \<in> fst ` set fs" "a \<in> imported_files ?r" for a
    proof -
      have "a \<noteq> fst p" using Cons.prems(2) that(1) by (simp add: distinct_map) (metis imageE)
      then have "a \<in> imported_files run" using ok that(2) by auto
      then show ?thesis using Cons.prems(3) that(1) by auto
    qed
    then have sub: "fst ` set fs \<inter> imported_files ?r \<subseteq> I" by blast
    have "distinct (map fst fs)" using Cons.prems(2) by simp
    from Cons.IH [OF conjunct1 [OF ok] this sub, of "touched \<or> snd (try_import_one_file E run p)"]
    show ?thesis using ok False unfolding import_files_Cons by simp blast
  qed
qed simp

lemma recompute_keeps_rows [simp]:
  "run_results (recompute_scores_if_touched E fs t run) = run_results run"
  "run_sessions (recompute_scores_if_touched E fs t run) = run_sessions run"
  by (auto simp: recompute_scores_if_touched_def apply_scores_def Let_def bindE_def split: prod.split sum.split)

lemma run_ok_rows: "run_results r = run_results s \<Longrightarrow> run_sessions r = run_sessions s \<Longrightarrow>
    run_ok r = run_ok s \<and> imported_files r = imported_files s"
  by (simp add: run_ok_def imported_files_def)

lemma sid_ok_filter: "sid_ok rows \<Longrightarrow> sid_ok (filter P rows)"
proof -
  assume "sid_ok rows"
  moreover have "filter (\<lambda>s. sess_id s \<noteq> []) (filter P rows) = filter P (filter (\<lambda>s. sess_id s \<noteq> []) rows)"
    by (induction rows) simp_all
  ultimately show ?thesis unfolding sid_ok_def by (simp only: distinct_map_filter)
qed

lemma delete_orphaned_ok:
  "run_ok run \<Longrightarrow> run_ok (delete_orphaned_files A run)"
  "imported_files (delete_orphaned_files A run) = imported_files run \<inter> A"
  by (auto simp: run_ok_def delete_orphaned_files_def sid_ok_filter distinct_map_filter imported_files_def)

lemma import_run_ok:
  assumes "run_ok run" "distinct (map fst files)"
  shows "run_ok (import_run E files run) \<and> imported_files (import_run E files run) \<subseteq> fst ` set files"
proof -
  let ?A = "fst ` set files" and ?I = "imported_files run"
  let ?d = "delete_orphaned_files ?A run"
  obtain r t where r: "import_files E ?I files (?d, \<not> ?I \<subseteq> ?A) = (r, t)" by fastforce
  have "?A \<inter> imported_files ?d \<subseteq> ?I" by (auto simp: delete_orphaned_ok(2))
  from import_files_ok [OF delete_orphaned_ok(1) [OF assms(1)] assms(2) this, of E "\<not> ?I \<subseteq> ?A"]
  have "run_ok r \<and> imported_files r \<subseteq> imported_files ?d \<union> ?A" by (simp add: r)
  moreover have "import_run E files run = recompute_scores_if_touched E files t r" by (simp add: import_run_def r Let_def)
  ultimately show ?thesis using run_ok_rows [of "import_run E files run" r] by (auto simp: delete_orphaned_ok(2))
qed

section \<open>The pass, directory by directory\<close>

definition dir_run :: "importer_env \<Rightarrow> string \<Rightarrow> test_run option \<Rightarrow> json \<times> (string \<times> disk_file) list \<Rightarrow> test_run option" where
  "dir_run E test_id old d =
     (if snd d = [] then None
      else map_option (import_run E (snd d))
        (get_or_create_test_run E (case old of None \<Rightarrow> [] | Some r \<Rightarrow> [(test_id, r)]) test_id (fst d)))"

lemma get_or_create_lookup:
  "get_or_create_test_run E (case dict_get db k of None \<Rightarrow> [] | Some r \<Rightarrow> [(k, r)]) k m = get_or_create_test_run E db k m"
  by (auto simp: get_or_create_test_run_def dict_get_def split: option.split)

lemma import_dir_lookup:
  "dict_get (import_one_test_dir E db (k, d)) k' = (if k' = k then dir_run E k (dict_get db k) d else dict_get db k')"
proof (cases "get_or_create_test_run E db k (fst d)")
  case None
  then have "dict_get db k = None" by (auto simp: get_or_create_test_run_def split: option.splits)
  then show ?thesis using None get_or_create_lookup [where db = db and k = k and E = E and m = "fst d"]
    by (cases d) (simp add: import_one_test_dir_def dir_run_def)
next
  case (Some r)
  then show ?thesis using get_or_create_lookup [where db = db and k = k and E = E and m = "fst d"]
    by (cases d) (simp add: import_one_test_dir_def dir_run_def)
qed

lemma import_dir_ok: "dict_ok db \<Longrightarrow> dict_ok (import_one_test_dir E db d)"
  by (simp add: import_one_test_dir_def split: prod.split option.split)

lemma import_dirs_lookup:
  "distinct (map fst ds) \<Longrightarrow> dict_get (foldl (import_one_test_dir E) db ds) k =
    (case map_of ds k of None \<Rightarrow> dict_get db k | Some d \<Rightarrow> dir_run E k (dict_get db k) d)"
proof (induction ds arbitrary: db)
  case (Cons a ds)
  obtain k' d where a: "a = (k', d)" by (cases a)
  show ?case using Cons import_dir_lookup [of E db k' d k]
    by (cases "k = k'") (simp_all add: a map_of_eq_None_iff [THEN iffD2] split: option.split)
qed simp

lemma import_dirs_ok: "dict_ok db \<Longrightarrow> dict_ok (foldl (import_one_test_dir E) db ds)"
  by (induction ds arbitrary: db) (simp_all add: import_dir_ok)

lemma reconcile_lookup:
  "dict_get (reconcile_missing_test_runs A db) k = (if k \<in> A then dict_get db k else None)"
  by (induction db) (auto simp: reconcile_missing_test_runs_def dict_get_def)

lemma reconcile_ok: "dict_ok db \<Longrightarrow> dict_ok (reconcile_missing_test_runs A db)"
  by (simp add: reconcile_missing_test_runs_def dict_ok_def distinct_map_filter)

lemma listing_distinct:
  assumes "distinct (map dd_name dirs)"
  shows "distinct (map fst (list_report_files dirs))"
proof -
  have "map fst (list_report_files dirs) = map dd_name (filter (\<lambda>d. \<not> dd_symlink d \<and> dd_is_dir d \<and> safe_id (dd_name d)) (sort_key dd_name dirs))"
    by (simp add: list_report_files_def comp_def)
  moreover have "distinct (map dd_name (sort_key dd_name dirs))"
    using assms by (simp add: distinct_map)
  ultimately show ?thesis by (simp add: distinct_map_filter)
qed

lemma listing_lookup:
  assumes "distinct (map dd_name dirs)"
  shows "(k, d) \<in> set (list_report_files dirs) \<longleftrightarrow> map_of (list_report_files dirs) k = Some d"
  using listing_distinct [OF assms] by simp

lemma import_once_lookup:
  assumes "distinct (map dd_name dirs)"
  shows "dict_get (import_once E (Some dirs) db) k =
    (case map_of (list_report_files dirs) k of None \<Rightarrow> None | Some d \<Rightarrow> dir_run E k (dict_get db k) d)"
proof -
  note d = listing_distinct [OF assms]
  show ?thesis
    using import_dirs_lookup [OF d, of E db k] map_of_eq_None_iff [of "list_report_files dirs" k]
    by (auto simp: import_once_def Let_def reconcile_lookup split: option.split)
qed

section \<open>The latest report of every session\<close>

text \<open>Reports of one session name are comparable: each says when it started, and no two the same.\<close>

definition comparable :: "session_row set \<Rightarrow> bool" where
  "comparable A \<longleftrightarrow> (\<forall>s \<in> A. \<forall>t \<in> A. s \<noteq> t \<and> sess_id s = sess_id t \<and> sess_id s \<noteq> [] \<longrightarrow>
     sess_started s \<noteq> None \<and> sess_started t \<noteq> None \<and> sess_started s \<noteq> sess_started t)"

definition current :: "session_row set \<Rightarrow> session_row set" where
  "current A = {s \<in> A. sess_id s = [] \<or> (\<forall>t \<in> A. sess_id t = sess_id s \<longrightarrow> t = s \<or> \<not> existing_is_newer t s)}"

lemma newer_started:
  assumes "comparable A" "s \<in> A" "t \<in> A" "s \<noteq> t" "sess_id s = sess_id t" "sess_id s \<noteq> []"
  shows "existing_is_newer t s \<longleftrightarrow> the (sess_started s) < the (sess_started t)"
    and "existing_is_newer s t \<longleftrightarrow> \<not> existing_is_newer t s"
proof -
  obtain a b where "sess_started s = Some a" "sess_started t = Some b" "a \<noteq> b"
    using assms unfolding comparable_def by (metis option.exhaust)
  then show "existing_is_newer t s \<longleftrightarrow> the (sess_started s) < the (sess_started t)"
    "existing_is_newer s t \<longleftrightarrow> \<not> existing_is_newer t s" by (auto simp: existing_is_newer_def)
qed

lemma comparable_subset: "comparable B \<Longrightarrow> A \<subseteq> B \<Longrightarrow> comparable A"
  unfolding comparable_def by blast

lemma current_exists:
  assumes "finite A" "comparable A" "t \<in> A" "sess_id t \<noteq> []"
  shows "\<exists>m \<in> current A. sess_id m = sess_id t \<and> (m = t \<or> existing_is_newer m t)"
proof -
  let ?C = "{u \<in> A. sess_id u = sess_id t}" and ?f = "\<lambda>u. the (sess_started u)"
  have fin: "finite ?C" "t \<in> ?C" using assms by auto
  then obtain m where m: "m \<in> ?C" "?f m = Max (?f ` ?C)"
    by (metis (no_types, lifting) Max_in empty_iff finite_imageI image_iff image_is_empty)
  have top: "u \<in> ?C \<Longrightarrow> ?f u \<le> ?f m" for u using fin m(2) by simp
  have "u = m \<or> \<not> existing_is_newer u m" if "u \<in> A" "sess_id u = sess_id m" for u
    using newer_started(1) [OF assms(2), of m u] top [of u] that m assms(4) by force
  then have "m \<in> current A" using m by (simp add: current_def)
  moreover have "m = t \<or> existing_is_newer m t"
    using newer_started [OF assms(2), of t m] top [OF fin(2)] m assms(3,4) newer_started(1) [OF assms(2), of m t] by force
  ultimately show ?thesis using m by blast
qed

lemma current_unique:
  assumes "comparable A" "s \<in> current A" "t \<in> current A" "sess_id s = sess_id t" "sess_id s \<noteq> []"
  shows "s = t"
  using assms newer_started(2) [OF assms(1), of s t] unfolding current_def by fastforce

lemma current_insert:
  "x \<noteq> s \<Longrightarrow> x \<in> current (insert s A) \<longleftrightarrow> x \<in> current A \<and> (sess_id x \<noteq> [] \<and> sess_id s = sess_id x \<longrightarrow> \<not> existing_is_newer s x)"
  unfolding current_def by blast

text \<open>Adding a session to the current rows gives the current rows of one session more.\<close>

lemma add_current:
  assumes rows: "distinct (map sess_file rows)" "sid_ok rows" "set rows = current A"
    and A: "finite A" "comparable (insert s A)" "s \<notin> A"
  shows "set (fst (add_session rows s)) = current (insert s A)"
    and "superseded rows s \<longleftrightarrow> s \<notin> current (insert s A)"
proof -
  have cA: "comparable A" using A(2) by (rule comparable_subset) blast
  have newer: "t \<in> A \<Longrightarrow> sess_id t = sess_id s \<Longrightarrow> sess_id s \<noteq> [] \<Longrightarrow>
      (existing_is_newer t s \<longleftrightarrow> the (sess_started s) < the (sess_started t)) \<and> (existing_is_newer s t \<longleftrightarrow> \<not> existing_is_newer t s)" for t
    using newer_started [OF A(2), of s t] A(3) by auto
  have sup: "superseded rows s \<longleftrightarrow> sess_id s \<noteq> [] \<and> (\<exists>t \<in> A. sess_id t = sess_id s \<and> existing_is_newer t s)"
  proof
    assume "superseded rows s"
    then show "sess_id s \<noteq> [] \<and> (\<exists>t \<in> A. sess_id t = sess_id s \<and> existing_is_newer t s)"
      unfolding superseded_def rows(3) current_def by blast
  next
    assume r: "sess_id s \<noteq> [] \<and> (\<exists>t \<in> A. sess_id t = sess_id s \<and> existing_is_newer t s)"
    then obtain t where t: "t \<in> A" "sess_id t = sess_id s" "existing_is_newer t s" by blast
    obtain m where m: "m \<in> current A" "sess_id m = sess_id t" "m = t \<or> existing_is_newer m t"
      using current_exists [OF A(1) cA t(1)] r t(2) by metis
    have "m \<in> A" using m(1) by (simp add: current_def)
    then have "existing_is_newer m s"
      using m t r newer [of t] newer [of m] newer_started(1) [OF cA, of t m] by force
    then show "superseded rows s" unfolding superseded_def rows(3) using m t r by metis
  qed
  show two: "superseded rows s \<longleftrightarrow> s \<notin> current (insert s A)"
    unfolding sup current_def using A(3) by blast
  show "set (fst (add_session rows s)) = current (insert s A)"
  proof (cases "superseded rows s")
    case True
    then obtain t where t: "t \<in> current A" "sess_id t = sess_id s" "sess_id s \<noteq> []" "existing_is_newer t s"
      unfolding superseded_def rows(3) by blast
    have "x \<in> current (insert s A) \<longleftrightarrow> x \<in> current A" for x
    proof (cases "x = s")
      case True
      then show ?thesis using two \<open>superseded rows s\<close> A(3) by (auto simp: current_def)
    next
      case False
      have "t \<in> A" using t(1) by (simp add: current_def)
      then have "\<not> existing_is_newer s t" using newer [of t] t by blast
      then have "x \<in> current A \<Longrightarrow> sess_id x = sess_id s \<Longrightarrow> \<not> existing_is_newer s x"
        using current_unique [OF cA, of x t] t by metis
      then show ?thesis unfolding current_insert [OF False] by metis
    qed
    then show ?thesis using add_session_cases(1) [OF rows(1,2) True] rows(3) by auto
  next
    case False
    have "x \<in> current (insert s A) \<longleftrightarrow> x = s \<or> x \<in> current A \<and> (sess_id s = [] \<or> sess_id x \<noteq> sess_id s)" for x
    proof (cases "x = s")
      case True
      then show ?thesis using two False by simp
    next
      case xs: False
      have "x \<in> A \<Longrightarrow> sess_id x = sess_id s \<Longrightarrow> sess_id s \<noteq> [] \<Longrightarrow> existing_is_newer s x"
        using newer [of x] sup False by blast
      moreover have "x \<in> current A \<Longrightarrow> x \<in> A" by (simp add: current_def)
      ultimately show ?thesis using xs unfolding current_insert [OF xs] by metis
    qed
    then show ?thesis using add_session_cases(2) [OF rows(1,2) False] rows(3) by auto
  qed
qed

section \<open>The workspace is the source of truth\<close>

definition sessions_on_disk :: "importer_env \<Rightarrow> (string \<times> disk_file) list \<Rightarrow> session_row set" where
  "sessions_on_disk E files = {s. \<exists>p \<in> set files. session_of E p = Some s}"

definition results_on_disk :: "importer_env \<Rightarrow> (string \<times> disk_file) list \<Rightarrow> solo_row set" where
  "results_on_disk E files = (\<Union>p \<in> set files. set (solo_rows_of E p))"

text \<open>The stored rows of the files listed are what those files say.\<close>

definition reflects :: "importer_env \<Rightarrow> (string \<times> disk_file) list \<Rightarrow> test_run \<Rightarrow> bool" where
  "reflects E files run \<longleftrightarrow> (\<forall>p \<in> set files.
     (\<forall>s \<in> set (run_sessions run). sess_file s = fst p \<longrightarrow> session_of E p = Some s)
     \<and> (fst p \<in> sr_report_file ` set (run_results run) \<longrightarrow>
          {r \<in> set (run_results run). sr_report_file r = fst p} = set (solo_rows_of E p)))"

lemma sessions_on_disk_simps [simp]:
  "sessions_on_disk E [] = {}"
  "sessions_on_disk E (p # fs) = (case session_of E p of None \<Rightarrow> {} | Some s \<Rightarrow> {s}) \<union> sessions_on_disk E fs"
  "results_on_disk E [] = {}" "results_on_disk E (p # fs) = set (solo_rows_of E p) \<union> results_on_disk E fs"
  by (auto simp: sessions_on_disk_def results_on_disk_def split: option.split)

lemma finite_sessions_on_disk: "finite (sessions_on_disk E fs)"
  by (induction fs) (auto split: option.split)

text \<open>Importing the files one by one: the rows are always the current ones of the files seen.\<close>

lemma import_files_rows:
  assumes "run_ok run" "set (run_sessions run) = current A" "finite A" "distinct (map fst fs)" "\<forall>p \<in> set fs. df_stable (snd p)"
    and "comparable (A \<union> sessions_on_disk E fs)"
    and seen: "\<forall>p \<in> set fs. fst p \<in> I \<longrightarrow> (\<forall>s. session_of E p = Some s \<longrightarrow> s \<in> A) \<and> set (solo_rows_of E p) \<subseteq> set (run_results run)"
    and fresh: "\<forall>p \<in> set fs. fst p \<notin> I \<longrightarrow> fst p \<notin> imported_files run \<and> fst p \<notin> sess_file ` A"
  shows "set (run_sessions (fst (import_files E I fs (run, touched)))) = current (A \<union> sessions_on_disk E fs)
    \<and> set (run_results (fst (import_files E I fs (run, touched)))) = set (run_results run) \<union> results_on_disk E fs"
  using assms
proof (induction fs arbitrary: run A touched)
  case (Cons p fs)
  note prems = Cons.prems
  have d: "distinct (map fst fs)" "\<forall>q \<in> set fs. fst q \<noteq> fst p" using prems(4) by (auto simp: rev_image_eqI)
  show ?case
  proof (cases "fst p \<in> I")
    case True
    have A: "(case session_of E p of None \<Rightarrow> {} | Some s \<Rightarrow> {s}) \<subseteq> A" "set (solo_rows_of E p) \<subseteq> set (run_results run)"
      using prems(7) True by (auto split: option.split)
    have "A \<union> sessions_on_disk E (p # fs) = A \<union> sessions_on_disk E fs" using A(1) by auto
    moreover have "set (run_results run) \<union> results_on_disk E (p # fs) = set (run_results run) \<union> results_on_disk E fs" using A(2) by auto
    moreover have "import_files E I (p # fs) (run, touched) = import_files E I fs (run, touched)" using True by (simp add: import_files_Cons)
    ultimately show ?thesis using Cons.IH [of run A touched] prems d by simp
  next
    case new: False
    have fp: "fst p \<notin> imported_files run" "fst p \<notin> sess_file ` A" "df_stable (snd p)" using prems(5,8) new by auto
    let ?r = "fst (try_import_one_file E run p)" and ?t = "touched \<or> snd (try_import_one_file E run p)"
    have step: "import_files E I (p # fs) (run, touched) = import_files E I fs (?r, ?t)" using new fp(3) by (simp add: import_files_Cons)
    note ok = try_import_ok [OF prems(1) fp(1), of E]
    define B where "B = A \<union> (case session_of E p of None \<Rightarrow> {} | Some s \<Rightarrow> {s})"
    have rows: "set (run_sessions ?r) = current B \<and> set (run_results ?r) = set (run_results run) \<union> set (solo_rows_of E p)"
    proof (cases "is_solo_report (fst p)")
      case True
      then show ?thesis using try_import_solo [OF True prems(1), of E] fp(1) prems(2)
        by (simp add: imported_files_def solo_no_session B_def)
    next
      case lst: False
      have solo: "solo_rows_of E p = []" using lst by (simp add: solo_rows_of_def)
      have new_file: "fst p \<notin> sess_file ` set (run_sessions run)" using fp(1) by (auto simp: imported_files_def)
      note imp = try_import_listener [OF lst prems(1) new_file, of E]
      show ?thesis
      proof (cases "session_of E p")
        case None
        then show ?thesis using imp prems(2) solo by (simp add: B_def)
      next
        case (Some s)
        have "s \<notin> A" using session_of_file [OF Some] fp(2) by (metis imageI)
        moreover have "comparable (insert s A)" using prems(6) by (rule comparable_subset) (use Some in auto)
        ultimately have "set (fst (add_session (run_sessions run) s)) = current (insert s A)"
          using add_current(1) prems(1,2,3) by (simp add: run_ok_def)
        then show ?thesis using imp Some solo by (simp add: B_def)
      qed
    qed
    have "A \<union> sessions_on_disk E (p # fs) = B \<union> sessions_on_disk E fs" by (auto simp: B_def)
    moreover have "finite B" using prems(3) by (auto simp: B_def split: option.split)
    moreover have "\<forall>q \<in> set fs. fst q \<notin> I \<longrightarrow> fst q \<notin> imported_files ?r \<and> fst q \<notin> sess_file ` B"
      using prems(8) ok d(2) session_of_file [of E p] by (auto simp: B_def split: option.split)
    moreover have "\<forall>q \<in> set fs. fst q \<in> I \<longrightarrow> (\<forall>s. session_of E q = Some s \<longrightarrow> s \<in> B) \<and> set (solo_rows_of E q) \<subseteq> set (run_results ?r)"
      using prems(7) rows by (auto simp: B_def)
    ultimately show ?thesis using Cons.IH [of ?r B ?t] ok rows d(1) prems(5,6) by (simp add: step Un_assoc)
  qed
qed simp

lemma import_run_rows:
  assumes "run_ok run" "distinct (map fst files)" "\<forall>p \<in> set files. df_stable (snd p)" "reflects E files run"
    and "comparable (sessions_on_disk E files)"
  shows "set (run_sessions (import_run E files run)) = current (sessions_on_disk E files)
    \<and> set (run_results (import_run E files run)) = results_on_disk E files"
proof -
  let ?N = "fst ` set files" and ?I = "imported_files run" and ?S = "sessions_on_disk E files"
  let ?d = "delete_orphaned_files ?N run"
  let ?A = "set (run_sessions ?d)"
  have ok: "run_ok ?d" using assms(1) by (rule delete_orphaned_ok(1))
  have AS: "?A \<subseteq> ?S" using assms(4) by (auto simp: reflects_def delete_orphaned_files_def sessions_on_disk_def)
  have "sess_id s \<noteq> [] \<Longrightarrow> s \<in> ?A \<Longrightarrow> t \<in> ?A \<Longrightarrow> sess_id t = sess_id s \<Longrightarrow> t = s" for s t
    using ok sid_ok_mset [OF files_distinct [of "run_sessions ?d"]] by (auto simp: run_ok_def)
  then have cur: "?A = current ?A" by (auto simp: current_def)
  have res: "set (run_results ?d) \<subseteq> results_on_disk E files"
    using assms(4) by (fastforce simp: reflects_def delete_orphaned_files_def results_on_disk_def)
  have seen: "(session_of E p = Some s \<longrightarrow> s \<in> ?A) \<and> set (solo_rows_of E p) \<subseteq> set (run_results ?d)"
    if p: "p \<in> set files" "fst p \<in> ?I" for p s
  proof (cases "fst p \<in> sess_file ` set (run_sessions run)")
    case True
    then obtain t where t: "t \<in> set (run_sessions run)" "sess_file t = fst p" by auto
    then have "session_of E p = Some t" using assms(4) p(1) by (auto simp: reflects_def)
    moreover from this have "\<not> is_solo_report (fst p)" by (simp add: session_of_Some)
    ultimately show ?thesis using t p(1) by (auto simp: delete_orphaned_files_def solo_rows_of_def)
  next
    case False
    then have in_res: "fst p \<in> sr_report_file ` set (run_results run)" using p(2) by (auto simp: imported_files_def)
    then have rows: "{r \<in> set (run_results run). sr_report_file r = fst p} = set (solo_rows_of E p)"
      using assms(4) p(1) by (auto simp: reflects_def)
    then have "is_solo_report (fst p)" using in_res by (auto simp: solo_rows_of_def split: if_splits)
    then show ?thesis using rows p(1) by (auto simp: solo_no_session delete_orphaned_files_def)
  qed
  have fresh: "fst p \<notin> ?I \<Longrightarrow> fst p \<notin> imported_files ?d \<and> fst p \<notin> sess_file ` ?A" for p
    by (auto simp: delete_orphaned_ok(2)) (auto simp: imported_files_def delete_orphaned_files_def)
  have S: "?A \<union> ?S = ?S" using AS by blast
  obtain r t where r: "import_files E ?I files (?d, \<not> ?I \<subseteq> ?N) = (r, t)" by fastforce
  have "set (run_sessions r) = current (?A \<union> ?S) \<and> set (run_results r) = set (run_results ?d) \<union> results_on_disk E files"
    using import_files_rows [OF ok cur _ assms(2,3), of E ?I "\<not> ?I \<subseteq> ?N"] seen fresh assms(5) by (auto simp: r S)
  moreover have "import_run E files run = recompute_scores_if_touched E files t r" by (simp add: import_run_def r Let_def)
  ultimately show ?thesis using S res by auto
qed

section \<open>The second pass changes nothing\<close>

lemma nothing_to_import:
  assumes "run_ok run" "set (run_sessions run) = current (sessions_on_disk E files)" "set (run_results run) = results_on_disk E files"
    and "comparable (sessions_on_disk E files)" "p \<in> set files" "fst p \<notin> imported_files run"
  shows "try_import_one_file E run p = (run, False)"
proof (cases "is_solo_report (fst p)")
  case True
  have new: "fst p \<notin> sr_report_file ` set (run_results run)" using assms(6) by (simp add: imported_files_def)
  have "r \<in> set (solo_rows_of E p) \<Longrightarrow> r \<in> set (run_results run) \<and> sr_report_file r = fst p" for r
    using assms(3,5) solo_rows_file [of r E p] by (auto simp: results_on_disk_def)
  then have "solo_rows_of E p = []" using new by (metis imageI list.set_intros(1) neq_Nil_conv)
  then show ?thesis using try_import_solo [OF True assms(1) new] by simp
next
  case lst: False
  have new: "fst p \<notin> sess_file ` set (run_sessions run)" using assms(6) by (simp add: imported_files_def)
  note imp = try_import_listener [OF lst assms(1) new, of E]
  show ?thesis
  proof (cases "session_of E p")
    case None
    then show ?thesis using imp by simp
  next
    case (Some s)
    have s: "s \<in> sessions_on_disk E files" using Some assms(5) by (auto simp: sessions_on_disk_def)
    have "s \<notin> current (sessions_on_disk E files)" using new session_of_file [OF Some] assms(2) by (metis imageI)
    then have id: "sess_id s \<noteq> []" using s by (auto simp: current_def)
    obtain m where m: "m \<in> current (sessions_on_disk E files)" "sess_id m = sess_id s" "m = s \<or> existing_is_newer m s"
      using current_exists [OF finite_sessions_on_disk assms(4) s id] by blast
    then have "superseded (run_sessions run) s"
      using \<open>s \<notin> current _\<close> id unfolding superseded_def assms(2) by blast
    then have "add_session (run_sessions run) s = (run_sessions run, False)"
      using add_session_cases(1) assms(1) by (simp add: run_ok_def)
    then show ?thesis using imp Some by simp
  qed
qed

lemma import_files_nothing:
  "\<forall>p \<in> set fs. fst p \<notin> I \<longrightarrow> try_import_one_file E run p = (run, False) \<Longrightarrow> import_files E I fs (run, t) = (run, t)"
  by (induction fs) (simp_all add: import_files_Cons)

lemma import_run_settled:
  assumes "run_ok run" "distinct (map fst files)" "\<forall>p \<in> set files. df_stable (snd p)" "reflects E files run"
    and "comparable (sessions_on_disk E files)"
  shows "import_run E files (import_run E files run) = import_run E files run"
proof -
  let ?r = "import_run E files run"
  have ok: "run_ok ?r" "imported_files ?r \<subseteq> fst ` set files" using import_run_ok [OF assms(1,2)] by blast+
  have "delete_orphaned_files (fst ` set files) ?r = ?r"
    using ok(2) by (auto simp: delete_orphaned_files_def imported_files_def filter_id_conv image_subset_iff)
  moreover have "import_files E (imported_files ?r) files (?r, False) = (?r, False)"
    using nothing_to_import [OF ok(1) _ _ assms(5)] import_run_rows [OF assms] by (intro import_files_nothing) blast
  ultimately show ?thesis using ok(2) by (subst import_run_def) (simp add: recompute_scores_if_touched_def)
qed

section \<open>The tables come from earlier passes\<close>

text \<open>A file name stands for one report: two listings of it show the same size and content.\<close>

definition same_report :: "string \<times> disk_file \<Rightarrow> string \<times> disk_file \<Rightarrow> bool" where
  "same_report p q \<longleftrightarrow> (fst p = fst q \<longrightarrow> json_file.truncate (snd p) = json_file.truncate (snd q))"

lemma same_report_rows:
  "same_report p q \<Longrightarrow> fst p = fst q \<Longrightarrow> session_of E p = session_of E q \<and> solo_rows_of E p = solo_rows_of E q"
  by (simp add: same_report_def session_of_def solo_rows_of_def)

lemma reflects_try_import:
  assumes "reflects E files run" "run_ok run" "fst q \<notin> imported_files run" "\<forall>p \<in> set files. same_report p q"
  shows "reflects E files (fst (try_import_one_file E run q))"
proof (cases "is_solo_report (fst q)")
  case True
  have new: "fst q \<notin> sr_report_file ` set (run_results run)" using assms(3) by (simp add: imported_files_def)
  have "{r \<in> set (run_results run) \<union> set (solo_rows_of E q). sr_report_file r = fst p} = set (solo_rows_of E p)"
    if p: "p \<in> set files" "fst p \<in> sr_report_file ` (set (run_results run) \<union> set (solo_rows_of E q))" for p
  proof (cases "fst p = fst q")
    case True
    then have same: "solo_rows_of E p = solo_rows_of E q" using same_report_rows assms(4) p(1) by blast
    have "\<forall>r \<in> set (run_results run). sr_report_file r \<noteq> fst q" using new by (auto simp: image_iff)
    moreover have "\<forall>r \<in> set (solo_rows_of E q). sr_report_file r = fst q" using solo_rows_file by blast
    ultimately have "{r \<in> set (run_results run) \<union> set (solo_rows_of E q). sr_report_file r = fst q} = set (solo_rows_of E q)" by auto
    then show ?thesis by (simp only: True same)
  next
    case False
    then have none: "{r \<in> set (solo_rows_of E q). sr_report_file r = fst p} = {}" using solo_rows_file [of _ E q] by auto
    then have "fst p \<in> sr_report_file ` set (run_results run)" using p(2) by auto
    then have "{r \<in> set (run_results run). sr_report_file r = fst p} = set (solo_rows_of E p)"
      using assms(1) p(1) by (auto simp: reflects_def)
    then show ?thesis using none by blast
  qed
  then show ?thesis using assms(1) by (auto simp: try_import_solo [OF True assms(2) new] reflects_def)
next
  case False
  have new: "fst q \<notin> sess_file ` set (run_sessions run)" using assms(3) by (simp add: imported_files_def)
  note imp = try_import_listener [OF False assms(2) new, of E]
  show ?thesis
  proof (cases "session_of E q")
    case None
    then show ?thesis using assms(1) imp by simp
  next
    case (Some s)
    have from_q: "sess_file s = fst q" using Some by (rule session_of_file)
    have rows: "set (fst (add_session (run_sessions run) s)) \<subseteq> insert s (set (run_sessions run))"
      using add_session_ok [of "run_sessions run" s] assms(2) new from_q by (simp add: run_ok_def)
    have "session_of E p = Some s" if "p \<in> set files" "fst p = fst q" for p
      using same_report_rows assms(4) that Some by metis
    then show ?thesis using assms(1) rows imp Some from_q by (auto simp: reflects_def)
  qed
qed

lemma reflects_import_files:
  assumes "reflects E files run" "run_ok run" "distinct (map fst fs)" "fst ` set fs \<inter> imported_files run \<subseteq> I"
    and "\<forall>q \<in> set fs. df_stable (snd q) \<longrightarrow> (\<forall>p \<in> set files. same_report p q)"
  shows "reflects E files (fst (import_files E I fs (run, touched)))"
  using assms
proof (induction fs arbitrary: run touched)
  case (Cons q fs)
  show ?case
  proof (cases "fst q \<in> I \<or> \<not> df_stable (snd q)")
    case True
    then show ?thesis using Cons.IH [of run touched] Cons.prems by (auto simp: import_files_Cons)
  next
    case False
    let ?r = "fst (try_import_one_file E run q)"
    have new: "fst q \<notin> imported_files run" using Cons.prems(4) False by auto
    note ok = try_import_ok [OF Cons.prems(2) new, of E]
    have "reflects E files ?r" using reflects_try_import Cons.prems(1,2,5) new False by simp
    moreover have "fst ` set fs \<inter> imported_files ?r \<subseteq> I"
    proof
      fix a assume a: "a \<in> fst ` set fs \<inter> imported_files ?r"
      then have "a \<noteq> fst q" using Cons.prems(3) by (metis IntD1 distinct.simps(2) list.simps(9) set_map)
      then show "a \<in> I" using a ok Cons.prems(4) by auto
    qed
    ultimately show ?thesis using Cons.IH [of ?r] ok Cons.prems(3,5) False by (simp add: import_files_Cons)
  qed
qed simp

lemma reflects_import_run:
  assumes "reflects E files run" "run_ok run" "distinct (map fst fs)"
    and "\<forall>q \<in> set fs. df_stable (snd q) \<longrightarrow> (\<forall>p \<in> set files. same_report p q)"
  shows "reflects E files (import_run E fs run)"
proof -
  let ?A = "fst ` set fs" and ?I = "imported_files run"
  let ?d = "delete_orphaned_files ?A run"
  have "reflects E files ?d"
  proof -
    have "{r \<in> set (run_results ?d). sr_report_file r = fst p} = {r \<in> set (run_results run). sr_report_file r = fst p}"
      "fst p \<in> sr_report_file ` set (run_results run)"
      if "fst p \<in> sr_report_file ` set (run_results ?d)" for p
      using that by (auto simp: delete_orphaned_files_def intro: rev_image_eqI)
    then show ?thesis using assms(1) by (fastforce simp: reflects_def delete_orphaned_files_def)
  qed
  moreover have "?A \<inter> imported_files ?d \<subseteq> ?I" by (auto simp: delete_orphaned_ok(2))
  ultimately have r: "reflects E files (fst (import_files E ?I fs (?d, \<not> ?I \<subseteq> ?A)))"
    by (rule reflects_import_files [OF _ delete_orphaned_ok(1) [OF assms(2)] assms(3) _ assms(4)])
  have "reflects E files (recompute_scores_if_touched E fs t x) = reflects E files x" for t x
    by (simp add: reflects_def)
  then show ?thesis using r by (auto simp: import_run_def Let_def split: prod.split)
qed

definition files_unique :: "disk_dir list \<Rightarrow> bool" where
  "files_unique dirs \<longleftrightarrow> distinct (map dd_name dirs) \<and> (\<forall>d \<in> set dirs. distinct (map fst (dd_files d)))"

lemma listed_files:
  assumes "files_unique dirs" "map_of (list_report_files dirs) k = Some (meta, files)"
  shows "distinct (map fst files)" "\<exists>d \<in> set dirs. dd_name d = k \<and> safe_id k \<and> set files \<subseteq> set (dd_files d)"
proof -
  obtain d where d: "d \<in> set dirs" "dd_name d = k" "safe_id k"
    "files = sort_key fst (filter (\<lambda>(name, f). ends_with name ''.json'' \<and> \<not> jf_symlink f) (dd_files d))"
    using map_of_SomeD [OF assms(2)] by (auto simp: list_report_files_def)
  then have "distinct (map fst (dd_files d))" using assms(1) by (simp add: files_unique_def)
  then show "distinct (map fst files)" unfolding d(4) by (simp add: distinct_map distinct_map_filter inj_on_def)
  show "\<exists>d \<in> set dirs. dd_name d = k \<and> safe_id k \<and> set files \<subseteq> set (dd_files d)" using d by auto
qed

definition db_ok :: "database \<Rightarrow> bool" where
  "db_ok db \<longleftrightarrow> dict_ok db \<and> (\<forall>k run. dict_get db k = Some run \<longrightarrow> run_ok run)"

text \<open>The run a directory starts from, stored or new.\<close>

lemma get_or_create_cases:
  "get_or_create_test_run E db k m = Some run \<Longrightarrow> dict_get db k = Some run \<or> (run_results run = [] \<and> run_sessions run = [])"
  by (auto simp: get_or_create_test_run_def Let_def split: option.splits json.splits if_splits)

lemma dir_run_cases:
  assumes "dir_run E k old (m, files) = Some run"
  obtains run0 where "run = import_run E files run0" "old = Some run0 \<or> run_results run0 = [] \<and> run_sessions run0 = []" "files \<noteq> []"
  using assms get_or_create_cases [of E "case old of None \<Rightarrow> [] | Some r \<Rightarrow> [(k, r)]" k m]
  by (auto simp: dir_run_def dict_get_def split: if_splits option.splits)

lemma empty_run_ok: "run_results run = [] \<Longrightarrow> run_sessions run = [] \<Longrightarrow> run_ok run \<and> reflects E files run"
  by (simp add: run_ok_def sid_ok_def reflects_def)

lemma dir_run_again:
  assumes "dir_run E k old (m, files) = Some (import_run E files run0)" "import_run E files (import_run E files run0) = import_run E files run0"
  shows "dir_run E k (Some (import_run E files run0)) (m, files) = Some (import_run E files run0)"
  using assms by (auto simp: dir_run_def get_or_create_test_run_def dict_get_def split: if_splits)

text \<open>
  The importer runs for ever over a directory that changes: a history of passes, each at its time
  over the listing it finds (or without a reports directory), starting from the empty tables.
\<close>

definition pass_at :: "importer_env \<Rightarrow> database \<Rightarrow> int \<times> disk_dir list option \<Rightarrow> database" where
  "pass_at E db p = import_once (E\<lparr>ie_now := fst p\<rparr>) (snd p) db"

definition passes :: "importer_env \<Rightarrow> (int \<times> disk_dir list option) list \<Rightarrow> database" where
  "passes E history = foldl (pass_at E) [] history"

text \<open>
  Report files are written once: a settled file that an earlier pass found in a directory, and that
  is still there, has not changed since.
\<close>

definition written_once :: "disk_dir list \<Rightarrow> (int \<times> disk_dir list option) list \<Rightarrow> bool" where
  "written_once dirs history \<longleftrightarrow> (\<forall>p \<in> set history. \<forall>old. snd p = Some old \<longrightarrow> files_unique old
     \<and> (\<forall>(k, m, files) \<in> set (list_report_files dirs). \<forall>(k', m', files') \<in> set (list_report_files old).
          k' = k \<longrightarrow> (\<forall>q \<in> set files'. df_stable (snd q) \<longrightarrow> (\<forall>f \<in> set files. same_report f q))))"

lemma reflects_now [simp]: "reflects (E\<lparr>ie_now := t\<rparr>) files run = reflects E files run"
proof -
  have "session_of (E\<lparr>ie_now := t\<rparr>) p = session_of E p" "solo_rows_of (E\<lparr>ie_now := t\<rparr>) p = solo_rows_of E p" for p
    by (simp_all add: session_of_def solo_rows_of_def cong: sum.case_cong option.case_cong prod.case_cong if_cong)
  then show ?thesis by (simp add: reflects_def)
qed

lemma pass_run_ok:
  assumes "files_unique dirs" "db_ok db" "dict_get (import_once E (Some dirs) db) k = Some run"
  shows "run_ok run \<and> (\<exists>d \<in> set dirs. dd_name d = k \<and> safe_id k \<and> imported_files run \<subseteq> fst ` set (dd_files d))"
proof -
  have names: "distinct (map dd_name dirs)" using assms(1) by (simp add: files_unique_def)
  obtain m files where d: "map_of (list_report_files dirs) k = Some (m, files)" "dir_run E k (dict_get db k) (m, files) = Some run"
    using assms(3) unfolding import_once_lookup [OF names] by (auto split: option.splits)
  obtain run0 where r: "run = import_run E files run0" "dict_get db k = Some run0 \<or> run_results run0 = [] \<and> run_sessions run0 = []"
    using dir_run_cases [OF d(2)] by metis
  have "run_ok run0" using r(2) assms(2) empty_run_ok unfolding db_ok_def by blast
  then show ?thesis using import_run_ok [of run0 files E] listed_files [OF assms(1) d(1)] r(1) by blast
qed

lemma pass_ok:
  assumes "files_unique dirs" "db_ok db"
  shows "db_ok (import_once E (Some dirs) db)"
proof -
  have "dict_ok (import_once E (Some dirs) db)"
    using assms(2) by (simp add: import_once_def Let_def db_ok_def reconcile_ok import_dirs_ok)
  then show ?thesis using pass_run_ok [OF assms] by (auto simp: db_ok_def)
qed

text \<open>
  C32. The keys the schema declares unique, and one row per named session, survive every pass over
  any reports directory; and afterwards the database holds nothing but runs of directories that
  are there, with rows of report files that are there.
\<close>

theorem import_keeps_tables_sound:
  assumes "files_unique dirs" "db_ok db"
  shows "db_ok (import_once E (Some dirs) db)
    \<and> (\<forall>k run. dict_get (import_once E (Some dirs) db) k = Some run \<longrightarrow>
         (\<exists>d \<in> set dirs. dd_name d = k \<and> safe_id k \<and> imported_files run \<subseteq> fst ` set (dd_files d)))"
  using pass_ok [OF assms] pass_run_ok [OF assms] by blast

definition settled_dirs :: "importer_env \<Rightarrow> disk_dir list \<Rightarrow> bool" where
  "settled_dirs E dirs \<longleftrightarrow> (\<forall>(k, m, files) \<in> set (list_report_files dirs).
     (\<forall>p \<in> set files. df_stable (snd p)) \<and> comparable (sessions_on_disk E files))"

lemma pass_reflects:
  assumes "db_ok db" "\<forall>run. dict_get db k = Some run \<longrightarrow> reflects E files run" "files_unique old"
    and "\<forall>(k', m', files') \<in> set (list_report_files old). k' = k \<longrightarrow>
      (\<forall>q \<in> set files'. df_stable (snd q) \<longrightarrow> (\<forall>f \<in> set files. same_report f q))"
    and "dict_get (import_once E (Some old) db) k = Some run"
  shows "reflects E files run"
proof -
  have names: "distinct (map dd_name old)" using assms(3) by (simp add: files_unique_def)
  obtain m fs where d: "map_of (list_report_files old) k = Some (m, fs)" "dir_run E k (dict_get db k) (m, fs) = Some run"
    using assms(5) unfolding import_once_lookup [OF names] by (auto split: option.splits)
  obtain run0 where r: "run = import_run E fs run0" "dict_get db k = Some run0 \<or> run_results run0 = [] \<and> run_sessions run0 = []"
    using dir_run_cases [OF d(2)] by metis
  have "run_ok run0 \<and> reflects E files run0" using r(2) assms(1,2) empty_run_ok unfolding db_ok_def by blast
  moreover have "\<forall>q \<in> set fs. df_stable (snd q) \<longrightarrow> (\<forall>f \<in> set files. same_report f q)"
    using map_of_SomeD [OF d(1)] assms(4) by fast
  ultimately show ?thesis using reflects_import_run listed_files(1) [OF assms(3) d(1)] r(1) by blast
qed

lemma passes_reflect:
  assumes "written_once dirs history"
  shows "db_ok (passes E history) \<and> (\<forall>(k, m, files) \<in> set (list_report_files dirs). \<forall>run.
      dict_get (passes E history) k = Some run \<longrightarrow> reflects E files run)"
  using assms
proof (induction history rule: rev_induct)
  case Nil
  show ?case by (simp add: passes_def db_ok_def dict_get_def)
next
  case (snoc p history)
  let ?db = "passes E history" and ?E = "E\<lparr>ie_now := fst p\<rparr>"
  have IH: "db_ok ?db" "\<forall>(k, m, files) \<in> set (list_report_files dirs). \<forall>run. dict_get ?db k = Some run \<longrightarrow> reflects E files run"
    using snoc by (auto simp: written_once_def)
  have step: "passes E (history @ [p]) = import_once ?E (snd p) ?db" by (simp add: passes_def pass_at_def)
  show ?case
  proof (cases "snd p")
    case None
    then show ?thesis using IH by (simp add: step import_once_def)
  next
    case (Some old)
    have old: "files_unique old" "\<forall>(k, m, files) \<in> set (list_report_files dirs). \<forall>(k', m', files') \<in> set (list_report_files old).
        k' = k \<longrightarrow> (\<forall>q \<in> set files'. df_stable (snd q) \<longrightarrow> (\<forall>f \<in> set files. same_report f q))"
      using snoc.prems Some by (auto simp: written_once_def)
    have "reflects E files run" if k: "(k, m, files) \<in> set (list_report_files dirs)"
      and run: "dict_get (import_once ?E (Some old) ?db) k = Some run" for k m files run
    proof -
      have "\<forall>run. dict_get ?db k = Some run \<longrightarrow> reflects ?E files run" using IH(2) k by auto
      moreover have "\<forall>(k', m', files') \<in> set (list_report_files old). k' = k \<longrightarrow>
          (\<forall>q \<in> set files'. df_stable (snd q) \<longrightarrow> (\<forall>f \<in> set files. same_report f q))" using old(2) k by fast
      ultimately show ?thesis using pass_reflects [OF IH(1) _ old(1) _ run, of files] by simp
    qed
    moreover have "db_ok (import_once ?E (Some old) ?db)" using pass_ok [OF old(1) IH(1)] by blast
    ultimately show ?thesis by (auto simp: step Some)
  qed
qed

text \<open>A directory with an object as its meta data, or without any, gets its run when the columns take it.\<close>

definition describes_run :: "importer_env \<Rightarrow> string \<Rightarrow> json \<Rightarrow> bool" where
  "describes_run E k meta \<longleftrightarrow> (\<exists>fields. jor meta (JObj []) = JObj fields) \<and> (\<forall>run. ie_fits_run E k run)"

lemma dir_run_exists:
  assumes "files \<noteq> []" "old \<noteq> None \<or> describes_run E k m"
  shows "\<exists>run. dir_run E k old (m, files) = Some run"
  using assms by (auto simp: dir_run_def get_or_create_test_run_def describes_run_def dict_get_def Let_def split: option.split)


section \<open>Examples and limits\<close>

definition demo_loads :: "string \<Rightarrow> json option" where
  "demo_loads payload = Some (JObj [(''session_id'', JStr ''s''), (''listener_started_at'', JStr payload)])"

definition demo_iso :: "string \<Rightarrow> iso_time option" where
  "demo_iso text = Some (AwareTime (if text = ''later'' then 2 else 1))"

definition demo_importer :: "scoring_config \<Rightarrow> importer_env" where
  "demo_importer weights = \<lparr>ie_repr = (\<lambda>_. []), ie_fromiso = demo_iso, ie_json_loads = demo_loads, ie_validate_result = (\<lambda>_. None),
     ie_validate_listener = (\<lambda>_. None), ie_weights = weights, ie_priority = [], ie_iter = [], ie_fits_run = (\<lambda>_ _. True),
     ie_fits_result = (\<lambda>_. True), ie_fits_session = (\<lambda>_. True), ie_now = 0\<rparr>"

definition demo_file :: "string \<Rightarrow> disk_file" where
  "demo_file payload = \<lparr>jf_symlink = False, jf_size = Some 10, jf_payload = Some payload, df_stable = True\<rparr>"

definition demo_files :: "(string \<times> disk_file) list" where
  "demo_files = [(''server-listener-a.json'', demo_file ''later''), (''server-listener-b.json'', demo_file ''sooner'')]"

definition demo_dirs :: "disk_dir list" where
  "demo_dirs = [\<lparr>dd_name = ''t'', dd_symlink = False, dd_is_dir = True, dd_meta = JNull, dd_files = demo_files\<rparr>]"

definition demo_session :: "string \<Rightarrow> int \<Rightarrow> session_row" where
  "demo_session name started = \<lparr>sess_meta = \<lparr>sm_report_file = name, sm_session_id = ''s'', sm_started_at = Some started, sm_stopped_at = None,
     sm_duration_sec = None, sm_client_connected = False, sm_client_meta = None, sm_is_mobile = False, sm_is_whitelist = False\<rparr>,
     sess_protocols = []\<rparr>"

lemma demo_listing: "list_report_files demo_dirs = [(''t'', JNull, demo_files)]"
  by (simp add: list_report_files_def demo_dirs_def) (simp add: demo_files_def demo_file_def safe_id_def safe_char_def is_lower_def ends_with_suffix suffix_def)

lemma demo_sessions:
  "session_of (demo_importer w) (''server-listener-a.json'', demo_file ''later'') = Some (demo_session ''server-listener-a.json'' 2)"
  "session_of (demo_importer w) (''server-listener-b.json'', demo_file ''sooner'') = Some (demo_session ''server-listener-b.json'' 1)"
proof -
  have names: "\<not> is_solo_report ''server-listener-a.json'' \<and> is_listener_report ''server-listener-a.json''"
    "\<not> is_solo_report ''server-listener-b.json'' \<and> is_listener_report ''server-listener-b.json''" by code_simp+
  have z: "replace_Z ''later'' = ''later''" "replace_Z ''sooner'' = ''sooner''" by (simp_all add: replace_Z_def)
  show "session_of (demo_importer w) (''server-listener-a.json'', demo_file ''later'') = Some (demo_session ''server-listener-a.json'' 2)"
    "session_of (demo_importer w) (''server-listener-b.json'', demo_file ''sooner'') = Some (demo_session ''server-listener-b.json'' 1)"
    using names by (simp_all add: session_of_Some demo_session_def demo_importer_def parse_listener_report_def load_json_def demo_file_def
        MAX_REPORT_BYTES_def demo_loads_def json_file.truncate_def parse_session_meta_def parse_float_def jget_def dict_default_def
        dict_get_def str_or_def jor_def parse_dt_def z demo_iso_def)
qed

lemma demo_comparable: "comparable (sessions_on_disk (demo_importer w) demo_files)"
  "current (sessions_on_disk (demo_importer w) demo_files) = {demo_session ''server-listener-a.json'' 2}"
  by (auto simp: demo_files_def demo_sessions comparable_def current_def demo_session_def sess_started_def sess_id_def existing_is_newer_def)

lemma demo_run_exists: "\<exists>run. dict_get (import_once (demo_importer w) (Some demo_dirs) []) ''t'' = Some run"
proof -
  have "distinct (map dd_name demo_dirs)" by (simp add: demo_dirs_def)
  from import_once_lookup [OF this, of "demo_importer w" "[]" "''t''"] show ?thesis
    by (simp add: demo_listing dir_run_def demo_files_def get_or_create_test_run_def demo_importer_def jor_def)
qed

lemma demo_premises: "files_unique demo_dirs" "db_ok []"
  by (simp_all add: files_unique_def demo_dirs_def demo_files_def db_ok_def)

definition demo_history :: "(int \<times> disk_dir list option) list" where
  "demo_history = [(0, None), (60, Some [\<lparr>dd_name = ''t'', dd_symlink = False, dd_is_dir = True, dd_meta = JNull,
     dd_files = [(''server-listener-b.json'', demo_file ''sooner'')]\<rparr>])]"

lemma demo_settled: "settled_dirs (demo_importer w) demo_dirs" "written_once demo_dirs demo_history"
proof -
  have "\<forall>p \<in> set demo_files. df_stable (snd p)" by (simp add: demo_files_def demo_file_def)
  then show "settled_dirs (demo_importer w) demo_dirs" using demo_comparable(1) [of w] by (simp add: settled_dirs_def demo_listing)
  have "set (list_report_files [\<lparr>dd_name = ''t'', dd_symlink = False, dd_is_dir = True, dd_meta = JNull,
     dd_files = [(''server-listener-b.json'', demo_file ''sooner'')]\<rparr>]) = {(''t'', JNull, [(''server-listener-b.json'', demo_file ''sooner'')])}"
    by (simp add: list_report_files_def) (simp add: demo_file_def safe_id_def safe_char_def is_lower_def ends_with_suffix suffix_def)
  then show "written_once demo_dirs demo_history"
    by (simp add: written_once_def demo_listing demo_history_def files_unique_def same_report_def demo_files_def)
qed


theorem import_keeps_tables_sound_witness:
  "\<forall>w. \<exists>run. dict_get (import_once (demo_importer w) (Some demo_dirs) []) ''t'' = Some run \<and> run_ok run
     \<and> imported_files run \<subseteq> {''server-listener-a.json'', ''server-listener-b.json''}"
proof
  fix w
  obtain run where run: "dict_get (import_once (demo_importer w) (Some demo_dirs) []) ''t'' = Some run" using demo_run_exists by blast
  show "\<exists>run. dict_get (import_once (demo_importer w) (Some demo_dirs) []) ''t'' = Some run \<and> run_ok run
     \<and> imported_files run \<subseteq> {''server-listener-a.json'', ''server-listener-b.json''}"
  proof -
    note all = import_keeps_tables_sound [OF demo_premises(1,2), of "demo_importer w"]
    have ok: "run_ok run" using conjunct1 [OF all] run unfolding db_ok_def by blast
    obtain d where "d \<in> set demo_dirs" "imported_files run \<subseteq> fst ` set (dd_files d)" using conjunct2 [OF all] run by blast
    then have "imported_files run \<subseteq> {''server-listener-a.json'', ''server-listener-b.json''}"
      by (simp add: demo_dirs_def demo_files_def)
    then show ?thesis using run ok by blast
  qed
qed

text \<open>
  Without the start times the comparison of reports is not transitive, and the passes never settle:
  of three reports of one session, one without a start time, the second and the third replace each
  other for ever, each time through the first.
\<close>

definition untimed_session :: "string \<Rightarrow> session_row" where
  "untimed_session name = (demo_session name 0)\<lparr>sess_meta := (sess_meta (demo_session name 0))\<lparr>sm_started_at := None\<rparr>\<rparr>"

lemma import_can_oscillate:
  "let a = demo_session ''a'' 5; b = untimed_session ''b''; c = demo_session ''c'' 3 in
     fst (add_session (fst (add_session [c] a)) b) = [b] \<and> fst (add_session (fst (add_session [b] a)) c) = [c]"
  by code_simp

text \<open>The score averages every report on disk, those of replaced sessions too.\<close>

lemma every_report_is_scored:
  assumes "\<forall>p \<in> set files. is_listener_report (fst p) \<longrightarrow>
      Option.bind (load_json (ie_json_loads E) (json_file.truncate (snd p))) (ie_validate_listener E) \<noteq> None"
  shows "length (snd (load_reports_for_scoring E files)) = length (filter (\<lambda>p. is_listener_report (fst p)) files)"
proof -
  let ?fs = "filter (\<lambda>p. is_listener_report (fst p)) files"
  let ?load = "\<lambda>p. Option.bind (load_json (ie_json_loads E) (json_file.truncate (snd p))) (ie_validate_listener E)"
  have "\<forall>x \<in> set (map ?load (sort_key fst ?fs)). x \<noteq> None" using assms by auto
  then have "length (somes (map ?load (sort_key fst ?fs))) = length ?fs"
    by (simp add: somes_def filter_id_conv [THEN iffD2])
  then show ?thesis by (simp add: load_reports_for_scoring_def load_listener_reports_def case_prod_unfold)
qed

end
