(* ===== verification/DashboardApi.thy ===== *)
theory DashboardApi
  imports Importer
begin

text \<open>
  The read side of the dashboard service (\<^verbatim>\<open>sync_api/main.py\<close>): the start-up checks and the
  documents the endpoints return. Printing an instant (\<open>isoformat\<close>) is an argument. The order in
  which the database gives rows of equal rank is not fixed; the model takes it as stored.
\<close>

section \<open>Start-up\<close>

datatype startup_error = IntervalUnset | IntervalNotNumber string | NotLoopback string

definition read_import_interval :: "string option \<Rightarrow> startup_error + pyfloat" where
  "read_import_interval raw =
     (case raw of
        None \<Rightarrow> Inl IntervalUnset
      | Some s \<Rightarrow> (case float_of_str s of None \<Rightarrow> Inl (IntervalNotNumber s) | Some f \<Rightarrow> Inr f))"

definition LOOPBACK :: "string list" where
  "LOOPBACK = [''127.0.0.1'', ''::1'', ''localhost'']"

definition env_or :: "string option \<Rightarrow> string option \<Rightarrow> string option" where
  "env_or a b = (if a \<noteq> None \<and> a \<noteq> Some [] then a else b)"

text \<open>\<open>Inr True\<close>: the operator opted in to another address, and a warning is logged.\<close>

definition verify_loopback_bind :: "string option \<Rightarrow> string option \<Rightarrow> string option \<Rightarrow> startup_error + bool" where
  "verify_loopback_bind host uvicorn_host opt_in =
     (let bind = (case env_or host (env_or uvicorn_host None) of None \<Rightarrow> ''127.0.0.1'' | Some b \<Rightarrow> b) in
      if bind \<in> set LOOPBACK then Inr False
      else if opt_in = Some ''1'' then Inr True
      else Inl (NotLoopback bind))"

section \<open>Documents\<close>

definition json_rat_opt :: "rat option \<Rightarrow> json" where
  "json_rat_opt x = (case x of None \<Rightarrow> JNull | Some r \<Rightarrow> JFloat (Fin r))"

definition json_float_opt :: "pyfloat option \<Rightarrow> json" where
  "json_float_opt x = (case x of None \<Rightarrow> JNull | Some f \<Rightarrow> JFloat f)"

definition json_text_opt :: "string option \<Rightarrow> json" where
  "json_text_opt x = (case x of None \<Rightarrow> JNull | Some s \<Rightarrow> JStr s)"

definition json_names :: "string list option \<Rightarrow> json" where
  "json_names x = JList (map JStr (case x of None \<Rightarrow> [] | Some xs \<Rightarrow> xs))"

definition run_to_dict :: "(int \<Rightarrow> string) \<Rightarrow> string \<Rightarrow> test_run \<Rightarrow> (string, json) dict" where
  "run_to_dict isoformat test_id run =
     (let c = run_scores run in
      [(''test_id'', JStr test_id),
       (''server_meta'', (case run_server_meta run of None \<Rightarrow> JNull | Some d \<Rightarrow> JObj d)),
       (''ipv6_available'', JBool (run_ipv6_available run)), (''kernel'', run_kernel run), (''distro'', run_distro run),
       (''created_at'', JStr (isoformat (run_created_at run))),
       (''scores'', JObj [(''entry'', json_rat_opt (col_entry_score c)), (''exit'', json_rat_opt (col_exit_score c)),
          (''relay'', json_rat_opt (col_relay_score c)), (''overall'', json_rat_opt (col_overall_score c)),
          (''listener_session_count'', JInt (int (col_listener_session_count c)))]),
       (''throttling_detected'', JBool (col_throttling_detected c)), (''dns_integrity'', json_rat_opt (col_dns_integrity c)),
       (''tls_integrity'', json_rat_opt (col_tls_integrity c)), (''telegram_health'', json_float_opt (col_telegram_health c)),
       (''detected_techniques'', json_names (col_detected_techniques c)),
       (''recommended_protocols'', json_names (col_recommended_protocols c))])"

definition result_to_dict :: "(int \<Rightarrow> string) \<Rightarrow> solo_row \<Rightarrow> (string, json) dict" where
  "result_to_dict isoformat r =
     [(''test'', JStr (sr_test r)), (''category'', JStr (sr_category r)), (''subcategory'', JStr (sr_subcategory r)),
      (''target'', JStr (sr_target r)), (''verdict'', JStr (sr_verdict r)), (''method'', json_text_opt (sr_method r)),
      (''confidence'', json_float_opt (sr_confidence r)), (''rtt_ms'', json_float_opt (sr_rtt_ms r)),
      (''elapsed_ms'', json_float_opt (sr_elapsed_ms r)), (''attempts'', JInt (sr_attempts r)), (''notes'', sr_notes r),
      (''timestamp'', (case sr_timestamp r of None \<Rightarrow> JNull | Some t \<Rightarrow> JStr (isoformat t))), (''source'', JStr ''solo'')]"

text \<open>\<open>ORDER BY timestamp DESC\<close>: rows without one come first, then the later before the earlier.\<close>

definition later_first :: "solo_row list \<Rightarrow> solo_row list" where
  "later_first rows = filter (\<lambda>r. sr_timestamp r = None) rows
     @ sort_key (\<lambda>r. - the (sr_timestamp r)) (filter (\<lambda>r. sr_timestamp r \<noteq> None) rows)"

definition fetch_run :: "database \<Rightarrow> string \<Rightarrow> string + test_run" where
  "fetch_run db test_id =
     (case dict_get db test_id of None \<Rightarrow> Inl (''test_id '' @ test_id @ '' not found'') | Some run \<Rightarrow> Inr run)"

definition get_test_run :: "(int \<Rightarrow> string) \<Rightarrow> database \<Rightarrow> string \<Rightarrow> string + (string, json) dict" where
  "get_test_run isoformat db test_id = bindE (fetch_run db test_id) (\<lambda>run. Inr (run_to_dict isoformat test_id run))"

definition list_test_runs :: "(int \<Rightarrow> string) \<Rightarrow> database \<Rightarrow> (string, json) dict list" where
  "list_test_runs isoformat db = map (\<lambda>(test_id, run). run_to_dict isoformat test_id run)
     (sort_key (\<lambda>p. - run_created_at (snd p)) db)"

definition get_results :: "(int \<Rightarrow> string) \<Rightarrow> database \<Rightarrow> string \<Rightarrow> string option \<Rightarrow> string option \<Rightarrow> nat \<Rightarrow> nat
    \<Rightarrow> string + (string, json) dict list" where
  "get_results isoformat db test_id category verdict limit offset =
     bindE (fetch_run db test_id) (\<lambda>run.
       let rows1 = (if category \<noteq> None \<and> category \<noteq> Some []
                    then filter (\<lambda>r. Some (sr_category r) = category) (run_results run) else run_results run);
           rows2 = (if verdict \<noteq> None \<and> verdict \<noteq> Some [] then filter (\<lambda>r. Some (sr_verdict r) = verdict) rows1 else rows1)
       in Inr (map (result_to_dict isoformat) (take limit (drop offset (later_first rows2)))))"

definition protocol_verdicts :: "session_row \<Rightarrow> (string, string) dict" where
  "protocol_verdicts s = foldl (\<lambda>d p. dict_set (pw_protocol p) (pw_verdict p) d) [] (sess_protocols s)"

definition get_protocol_matrix :: "database \<Rightarrow> string \<Rightarrow> string + (string, (string, string) dict) dict" where
  "get_protocol_matrix db test_id =
     bindE (fetch_run db test_id) (\<lambda>run.
       Inr (foldl (\<lambda>m s. dict_set (sess_id s) (protocol_verdicts s) m) [] (run_sessions run)))"

section \<open>Every session has its column\<close>

text \<open>
  The matrix of a run has a column for every named session, and it shows the verdicts of that
  session's rows and of no other, because a name belongs to one row; sessions without a name
  share one column.
\<close>

theorem matrix_is_faithful:
  assumes "db_ok db" "dict_get db test_id = Some run" "s \<in> set (run_sessions run)" "sess_id s \<noteq> []"
  shows "\<exists>m. get_protocol_matrix db test_id = Inr m \<and> dict_get m (sess_id s) = Some (protocol_verdicts s)"
proof -
  have ok: "distinct (run_sessions run)" "sid_ok (run_sessions run)"
    using assms(1,2) files_distinct by (auto simp: db_ok_def run_ok_def)
  let ?m = "foldl (\<lambda>m s. dict_set (sess_id s) (protocol_verdicts s) m) [] (run_sessions run)"
  have "sess_id s \<in> sess_id ` set (run_sessions run)" using assms(3) by simp
  from pydict.look_foldl_in [OF this, of protocol_verdicts "[]"]
  obtain t where t: "t \<in> set (run_sessions run)" "sess_id t = sess_id s" "dict_get ?m (sess_id s) = Some (protocol_verdicts t)" by blast
  have "t = s" using ok(2) sid_ok_mset [OF ok(1)] t(1,2) assms(3,4) by metis
  then have "dict_get ?m (sess_id s) = Some (protocol_verdicts s)" using t(3) by simp
  then show ?thesis using assms(2) by (simp add: get_protocol_matrix_def fetch_run_def)
qed

definition demo_test_run :: test_run where
  "demo_test_run = \<lparr>run_server_meta = None, run_ipv6_available = False, run_kernel = JNull, run_distro = JNull, run_created_at = 0,
     run_scores = no_scores 0, run_results = [], run_sessions = [demo_session ''f'' 1]\<rparr>"

theorem matrix_is_faithful_witness:
  "\<exists>m. get_protocol_matrix [(''t'', demo_test_run)] ''t'' = Inr m
     \<and> dict_get m ''s'' = Some (protocol_verdicts (demo_session ''f'' 1))"
proof -
  have ok: "db_ok [(''t'', demo_test_run)]"
    by (simp add: db_ok_def dict_ok_def dict_get_def run_ok_def sid_ok_def demo_test_run_def)
  have s: "demo_session ''f'' 1 \<in> set (run_sessions demo_test_run)" "sess_id (demo_session ''f'' 1) = ''s''"
    by (simp_all add: demo_test_run_def demo_session_def sess_id_def)
  show ?thesis using matrix_is_faithful [OF ok _ s(1), of "''t''"] s(2) by (simp add: dict_get_def)
qed

end
