(* ===== verification/MtprotoProbe.thy ===== *)
theory MtprotoProbe
  imports Client TelegramProbe Credentials
begin

text \<open>
  The two MTProto probes of \<^verbatim>\<open>protocol_probes.py\<close> byte by byte: the fake-TLS hello and the check of
  the welcome packet, the obfuscated2 frames, and the exchange of \<open>req_pq_multi\<close> for \<open>resPQ\<close>. SHA-256,
  HMAC and the key stream of AES-CTR are arguments, as are the random bytes, the clock and what
  the peer sends in answer to what it got.
\<close>

section \<open>Results and failures\<close>

text \<open>A step fails with a result, or raises an exception that no handler of the probe catches.\<close>

datatype stop = Fail probe_result | Raised string

definition mtg_error_result :: "string \<Rightarrow> verdict \<Rightarrow> probe_result" where
  "mtg_error_result error verdict = ProbeResult_default\<lparr>pb_error := Some error, pb_verdict := verdict\<rparr>"

definition blocked :: "string \<Rightarrow> stop" where
  "blocked error = Fail (mtg_error_result error BLOCKED)"

text \<open>\<open>f"{n:#x}"\<close>, and bytes as numbers in little-endian order.\<close>

fun hex_digits :: "nat \<Rightarrow> string" where
  "hex_digits n = (if n < 16 then [hex_digit n] else hex_digits (n div 16) @ [hex_digit (n mod 16)])"

definition hex_text :: "nat \<Rightarrow> string" where
  "hex_text n = ''0x'' @ hex_digits n"

definition str_of_nat :: "nat \<Rightarrow> string" where
  "str_of_nat n = str_of_int (int n)"

definition from_le :: "byte list \<Rightarrow> nat" where
  "from_le bs = foldr (\<lambda>b n. unat b + 256 * n) bs 0"

definition xor_bytes :: "byte list \<Rightarrow> byte list \<Rightarrow> byte list" where
  "xor_bytes xs ys = map2 xor xs ys"

text \<open>\<open>bytes.fromhex\<close>: pairs of digits, ASCII white space between them.\<close>

definition fromhex_blank :: "char \<Rightarrow> bool" where
  "fromhex_blank c \<longleftrightarrow> c = CHR '' '' \<or> (9 \<le> (of_char c :: int) \<and> (of_char c :: int) \<le> 13)"

fun bytes_fromhex :: "string \<Rightarrow> byte list option" where
  "bytes_fromhex [] = Some []"
| "bytes_fromhex [c] = (if fromhex_blank c then Some [] else None)"
| "bytes_fromhex (c # l # s) =
     (if fromhex_blank c then bytes_fromhex (l # s)
      else case (hex_val c, hex_val l, bytes_fromhex s) of
          (Some x, Some y, Some bs) \<Rightarrow> Some (of_nat (16 * x + y) # bs)
        | _ \<Rightarrow> None)"

definition text_of_bytes :: "byte list \<Rightarrow> string" where
  "text_of_bytes bs = map (\<lambda>b. char_of (unat b)) bs"

section \<open>The fake-TLS hello\<close>

record crypto =
  cy_sha256 :: "byte list \<Rightarrow> byte list"
  cy_hmac :: "byte list \<Rightarrow> byte list \<Rightarrow> byte list"
  cy_keystream :: "byte list \<Rightarrow> byte list \<Rightarrow> nat \<Rightarrow> byte"

definition parse_mtproto_secret :: "string \<Rightarrow> stop + byte list \<times> byte list" where
  "parse_mtproto_secret secret_hex =
     (case bytes_fromhex secret_hex of
        None \<Rightarrow> Inl (Fail (mtg_error_result ''secret_not_hex'' ERROR))
      | Some secret_bytes \<Rightarrow>
          if length secret_bytes < 18 \<or> secret_bytes ! 0 \<noteq> 0xEE then Inl (Fail (mtg_error_result ''secret_not_faketls'' ERROR))
          else let sni_host = drop 17 secret_bytes in
            if \<not> list_all (\<lambda>b. b < 0x80) sni_host then Inl (Fail (mtg_error_result ''secret_sni_not_ascii'' ERROR))
            else if sni_host = [] then Inl (Fail (mtg_error_result ''secret_sni_empty'' ERROR))
            else Inr (take 16 (drop 1 secret_bytes), sni_host))"

definition CIPHER_SUITES :: "byte list" where
  "CIPHER_SUITES = [0x00, 0x22, 0x4A, 0x4A, 0x13, 0x01, 0x13, 0x02, 0x13, 0x03, 0xC0, 0x2B, 0xC0, 0x2F,
     0xC0, 0x2C, 0xC0, 0x30, 0xCC, 0xA9, 0xCC, 0xA8, 0xC0, 0x13, 0xC0, 0x14, 0x00, 0x9C,
     0x00, 0x9D, 0x00, 0x2F, 0x00, 0x35, 0x00, 0x0A]"

definition sni_extension :: "byte list \<Rightarrow> byte list" where
  "sni_extension sni =
     (let sni_ext = [0] @ u16 (length sni) @ sni; sni_list = u16 (length sni_ext) @ sni_ext
      in [0, 0] @ u16 (length sni_list) @ sni_list)"

definition SIGNATURE_ALGORITHMS :: "byte list" where
  "SIGNATURE_ALGORITHMS = [0x00, 0x0D, 0x00, 0x14, 0x00, 0x12, 0x04, 0x03, 0x08, 0x04, 0x04, 0x01, 0x05, 0x03,
     0x02, 0x03, 0x08, 0x05, 0x05, 0x01, 0x08, 0x06, 0x06, 0x01, 0x02, 0x01]"

definition base_extensions :: "byte list \<Rightarrow> byte list \<Rightarrow> byte list" where
  "base_extensions sni key_share =
     [0x00, 0x17, 0x00, 0x00] @ [0xFF, 0x01, 0x00, 0x01, 0x00] @ sni_extension sni
     @ [0x00, 0x0A, 0x00, 0x08, 0x00, 0x06, 0x00, 0x1D, 0x00, 0x17, 0x00, 0x18] @ [0x00, 0x0B, 0x00, 0x02, 0x01, 0x00]
     @ SIGNATURE_ALGORITHMS @ [0x00, 0x2B, 0x00, 0x05, 0x04, 0x03, 0x04, 0x03, 0x03]
     @ [0x00, 0x2D, 0x00, 0x02, 0x01, 0x01] @ [0x00, 0x33, 0x00, 0x26, 0x00, 0x24, 0x00, 0x1D, 0x00, 0x20] @ key_share"

definition padded_extensions :: "byte list \<Rightarrow> byte list" where
  "padded_extensions ext =
     (let pad_len = 517 - 116 - int (length ext) in
      if 4 \<le> pad_len then ext @ [0x00, 0x15] @ u16 (nat pad_len - 4) @ replicate (nat pad_len - 4) 0
      else if 0 < pad_len then ext @ replicate (nat pad_len) 0
      else ext)"

text \<open>The hello with zeros for the random, and the final one: its session id and random besides.\<close>

definition zeroed_hello :: "byte list \<Rightarrow> byte list \<Rightarrow> byte list \<Rightarrow> byte list" where
  "zeroed_hello sni session_id key_share =
     (let ext = padded_extensions (base_extensions sni key_share) in
      [0x16, 0x03, 0x01, 0x02, 0x00] @ [0x01, 0x00, 0x01, 0xFC, 0x03, 0x03] @ replicate 32 0 @ [0x20] @ session_id
      @ CIPHER_SUITES @ [0x01, 0x00] @ u16 (length ext) @ ext)"

definition build_mtproto_clienthello ::
    "crypto \<Rightarrow> int \<Rightarrow> byte list \<Rightarrow> byte list \<Rightarrow> byte list \<Rightarrow> byte list \<Rightarrow> stop + byte list \<times> byte list \<times> byte list" where
  "build_mtproto_clienthello C timestamp session_id key_share secret_key sni =
     (let hello = zeroed_hello sni session_id key_share in
      if 65535 < int (length (padded_extensions (base_extensions sni key_share))) then Inl (Raised ''int too big to convert'')
      else if length hello \<noteq> 517 then Inl (Fail (mtg_error_result (''clienthello_len='' @ str_of_nat (length hello)) ERROR))
      else if timestamp < 0 then Inl (Raised ''can't convert negative int to unsigned'')
      else if 2 ^ 32 \<le> timestamp then Inl (Raised ''int too big to convert'')
      else let digest = cy_hmac C secret_key hello;
               new_random = take 28 digest @ xor_bytes (take 4 (drop 28 digest)) (little_endian 4 timestamp)
           in Inr (take 11 hello @ new_random @ drop 43 hello, session_id, new_random))"

section \<open>Reading from the peer\<close>

text \<open>
  What arrives, and what waiting for more ends in: the end of the stream, the timeout, or a reset,
  which the reader raises.
\<close>

datatype stream_end = Eof | Stall | Reset string

type_synonym stream = "byte list \<times> stream_end"

definition readexactly :: "nat \<Rightarrow> stream \<Rightarrow> stream_end + byte list \<times> stream" where
  "readexactly n s = (if n \<le> length (fst s) then Inr (take n (fst s), (drop n (fst s), snd s)) else Inl (snd s))"

text \<open>The handlers around each read: the results of a short stream and of the timeout.\<close>

definition read_or :: "stop \<Rightarrow> stop \<Rightarrow> nat \<Rightarrow> stream \<Rightarrow> stop + byte list \<times> stream" where
  "read_or short timeout n s =
     (case readexactly n s of
        Inr r \<Rightarrow> Inr r
      | Inl Eof \<Rightarrow> Inl short
      | Inl Stall \<Rightarrow> Inl timeout
      | Inl (Reset e) \<Rightarrow> Inl (Raised e))"

definition read_one_welcome_record :: "nat \<Rightarrow> byte \<Rightarrow> nat \<Rightarrow> nat \<Rightarrow> stream \<Rightarrow> stop + byte list \<times> stream" where
  "read_one_welcome_record idx expected_type current_total max_total s =
     (let i = str_of_nat idx in
      bindE (read_or (blocked (''welcome_truncated_record'' @ i)) (blocked (''welcome_read_timeout_record'' @ i)) 5 s) (\<lambda>(header, s).
      if header ! 0 \<noteq> expected_type then
        Inl (blocked (''welcome_bad_type_record'' @ i @ ''='' @ hex_text (unat (header ! 0))))
      else if take 2 (drop 1 header) \<noteq> [3, 3] then Inl (blocked (''welcome_bad_version_record'' @ i))
      else let record_len = from_u16 (header ! 3) (header ! 4) in
        if record_len = 0 then Inl (blocked (''welcome_zero_len_record'' @ i))
        else if max_total < current_total + 5 + record_len then
          Inl (blocked (''welcome_oversize_record'' @ i @ ''='' @ str_of_nat record_len))
        else bindE (read_or (blocked (''welcome_short_body_record'' @ i)) (blocked (''welcome_read_timeout_body_record'' @ i)) record_len s)
          (\<lambda>(body, s). Inr (header @ body, s))))"

fun welcome_loop :: "(nat \<times> byte) list \<Rightarrow> byte list \<Rightarrow> stream \<Rightarrow> stop + byte list \<times> stream" where
  "welcome_loop [] packet s = Inr (packet, s)"
| "welcome_loop ((idx, expected_type) # rest) packet s =
     bindE (read_one_welcome_record idx expected_type (length packet) (16 * 1024) s) (\<lambda>(rec, s).
       welcome_loop rest (packet @ rec) s)"

definition read_mtproto_welcome_packet :: "stream \<Rightarrow> stop + byte list \<times> stream" where
  "read_mtproto_welcome_packet s = welcome_loop [(0, 0x16), (1, 0x14), (2, 0x17)] [] s"

definition zero_random :: "byte list \<Rightarrow> byte list" where
  "zero_random packet = take 11 packet @ replicate 32 0 @ drop 43 packet"

definition validate_welcome_packet :: "crypto \<Rightarrow> byte list \<Rightarrow> byte list \<Rightarrow> byte list \<Rightarrow> byte list \<Rightarrow> probe_result option" where
  "validate_welcome_packet C packet session_id client_random secret_key =
     (if length packet < 43 then Some (mtg_error_result ''welcome_too_short'' BLOCKED)
      else if packet ! 5 \<noteq> 2 then Some (mtg_error_result ''not_server_hello'' BLOCKED)
      else if length packet < 44 then Some (mtg_error_result ''welcome_truncated_pre_sid'' BLOCKED)
      else let sid_len = unat (packet ! 43) in
        if sid_len \<noteq> length session_id then Some (mtg_error_result (''bad_sid_len='' @ str_of_nat sid_len) BLOCKED)
        else if length packet < 44 + sid_len then Some (mtg_error_result ''welcome_truncated_in_sid'' BLOCKED)
        else if take sid_len (drop 44 packet) \<noteq> session_id then Some (mtg_error_result ''session_id_mismatch'' BLOCKED)
        else if cy_hmac C secret_key (client_random @ zero_random packet) \<noteq> take 32 (drop 11 packet)
          then Some (mtg_error_result ''welcome_hmac_mismatch'' BLOCKED)
        else None)"

section \<open>The obfuscated2 frames\<close>

definition FORBIDDEN_FIRST_INTS :: "nat list" where
  "FORBIDDEN_FIRST_INTS = [0x44414548, 0x54534F50, 0x20544547, 0x4954504F, 0xEEEEEEEE, 0xDDDDDDDD, 0x02010316]"

definition TRANSPORT_TAG_DD :: "byte list" where
  "TRANSPORT_TAG_DD = [0xDD, 0xDD, 0xDD, 0xDD]"

definition TL_ID_REQ_PQ_MULTI :: int where "TL_ID_REQ_PQ_MULTI = 0xBE7E8EF1"

definition TL_ID_RES_PQ :: nat where "TL_ID_RES_PQ = 0x05162463"

definition parse_mtproxy_orig_secret :: "string \<Rightarrow> stop + byte list" where
  "parse_mtproxy_orig_secret secret_hex =
     (let s = str_lower secret_hex; s = (if starts_with s ''dd'' then drop 2 s else s) in
      case bytes_fromhex s of
        None \<Rightarrow> Inl (Fail (mtg_error_result ''orig_secret_not_hex'' ERROR))
      | Some secret_bytes \<Rightarrow>
          if length secret_bytes \<noteq> 16 then
            Inl (Fail (mtg_error_result (''orig_secret_bad_len='' @ str_of_nat (length secret_bytes)) ERROR))
          else Inr secret_bytes)"

definition draw_ok :: "byte list \<Rightarrow> bool" where
  "draw_ok d \<longleftrightarrow> d ! 0 \<noteq> 0xEF \<and> from_le (take 4 d) \<notin> set FORBIDDEN_FIRST_INTS \<and> from_le (take 4 (drop 4 d)) \<noteq> 0"

text \<open>The loop that draws 56 bytes until they are acceptable; \<open>None\<close> when the draws run out.\<close>

fun first_draw :: "byte list list \<Rightarrow> byte list option" where
  "first_draw [] = None"
| "first_draw (d # draws) = (if draw_ok d then Some d else first_draw draws)"

text \<open>AES in counter mode from offset \<open>off\<close> of a key stream.\<close>

definition ctr :: "(nat \<Rightarrow> byte) \<Rightarrow> nat \<Rightarrow> byte list \<Rightarrow> byte list" where
  "ctr ks off bs = xor_bytes (map ks [off..<off + length bs]) bs"

text \<open>The key streams of both directions, from bytes 8 to 56 of the init frame and the secret.\<close>

definition send_stream :: "crypto \<Rightarrow> byte list \<Rightarrow> byte list \<Rightarrow> nat \<Rightarrow> byte" where
  "send_stream C secret_key key_part = cy_keystream C (cy_sha256 C (take 32 key_part @ secret_key)) (drop 32 key_part)"

definition recv_stream :: "crypto \<Rightarrow> byte list \<Rightarrow> byte list \<Rightarrow> nat \<Rightarrow> byte" where
  "recv_stream C secret_key key_part = send_stream C secret_key (rev key_part)"

definition build_obfuscated2_init :: "crypto \<Rightarrow> byte list \<Rightarrow> byte list \<Rightarrow> byte list \<Rightarrow> byte list" where
  "build_obfuscated2_init C secret_key draw filler =
     (let ks = send_stream C secret_key (drop 8 draw) in
      draw @ xor_bytes TRANSPORT_TAG_DD (map ks [56..<60]) @ xor_bytes (little_endian 2 1) (map ks [60..<62]) @ take 2 filler)"

definition generate_mtproto_msg_id :: "rat \<Rightarrow> byte list" where
  "generate_mtproto_msg_id now = (let t = \<lfloor>fmul now (2 ^ 32)\<rfloor> in little_endian 8 (t - t mod 4))"

definition req_pq_frame :: "byte list \<Rightarrow> byte list \<Rightarrow> byte list \<Rightarrow> byte list" where
  "req_pq_frame msg_id nonce pad =
     (let msg_body = little_endian 4 TL_ID_REQ_PQ_MULTI @ nonce;
          inner = replicate 8 0 @ msg_id @ little_endian 4 (int (length msg_body)) @ msg_body
      in little_endian 4 (int (length inner + length pad)) @ inner @ pad)"

definition build_req_pq_frame :: "(nat \<Rightarrow> byte) \<Rightarrow> rat \<Rightarrow> byte list \<Rightarrow> byte list \<Rightarrow> byte list" where
  "build_req_pq_frame ks now nonce pad = ctr ks 64 (req_pq_frame (generate_mtproto_msg_id now) nonce pad)"

definition validate_res_pq :: "byte list \<Rightarrow> byte list \<Rightarrow> probe_result option" where
  "validate_res_pq body_pt expected_nonce =
     (let err = (\<lambda>e. Some (mtg_error_result e BLOCKED)) in
      if length body_pt < 24 then err (''orig_resPQ_truncated='' @ str_of_nat (length body_pt))
      else if take 8 body_pt \<noteq> replicate 8 0 then err ''orig_resPQ_bad_auth_key_id''
      else let msg_len = from_le (take 4 (drop 16 body_pt)) in
        if msg_len < 20 \<or> length body_pt < 20 + msg_len then err (''orig_resPQ_bad_msg_len='' @ str_of_nat msg_len)
        else let msg_body = take msg_len (drop 20 body_pt); tl_id = from_le (take 4 msg_body) in
          if tl_id \<noteq> TL_ID_RES_PQ then err (''orig_resPQ_bad_tl_id='' @ hex_text tl_id)
          else if take 16 (drop 4 msg_body) \<noteq> expected_nonce then err ''orig_resPQ_nonce_mismatch''
          else None)"

lemma read_or_shorter: "read_or a b n s = Inr (bs, s') \<Longrightarrow> length (fst s') + n = length (fst s) \<and> snd s' = snd s \<and> bs = take n (fst s)"
  by (auto simp: read_or_def readexactly_def split: sum.splits stream_end.splits if_splits)

section \<open>The exchange\<close>

text \<open>
  The reader that strips the TLS records: its buffer and the stream. Each round takes a header
  and a nonempty body off the stream.
\<close>

function read_inner :: "nat \<Rightarrow> byte list \<Rightarrow> stream \<Rightarrow> stop + byte list \<times> byte list \<times> stream" where
  "read_inner n buf s =
     (if n \<le> length buf then Inr (take n buf, drop n buf, s)
      else case read_or (blocked ''orig_resPQ_truncated_len'')
          (if buf = [] then blocked ''orig_resPQ_len_timeout_post_init''
           else Fail (mtg_error_result ''orig_resPQ_body_timeout'' ERROR)) 5 s of
        Inl e \<Rightarrow> Inl e
      | Inr (hdr, s') \<Rightarrow>
          if hdr ! 0 \<noteq> 0x17 then
            Inl (blocked (''orig_resPQ_unexpected_tls_record_type=0x'' @ hex_of_byte (hdr ! 0)))
          else let record_len = from_u16 (hdr ! 3) (hdr ! 4) in
            if record_len = 0 \<or> 16384 < record_len then
              Inl (blocked (''orig_resPQ_bad_tls_record_len='' @ str_of_nat record_len))
            else case read_or (blocked (''orig_resPQ_truncated_record_body_expected='' @ str_of_nat record_len))
                (Fail (mtg_error_result ''orig_resPQ_body_timeout'' ERROR)) record_len s' of
              Inl e \<Rightarrow> Inl e
            | Inr (body, s'') \<Rightarrow> read_inner n (buf @ body) s'')"
  by pat_completeness auto

termination
proof (relation "measure (\<lambda>(n, buf, s). length (fst s))")
  fix n :: nat and buf :: "byte list" and s a hdr s' record_len b body s''
  assume "read_or (blocked ''orig_resPQ_truncated_len'')
      (if buf = [] then blocked ''orig_resPQ_len_timeout_post_init''
       else Fail (mtg_error_result ''orig_resPQ_body_timeout'' ERROR)) 5 s = Inr a" "(hdr, s') = a"
    "read_or (blocked (''orig_resPQ_truncated_record_body_expected='' @ str_of_nat record_len))
       (Fail (mtg_error_result ''orig_resPQ_body_timeout'' ERROR)) record_len s' = Inr b" "(body, s'') = b"
  then show "((n, buf @ body, s''), n, buf, s) \<in> measure (\<lambda>(n, buf, s). length (fst s))"
    by (auto dest!: read_or_shorter)
qed simp

declare read_inner.simps [simp del]

text \<open>
  The exchange after the connection is up. \<open>sent\<close> is what the peer has got before; a peer answers
  all it has got with the bytes it adds to the stream and what then waiting ends in. Writing
  can fail with one of the caught classes, or raise.
\<close>

datatype write_end = Written | WriteFails string | WriteRaises string

record obf2_randoms =
  ob_draws :: "byte list list"
  ob_filler :: "byte list"
  ob_nonce :: "byte list"
  ob_pad :: "byte list"
  ob_now :: rat

type_synonym peer = "byte list \<Rightarrow> byte list \<times> stream_end"

definition on_wire :: "bool \<Rightarrow> byte list \<Rightarrow> byte list" where
  "on_wire wrap inner = (if wrap then [0x17, 3, 3] @ u16 (length inner) @ inner else inner)"

definition read_reply :: "bool \<Rightarrow> nat \<Rightarrow> stop \<Rightarrow> stop \<Rightarrow> byte list \<Rightarrow> stream \<Rightarrow> stop + byte list \<times> byte list \<times> stream" where
  "read_reply wrap n short timeout buf s =
     (if wrap then read_inner n buf s
      else bindE (read_or short timeout n s) (\<lambda>(bs, s). Inr (bs, buf, s)))"

definition exchange_obfuscated2_respq ::
    "crypto \<Rightarrow> obf2_randoms \<Rightarrow> write_end \<Rightarrow> peer \<Rightarrow> byte list \<Rightarrow> byte list \<Rightarrow> byte list \<Rightarrow> bool \<Rightarrow> (stop + unit) option" where
  "exchange_obfuscated2_respq C R w peer sent pending secret_key wrap =
     (case first_draw (ob_draws R) of
        None \<Rightarrow> None
      | Some draw \<Rightarrow> Some (
          let key_part = drop 8 draw;
              recv = recv_stream C secret_key key_part;
              inner = build_obfuscated2_init C secret_key draw (ob_filler R)
                @ build_req_pq_frame (send_stream C secret_key key_part) (ob_now R) (ob_nonce R) (ob_pad R);
              wire = on_wire wrap inner;
              (reply_bytes, ending) = peer (sent @ wire)
          in case w of
               WriteFails cls \<Rightarrow> Inl (blocked (''orig_write_failed:'' @ cls))
             | WriteRaises e \<Rightarrow> Inl (Raised e)
             | Written \<Rightarrow>
                 bindE (read_reply wrap 4 (blocked ''orig_resPQ_truncated_len'') (blocked ''orig_resPQ_len_timeout_post_init'')
                     [] (pending @ reply_bytes, ending)) (\<lambda>(length_ct, buf, s).
                 let len = from_le (ctr recv 0 length_ct) in
                 if len < 24 \<or> 4096 < len then Inl (blocked (''orig_resPQ_bad_outer_len='' @ str_of_nat len))
                 else bindE (read_reply wrap len (blocked (''orig_resPQ_truncated_body_expected='' @ str_of_nat len))
                     (Fail (mtg_error_result ''orig_resPQ_body_timeout'' ERROR)) buf s) (\<lambda>(body_ct, buf, s).
                   case validate_res_pq (ctr recv 4 body_ct) (ob_nonce R) of
                     Some e \<Rightarrow> Inl (Fail e)
                   | None \<Rightarrow> Inr ()))))"

section \<open>The probes\<close>

text \<open>How the connection is opened, and the clock before and after.\<close>

datatype open_end = Opened rat rat | OpenTimeout | OpenRefused | OpenOsError string

definition open_mtproto_tcp :: "open_end \<Rightarrow> stop + rat" where
  "open_mtproto_tcp o_end =
     (case o_end of
        Opened t0 t1 \<Rightarrow> Inr (fmul (fsub t1 t0) 1000)
      | OpenTimeout \<Rightarrow> Inl (blocked ''tcp_timeout'')
      | OpenRefused \<Rightarrow> Inl (blocked ''connection_refused'')
      | OpenOsError e \<Rightarrow> Inl (blocked (str_lower e)))"

definition send_clienthello :: "write_end \<Rightarrow> stop + unit" where
  "send_clienthello w =
     (case w of Written \<Rightarrow> Inr () | WriteFails cls \<Rightarrow> Inl (blocked (''write_failed:'' @ cls)) | WriteRaises e \<Rightarrow> Inl (Raised e))"

text \<open>A failure of the exchange gets the connect time unless it has one; its success is the result.\<close>

definition respq_result :: "rat \<Rightarrow> stop + unit \<Rightarrow> stop + probe_result" where
  "respq_result rtt_ms r =
     (case r of
        Inr u \<Rightarrow> Inr (ProbeResult_default\<lparr>pb_handshake_ok := True, pb_data_ok := False, pb_rtt_ms := Some rtt_ms,
          pb_verdict := OK\<rparr>)
      | Inl (Fail e) \<Rightarrow> Inl (Fail (if pb_rtt_ms e = None then e\<lparr>pb_rtt_ms := Some rtt_ms\<rparr> else e))
      | Inl (Raised x) \<Rightarrow> Inl (Raised x))"

record mtproto_env =
  me_open :: open_end
  me_write_hello :: write_end
  me_write_request :: write_end
  me_peer :: peer
  me_randoms :: obf2_randoms
  me_session_id :: "byte list"
  me_key_share :: "byte list"
  me_timestamp :: int
  me_start :: rat
  me_finish :: rat

text \<open>What a probe gives its caller: an exception's text, or the stamped result.\<close>

definition stamp_elapsed :: "rat \<Rightarrow> rat \<Rightarrow> probe_result \<Rightarrow> probe_result" where
  "stamp_elapsed start finish p =
     (if pb_elapsed_ms p = None then p\<lparr>pb_elapsed_ms := Some (fmul (fsub finish start) 1000)\<rparr> else p)"

definition finished :: "mtproto_env \<Rightarrow> stop + probe_result \<Rightarrow> string + probe_result" where
  "finished E r =
     (let stamp = stamp_elapsed (me_start E) (me_finish E)
      in case r of Inr p \<Rightarrow> Inr (stamp p) | Inl (Fail p) \<Rightarrow> Inr (stamp p) | Inl (Raised e) \<Rightarrow> Inl e)"

text \<open>\<open>None\<close> in both: the draws of the random bytes supplied are all rejected.\<close>

definition probe_mtproto_orig :: "crypto \<Rightarrow> mtproto_env \<Rightarrow> string \<Rightarrow> (string + probe_result) option" where
  "probe_mtproto_orig C E secret_hex =
     (case bindE (parse_mtproxy_orig_secret secret_hex) (\<lambda>key. bindE (open_mtproto_tcp (me_open E)) (\<lambda>rtt_ms. Inr (key, rtt_ms))) of
        Inl e \<Rightarrow> Some (finished E (Inl e))
      | Inr (secret_key, rtt_ms) \<Rightarrow>
          map_option (\<lambda>r. finished E (respq_result rtt_ms r))
            (exchange_obfuscated2_respq C (me_randoms E) (me_write_request E) (me_peer E) [] [] secret_key False))"

text \<open>The two stages before the exchange: the bytes sent, those that arrived after the welcome packet.\<close>

definition faketls_stage :: "crypto \<Rightarrow> mtproto_env \<Rightarrow> string \<Rightarrow> stop + byte list \<times> rat \<times> byte list \<times> byte list" where
  "faketls_stage C E secret_hex =
     bindE (parse_mtproto_secret secret_hex) (\<lambda>(secret_key, sni).
     bindE (build_mtproto_clienthello C (me_timestamp E) (me_session_id E) (me_key_share E) secret_key sni)
       (\<lambda>(hello, session_id, client_random).
     bindE (open_mtproto_tcp (me_open E)) (\<lambda>rtt_ms.
     bindE (send_clienthello (me_write_hello E)) (\<lambda>u.
     bindE (read_mtproto_welcome_packet (me_peer E hello)) (\<lambda>(packet, s).
     case validate_welcome_packet C packet session_id client_random secret_key of
       Some e \<Rightarrow> Inl (Fail e)
     | None \<Rightarrow> Inr (secret_key, rtt_ms, hello, fst s))))))"

definition probe_mtproto_proxy :: "crypto \<Rightarrow> mtproto_env \<Rightarrow> string \<Rightarrow> (string + probe_result) option" where
  "probe_mtproto_proxy C E secret_hex =
     (case faketls_stage C E secret_hex of
        Inl e \<Rightarrow> Some (finished E (Inl e))
      | Inr (secret_key, rtt_ms, hello, pending) \<Rightarrow>
          map_option (\<lambda>r. finished E (respq_result rtt_ms r))
            (exchange_obfuscated2_respq C (me_randoms E) (me_write_request E) (me_peer E) hello pending secret_key True))"

section \<open>Words, numbers and key streams\<close>

lemma length_xor_bytes [simp]: "length (xor_bytes xs ys) = min (length xs) (length ys)"
  by (simp add: xor_bytes_def)

lemma xor_bytes_cancel: "length xs = length ys \<Longrightarrow> xor_bytes xs (xor_bytes xs ys) = ys"
  unfolding xor_bytes_def by (induction xs ys rule: list_induct2) (simp_all flip: xor.assoc)

lemma xor_bytes_commute: "xor_bytes xs ys = xor_bytes ys xs"
  unfolding xor_bytes_def by (induction xs arbitrary: ys) (simp, case_tac ys, simp_all add: xor.commute)

lemma xor_bytes_append: "length a = length c \<Longrightarrow> xor_bytes (a @ b) (c @ d) = xor_bytes a c @ xor_bytes b d"
  by (simp add: xor_bytes_def)

lemma xor_bytes_self: "xor_bytes xs xs = replicate (length xs) 0"
  unfolding xor_bytes_def by (induction xs) simp_all

lemma length_ctr [simp]: "length (ctr ks off bs) = length bs"
  by (simp add: ctr_def)

lemma ctr_ctr [simp]: "ctr ks off (ctr ks off bs) = bs"
  by (simp add: ctr_def xor_bytes_cancel)

lemma ctr_append: "ctr ks off (a @ b) = ctr ks off a @ ctr ks (off + length a) b"
proof -
  have "map ks [off..<off + length (a @ b)] = map ks [off..<off + length a] @ map ks [off + length a..<off + length a + length b]"
    by (simp only: length_append add.assoc [symmetric] upt_add_eq_append [OF le_add1, of off "length a"] map_append upt_add_eq_append [of off "off + length a"])
  then show ?thesis by (simp add: ctr_def xor_bytes_append)
qed

lemma ctr_take: "n \<le> length bs \<Longrightarrow> take n (ctr ks off bs) = ctr ks off (take n bs)"
  using ctr_append [of ks off "take n bs" "drop n bs"] by simp

lemma ctr_drop: "n \<le> length bs \<Longrightarrow> drop n (ctr ks off bs) = ctr ks (off + n) (drop n bs)"
  using ctr_append [of ks off "take n bs" "drop n bs"] by simp

lemma from_le_append: "from_le (a @ b) = from_le a + 256 ^ length a * from_le b"
  by (induction a) (simp_all add: from_le_def algebra_simps)

lemma from_le_less: "from_le bs < 256 ^ length bs"
proof (induction bs)
  case (Cons b bs)
  have "unat b < 256" using unsigned_less [of b] by simp
  moreover have "from_le bs + 1 \<le> 256 ^ length bs" using Cons by simp
  ultimately show ?case by (simp add: from_le_def)
qed (simp add: from_le_def)

lemma unat_of_int_byte: "unat (of_int (i mod 256) :: byte) = nat (i mod 256)"
proof -
  have "uint (of_int (i mod 256) :: byte) = i mod 256" by (simp add: uint_word_of_int)
  then show ?thesis by (metis nat_uint_eq)
qed

lemma from_le_little_endian: "0 \<le> i \<Longrightarrow> i < 256 ^ n \<Longrightarrow> from_le (little_endian n i) = nat i"
proof (induction n i rule: little_endian.induct)
  case (2 n i)
  have "i div 256 < 256 ^ n" using 2(3) by (simp add: div_less_iff_less_mult mult.commute)
  then have "from_le (little_endian n (i div 256)) = nat (i div 256)" using 2(1,2) by simp
  then have "from_le (little_endian (Suc n) i) = nat (i mod 256) + 256 * nat (i div 256)"
    using unat_of_int_byte [of i] by (simp add: from_le_def)
  also have "\<dots> = nat i"
  proof -
    have "int (nat (i mod 256) + 256 * nat (i div 256)) = i" using 2(2) by (simp add: pos_imp_zdiv_nonneg_iff)
    then show ?thesis by (metis nat_int)
  qed
  finally show ?case .
qed (simp add: from_le_def)

section \<open>The hello is accepted by a server with the secret\<close>

lemma length_base_extensions:
  "length key_share = 32 \<Longrightarrow> length (base_extensions sni key_share) = 119 + length sni"
  by (simp add: base_extensions_def sni_extension_def SIGNATURE_ALGORITHMS_def Let_def)

lemma length_padded:
  "length key_share = 32 \<Longrightarrow> length sni \<le> 282 \<Longrightarrow> length (padded_extensions (base_extensions sni key_share)) = 401"
  using length_base_extensions [of key_share sni] by (auto simp: padded_extensions_def Let_def)

lemma length_zeroed_hello:
  "length session_id = 32 \<Longrightarrow> length key_share = 32 \<Longrightarrow> length sni \<le> 282 \<Longrightarrow> length (zeroed_hello sni session_id key_share) = 517"
  using length_padded [of key_share sni] by (simp add: zeroed_hello_def Let_def CIPHER_SUITES_def)

lemma hello_facts:
  assumes "length session_id = 32" "length key_share = 32" "length sni \<le> 282" "0 \<le> timestamp" "timestamp < 2 ^ 32"
    "\<And>msg. length (cy_hmac C secret_key msg) = 32"
  shows "\<exists>hello random. build_mtproto_clienthello C timestamp session_id key_share secret_key sni = Inr (hello, session_id, random)
    \<and> length hello = 517 \<and> take 32 (drop 11 hello) = random \<and> take 32 (drop 44 hello) = session_id
    \<and> xor_bytes (cy_hmac C secret_key (zero_random hello)) random = replicate 28 0 @ little_endian 4 timestamp
    \<and> from_le (drop 28 (xor_bytes (cy_hmac C secret_key (zero_random hello)) random)) = nat timestamp"
proof -
  let ?z = "zeroed_hello sni session_id key_share"
  let ?d = "cy_hmac C secret_key ?z"
  let ?r = "take 28 ?d @ xor_bytes (take 4 (drop 28 ?d)) (little_endian 4 timestamp)"
  let ?h = "take 11 ?z @ ?r @ drop 43 ?z"
  have z: "length ?z = 517" by (rule length_zeroed_hello [OF assms(1-3)])
  have d: "length ?d = 32" by (rule assms(6))
  have r: "length ?r = 32" by (simp add: d)
  have zeros: "take 32 (drop 11 ?z) = replicate 32 0" by (simp add: zeroed_hello_def Let_def)
  have undo: "zero_random ?h = ?z"
  proof -
    have "zero_random ?h = take 11 ?z @ take 32 (drop 11 ?z) @ drop 32 (drop 11 ?z)"
      unfolding zeros using z r by (simp add: zero_random_def)
    then show ?thesis by (simp only: append_take_drop_id)
  qed
  have x: "xor_bytes ?d ?r = replicate 28 0 @ little_endian 4 timestamp"
  proof -
    have "?d = take 28 ?d @ take 4 (drop 28 ?d)" using d by simp
    then have "xor_bytes ?d ?r = xor_bytes (take 28 ?d) (take 28 ?d)
        @ xor_bytes (take 4 (drop 28 ?d)) (xor_bytes (take 4 (drop 28 ?d)) (little_endian 4 timestamp))"
      by (metis xor_bytes_append)
    then show ?thesis using d by (simp add: xor_bytes_self xor_bytes_cancel)
  qed
  have "build_mtproto_clienthello C timestamp session_id key_share secret_key sni = Inr (?h, session_id, ?r)"
    using z length_padded [OF assms(2,3)] assms(4,5) by (simp add: build_mtproto_clienthello_def Let_def)
  moreover have "length ?h = 517" "take 32 (drop 11 ?h) = ?r" using z r by simp_all
  moreover have "take 32 (drop 44 ?h) = session_id" using z r assms(1) by (simp add: zeroed_hello_def Let_def)
  moreover have "from_le (drop 28 (xor_bytes ?d ?r)) = nat timestamp"
    unfolding x using from_le_little_endian [of timestamp 4] assms(4,5) by simp
  ultimately show ?thesis using undo x by metis
qed

section \<open>How a probe can end\<close>

text \<open>Every failure of a stage is a blocked or an errored result without a handshake.\<close>

definition plain_failure :: "stop \<Rightarrow> bool" where
  "plain_failure e \<longleftrightarrow> (\<forall>p. e = Fail p \<longrightarrow> pb_verdict p \<in> {BLOCKED, ERROR} \<and> \<not> pb_handshake_ok p)"

definition fails_plainly :: "stop + 'a \<Rightarrow> bool" where
  "fails_plainly r \<longleftrightarrow> (\<forall>e. r = Inl e \<longrightarrow> plain_failure e)"

named_theorems failure_intros

lemma plain_failure_simps [simp]:
  "plain_failure (Raised x)" "plain_failure (blocked x)" "plain_failure (Fail (mtg_error_result x BLOCKED))"
  "plain_failure (Fail (mtg_error_result x ERROR))"
  by (simp_all add: plain_failure_def blocked_def mtg_error_result_def ProbeResult_default_def)

lemma fails_plainly_simps [simp]: "fails_plainly (Inr a)" "fails_plainly (Inl e) \<longleftrightarrow> plain_failure e"
  by (simp_all add: fails_plainly_def)

lemma fails_plainly_bindE [failure_intros]:
  "fails_plainly m \<Longrightarrow> (\<And>a. fails_plainly (f a)) \<Longrightarrow> fails_plainly (bindE m f)"
  by (cases m) simp_all

lemma fails_plainly_read_or [failure_intros]:
  "plain_failure a \<Longrightarrow> plain_failure b \<Longrightarrow> fails_plainly (read_or a b n s)"
  by (auto simp: read_or_def split: sum.splits stream_end.splits)

lemma fails_plainly_welcome_record [failure_intros]: "fails_plainly (read_one_welcome_record i t c m s)"
  unfolding read_one_welcome_record_def Let_def by (auto intro!: failure_intros)

lemma fails_plainly_welcome_loop: "fails_plainly (welcome_loop ts packet s)"
  by (induction ts packet s rule: welcome_loop.induct) (auto intro!: failure_intros)

lemma fails_plainly_read_inner: "fails_plainly (read_inner n buf s)"
proof (induction n buf s rule: read_inner.induct)
  case (1 n buf s)
  have first: "fails_plainly (read_or (blocked ''orig_resPQ_truncated_len'')
      (if buf = [] then blocked ''orig_resPQ_len_timeout_post_init''
       else Fail (mtg_error_result ''orig_resPQ_body_timeout'' ERROR)) 5 s)"
    by (auto intro: failure_intros)
  have second: "fails_plainly (read_or (blocked (''orig_resPQ_truncated_record_body_expected='' @ str_of_nat l))
      (Fail (mtg_error_result ''orig_resPQ_body_timeout'' ERROR)) l t)" for l t
    by (auto intro: failure_intros)
  show ?case
    by (subst read_inner.simps) (use first second 1 in \<open>auto simp: Let_def fails_plainly_def split: sum.splits\<close>)
qed

lemma fails_plainly_read_reply [failure_intros]:
  "plain_failure a \<Longrightarrow> plain_failure b \<Longrightarrow> fails_plainly (read_reply wrap n a b buf s)"
  unfolding read_reply_def by (auto intro!: failure_intros fails_plainly_read_inner)

lemma validate_res_pq_fails: "validate_res_pq b n = Some e \<Longrightarrow> plain_failure (Fail e)"
  by (auto simp: validate_res_pq_def Let_def split: if_splits)

lemma validate_welcome_packet_fails: "validate_welcome_packet C p sid r k = Some e \<Longrightarrow> plain_failure (Fail e)"
  by (auto simp: validate_welcome_packet_def Let_def split: if_splits)

lemma fails_plainly_exchange:
  assumes "exchange_obfuscated2_respq C R w peer sent pending k wrap = Some r"
  shows "fails_plainly r"
  using assms unfolding exchange_obfuscated2_respq_def Let_def
  by (auto intro!: failure_intros simp: case_prod_beta dest!: validate_res_pq_fails split: option.splits write_end.splits)

lemma fails_plainly_open: "fails_plainly (open_mtproto_tcp e)"
  by (simp add: open_mtproto_tcp_def split: open_end.split)

lemma fails_plainly_faketls_stage: "fails_plainly (faketls_stage C E secret)"
  unfolding faketls_stage_def parse_mtproto_secret_def build_mtproto_clienthello_def send_clienthello_def
    read_mtproto_welcome_packet_def Let_def
  by (auto intro!: failure_intros fails_plainly_open fails_plainly_welcome_loop
      dest!: validate_welcome_packet_fails split: option.split write_end.split)

lemma stamp_elapsed_simps [simp]:
  "pb_verdict (stamp_elapsed a b p) = pb_verdict p" "pb_handshake_ok (stamp_elapsed a b p) = pb_handshake_ok p"
  "pb_data_ok (stamp_elapsed a b p) = pb_data_ok p" "pb_rtt_ms (stamp_elapsed a b p) = pb_rtt_ms p"
  "pb_error (stamp_elapsed a b p) = pb_error p"
  by (simp_all add: stamp_elapsed_def)

lemma finished_failure:
  "plain_failure e \<Longrightarrow> finished E (Inl e) = Inr p \<Longrightarrow> pb_verdict p \<in> {BLOCKED, ERROR} \<and> \<not> pb_handshake_ok p"
  by (auto simp: finished_def plain_failure_def Let_def split: stop.splits)

lemma finished_respq:
  assumes "fails_plainly r" "finished E (respq_result rtt r) = Inr p"
  shows "pb_verdict p \<in> {BLOCKED, ERROR} \<and> \<not> pb_handshake_ok p \<or> r = Inr () \<and> pb_verdict p = OK \<and> pb_handshake_ok p"
  using assms
  by (auto simp: finished_def respq_result_def plain_failure_def Let_def split: sum.splits stop.splits if_splits)

section \<open>An OK result means an answer with the nonce\<close>

lemma little_endian_from_le: "little_endian (length bs) (int (from_le bs)) = bs"
proof (induction bs)
  case (Cons b bs)
  have "uint b < 256" "0 \<le> uint b" using unsigned_less [of b] by simp_all
  then have "int (from_le (b # bs)) mod 256 = int (unat b)" "int (from_le (b # bs)) div 256 = int (from_le bs)"
    by (simp_all add: from_le_def)
  then show ?case using Cons by simp
qed simp

text \<open>The message that answers the request: no key, some identifier, the constructor, the nonce and the rest.\<close>

definition respq_message :: "byte list \<Rightarrow> byte list \<Rightarrow> byte list \<Rightarrow> byte list \<Rightarrow> byte list" where
  "respq_message msg_id nonce rest pad =
     replicate 8 0 @ msg_id @ little_endian 4 (int (20 + length rest)) @ little_endian 4 (int TL_ID_RES_PQ) @ nonce @ rest @ pad"

lemma validate_res_pq_of_message:
  assumes "length msg_id = 8" "length nonce = 16" "20 + length rest < 2 ^ 32"
  shows "validate_res_pq (respq_message msg_id nonce rest pad) nonce = None"
proof -
  have "from_le (little_endian 4 (int (20 + length rest))) = 20 + length rest"
    using from_le_little_endian [of "int (20 + length rest)" 4] assms(3) by simp
  moreover have "from_le (little_endian 4 (int TL_ID_RES_PQ)) = TL_ID_RES_PQ"
    using from_le_little_endian [of "int TL_ID_RES_PQ" 4] by (simp add: TL_ID_RES_PQ_def)
  ultimately show ?thesis using assms(1,2) by (simp add: validate_res_pq_def respq_message_def Let_def)
qed

lemma message_of_validate_res_pq:
  assumes "validate_res_pq body nonce = None" "length nonce = 16"
  shows "\<exists>msg_id rest pad. length msg_id = 8 \<and> 20 + length rest < 2 ^ 32 \<and> body = respq_message msg_id nonce rest pad"
proof -
  define m where "m = from_le (take 4 (drop 16 body))"
  define b where "b = take m (drop 20 body)"
  have len: "24 \<le> length body" and zeros: "take 8 body = replicate 8 0" and m: "20 \<le> m" "20 + m \<le> length body"
    and tl: "from_le (take 4 b) = TL_ID_RES_PQ" and nonce: "take 16 (drop 4 b) = nonce"
    using assms(1) by (simp_all add: validate_res_pq_def Let_def m_def b_def not_less split: if_splits)
  have lb: "length b = m" using m by (simp add: b_def)
  have "take 4 b = little_endian 4 (int TL_ID_RES_PQ)"
    using little_endian_from_le [of "take 4 b"] tl lb m by simp
  then have bs: "b = little_endian 4 (int TL_ID_RES_PQ) @ nonce @ drop 20 b"
    using append_take_drop_id [of 4 b] append_take_drop_id [of 16 "drop 4 b"] nonce by simp
  have four: "take 4 (drop 16 body) = little_endian 4 (int m)"
    using little_endian_from_le [of "take 4 (drop 16 body)"] len by (simp add: m_def)
  have "body = take 8 body @ take 8 (drop 8 body) @ take 4 (drop 16 body) @ b @ drop m (drop 20 body)"
    using append_take_drop_id [of 8 body] append_take_drop_id [of 8 "drop 8 body"]
      append_take_drop_id [of 4 "drop 16 body"] append_take_drop_id [of m "drop 20 body"] by (simp add: b_def)
  then have "body = replicate 8 0 @ take 8 (drop 8 body) @ little_endian 4 (int m)
      @ (little_endian 4 (int TL_ID_RES_PQ) @ nonce @ drop 20 b) @ drop m (drop 20 body)"
    unfolding zeros four bs [symmetric] .
  moreover have "int m = int (20 + length (drop 20 b))" using lb m by simp
  ultimately have "body = respq_message (take 8 (drop 8 body)) nonce (drop 20 b) (drop m (drop 20 body))"
    unfolding respq_message_def by simp
  moreover have "20 + length (drop 20 b) < 2 ^ 32"
    using from_le_less [of "take 4 (drop 16 body)"] lb m len by (simp add: m_def)
  moreover have "length (take 8 (drop 8 body)) = 8" using len by simp
  ultimately show ?thesis by blast
qed

definition respq_answer :: "byte list \<Rightarrow> byte list \<Rightarrow> bool" where
  "respq_answer nonce d \<longleftrightarrow> (\<exists>msg_id rest pad more_bytes. length msg_id = 8
     \<and> length (respq_message msg_id nonce rest pad) \<le> 4096
     \<and> d = little_endian 4 (int (length (respq_message msg_id nonce rest pad))) @ respq_message msg_id nonce rest pad @ more_bytes)"

lemma length_respq_message:
  "length msg_id = 8 \<Longrightarrow> length nonce = 16 \<Longrightarrow> length (respq_message msg_id nonce rest pad) = 40 + length rest + length pad"
  by (simp add: respq_message_def)

lemma from_le_of_length: "n < 2 ^ 32 \<Longrightarrow> from_le (little_endian 4 (int n)) = n"
  using from_le_little_endian [of "int n" 4] by simp

text \<open>What the plain reader takes from a stream, and the checks on it.\<close>

definition good_frame :: "byte list \<Rightarrow> byte list \<Rightarrow> bool" where
  "good_frame nonce d \<longleftrightarrow> (let n = from_le (take 4 d) in
     4 \<le> length d \<and> 24 \<le> n \<and> n \<le> 4096 \<and> 4 + n \<le> length d \<and> validate_res_pq (take n (drop 4 d)) nonce = None)"

lemma good_frame_iff_answer:
  assumes "length nonce = 16"
  shows "good_frame nonce d \<longleftrightarrow> respq_answer nonce d"
proof
  assume g: "good_frame nonce d"
  define n where "n = from_le (take 4 d)"
  have n: "4 \<le> length d" "24 \<le> n" "n \<le> 4096" "4 + n \<le> length d" "validate_res_pq (take n (drop 4 d)) nonce = None"
    using g by (simp_all add: good_frame_def Let_def n_def)
  obtain msg_id rest pad where m: "length msg_id = 8" "take n (drop 4 d) = respq_message msg_id nonce rest pad"
    using message_of_validate_res_pq [OF n(5) assms] by blast
  have len: "length (respq_message msg_id nonce rest pad) = n" using n(4) by (simp flip: m(2))
  have "take 4 d = little_endian 4 (int n)" using little_endian_from_le [of "take 4 d"] n(1) by (simp add: n_def)
  then have "d = little_endian 4 (int n) @ take n (drop 4 d) @ drop n (drop 4 d)"
    using append_take_drop_id [of 4 d] append_take_drop_id [of n "drop 4 d"] by simp
  then show "respq_answer nonce d" unfolding respq_answer_def using m len n(3) by metis
next
  assume "respq_answer nonce d"
  then obtain msg_id rest pad more_bytes where m: "length msg_id = 8" "length (respq_message msg_id nonce rest pad) \<le> 4096"
      "d = little_endian 4 (int (length (respq_message msg_id nonce rest pad))) @ respq_message msg_id nonce rest pad @ more_bytes"
    unfolding respq_answer_def by blast
  let ?n = "length (respq_message msg_id nonce rest pad)"
  have l: "?n = 40 + length rest + length pad" by (rule length_respq_message [OF m(1) assms])
  have n: "from_le (take 4 d) = ?n" using from_le_of_length [of ?n] m(2) unfolding m(3) by simp
  have "validate_res_pq (respq_message msg_id nonce rest pad) nonce = None"
    by (rule validate_res_pq_of_message [OF m(1) assms]) (use l m(2) in simp)
  then show "good_frame nonce d" unfolding good_frame_def Let_def n using l m(2) by (simp add: m(3))
qed

definition request_wire :: "crypto \<Rightarrow> obf2_randoms \<Rightarrow> byte list \<Rightarrow> byte list \<Rightarrow> byte list" where
  "request_wire C R k draw = build_obfuscated2_init C k draw (ob_filler R)
     @ build_req_pq_frame (send_stream C k (drop 8 draw)) (ob_now R) (ob_nonce R) (ob_pad R)"

lemma read_or_Inr_iff: "read_or a b n s = Inr r \<longleftrightarrow> n \<le> length (fst s) \<and> r = (take n (fst s), drop n (fst s), snd s)"
  by (auto simp: read_or_def readexactly_def split: sum.splits stream_end.splits if_splits)

lemma exchange_plain_iff:
  assumes "first_draw (ob_draws R) = Some draw"
  shows "exchange_obfuscated2_respq C R Written peer sent pending k False = Some (Inr ())
    \<longleftrightarrow> good_frame (ob_nonce R)
      (ctr (recv_stream C k (drop 8 draw)) 0 (pending @ fst (peer (sent @ request_wire C R k draw))))"
proof -
  let ?ks = "recv_stream C k (drop 8 draw)"
  obtain bs e where p: "peer (sent @ request_wire C R k draw) = (bs, e)" by fastforce
  let ?s = "pending @ bs"
  let ?d = "ctr ?ks 0 ?s"
  have cut: "ctr ?ks 4 (take n (drop 4 ?s)) = take n (drop 4 ?d)" if "4 + n \<le> length ?s" for n
    using that ctr_drop [of 4 ?s ?ks 0] ctr_take [of n "drop 4 ?s" ?ks 4] by simp
  have first: "ctr ?ks 0 (take 4 ?s) = take 4 ?d" if "4 \<le> length ?s"
    using that ctr_take [of 4 ?s ?ks 0] by simp
  have "exchange_obfuscated2_respq C R Written peer sent pending k False = Some (Inr ())
    \<longleftrightarrow> 4 \<le> length ?s \<and> \<not> (from_le (take 4 ?d) < 24 \<or> 4096 < from_le (take 4 ?d)) \<and> 4 + from_le (take 4 ?d) \<le> length ?s
      \<and> validate_res_pq (take (from_le (take 4 ?d)) (drop 4 ?d)) (ob_nonce R) = None"
    using assms first cut p unfolding exchange_obfuscated2_respq_def request_wire_def
    by (auto simp: Let_def on_wire_def read_reply_def bindE_Inr_iff read_or_Inr_iff split: option.splits if_splits)
  then show ?thesis unfolding good_frame_def Let_def p by auto
qed

lemma finished_ok_iff:
  assumes "fails_plainly r"
  shows "(\<exists>p. finished E (respq_result rtt r) = Inr p \<and> pb_verdict p = OK) \<longleftrightarrow> r = Inr ()"
proof
  assume "\<exists>p. finished E (respq_result rtt r) = Inr p \<and> pb_verdict p = OK"
  then show "r = Inr ()" using finished_respq [OF assms] by fastforce
qed (simp add: finished_def respq_result_def)

lemma orig_probe_runs:
  assumes "parse_mtproxy_orig_secret secret = Inr k" "me_open E = Opened t0 t1"
  shows "probe_mtproto_orig C E secret =
    map_option (\<lambda>r. finished E (respq_result (fmul (fsub t1 t0) 1000) r))
      (exchange_obfuscated2_respq C (me_randoms E) (me_write_request E) (me_peer E) [] [] k False)"
  using assms by (simp add: probe_mtproto_orig_def open_mtproto_tcp_def)

lemma exchange_terminates:
  "first_draw (ob_draws R) = Some draw \<Longrightarrow> \<exists>r. exchange_obfuscated2_respq C R w peer sent pending k wrap = Some r"
  by (simp add: exchange_obfuscated2_respq_def)

text \<open>
  C28. The probe of the original MTProxy reports OK exactly when the peer's bytes, decrypted with
  the key stream of the secret and of the init frame it sent, begin with a frame that holds a
  \<open>resPQ\<close> with the nonce of this request: no other answer is taken for a working proxy.
\<close>

theorem orig_probe_ok_iff:
  assumes "parse_mtproxy_orig_secret secret = Inr k" "me_open E = Opened t0 t1" "me_write_request E = Written"
    "first_draw (ob_draws (me_randoms E)) = Some draw" "length (ob_nonce (me_randoms E)) = 16"
  shows "(\<exists>p. probe_mtproto_orig C E secret = Some (Inr p) \<and> pb_verdict p = OK)
    \<longleftrightarrow> respq_answer (ob_nonce (me_randoms E))
      (ctr (recv_stream C k (drop 8 draw)) 0 (fst (me_peer E (request_wire C (me_randoms E) k draw))))"
proof -
  let ?x = "exchange_obfuscated2_respq C (me_randoms E) Written (me_peer E) [] [] k False"
  obtain r where r: "?x = Some r" using exchange_terminates [OF assms(4)] by blast
  have "(\<exists>p. probe_mtproto_orig C E secret = Some (Inr p) \<and> pb_verdict p = OK) \<longleftrightarrow> r = Inr ()"
    using finished_ok_iff [OF fails_plainly_exchange [OF r]] by (simp add: orig_probe_runs [OF assms(1,2)] assms(3) r)
  also have "\<dots> \<longleftrightarrow> ?x = Some (Inr ())" by (simp add: r)
  finally show ?thesis
    by (simp only: exchange_plain_iff [OF assms(4)] good_frame_iff_answer [OF assms(5)] append_Nil)
qed

section \<open>The peers that the probes are written for\<close>

text \<open>
  A proxy with the secret takes the key part out of the init frame, decrypts the rest, looks for
  the transport tag, and hands the message on; the data centre answers a request for \<open>pq\<close> with
  its nonce. What it answers is encrypted with the reversed key part.
\<close>

definition dc_answer :: "byte list \<Rightarrow> byte list \<Rightarrow> byte list \<Rightarrow> byte list \<Rightarrow> byte list option" where
  "dc_answer msg_id rest pad m =
     (if take 8 m = replicate 8 0 \<and> from_le (take 4 (drop 16 m)) = 20 \<and> from_le (take 4 (drop 20 m)) = nat TL_ID_REQ_PQ_MULTI
        \<and> 40 \<le> length m
      then Some (respq_message msg_id (take 16 (drop 24 m)) rest pad) else None)"

definition proxy_reply :: "crypto \<Rightarrow> byte list \<Rightarrow> (byte list \<Rightarrow> byte list option) \<Rightarrow> byte list \<Rightarrow> byte list" where
  "proxy_reply C secret_key dc sent =
     (let key_part = take 48 (drop 8 sent);
          plain = ctr (send_stream C secret_key key_part) 56 (drop 56 sent);
          frame = drop 8 plain; n = from_le (take 4 frame)
      in if take 4 plain \<noteq> TRANSPORT_TAG_DD \<or> length frame < 4 + n then []
         else case dc (take n (drop 4 frame)) of
           None \<Rightarrow> []
         | Some m \<Rightarrow> ctr (recv_stream C secret_key key_part) 0 (little_endian 4 (int (length m)) @ m))"

lemma first_draw_in: "first_draw ds = Some d \<Longrightarrow> d \<in> set ds \<and> draw_ok d"
  by (induction ds rule: first_draw.induct) (auto split: if_splits)

text \<open>What the proxy makes of the request.\<close>

lemma length_generate_msg_id [simp]: "length (generate_mtproto_msg_id now) = 8"
  by (simp add: generate_mtproto_msg_id_def Let_def)

lemma init_decrypts:
  assumes "length draw = 56" "2 \<le> length filler"
  shows "\<exists>f. length f = 2 \<and> build_obfuscated2_init C k draw filler
    = draw @ ctr (send_stream C k (drop 8 draw)) 56 (TRANSPORT_TAG_DD @ little_endian 2 1 @ f)"
proof -
  let ?ks = "send_stream C k (drop 8 draw)"
  have "ctr ?ks 56 (TRANSPORT_TAG_DD @ little_endian 2 1 @ ctr ?ks 62 (take 2 filler))
      = ctr ?ks 56 TRANSPORT_TAG_DD @ ctr ?ks 60 (little_endian 2 1) @ take 2 filler"
    by (simp add: ctr_append) (simp add: TRANSPORT_TAG_DD_def)
  moreover have "build_obfuscated2_init C k draw filler
      = draw @ ctr ?ks 56 TRANSPORT_TAG_DD @ ctr ?ks 60 (little_endian 2 1) @ take 2 filler"
    by (simp add: build_obfuscated2_init_def Let_def ctr_def TRANSPORT_TAG_DD_def xor_bytes_commute [of "[0xDD, 0xDD, 0xDD, 0xDD]"]
        xor_bytes_commute [of "little_endian 2 1"])
  ultimately show ?thesis using assms(2) by (intro exI [of _ "ctr ?ks 62 (take 2 filler)"]) simp
qed

lemma proxy_reply_to_request:
  assumes "length draw = 56" "2 \<le> length (ob_filler R)" "length (ob_nonce R) = 16" "length (ob_pad R) \<le> 15"
  shows "proxy_reply C k (dc_answer msg_id rest pad) (request_wire C R k draw)
    = ctr (recv_stream C k (drop 8 draw)) 0
        (little_endian 4 (int (length (respq_message msg_id (ob_nonce R) rest pad))) @ respq_message msg_id (ob_nonce R) rest pad)"
proof -
  let ?ks = "send_stream C k (drop 8 draw)"
  let ?m = "replicate 8 0 @ generate_mtproto_msg_id (ob_now R) @ little_endian 4 20 @ little_endian 4 TL_ID_REQ_PQ_MULTI
    @ ob_nonce R @ ob_pad R"
  let ?n = "40 + length (ob_pad R)"
  have frame: "req_pq_frame (generate_mtproto_msg_id (ob_now R)) (ob_nonce R) (ob_pad R) = little_endian 4 (int ?n) @ ?m"
    using assms(3) by (simp add: req_pq_frame_def Let_def add.commute)
  obtain f where f: "length f = 2" "request_wire C R k draw
      = draw @ ctr ?ks 56 (TRANSPORT_TAG_DD @ little_endian 2 1 @ f) @ ctr ?ks 64 (little_endian 4 (int ?n) @ ?m)"
    using init_decrypts [OF assms(1,2), of C k] unfolding request_wire_def build_req_pq_frame_def frame by auto
  have tag: "length TRANSPORT_TAG_DD = 4" by (simp add: TRANSPORT_TAG_DD_def)
  have wire: "request_wire C R k draw = draw @ ctr ?ks 56 ((TRANSPORT_TAG_DD @ little_endian 2 1 @ f) @ little_endian 4 (int ?n) @ ?m)"
    unfolding f(2) ctr_append [of ?ks 56 "TRANSPORT_TAG_DD @ little_endian 2 1 @ f"] using f(1) tag by simp
  have key: "take 48 (drop 8 (request_wire C R k draw)) = drop 8 draw" unfolding wire using assms(1) by simp
  have plain: "ctr ?ks 56 (drop 56 (request_wire C R k draw))
      = (TRANSPORT_TAG_DD @ little_endian 2 1 @ f) @ little_endian 4 (int ?n) @ ?m"
    unfolding wire using assms(1) by simp
  have n: "from_le (little_endian 4 (int ?n)) = ?n" by (rule from_le_of_length) (use assms(4) in simp)
  have ids: "from_le (little_endian 4 20) = 20" "from_le (little_endian 4 TL_ID_REQ_PQ_MULTI) = nat TL_ID_REQ_PQ_MULTI"
    using from_le_little_endian [of 20 4] from_le_little_endian [of TL_ID_REQ_PQ_MULTI 4] by (simp_all add: TL_ID_REQ_PQ_MULTI_def)
  have dc: "dc_answer msg_id rest pad ?m = Some (respq_message msg_id (ob_nonce R) rest pad)"
    using ids assms(3) by (simp add: dc_answer_def)
  have lm: "length ?m = ?n" using assms(3) by simp
  have drop8: "drop 8 ((TRANSPORT_TAG_DD @ little_endian 2 1 @ f) @ little_endian 4 (int ?n) @ ?m) = little_endian 4 (int ?n) @ ?m"
    and take4: "take 4 ((TRANSPORT_TAG_DD @ little_endian 2 1 @ f) @ little_endian 4 (int ?n) @ ?m) = TRANSPORT_TAG_DD"
    using f(1) tag by simp_all
  have parts: "take 4 (little_endian 4 (int ?n) @ ?m) = little_endian 4 (int ?n)" "drop 4 (little_endian 4 (int ?n) @ ?m) = ?m"
    "take ?n ?m = ?m" "length (little_endian 4 (int ?n) @ ?m) = 4 + ?n"
    using lm by simp_all
  show ?thesis unfolding proxy_reply_def Let_def key plain take4 drop8 parts n dc by simp
qed

lemma draw_exists:
  assumes "\<exists>d \<in> set ds. draw_ok d" "\<forall>d \<in> set ds. length d = 56"
  shows "\<exists>draw. first_draw ds = Some draw \<and> length draw = 56"
proof -
  have "first_draw ds \<noteq> None" using assms(1) by (induction ds rule: first_draw.induct) auto
  then obtain draw where "first_draw ds = Some draw" by blast
  then show ?thesis using first_draw_in assms(2) by blast
qed

lemma answer_good:
  assumes "length msg_id = 8" "length nonce = 16" "length rest + length pad \<le> 4000"
  shows "good_frame nonce (little_endian 4 (int (length (respq_message msg_id nonce rest pad))) @ respq_message msg_id nonce rest pad)"
proof -
  have "length (respq_message msg_id nonce rest pad) \<le> 4096"
    using assms(3) length_respq_message [OF assms(1,2), of rest pad] by simp
  then have "respq_answer nonce (little_endian 4 (int (length (respq_message msg_id nonce rest pad))) @ respq_message msg_id nonce rest pad @ [])"
    unfolding respq_answer_def using assms(1) by blast
  then show ?thesis using good_frame_iff_answer [OF assms(2)] by simp
qed

lemma request_wire_nonempty: "length draw = 56 \<Longrightarrow> 0 < length (request_wire C R k draw)"
  by (simp add: request_wire_def build_obfuscated2_init_def Let_def)

text \<open>
  The probe and an honest proxy understand each other: whatever the random bytes, the clock
  and the answer's identifier, rest and padding are, a proxy that holds the secret, relays the
  request and encrypts the answer makes the probe report OK with the connect time, even when the
  connection then stalls or ends.
\<close>

theorem orig_probe_accepts_honest_proxy:
  assumes "parse_mtproxy_orig_secret secret = Inr k" "me_open E = Opened t0 t1" "me_write_request E = Written"
    "\<exists>d \<in> set (ob_draws (me_randoms E)). draw_ok d" "\<forall>d \<in> set (ob_draws (me_randoms E)). length d = 56"
    "length (ob_nonce (me_randoms E)) = 16" "2 \<le> length (ob_filler (me_randoms E))" "length (ob_pad (me_randoms E)) \<le> 15"
    "length msg_id = 8" "length rest + length pad \<le> 4000"
    "\<forall>sent. fst (me_peer E sent) = proxy_reply C k (dc_answer msg_id rest pad) sent"
  shows "\<exists>p. probe_mtproto_orig C E secret = Some (Inr p) \<and> pb_verdict p = OK \<and> pb_handshake_ok p
    \<and> pb_rtt_ms p = Some (fmul (fsub t1 t0) 1000)"
proof -
  let ?R = "me_randoms E"
  obtain draw where draw: "first_draw (ob_draws ?R) = Some draw" "length draw = 56"
    using draw_exists [OF assms(4,5)] by blast
  have "exchange_obfuscated2_respq C ?R Written (me_peer E) [] [] k False = Some (Inr ())"
    unfolding exchange_plain_iff [OF draw(1)]
    using proxy_reply_to_request [OF draw(2) assms(7,6,8), of C k msg_id rest pad] answer_good [OF assms(9,6,10)]
    by (simp add: assms(11))
  then show ?thesis
    by (simp add: orig_probe_runs [OF assms(1,2)] assms(3) respq_result_def finished_def)
qed

section \<open>Record framing is transparent\<close>

definition tls_record :: "byte \<Rightarrow> byte list \<Rightarrow> byte list" where
  "tls_record t body = [t, 3, 3] @ u16 (length body) @ body"

definition record_body :: "byte list \<Rightarrow> bool" where
  "record_body b \<longleftrightarrow> b \<noteq> [] \<and> length b \<le> 16384"

lemma tls_record_parts:
  assumes "length b < 65536"
  shows "length (tls_record t b) = 5 + length b" "take 5 (tls_record t b @ xs) = [t, 3, 3] @ u16 (length b)"
    "drop 5 (tls_record t b @ xs) = b @ xs" "tls_record t b ! 0 = t"
    "from_u16 (([t, 3, 3] @ u16 (length b)) ! 3) (([t, 3, 3] @ u16 (length b)) ! 4) = length b"
proof -
  obtain x y where u: "u16 (length b) = [x, y]" by (simp add: u16_def)
  then show "length (tls_record t b) = 5 + length b" "take 5 (tls_record t b @ xs) = [t, 3, 3] @ u16 (length b)"
    "drop 5 (tls_record t b @ xs) = b @ xs" "tls_record t b ! 0 = t" by (simp_all add: tls_record_def)
  show "from_u16 (([t, 3, 3] @ u16 (length b)) ! 3) (([t, 3, 3] @ u16 (length b)) ! 4) = length b"
    using from_u16_u16 [OF assms] u by simp
qed

lemma read_inner_enough: "n \<le> length buf \<Longrightarrow> read_inner n buf s = Inr (take n buf, drop n buf, s)"
  by (simp add: read_inner.simps)

lemma read_inner_empty: "\<not> n \<le> length buf \<Longrightarrow> \<exists>e. read_inner n buf ([], en) = Inl e"
  by (subst read_inner.simps) (auto simp: read_or_def readexactly_def split: stream_end.split)

lemma read_inner_record:
  assumes "record_body b" "\<not> n \<le> length buf"
  shows "read_inner n buf (tls_record 0x17 b @ xs, e) = read_inner n (buf @ b) (xs, e)"
proof -
  have l: "length b < 65536" "b \<noteq> []" "length b \<le> 16384" using assms(1) by (simp_all add: record_body_def)
  note parts = tls_record_parts [OF l(1)]
  have hdr: "read_or sh ti 5 (tls_record 0x17 b @ xs, e) = Inr ([0x17, 3, 3] @ u16 (length b), (b @ xs, e))" for sh ti
    using parts(1) by (simp only: read_or_Inr_iff fst_conv snd_conv parts(2,3)) simp
  have body: "read_or sh ti (length b) (b @ xs, e) = Inr (b, (xs, e))" for sh ti
    by (simp add: read_or_Inr_iff)
  show ?thesis
    by (subst read_inner.simps) (use assms(2) l in \<open>simp add: hdr body parts(5) Let_def del: append_Cons append_Nil\<close>, simp)
qed

definition framed :: "byte list list \<Rightarrow> stream_end \<Rightarrow> stream" where
  "framed chunks e = (concat (map (tls_record 0x17) chunks), e)"

text \<open>Reading \<open>n\<close> bytes consumes as many records as it takes and keeps what is left of the last one.\<close>

definition framed_read :: "nat \<Rightarrow> byte list \<Rightarrow> byte list list \<Rightarrow> stream_end \<Rightarrow> stop + byte list \<times> byte list \<times> stream \<Rightarrow> bool" where
  "framed_read n buf chunks e r \<longleftrightarrow>
     (if n \<le> length (buf @ concat chunks) then \<exists>k \<le> length chunks. n \<le> length (buf @ concat (take k chunks))
          \<and> r = Inr (take n (buf @ concat (take k chunks)), drop n (buf @ concat (take k chunks)), framed (drop k chunks) e)
      else \<exists>x. r = Inl x)"

lemma framed_read_Cons:
  assumes "framed_read n (buf @ b) chunks e r"
  shows "framed_read n buf (b # chunks) e r"
proof (cases "n \<le> length (buf @ concat (b # chunks))")
  case True
  then obtain k where "k \<le> length chunks" "n \<le> length ((buf @ b) @ concat (take k chunks))"
    "r = Inr (take n ((buf @ b) @ concat (take k chunks)), drop n ((buf @ b) @ concat (take k chunks)), framed (drop k chunks) e)"
    using assms unfolding framed_read_def by auto
  then show ?thesis unfolding framed_read_def if_P [OF True] by (intro exI [of _ "Suc k"]) simp
qed (use assms in \<open>auto simp: framed_read_def\<close>)

lemma read_inner_framed:
  "\<forall>b \<in> set chunks. record_body b \<Longrightarrow> framed_read n buf chunks e (read_inner n buf (framed chunks e))"
proof (induction chunks arbitrary: buf)
  case Nil
  then show ?case using read_inner_enough [of n buf] read_inner_empty [of n buf e] by (auto simp: framed_read_def framed_def)
next
  case (Cons b chunks)
  show ?case
  proof (cases "n \<le> length buf")
    case True
    then show ?thesis using read_inner_enough [OF True] by (auto simp: framed_read_def intro!: exI [of _ 0])
  next
    case False
    have "read_inner n buf (framed (b # chunks) e) = read_inner n (buf @ b) (framed chunks e)"
      using read_inner_record [OF _ False, of b "concat (map (tls_record 0x17) chunks)" e] Cons.prems by (simp add: framed_def)
    then show ?thesis using framed_read_Cons Cons.IH [of "buf @ b"] Cons.prems by simp
  qed
qed

lemma read_reply_framed_Inr:
  assumes "\<forall>b \<in> set chunks. record_body b" "n \<le> length (buf @ concat chunks)"
  shows "\<exists>buf' chunks'. read_reply True n sh ti buf (framed chunks e) = Inr (take n (buf @ concat chunks), buf', framed chunks' e)
    \<and> buf' @ concat chunks' = drop n (buf @ concat chunks) \<and> set chunks' \<subseteq> set chunks"
proof -
  obtain k where k: "k \<le> length chunks" "n \<le> length (buf @ concat (take k chunks))"
    "read_inner n buf (framed chunks e) = Inr (take n (buf @ concat (take k chunks)), drop n (buf @ concat (take k chunks)),
      framed (drop k chunks) e)"
    using read_inner_framed [OF assms(1), of n buf e] assms(2) unfolding framed_read_def by auto
  have split: "buf @ concat chunks = (buf @ concat (take k chunks)) @ concat (drop k chunks)"
    by (metis append.assoc append_take_drop_id concat_append)
  have "take n (buf @ concat chunks) = take n (buf @ concat (take k chunks))"
    "drop n (buf @ concat (take k chunks)) @ concat (drop k chunks) = drop n (buf @ concat chunks)"
    unfolding split using k(2) by simp_all
  then show ?thesis using k(3) set_drop_subset [of k chunks] unfolding read_reply_def by force
qed

lemma read_reply_framed_Inl:
  "\<forall>b \<in> set chunks. record_body b \<Longrightarrow> \<not> n \<le> length (buf @ concat chunks)
    \<Longrightarrow> \<exists>x. read_reply True n sh ti buf (framed chunks e) = Inl x"
  using read_inner_framed [of chunks n buf e] by (simp add: framed_read_def read_reply_def)

lemma exchange_framed_iff:
  assumes "first_draw (ob_draws R) = Some draw" "\<forall>b \<in> set chunks. record_body b"
    "peer (sent @ on_wire True (request_wire C R k draw)) = framed chunks e"
  shows "exchange_obfuscated2_respq C R Written peer sent [] k True = Some (Inr ())
    \<longleftrightarrow> good_frame (ob_nonce R) (ctr (recv_stream C k (drop 8 draw)) 0 (concat chunks))"
proof -
  let ?ks = "recv_stream C k (drop 8 draw)"
  let ?s = "concat chunks"
  let ?d = "ctr ?ks 0 ?s"
  let ?n = "from_le (take 4 ?d)"
  have start: "exchange_obfuscated2_respq C R Written peer sent [] k True = Some (Inr ()) \<longleftrightarrow>
    bindE (read_reply True 4 (blocked ''orig_resPQ_truncated_len'') (blocked ''orig_resPQ_len_timeout_post_init'') [] (framed chunks e))
      (\<lambda>(length_ct, buf, s). let len = from_le (ctr ?ks 0 length_ct) in
        if len < 24 \<or> 4096 < len then Inl (blocked (''orig_resPQ_bad_outer_len='' @ str_of_nat len))
        else bindE (read_reply True len (blocked (''orig_resPQ_truncated_body_expected='' @ str_of_nat len))
            (Fail (mtg_error_result ''orig_resPQ_body_timeout'' ERROR)) buf s) (\<lambda>(body_ct, buf, s).
          case validate_res_pq (ctr ?ks 4 body_ct) (ob_nonce R) of Some e \<Rightarrow> Inl (Fail e) | None \<Rightarrow> Inr ())) = Inr ()"
    unfolding exchange_obfuscated2_respq_def assms(1) Let_def option.case
    by (simp add: request_wire_def [symmetric] assms(3))
  show ?thesis
  proof (cases "4 \<le> length ?s")
    case False
    then have "\<not> 4 \<le> length ([] @ concat chunks)" by simp
    then obtain x where "read_reply True 4 (blocked ''orig_resPQ_truncated_len'') (blocked ''orig_resPQ_len_timeout_post_init'') []
        (framed chunks e) = Inl x"
      using read_reply_framed_Inl [OF assms(2)] by blast
    with False show ?thesis unfolding start by (simp add: good_frame_def Let_def)
  next
    case True
    have four: "4 \<le> length ([] @ ?s)" using True by simp
    obtain buf cs where "read_reply True 4 (blocked []) (blocked []) [] (framed chunks e) = Inr (take 4 ([] @ ?s), buf, framed cs e)"
      and r: "buf @ concat cs = drop 4 ([] @ ?s)" "set cs \<subseteq> set chunks"
      using read_reply_framed_Inr [OF assms(2) four] by blast
    then have r1: "read_reply True 4 sh ti [] (framed chunks e) = Inr (take 4 ?s, buf, framed cs e)" for sh ti
      by (simp add: read_reply_def)
    have r2: "buf @ concat cs = drop 4 ?s" using r(1) by simp
    have bodies: "\<forall>b \<in> set cs. record_body b" using r(2) assms(2) by blast
    have first: "ctr ?ks 0 (take 4 ?s) = take 4 ?d" using ctr_take [of 4 ?s ?ks 0] True by simp
    have len: "length (buf @ concat cs) = length ?s - 4" by (simp only: r2 length_drop)
    show ?thesis
    proof (cases "4 + ?n \<le> length ?s")
      case False
      then have "\<not> ?n \<le> length (buf @ concat cs)" using len True by simp
      then obtain x where "read_reply True ?n (blocked (''orig_resPQ_truncated_body_expected='' @ str_of_nat ?n))
          (Fail (mtg_error_result ''orig_resPQ_body_timeout'' ERROR)) buf (framed cs e) = Inl x"
        using read_reply_framed_Inl [OF bodies] by blast
      with False show ?thesis unfolding start by (simp add: r1 first good_frame_def Let_def)
    next
      case ok: True
      then have "?n \<le> length (buf @ concat cs)" using len by simp
      then have second: "\<exists>b c. read_reply True ?n sh ti buf (framed cs e) = Inr (take ?n (drop 4 ?s), b, framed c e)" for sh ti
        using read_reply_framed_Inr [OF bodies, of ?n buf sh ti e] unfolding r2 by blast
      have cut: "ctr ?ks 4 (take ?n (drop 4 ?s)) = take ?n (drop 4 ?d)"
        using ok ctr_drop [of 4 ?s ?ks 0] ctr_take [of ?n "drop 4 ?s" ?ks 4] by simp
      show ?thesis unfolding start using True ok second [of "blocked (''orig_resPQ_truncated_body_expected='' @ str_of_nat ?n)"
          "Fail (mtg_error_result ''orig_resPQ_body_timeout'' ERROR)"]
        by (auto simp: r1 first cut good_frame_def Let_def split: option.splits)
    qed
  qed
qed

text \<open>
  C29. The framing of the answer into TLS records is transparent: whatever records of at most 16384
  bytes the peer cuts its answer into, the exchange over records ends well exactly when the exchange
  over the bare stream does on the bytes inside the records.
\<close>

theorem record_framing_transparent:
  assumes "\<forall>b \<in> set chunks. record_body b" "\<forall>sent. framed_peer sent = (concat (map (tls_record 0x17) chunks), e)"
    "\<forall>sent. fst (plain_peer sent) = concat chunks"
  shows "exchange_obfuscated2_respq C R Written framed_peer sent [] k True = Some (Inr ())
    \<longleftrightarrow> exchange_obfuscated2_respq C R Written plain_peer sent [] k False = Some (Inr ())"
proof (cases "first_draw (ob_draws R)")
  case (Some draw)
  show ?thesis
    unfolding exchange_plain_iff [OF Some]
    by (subst exchange_framed_iff [OF Some assms(1), of _ _ _ _ e]) (simp_all add: assms(2,3) framed_def)
qed (simp add: exchange_obfuscated2_respq_def)

section \<open>The welcome packet\<close>

lemma from_u16_bytes: "from_u16 x y < 65536"
proof -
  have "unat x < 256" "unat y < 256" using unsigned_less [of x] unsigned_less [of y] by simp_all
  then show ?thesis by (simp add: from_u16_def)
qed

lemma u16_from_u16: "u16 (from_u16 x y) = [x, y]"
proof -
  have b: "unat x < 256" "unat y < 256" using unsigned_less [of x] unsigned_less [of y] by simp_all
  have "from_u16 x y div 256 = unat x" "from_u16 x y mod 256 = unat y" using b by (simp_all add: from_u16_def)
  then show ?thesis by (simp add: u16_def)
qed

lemma welcome_record_iff:
  "read_one_welcome_record i t c m s = Inr (packet, s')
    \<longleftrightarrow> (\<exists>b. b \<noteq> [] \<and> length b < 65536 \<and> packet = tls_record t b \<and> c + length packet \<le> m \<and> fst s = packet @ fst s' \<and> snd s' = snd s)"
proof
  assume r: "read_one_welcome_record i t c m s = Inr (packet, s')"
  let ?h = "take 5 (fst s)"
  let ?n = "from_u16 (?h ! 3) (?h ! 4)"
  let ?b = "take ?n (drop 5 (fst s))"
  have r': "5 \<le> length (fst s)" "?h ! 0 = t" "take 2 (drop 1 ?h) = [3, 3]" "?n \<noteq> 0" "c + 5 + ?n \<le> m"
    "?n \<le> length (drop 5 (fst s))" "packet = ?h @ ?b" "s' = (drop ?n (drop 5 (fst s)), snd s)"
    using r unfolding read_one_welcome_record_def Let_def
    by (auto simp: bindE_Inr_iff read_or_Inr_iff not_less split: if_splits)
  obtain a0 a1 a2 a3 a4 where a: "?h = [a0, a1, a2, a3, a4]"
  proof -
    have five: "\<exists>a0 a1 a2 a3 a4. xs = [a0, a1, a2, a3, a4]" if "length xs = 5" for xs :: "byte list"
      using that by (auto simp: length_Suc_conv eval_nat_numeral)
    have "length ?h = 5" using r'(1) by simp
    from five [OF this] show thesis using that by blast
  qed
  have h: "?h = [t, 3, 3] @ u16 ?n" using r'(2,3) u16_from_u16 [of a3 a4] unfolding a by simp
  have lb: "length ?b = ?n" using r'(6) by simp
  have nb: "length ?b < 65536" using lb from_u16_bytes by metis
  have p: "packet = tls_record t ?b" using r'(7) h lb unfolding tls_record_def by (metis append.assoc)
  have "fst s = packet @ fst s'" unfolding r'(7,8) fst_conv append_assoc append_take_drop_id ..
  moreover have "?b \<noteq> []" using lb r'(4) by (metis length_0_conv)
  moreover have "c + length packet \<le> m" using p tls_record_parts(1) [OF nb, of t] r'(5) lb by simp
  ultimately show "\<exists>b. b \<noteq> [] \<and> length b < 65536 \<and> packet = tls_record t b \<and> c + length packet \<le> m \<and> fst s = packet @ fst s' \<and> snd s' = snd s"
    using nb p r'(8) by (intro exI [of _ ?b]) simp
next
  assume "\<exists>b. b \<noteq> [] \<and> length b < 65536 \<and> packet = tls_record t b \<and> c + length packet \<le> m \<and> fst s = packet @ fst s' \<and> snd s' = snd s"
  then obtain b where b: "b \<noteq> []" "length b < 65536" "packet = tls_record t b" "c + length packet \<le> m" "fst s = tls_record t b @ fst s'" "snd s' = snd s"
    by blast
  note parts = tls_record_parts [OF b(2)]
  have hdr: "read_or sh ti 5 s = Inr ([t, 3, 3] @ u16 (length b), (b @ fst s', snd s))" for sh ti
    using parts(1) [of t] by (simp only: read_or_Inr_iff b(5) parts(2,3)) simp
  have body: "read_or sh ti (length b) (b @ fst s', snd s) = Inr (b, s')" for sh ti
    using b(6) by (simp add: read_or_Inr_iff prod_eq_iff)
  have "c + 5 + length b \<le> m" using b(4) parts(1) [of t] by (simp add: b(3))
  then show "read_one_welcome_record i t c m s = Inr (packet, s')"
    unfolding read_one_welcome_record_def Let_def hdr bindE_simps prod.case parts(5) body
    using b(1,3) by (simp add: tls_record_def)
qed

lemma welcome_packet_iff:
  "read_mtproto_welcome_packet s = Inr (packet, s')
    \<longleftrightarrow> (\<exists>b1 b2 b3. b1 \<noteq> [] \<and> b2 \<noteq> [] \<and> b3 \<noteq> [] \<and> packet = tls_record 0x16 b1 @ tls_record 0x14 b2 @ tls_record 0x17 b3
      \<and> length packet \<le> 16384 \<and> fst s = packet @ fst s' \<and> snd s' = snd s)"
proof
  assume "read_mtproto_welcome_packet s = Inr (packet, s')"
  then obtain r1 s1 r2 s2 r3 where r: "read_one_welcome_record 0 0x16 0 16384 s = Inr (r1, s1)"
    "read_one_welcome_record 1 0x14 (length r1) 16384 s1 = Inr (r2, s2)"
    "read_one_welcome_record 2 0x17 (length (r1 @ r2)) 16384 s2 = Inr (r3, s')" "packet = r1 @ r2 @ r3"
    by (auto simp: read_mtproto_welcome_packet_def bindE_Inr_iff)
  then obtain b1 b2 b3 where "b1 \<noteq> []" "b2 \<noteq> []" "b3 \<noteq> []" "r1 = tls_record 0x16 b1" "r2 = tls_record 0x14 b2" "r3 = tls_record 0x17 b3"
    "length (r1 @ r2 @ r3) \<le> 16384" "fst s = (r1 @ r2 @ r3) @ fst s'" "snd s' = snd s"
    unfolding welcome_record_iff by auto
  then show "\<exists>b1 b2 b3. b1 \<noteq> [] \<and> b2 \<noteq> [] \<and> b3 \<noteq> [] \<and> packet = tls_record 0x16 b1 @ tls_record 0x14 b2 @ tls_record 0x17 b3
      \<and> length packet \<le> 16384 \<and> fst s = packet @ fst s' \<and> snd s' = snd s"
    using r(4) by metis
next
  assume "\<exists>b1 b2 b3. b1 \<noteq> [] \<and> b2 \<noteq> [] \<and> b3 \<noteq> [] \<and> packet = tls_record 0x16 b1 @ tls_record 0x14 b2 @ tls_record 0x17 b3
      \<and> length packet \<le> 16384 \<and> fst s = packet @ fst s' \<and> snd s' = snd s"
  then obtain b1 b2 b3 where b: "b1 \<noteq> []" "b2 \<noteq> []" "b3 \<noteq> []" "packet = tls_record 0x16 b1 @ tls_record 0x14 b2 @ tls_record 0x17 b3"
    "length packet \<le> 16384" "fst s = packet @ fst s'" "snd s' = snd s" by blast
  have "length b1 < 65536" "length b2 < 65536" "length b3 < 65536" using b(5) by (simp_all add: b(4) tls_record_def)
  then have
    "read_one_welcome_record 0 0x16 0 16384 s = Inr (tls_record 0x16 b1, (tls_record 0x14 b2 @ tls_record 0x17 b3 @ fst s', snd s))"
    "read_one_welcome_record 1 0x14 (length (tls_record 0x16 b1)) 16384 (tls_record 0x14 b2 @ tls_record 0x17 b3 @ fst s', snd s)
      = Inr (tls_record 0x14 b2, (tls_record 0x17 b3 @ fst s', snd s))"
    "read_one_welcome_record 2 0x17 (length (tls_record 0x16 b1) + length (tls_record 0x14 b2)) 16384 (tls_record 0x17 b3 @ fst s', snd s)
      = Inr (tls_record 0x17 b3, s')"
    using b unfolding welcome_record_iff by auto
  then show "read_mtproto_welcome_packet s = Inr (packet, s')"
    by (simp add: read_mtproto_welcome_packet_def b(4))
qed

text \<open>
  The packet of a server: a ServerHello with its random, the session id and the rest, then the two
  other records. With the secret, the random is the HMAC over the client's random and the packet
  with zeros for the random.
\<close>

definition welcome_packet :: "byte list \<Rightarrow> byte list \<Rightarrow> byte list \<Rightarrow> byte list \<Rightarrow> byte list \<Rightarrow> byte list \<Rightarrow> byte list" where
  "welcome_packet head session_id tail ccs noise rnd =
     tls_record 0x16 ([2] @ head @ rnd @ [of_nat (length session_id)] @ session_id @ tail) @ tls_record 0x14 ccs @ tls_record 0x17 noise"

definition honest_welcome :: "crypto \<Rightarrow> byte list \<Rightarrow> byte list \<Rightarrow> byte list \<Rightarrow> byte list \<Rightarrow> byte list \<Rightarrow> byte list \<Rightarrow> byte list \<Rightarrow> byte list" where
  "honest_welcome C k client_random head session_id tail ccs noise =
     (let packet = welcome_packet head session_id tail ccs noise
      in packet (cy_hmac C k (client_random @ packet (replicate 32 0))))"

lemma zero_random_welcome:
  assumes "length head = 5" "length rnd = 32"
  shows "zero_random (welcome_packet head session_id tail ccs noise rnd) = welcome_packet head session_id tail ccs noise (replicate 32 0)"
    "take 32 (drop 11 (welcome_packet head session_id tail ccs noise rnd)) = rnd"
  using assms by (simp_all add: welcome_packet_def tls_record_def zero_random_def)

lemma welcome_packet_parts:
  assumes "length head = 5" "length rnd = 32" "length session_id = 32"
    and p_def: "p = welcome_packet head session_id tail ccs noise rnd"
  shows "p ! 5 = 2" "p ! 43 = 32" "take 32 (drop 44 p) = session_id" "76 \<le> length p"
proof -
  obtain h0 h1 h2 h3 h4 where h: "head = [h0, h1, h2, h3, h4]" using assms(1) by (auto simp: length_Suc_conv eval_nat_numeral)
  let ?b = "[2] @ head @ rnd @ [of_nat (length session_id)] @ session_id @ tail"
  obtain l0 l1 where l: "u16 (length ?b) = [l0, l1]" by (simp add: u16_def)
  have first: "tls_record 0x16 ?b = [0x16, 3, 3, l0, l1] @ ?b" unfolding tls_record_def l by simp
  define more_bytes where "more_bytes = tail @ tls_record 0x14 ccs @ tls_record 0x17 noise"
  have p: "p = ([0x16, 3, 3, l0, l1, 2, h0, h1, h2, h3, h4] @ rnd) @ 32 # session_id @ more_bytes"
    unfolding p_def welcome_packet_def first more_bytes_def using assms(3) by (simp add: h)
  have n: "length ([0x16, 3, 3, l0, l1, 2, h0, h1, h2, h3, h4] @ rnd) = 43" using assms(2) by simp
  show "p ! 5 = 2" unfolding p by simp
  show "p ! 43 = 32" unfolding p by (rule nth_append_length [of "[0x16, 3, 3, l0, l1, 2, h0, h1, h2, h3, h4] @ rnd", unfolded n])
  show "take 32 (drop 44 p) = session_id" unfolding p using assms(2,3) by simp
  show "76 \<le> length p" unfolding p using assms(2,3) by simp
qed

lemma honest_welcome_valid:
  assumes "length head = 5" "length session_id = 32" "\<And>msg. length (cy_hmac C k msg) = 32"
  shows "validate_welcome_packet C (honest_welcome C k client_random head session_id tail ccs noise) session_id client_random k = None"
proof -
  define m where "m = cy_hmac C k (client_random @ welcome_packet head session_id tail ccs noise (replicate 32 0))"
  have m: "length m = 32" unfolding m_def by (rule assms(3))
  note parts = welcome_packet_parts [OF assms(1) m assms(2) refl, of tail ccs noise] zero_random_welcome [OF assms(1) m, of session_id tail ccs noise]
  have "cy_hmac C k (client_random @ zero_random (welcome_packet head session_id tail ccs noise m)) = m"
    by (simp only: parts(5) m_def [symmetric])
  then show ?thesis
    unfolding honest_welcome_def Let_def m_def [symmetric] validate_welcome_packet_def
    using parts(1-4,6) assms(2) by simp
qed

text \<open>
  The server of the fake-TLS proxy: it answers a hello whose random is the HMAC up to its last four
  bytes with the welcome packet, and what follows in the first record after it as the proxy does,
  its answer cut into records.
\<close>

definition faketls_server ::
    "crypto \<Rightarrow> byte list \<Rightarrow> (byte list \<Rightarrow> byte list) \<Rightarrow> (byte list \<Rightarrow> byte list option) \<Rightarrow> (byte list \<Rightarrow> byte list list) \<Rightarrow> stream_end \<Rightarrow> peer" where
  "faketls_server C k welcome dc chop e sent =
     (let hello = take 517 sent in
      if take 28 (xor_bytes (cy_hmac C k (zero_random hello)) (take 32 (drop 11 hello))) \<noteq> replicate 28 0 then ([], Eof)
      else if length sent \<le> 522 then (welcome hello, Stall)
      else (concat (map (tls_record 0x17) (chop (proxy_reply C k dc (drop 522 sent)))), e))"

lemma length_welcome_packet:
  assumes "length head = 5" "length rnd = 32" "length session_id = 32"
  shows "length (welcome_packet head session_id tail ccs noise rnd) = 86 + length tail + length ccs + length noise"
  using assms by (simp add: welcome_packet_def tls_record_def)

lemma honest_welcome_read:
  assumes "length head = 5" "length session_id = 32" "\<And>msg. length (cy_hmac C k msg) = 32"
    "ccs \<noteq> []" "noise \<noteq> []" "length tail + length ccs + length noise \<le> 16000"
  shows "read_mtproto_welcome_packet (honest_welcome C k client_random head session_id tail ccs noise, e)
    = Inr (honest_welcome C k client_random head session_id tail ccs noise, ([], e))"
  unfolding welcome_packet_iff honest_welcome_def Let_def
  using assms(4,5,6) length_welcome_packet [OF assms(1,3,2)]
  by (intro exI [of _ "[2] @ head @ cy_hmac C k (client_random @ welcome_packet head session_id tail ccs noise (replicate 32 0))
        @ [of_nat (length session_id)] @ session_id @ tail"] exI [of _ ccs] exI [of _ noise])
    (simp add: welcome_packet_def)

lemma proxy_probe_runs:
  assumes "faketls_stage C E secret = Inr (k, rtt, hello, pending)"
  shows "probe_mtproto_proxy C E secret = map_option (\<lambda>r. finished E (respq_result rtt r))
      (exchange_obfuscated2_respq C (me_randoms E) (me_write_request E) (me_peer E) hello pending k True)"
  using assms by (simp add: probe_mtproto_proxy_def)

text \<open>
  C27. The fake-TLS probe and an honest proxy understand each other through all three stages: the
  proxy authenticates the hello, the probe accepts its welcome packet, and the answer to the
  request, encrypted and cut into records of any size, ends in OK with the connect time.
\<close>

theorem proxy_probe_accepts_honest_server:
  assumes "parse_mtproto_secret secret = Inr (k, sni)" "length sni \<le> 282" "\<forall>msg. length (cy_hmac C k msg) = 32"
    "length (me_session_id E) = 32" "length (me_key_share E) = 32" "0 \<le> me_timestamp E" "me_timestamp E < 2 ^ 32"
    "me_open E = Opened t0 t1" "me_write_hello E = Written" "me_write_request E = Written"
    "\<exists>d \<in> set (ob_draws (me_randoms E)). draw_ok d" "\<forall>d \<in> set (ob_draws (me_randoms E)). length d = 56"
    "length (ob_nonce (me_randoms E)) = 16" "2 \<le> length (ob_filler (me_randoms E))" "length (ob_pad (me_randoms E)) \<le> 15"
    "length msg_id = 8" "length rest + length pad \<le> 4000"
    "length head = 5" "ccs \<noteq> []" "noise \<noteq> []" "length tail + length ccs + length noise \<le> 16000"
    "\<forall>xs. concat (chop xs) = xs \<and> (\<forall>b \<in> set (chop xs). record_body b)"
    "\<forall>sent. me_peer E sent = faketls_server C k
      (\<lambda>hello. honest_welcome C k (take 32 (drop 11 hello)) head (take 32 (drop 44 hello)) tail ccs noise)
      (dc_answer msg_id rest pad) chop e sent"
  shows "\<exists>p. probe_mtproto_proxy C E secret = Some (Inr p) \<and> pb_verdict p = OK \<and> pb_handshake_ok p
    \<and> pb_rtt_ms p = Some (fmul (fsub t1 t0) 1000)"
proof -
  let ?R = "me_randoms E"
  obtain draw where draw: "first_draw (ob_draws ?R) = Some draw" "length draw = 56"
    using draw_exists [OF assms(11,12)] by blast
  obtain hello random where hello: "build_mtproto_clienthello C (me_timestamp E) (me_session_id E) (me_key_share E) k sni
      = Inr (hello, me_session_id E, random)"
    "length hello = 517" "take 32 (drop 11 hello) = random" "take 32 (drop 44 hello) = me_session_id E"
    "xor_bytes (cy_hmac C k (zero_random hello)) random = replicate 28 0 @ little_endian 4 (me_timestamp E)"
    using hello_facts [OF assms(4,5,2,6,7), of C k] assms(3) by blast
  let ?w = "honest_welcome C k random head (me_session_id E) tail ccs noise"
  have known: "take 28 (xor_bytes (cy_hmac C k (zero_random hello)) (take 32 (drop 11 hello))) = replicate 28 0"
    unfolding hello(3,5) by simp
  have first: "me_peer E hello = (?w, Stall)"
    using known by (simp add: assms(23) faketls_server_def hello(2,3,4))
  have stage: "faketls_stage C E secret = Inr (k, fmul (fsub t1 t0) 1000, hello, [])"
    using honest_welcome_read [OF assms(18,4) _ assms(19-21), of C k random Stall] honest_welcome_valid [OF assms(18,4), of C k random tail ccs noise] assms(3)
    by (simp add: faketls_stage_def assms(1,8,9) hello(1) first open_mtproto_tcp_def send_clienthello_def)
  let ?x = "request_wire C ?R k draw"
  let ?msg = "respq_message msg_id (ob_nonce ?R) rest pad"
  let ?answer = "proxy_reply C k (dc_answer msg_id rest pad) ?x"
  have wire: "drop 522 (hello @ on_wire True ?x) = ?x" "522 < length (hello @ on_wire True ?x)"
    using hello(2) request_wire_nonempty [OF draw(2), of C ?R k] by (simp_all add: on_wire_def)
  have second: "me_peer E (hello @ on_wire True ?x) = framed (chop ?answer) e"
    using known wire by (simp add: assms(23) faketls_server_def hello(2) framed_def)
  have "good_frame (ob_nonce ?R) (ctr (recv_stream C k (drop 8 draw)) 0 (concat (chop ?answer)))"
    using proxy_reply_to_request [OF draw(2) assms(14,13,15), of C k msg_id rest pad] assms(22)
      answer_good [OF assms(16,13,17)] by simp
  then have "exchange_obfuscated2_respq C ?R Written (me_peer E) hello [] k True = Some (Inr ())"
    using exchange_framed_iff [where peer = "me_peer E" and sent = hello and chunks = "chop ?answer" and R = ?R and k = k
        and C = C and e = e and draw = draw] draw(1) second assms(22) by simp
  then show ?thesis
    by (simp add: proxy_probe_runs [OF stage] assms(10) respq_result_def finished_def)
qed

text \<open>
  C30. The fake-TLS hello authenticates the client: for every host of up to 282 bytes it has the
  517 bytes that the server's parser expects, and a server with the same secret that clears the
  random and computes the HMAC finds the random equal to it up to the last four bytes, which
  carry the client's clock.
\<close>

theorem clienthello_authenticates:
  assumes "length session_id = 32" "length key_share = 32" "length sni \<le> 282" "0 \<le> timestamp" "timestamp < 2 ^ 32"
    "\<And>msg. length (cy_hmac C secret_key msg) = 32"
  shows "\<exists>hello random. build_mtproto_clienthello C timestamp session_id key_share secret_key sni = Inr (hello, session_id, random)
    \<and> length hello = 517 \<and> take 32 (drop 11 hello) = random
    \<and> take 28 (xor_bytes (cy_hmac C secret_key (zero_random hello)) random) = replicate 28 0
    \<and> from_le (drop 28 (xor_bytes (cy_hmac C secret_key (zero_random hello)) random)) = nat timestamp"
proof -
  obtain hello random where h: "build_mtproto_clienthello C timestamp session_id key_share secret_key sni = Inr (hello, session_id, random)"
    "length hello = 517" "take 32 (drop 11 hello) = random"
    "xor_bytes (cy_hmac C secret_key (zero_random hello)) random = replicate 28 0 @ little_endian 4 timestamp"
    "from_le (drop 28 (xor_bytes (cy_hmac C secret_key (zero_random hello)) random)) = nat timestamp"
    using hello_facts [of session_id key_share sni timestamp C secret_key] assms by blast
  have "take 28 (xor_bytes (cy_hmac C secret_key (zero_random hello)) random) = replicate 28 0" unfolding h(4) by simp
  with h(1,2,3,5) show ?thesis by blast
qed

section \<open>Concrete runs\<close>

definition demo_crypto :: crypto where
  "demo_crypto = \<lparr>cy_sha256 = (\<lambda>m. take 32 (m @ replicate 32 0)), cy_hmac = (\<lambda>k m. replicate 32 (of_nat (length k + length m))),
     cy_keystream = (\<lambda>k iv i. of_nat (i + length k))\<rparr>"

definition demo_env :: "peer \<Rightarrow> mtproto_env" where
  "demo_env peer = \<lparr>me_open = Opened 0 1, me_write_hello = Written, me_write_request = Written, me_peer = peer,
     me_randoms = \<lparr>ob_draws = [replicate 56 0xEF, replicate 56 1], ob_filler = [4, 2], ob_nonce = replicate 16 5, ob_pad = [1, 2, 3], ob_now = 0\<rparr>,
     me_session_id = replicate 32 9, me_key_share = replicate 32 3, me_timestamp = 1700000000, me_start = 0, me_finish = 1\<rparr>"

definition demo_orig_secret :: string where
  "demo_orig_secret = ''dd000102030405060708090A0b0c0d0e0f''"

definition demo_faketls_secret :: string where
  "demo_faketls_secret = ''ee000102030405060708090A0b0c0d0e0f612e62''"

lemma demo_secrets:
  "parse_mtproxy_orig_secret demo_orig_secret = Inr (map of_nat [0..<16])"
  "parse_mtproto_secret demo_faketls_secret = Inr (map of_nat [0..<16], [0x61, 0x2E, 0x62])"
  by code_simp+

lemma from_le_demo: "from_le (replicate 4 1) = 16843009"
proof -
  have "replicate 4 1 = [1, 1, 1, 1 :: byte]" by (simp add: eval_nat_numeral)
  then show ?thesis by (simp add: from_le_def)
qed

lemma demo_draw: "draw_ok (replicate 56 1)" "first_draw (ob_draws (me_randoms (demo_env peer))) = Some (replicate 56 1)"
  by (simp_all add: draw_ok_def from_le_demo FORBIDDEN_FIRST_INTS_def demo_env_def)

lemma demo_fields [simp]:
  "me_open (demo_env peer) = Opened 0 1" "me_write_hello (demo_env peer) = Written" "me_write_request (demo_env peer) = Written"
  "me_peer (demo_env peer) = peer" "length (ob_nonce (me_randoms (demo_env peer))) = 16"
  "length (me_session_id (demo_env peer)) = 32" "length (me_key_share (demo_env peer)) = 32"
  "me_timestamp (demo_env peer) = 1700000000" "length (ob_filler (me_randoms (demo_env peer))) = 2"
  "length (ob_pad (me_randoms (demo_env peer))) = 3" "ob_draws (me_randoms (demo_env peer)) = [replicate 56 0xEF, replicate 56 1]"
  by (simp_all add: demo_env_def)

theorem clienthello_authenticates_witness:
  "\<exists>hello random. build_mtproto_clienthello demo_crypto 1700000000 (replicate 32 9) (replicate 32 3) [1, 2] [0x61, 0x2E, 0x62]
      = Inr (hello, replicate 32 9, random)
    \<and> length hello = 517 \<and> take 32 (drop 11 hello) = random
    \<and> take 28 (xor_bytes (cy_hmac demo_crypto [1, 2] (zero_random hello)) random) = replicate 28 0
    \<and> from_le (drop 28 (xor_bytes (cy_hmac demo_crypto [1, 2] (zero_random hello)) random)) = nat 1700000000"
  by (rule clienthello_authenticates) (simp_all add: demo_crypto_def)

theorem orig_probe_ok_iff_witness:
  "(\<exists>p. probe_mtproto_orig demo_crypto (demo_env (\<lambda>sent. (take 3 sent, Eof))) demo_orig_secret = Some (Inr p) \<and> pb_verdict p = OK)
    \<longleftrightarrow> respq_answer (ob_nonce (me_randoms (demo_env (\<lambda>sent. (take 3 sent, Eof)))))
      (ctr (recv_stream demo_crypto (map of_nat [0..<16]) (drop 8 (replicate 56 1))) 0
        (take 3 (request_wire demo_crypto (me_randoms (demo_env (\<lambda>sent. (take 3 sent, Eof)))) (map of_nat [0..<16]) (replicate 56 1))))"
  using orig_probe_ok_iff [OF demo_secrets(1) demo_fields(1,3) demo_draw(2) demo_fields(5), of demo_crypto "\<lambda>sent. (take 3 sent, Eof)"] by simp

theorem orig_probe_accepts_honest_proxy_witness:
  "\<exists>p. probe_mtproto_orig demo_crypto (demo_env (\<lambda>sent. (proxy_reply demo_crypto (map of_nat [0..<16])
      (dc_answer (replicate 8 6) [1, 2] [3]) sent, Stall))) demo_orig_secret = Some (Inr p) \<and> pb_verdict p = OK \<and> pb_handshake_ok p
    \<and> pb_rtt_ms p = Some (fmul (fsub 1 0) 1000)"
  by (rule orig_probe_accepts_honest_proxy [OF demo_secrets(1) demo_fields(1,3), where msg_id = "replicate 8 6" and rest = "[1, 2]" and pad = "[3]"])
    (use demo_draw(1) in \<open>simp_all\<close>)

definition demo_chop :: "byte list \<Rightarrow> byte list list" where
  "demo_chop xs = map (\<lambda>b. [b]) xs"

theorem record_framing_transparent_witness:
  "exchange_obfuscated2_respq demo_crypto (me_randoms (demo_env (\<lambda>sent. ([], Eof)))) Written
      (\<lambda>sent. (concat (map (tls_record 0x17) [[1], [2, 3]]), Stall)) [] [] [7] True = Some (Inr ())
    \<longleftrightarrow> exchange_obfuscated2_respq demo_crypto (me_randoms (demo_env (\<lambda>sent. ([], Eof)))) Written
      (\<lambda>sent. (concat [[1], [2, 3]], Eof)) [] [] [7] False = Some (Inr ())"
  by (rule record_framing_transparent [where e = Stall and chunks = "[[1], [2, 3]]"]) (simp_all add: record_body_def)

theorem proxy_probe_accepts_honest_server_witness:
  "\<exists>p. probe_mtproto_proxy demo_crypto (demo_env (faketls_server demo_crypto (map of_nat [0..<16])
      (\<lambda>hello. honest_welcome demo_crypto (map of_nat [0..<16]) (take 32 (drop 11 hello)) [0, 0, 0, 3, 3] (take 32 (drop 44 hello)) [8] [1] [4, 4])
      (dc_answer (replicate 8 6) [1, 2] [3]) demo_chop Eof)) demo_faketls_secret = Some (Inr p) \<and> pb_verdict p = OK \<and> pb_handshake_ok p
    \<and> pb_rtt_ms p = Some (fmul (fsub 1 0) 1000)"
  by (rule proxy_probe_accepts_honest_server [OF demo_secrets(2), where msg_id = "replicate 8 6" and rest = "[1, 2]" and pad = "[3]"
        and head = "[0, 0, 0, 3, 3]" and tail = "[8]" and ccs = "[1]" and noise = "[4, 4]" and chop = demo_chop and e = Eof])
    (use demo_draw(1) in \<open>simp_all add: demo_chop_def record_body_def\<close>, simp_all add: demo_crypto_def)

section \<open>What a reader of the hello and of the verdicts finds\<close>

text \<open>The types of the extensions as a parser of the hello sees them, at most \<open>n\<close> of them.\<close>

fun extension_types :: "nat \<Rightarrow> byte list \<Rightarrow> nat list" where
  "extension_types 0 bs = []"
| "extension_types (Suc n) bs =
     (case bs of
        t1 # t0 # l1 # l0 # rest \<Rightarrow> from_u16 t1 t0 # extension_types n (drop (from_u16 l1 l0) rest)
      | _ \<Rightarrow> [])"

lemma extension_types_Cons [simp]:
  "extension_types (Suc n) (t1 # t0 # l1 # l0 # rest) = from_u16 t1 t0 # extension_types n (drop (from_u16 l1 l0) rest)"
  by simp

declare extension_types.simps(2) [simp del]

lemma extension_types_sni:
  assumes "length sni \<le> 282"
  shows "extension_types (Suc n) (sni_extension sni @ rest) = 0 # extension_types n rest"
proof -
  let ?list = "u16 (length ([0] @ u16 (length sni) @ sni)) @ [0] @ u16 (length sni) @ sni"
  have "sni_extension sni @ rest = [0, 0] @ u16 (length ?list) @ ?list @ rest"
    by (simp only: sni_extension_def Let_def append_assoc)
  moreover obtain x y where u: "u16 (length ?list) = [x, y]" by (simp add: u16_def)
  moreover have "from_u16 x y = length ?list" using from_u16_u16 [of "length ?list"] assms u by simp
  ultimately show ?thesis by (simp add: from_u16_def)
qed

text \<open>
  The list of signature algorithms holds 20 bytes of algorithms where it declares 18, so the last
  algorithm is read as the header of the next extension: its type 0x0201 and a length of 43, which
  hides \<open>supported_versions\<close>, \<open>psk_key_exchange_modes\<close> and the beginning of \<open>key_share\<close>.
\<close>

lemma signature_algorithms_swallow_extensions:
  assumes "length sni \<le> 282"
  shows "extension_types 7 (base_extensions sni key_share) = [0x17, 0xFF01, 0x00, 0x0A, 0x0B, 0x0D, 0x0201]"
proof -
  define post where "post = [0x00, 0x0A, 0x00, 0x08, 0x00, 0x06, 0x00, 0x1D, 0x00, 0x17, 0x00, 0x18] @ [0x00, 0x0B, 0x00, 0x02, 0x01, 0x00]
     @ SIGNATURE_ALGORITHMS @ [0x00, 0x2B, 0x00, 0x05, 0x04, 0x03, 0x04, 0x03, 0x03]
     @ [0x00, 0x2D, 0x00, 0x02, 0x01, 0x01] @ [0x00, 0x33, 0x00, 0x26, 0x00, 0x24, 0x00, 0x1D, 0x00, 0x20] @ key_share"
  have "extension_types (Suc (Suc (Suc (Suc 0)))) post = [0x0A, 0x0B, 0x0D, 0x0201]"
    by (simp add: post_def SIGNATURE_ALGORITHMS_def from_u16_def)
  moreover have "base_extensions sni key_share = [0x00, 0x17, 0x00, 0x00, 0xFF, 0x01, 0x00, 0x01, 0x00] @ sni_extension sni @ post"
    by (simp add: base_extensions_def post_def)
  ultimately have "extension_types (Suc (Suc (Suc (Suc (Suc (Suc (Suc 0))))))) (base_extensions sni key_share)
      = [0x17, 0xFF01, 0x00, 0x0A, 0x0B, 0x0D, 0x0201]"
    by (simp add: from_u16_def extension_types_sni [OF assms])
  moreover have "(7::nat) = Suc (Suc (Suc (Suc (Suc (Suc (Suc 0))))))" by simp
  ultimately show ?thesis by (simp only:)
qed

text \<open>
  Every result of the two MTProto probes is well formed: the verdict is OK, BLOCKED or ERROR,
  and it is OK exactly when the handshake is marked complete. \<open>HANDSHAKE_ONLY\<close>, which the
  documentation of both probes promises for an answer that never comes, does not occur.
\<close>

theorem mtproto_probes_never_handshake_only:
  assumes "probe_mtproto_orig C E secret = Some (Inr p) \<or> probe_mtproto_proxy C E secret = Some (Inr p)"
  shows "pb_verdict p \<in> {OK, BLOCKED, ERROR} \<and> (pb_verdict p = OK \<longleftrightarrow> pb_handshake_ok p)"
proof -
  have exch: "pb_verdict p \<in> {OK, BLOCKED, ERROR} \<and> (pb_verdict p = OK \<longleftrightarrow> pb_handshake_ok p)"
    if "exchange_obfuscated2_respq C R w peer sent pending k wrap = Some r" "finished E (respq_result rtt r) = Inr p"
    for rtt R w peer sent pending k wrap r
    using finished_respq [OF fails_plainly_exchange [OF that(1)] that(2)] by auto
  have stop: "pb_verdict p \<in> {OK, BLOCKED, ERROR} \<and> (pb_verdict p = OK \<longleftrightarrow> pb_handshake_ok p)"
    if "finished E (Inl e) = Inr p" "plain_failure e" for e
    using finished_failure [OF that(2,1)] by auto
  have orig: "fails_plainly (bindE (parse_mtproxy_orig_secret secret) (\<lambda>key. bindE (open_mtproto_tcp (me_open E)) (\<lambda>rtt. Inr (key, rtt))))"
    unfolding parse_mtproxy_orig_secret_def Let_def by (auto intro!: failure_intros fails_plainly_open split: option.split)
  have run: "pb_verdict p \<in> {OK, BLOCKED, ERROR} \<and> (pb_verdict p = OK \<longleftrightarrow> pb_handshake_ok p)"
    if "map_option (\<lambda>r. finished E (respq_result rtt r)) (exchange_obfuscated2_respq C R w peer sent pending k wrap) = Some (Inr p)"
    for rtt R w peer sent pending k wrap
    using that exch by blast
  show ?thesis
    using assms
  proof
    assume o: "probe_mtproto_orig C E secret = Some (Inr p)"
    show ?thesis
    proof (cases "bindE (parse_mtproxy_orig_secret secret) (\<lambda>key. bindE (open_mtproto_tcp (me_open E)) (\<lambda>rtt. Inr (key, rtt)))")
      case (Inl e)
      show ?thesis by (rule stop [of e]) (use Inl o orig in \<open>simp_all add: probe_mtproto_orig_def\<close>)
    next
      case (Inr a)
      then show ?thesis using o by (cases a) (simp only: probe_mtproto_orig_def sum.case prod.case, erule run)
    qed
  next
    assume o: "probe_mtproto_proxy C E secret = Some (Inr p)"
    show ?thesis
    proof (cases "faketls_stage C E secret")
      case (Inl e)
      show ?thesis
        by (rule stop [of e]) (use Inl o fails_plainly_faketls_stage [of C E secret] in \<open>simp_all add: probe_mtproto_proxy_def\<close>)
    next
      case (Inr a)
      then show ?thesis using o by (cases a) (simp only: probe_mtproto_proxy_def sum.case prod.case, erule run)
    qed
  qed
qed

theorem mtproto_probes_never_handshake_only_witness:
  "pb_verdict (stamp_elapsed 0 1 (mtg_error_result ''orig_secret_not_hex'' ERROR)) \<in> {OK, BLOCKED, ERROR}
    \<and> (pb_verdict (stamp_elapsed 0 1 (mtg_error_result ''orig_secret_not_hex'' ERROR)) = OK
      \<longleftrightarrow> pb_handshake_ok (stamp_elapsed 0 1 (mtg_error_result ''orig_secret_not_hex'' ERROR)))"
proof -
  have "parse_mtproxy_orig_secret ''zz'' = Inl (Fail (mtg_error_result ''orig_secret_not_hex'' ERROR))" by code_simp
  then have "probe_mtproto_orig demo_crypto (demo_env (\<lambda>sent. ([], Eof))) ''zz''
      = Some (Inr (stamp_elapsed 0 1 (mtg_error_result ''orig_secret_not_hex'' ERROR)))"
    by (simp add: probe_mtproto_orig_def finished_def demo_env_def)
  then show ?thesis by (intro mtproto_probes_never_handshake_only [OF disjI1])
qed

text \<open>A reset while the answer is read leaves the probe as an exception, which its caller reports as ERROR.\<close>

lemma reset_while_reading_is_an_error:
  assumes "parse_mtproxy_orig_secret secret = Inr k" "me_open E = Opened t0 t1" "me_write_request E = Written"
    "first_draw (ob_draws (me_randoms E)) = Some draw" "\<forall>sent. me_peer E sent = ([], Reset message)"
    "run name (factory creds) = map_sum (\<lambda>e. (e, elapsed)) id (the (probe_mtproto_orig C E secret))"
  shows "probe_mtproto_orig C E secret = Some (Inl message)" "pb_verdict (run_one_probe run name factory creds) = ERROR"
proof -
  show r: "probe_mtproto_orig C E secret = Some (Inl message)"
  proof -
    have "read_or a b 4 ([], Reset message) = Inl (Raised message)" for a b by (simp add: read_or_def readexactly_def)
    then have "exchange_obfuscated2_respq C (me_randoms E) Written (me_peer E) [] [] k False = Some (Inl (Raised message))"
      by (simp add: exchange_obfuscated2_respq_def assms(4,5) read_reply_def Let_def)
    then show ?thesis by (simp add: orig_probe_runs [OF assms(1,2)] assms(3) respq_result_def finished_def)
  qed
  show "pb_verdict (run_one_probe run name factory creds) = ERROR"
    by (simp add: run_one_probe_def assms(6) r ProbeResult_default_def)
qed

text \<open>
  A stall before the body is ERROR on the bare stream, but BLOCKED and a length timeout on the framed
  one when the length came in a record of its own.
\<close>

lemma framed_body_stall_is_blocked:
  assumes "0 < n"
  shows "read_reply True n short timeout [] ([], Stall) = Inl (blocked ''orig_resPQ_len_timeout_post_init'')"
    "read_reply False n short timeout [] ([], Stall) = Inl timeout"
  using assms by (simp_all add: read_reply_def read_inner.simps read_or_def readexactly_def)

section \<open>The secret from the listener to the probe\<close>

lemma hex_val_digit:
  assumes "n < 16"
  shows "hex_val (hex_digit n) = Some n" "\<not> fromhex_blank (hex_digit n)"
proof -
  have "n \<in> set [0,1,2,3,4,5,6,7,8,9,10,11,12,13,14,15]" using assms by (simp only: set_simps insert_iff empty_iff) presburger
  then have h: "hex_digit n = ''0123456789abcdef'' ! n"
    unfolding set_simps insert_iff empty_iff by (elim disjE) (simp_all add: hex_digit_def char_of_def bit_0)
  show "hex_val (hex_digit n) = Some n" unfolding h by (rule hex_digit_val [OF assms])
  have "list_all (\<lambda>c. \<not> fromhex_blank c) ''0123456789abcdef''" by code_simp
  then show "\<not> fromhex_blank (hex_digit n)" unfolding h list_all_length using assms by simp
qed

lemma bytes_fromhex_hex_byte:
  "bytes_fromhex (hex_byte c @ s) = map_option (Cons (of_char c)) (bytes_fromhex s)"
proof -
  have n: "(of_char c :: nat) < 256" by simp
  then have d: "of_char c div 16 < (16::nat)" "of_char c mod 16 < (16::nat)" by (simp_all add: less_mult_imp_div_less)
  have "(of_nat (16 * (of_char c div 16) + of_char c mod 16) :: byte) = of_char c" by (simp only: mult_div_mod_eq of_nat_of_char)
  then show ?thesis
    using hex_val_digit [OF d(1)] hex_val_digit [OF d(2)] by (simp add: hex_byte_def Let_def split: option.split)
qed

lemma bytes_fromhex_hex: "bytes_fromhex (concat (map hex_byte h)) = Some (map of_char h)"
  by (induction h) (simp_all add: bytes_fromhex_hex_byte)

lemma bytes_fromhex_append:
  "bytes_fromhex s = Some bs \<Longrightarrow> list_all (\<lambda>c. \<not> fromhex_blank c) s \<Longrightarrow> bytes_fromhex (s @ t) = map_option ((@) bs) (bytes_fromhex t)"
proof (induction s arbitrary: bs rule: bytes_fromhex.induct)
  case (3 c l s)
  then obtain x y bs' where d: "hex_val c = Some x" "hex_val l = Some y" "bytes_fromhex s = Some bs'" "bs = of_nat (16 * x + y) # bs'"
    by (auto split: option.splits)
  then have "bytes_fromhex (s @ t) = map_option ((@) bs') (bytes_fromhex t)" using 3 by simp
  then show ?case using d 3(4) by (simp split: option.split)
qed ((cases "bytes_fromhex t"; simp), simp)

text \<open>
  C31. What the listener issues as a fake-TLS secret, the probe parses back: for every ASCII host
  and every 16 hexadecimal byte pairs, the probe gets those bytes as the key and the bytes of the host.
\<close>

theorem faketls_secret_round_trip:
  assumes "faketls_secret sni name hex = Inr secret" "dict_get sni name = Some host" "host \<noteq> []"
    "bytes_fromhex hex = Some key" "length key = 16" "list_all (\<lambda>c. \<not> fromhex_blank c) hex"
  shows "parse_mtproto_secret secret = Inr (key, map of_char host)"
proof -
  have ascii: "list_all (\<lambda>c. (of_char c :: nat) < 128) host" and s: "secret = ''ee'' @ hex @ concat (map hex_byte host)"
    using assms(1,2) by (auto simp: faketls_secret_def ascii_hex_def split: if_splits)
  have ee: "bytes_fromhex ''ee'' = Some [0xEE]" "list_all (\<lambda>c. \<not> fromhex_blank c) ''ee''" by code_simp+
  have "bytes_fromhex secret = Some ([0xEE] @ key @ map of_char host)"
    unfolding s using bytes_fromhex_append [OF ee] bytes_fromhex_append [OF assms(4,6)] by (simp add: bytes_fromhex_hex)
  moreover have "list_all (\<lambda>b. b < 0x80) (map of_char host :: byte list)"
  proof -
    have "(of_char c :: byte) < 0x80" if "(of_char c :: nat) < 128" for c
    proof -
      have "unat (of_nat (of_char c) :: byte) = of_char c" using that by (simp only: unat_of_nat) simp
      then have "unat (of_char c :: byte) < 128" using that by (simp only: of_nat_of_char)
      then show ?thesis by (simp add: word_less_nat_alt)
    qed
    then show ?thesis using ascii by (simp add: list_all_iff)
  qed
  ultimately show ?thesis using assms(3,5) by (simp add: parse_mtproto_secret_def Let_def)
qed

theorem faketls_secret_round_trip_witness:
  "parse_mtproto_secret ''ee000102030405060708090a0b0c0d0e0f612e62'' = Inr (map of_nat [0..<16], map of_char ''a.b'')"
  by (rule faketls_secret_round_trip [where sni = "[(''mtproto_proxy'', ''a.b'')]" and name = "''mtproto_proxy''" and hex = "''000102030405060708090a0b0c0d0e0f''"]) code_simp+

end
