(* ===== verification/TunnelProbes.thy ===== *)
theory TunnelProbes
  imports Client PyJson
begin

text \<open>
  The six probes of \<^verbatim>\<open>protocol_probes.py\<close> that run a tunnel program: OpenVPN, WireGuard and AmneziaWG,
  which bring up an interface and ping through it, and Shadowsocks, VLESS and Hysteria 2, which run
  a local SOCKS proxy and fetch a page through it. Each is a run over the history of what it did to
  the outside, which answers as a function of the history: the exit of a command, a line of output, the
  clock. The interface helpers of \<^verbatim>\<open>link_utils.py\<close> are here too.
\<close>

section \<open>The outside\<close>

datatype cmd_end = Output int string string | CmdTimeout | NoReturnCode | NotStarted string

datatype line_end = OutLine string | LineEof | NoLine | LineFails string

datatype delete_end = IpExits | IpMissing | IpHangs | IpFails string

datatype event =
    Ran "string list" rat cmd_end
  | Spawned "string list"
  | ReadLine line_end
  | Tried int bool
  | Slept rat
  | DeletedIface string delete_end
  | RemovedSocket string
  | Wrote string string
  | DrainStarted
  | DrainStopped
  | Terminated

type_synonym history = "event list"

text \<open>
  \<open>wo_spawn\<close> and \<open>wo_write\<close> give the exception when there is one; \<open>wo_chunks\<close> is what the program has
  written so far and \<open>wo_died\<close> whether it has exited; \<open>wo_str\<close> prints a float and \<open>wo_dumps\<close> a
  configuration.
\<close>

record world =
  wo_cmd :: "history \<Rightarrow> string list \<Rightarrow> cmd_end"
  wo_spawn :: "history \<Rightarrow> string list \<Rightarrow> string option"
  wo_line :: "history \<Rightarrow> line_end"
  wo_accepts :: "history \<Rightarrow> int \<Rightarrow> bool"
  wo_chunks :: "history \<Rightarrow> string list"
  wo_died :: "history \<Rightarrow> bool"
  wo_delete :: "history \<Rightarrow> string \<Rightarrow> delete_end"
  wo_write :: "history \<Rightarrow> string \<Rightarrow> string option"
  wo_now :: "history \<Rightarrow> rat"
  wo_free_port :: int
  wo_dir :: string
  wo_str :: "rat \<Rightarrow> string"
  wo_dumps :: "json \<Rightarrow> string"
  wo_throughput :: throughput_config

text \<open>A run gives a value, raises, or has used up its rounds.\<close>

datatype 'a outcome = Ret 'a | Exc string | OutOfRounds

type_synonym 'a run = "history \<Rightarrow> 'a outcome \<times> history"

definition ret :: "'a \<Rightarrow> 'a run" where
  "ret a h = (Ret a, h)"

definition bind :: "'a run \<Rightarrow> ('a \<Rightarrow> 'b run) \<Rightarrow> 'b run" where
  "bind m f h =
     (case m h of
        (Ret a, h') \<Rightarrow> f a h'
      | (Exc e, h') \<Rightarrow> (Exc e, h')
      | (OutOfRounds, h') \<Rightarrow> (OutOfRounds, h'))"

text \<open>\<open>try: m finally: c\<close>.\<close>

definition finally_do :: "'a run \<Rightarrow> unit run \<Rightarrow> 'a run" where
  "finally_do m c h =
     (case m h of
        (OutOfRounds, h') \<Rightarrow> (OutOfRounds, h')
      | (r, h') \<Rightarrow> (case c h' of
            (Ret u, h'') \<Rightarrow> (r, h'')
          | (Exc e, h'') \<Rightarrow> (Exc e, h'')
          | (OutOfRounds, h'') \<Rightarrow> (OutOfRounds, h'')))"

definition emit :: "event \<Rightarrow> unit run" where
  "emit e h = (Ret (), h @ [e])"

definition then_do :: "unit run \<Rightarrow> 'a run \<Rightarrow> 'a run" where
  "then_do m n = bind m (\<lambda>u. n)"

section \<open>Commands, interfaces and files\<close>

definition PROBE_TIMEOUT :: rat where "PROBE_TIMEOUT = 15"
definition CURL_BODY_SINK :: string where "CURL_BODY_SINK = ''/dev/null''"
definition OVPN_CLI_IFACE :: string where "OVPN_CLI_IFACE = ''censovpn1''"
definition WG_CLI_IFACE :: string where "WG_CLI_IFACE = ''censwg1''"
definition AWG_CLI_IFACE :: string where "AWG_CLI_IFACE = ''censawg1''"

definition run_cmd :: "world \<Rightarrow> string list \<Rightarrow> rat \<Rightarrow> (int \<times> string \<times> string) run" where
  "run_cmd W cmd timeout h =
     (let e = wo_cmd W h cmd; h' = h @ [Ran cmd timeout e] in
      case e of
        Output code out err \<Rightarrow> (Ret (code, out, err), h')
      | CmdTimeout \<Rightarrow> (Ret (-1, [], ''Timeout''), h')
      | NoReturnCode \<Rightarrow> (Exc (''subprocess '' @ [CHR 0x27] @ hd cmd @ [CHR 0x27] @ '' communicate() returned without setting returncode '' @ em_dash @ '' likely an asyncio race''), h')
      | NotStarted x \<Rightarrow> (Exc x, h'))"

definition async_delete_iface :: "world \<Rightarrow> string \<Rightarrow> unit run" where
  "async_delete_iface W name h =
     (let e = wo_delete W h name; h' = h @ [DeletedIface name e] in
      case e of
        IpFails e \<Rightarrow> (Exc e, h')
      | IpExits \<Rightarrow> (Ret (), h')
      | IpMissing \<Rightarrow> (Ret (), h')
      | IpHangs \<Rightarrow> (Ret (), h'))"

text \<open>Errors of the unlink are only logged.\<close>

definition async_rm_amneziawg_socket :: "string \<Rightarrow> unit run" where
  "async_rm_amneziawg_socket iface = emit (RemovedSocket (''/var/run/amneziawg/'' @ iface @ ''.sock''))"

definition write_file :: "world \<Rightarrow> string \<Rightarrow> string \<Rightarrow> unit run" where
  "write_file W path content h =
     (case wo_write W h path of None \<Rightarrow> (Ret (), h @ [Wrote path content]) | Some e \<Rightarrow> (Exc e, h))"

definition spawn :: "world \<Rightarrow> string list \<Rightarrow> unit run" where
  "spawn W cmd h = (case wo_spawn W h cmd of None \<Rightarrow> (Ret (), h @ [Spawned cmd]) | Some e \<Rightarrow> (Exc e, h))"

section \<open>Reading what the tools print\<close>

definition str_rstrip :: "string \<Rightarrow> string" where
  "str_rstrip s = rev (dropWhile is_space (rev s))"

definition py_isdigit :: "string \<Rightarrow> bool" where
  "py_isdigit s \<longleftrightarrow> s \<noteq> [] \<and> list_all is_digit s"

fun ping_received_in :: "string list \<Rightarrow> nat" where
  "ping_received_in [] = 0"
| "ping_received_in (line # lines) =
     (let stripped = str_strip line; parts = split_on (CHR '','') stripped in
      if \<not> str_contains stripped ''packets transmitted'' \<or> \<not> str_contains stripped '' received'' then ping_received_in lines
      else if length parts < 2 then ping_received_in lines
      else case split_ws (str_strip (parts ! 1)) of
          [] \<Rightarrow> 0
        | t # ts \<Rightarrow> if py_isdigit t then digits_val t else 0)"

definition parse_ping_received :: "string \<Rightarrow> nat" where
  "parse_ping_received out = ping_received_in (splitlines out)"

text \<open>The text after the first \<open>=\<close>; \<open>None\<close> when there is none.\<close>

fun after_equals :: "string \<Rightarrow> string option" where
  "after_equals [] = None"
| "after_equals (c # s) = (if c = CHR ''='' then Some s else after_equals s)"

fun ping_avg_in :: "string list \<Rightarrow> pyfloat option" where
  "ping_avg_in [] = None"
| "ping_avg_in (line # lines) =
     (let stripped = str_strip line in
      if \<not> (starts_with stripped ''rtt '' \<and> CHR ''/'' \<in> set stripped) then ping_avg_in lines
      else case after_equals stripped of
          None \<Rightarrow> None
        | Some v \<Rightarrow> (case split_ws (str_strip v) of
              [] \<Rightarrow> None
            | values # vs \<Rightarrow> (let fields = split_on (CHR ''/'') values in
                if 2 \<le> length fields then float_of_str (fields ! 1) else ping_avg_in lines)))"

definition parse_ping_avg_rtt :: "string \<Rightarrow> pyfloat option" where
  "parse_ping_avg_rtt out = ping_avg_in (splitlines out)"

definition ping_cmd :: "string \<Rightarrow> rat \<Rightarrow> int \<Rightarrow> string list" where
  "ping_cmd ip timeout tries =
     [''ping'', ''-c'', str_of_int tries, ''-W'', str_of_int (max \<lfloor>timeout\<rfloor> 1), ''-i'', ''0.3'', ip]"

definition ping_echo :: "world \<Rightarrow> string \<Rightarrow> rat \<Rightarrow> int \<Rightarrow> int \<Rightarrow> (bool \<times> pyfloat option) run" where
  "ping_echo W ip timeout tries min_received =
     bind (run_cmd W (ping_cmd ip timeout tries) (of_int (tries * max \<lfloor>timeout\<rfloor> 1 + 2))) (\<lambda>(code, out, err).
       if code \<noteq> 0 then ret (False, None)
       else ret (min_received \<le> int (parse_ping_received out), parse_ping_avg_rtt out))"

definition rx_of_line :: "string \<Rightarrow> nat" where
  "rx_of_line line =
     (let parts = split_ws line in if 2 \<le> length parts \<and> py_isdigit (parts ! 1) then digits_val (parts ! 1) else 0)"

definition wg_peer_rx_bytes :: "world \<Rightarrow> string \<Rightarrow> string \<Rightarrow> nat run" where
  "wg_peer_rx_bytes W tool iface =
     bind (run_cmd W [tool, ''show'', iface, ''transfer''] 2) (\<lambda>(code, out, err).
       if code \<noteq> 0 then ret 0
       else ret (foldl (\<lambda>best line. if best < rx_of_line line then rx_of_line line else best) 0 (splitlines out)))"

definition handshake_line :: "string \<Rightarrow> bool" where
  "handshake_line line \<longleftrightarrow> (let parts = split_ws line in 2 \<le> length parts \<and> parts ! 1 \<noteq> ''0'')"

fun poll_wg_loop :: "nat \<Rightarrow> world \<Rightarrow> string \<Rightarrow> string \<Rightarrow> rat \<Rightarrow> rat \<Rightarrow> bool run" where
  "poll_wg_loop 0 W tool iface timeout t0 h = (OutOfRounds, h)"
| "poll_wg_loop (Suc n) W tool iface timeout t0 h =
     (if fsub (wo_now W h) t0 < timeout then
        bind (run_cmd W [tool, ''show'', iface, ''latest-handshakes''] 1) (\<lambda>(code, out, err).
          if \<exists>line \<in> set (splitlines out). handshake_line line then ret True
          else then_do (emit (Slept (1 / 2))) (poll_wg_loop n W tool iface timeout t0)) h
      else (Ret False, h))"

definition poll_wg_handshake :: "nat \<Rightarrow> world \<Rightarrow> string \<Rightarrow> string \<Rightarrow> rat \<Rightarrow> bool run" where
  "poll_wg_handshake n W tool iface timeout h = poll_wg_loop n W tool iface timeout (wo_now W h) h"

section \<open>Throughput\<close>

text \<open>The stream's duration in float arithmetic, then megabits per second; \<open>Inl\<close> is the raised error.\<close>

definition float_minus :: "pyfloat \<Rightarrow> pyfloat \<Rightarrow> pyfloat" where
  "float_minus a b =
     (case (a, b) of
        (Fin x, Fin y) \<Rightarrow> to_float (x - y)
      | (NaN, u) \<Rightarrow> NaN | (u, NaN) \<Rightarrow> NaN
      | (PInf, PInf) \<Rightarrow> NaN | (NInf, NInf) \<Rightarrow> NaN
      | (PInf, u) \<Rightarrow> PInf | (NInf, u) \<Rightarrow> NInf
      | (u, PInf) \<Rightarrow> NInf | (u, NInf) \<Rightarrow> PInf)"

definition rate_mbps :: "int \<Rightarrow> pyfloat \<Rightarrow> string + pyfloat option" where
  "rate_mbps nbytes pure_duration =
     (let below = (case pure_duration of Fin d \<Rightarrow> d < fl (3 / 100) | NInf \<Rightarrow> True | _ \<Rightarrow> False) in
      if below then Inr None
      else case float_of_int (nbytes * 8) of
          Inr (Fin bits) \<Rightarrow> Inr (Some (case pure_duration of
              Fin d \<Rightarrow> (case to_float (bits / d) of Fin x \<Rightarrow> to_float (x / 1000000) | y \<Rightarrow> y)
            | PInf \<Rightarrow> Fin 0
            | _ \<Rightarrow> NaN))
        | _ \<Rightarrow> Inl ''int too large to convert to float'')"

definition measured :: "int \<Rightarrow> string \<Rightarrow> string + pyfloat option \<times> bool" where
  "measured code out =
     (let parts = split_ws (str_strip out) in
      if length parts < 4 then Inr (None, False)
      else case (int_of_str (parts ! 0), int_of_str (parts ! 1), float_of_str (parts ! 2), float_of_str (parts ! 3)) of
          (Some exit_code, Some nbytes, Some time_total, Some time_starttransfer) \<Rightarrow>
            if exit_code = 28 then Inr (None, True)
            else if code \<noteq> 0 \<or> nbytes \<le> 0 then Inr (None, False)
            else map_sum id (\<lambda>mbps. (mbps, False)) (rate_mbps nbytes (float_minus time_total time_starttransfer))
        | _ \<Rightarrow> Inr (None, False))"

definition of_measured :: "string + 'a \<Rightarrow> 'a run" where
  "of_measured r h = (case r of Inl e \<Rightarrow> (Exc e, h) | Inr a \<Rightarrow> (Ret a, h))"

definition throughput_format :: string where
  "throughput_format = ''%{exitcode} %{size_download} %{time_total} %{time_starttransfer}''"

definition throughput_cmd :: "world \<Rightarrow> string list \<Rightarrow> string \<Rightarrow> string list" where
  "throughput_cmd W proxy base =
     [''curl'', ''-s'', ''-o'', CURL_BODY_SINK, ''--max-time'', wo_str W (tp_timeout_sec (wo_throughput W)), ''-w'', throughput_format]
     @ proxy @ [base @ ''/throughput?bytes='' @ str_of_int (tp_target_bytes (wo_throughput W))]"

definition local_url :: "int \<Rightarrow> string" where
  "local_url port = ''http://127.0.0.1:'' @ str_of_int port"

definition socks_url :: "int \<Rightarrow> string" where
  "socks_url port = ''socks5h://127.0.0.1:'' @ str_of_int port"

definition proxy_throughput :: "world \<Rightarrow> int \<Rightarrow> int \<Rightarrow> (pyfloat option \<times> bool) run" where
  "proxy_throughput W proxy_port echo_port =
     (if \<not> tp_enabled (wo_throughput W) then ret (None, False)
      else bind (run_cmd W (throughput_cmd W [''-x'', socks_url proxy_port] (local_url echo_port))
          (fadd (tp_timeout_sec (wo_throughput W)) 2)) (\<lambda>(code, out, err). of_measured (measured code out)))"

definition tunnel_throughput :: "world \<Rightarrow> string \<Rightarrow> int \<Rightarrow> (pyfloat option \<times> bool) run" where
  "tunnel_throughput W target_host target_port =
     (if \<not> tp_enabled (wo_throughput W) then ret (None, False)
      else bind (run_cmd W (throughput_cmd W [] (''http://'' @ target_host @ '':'' @ str_of_int target_port))
          (fadd (tp_timeout_sec (wo_throughput W)) 2)) (\<lambda>(code, out, err). of_measured (measured code out)))"

text \<open>The follow-up of a tunnel whose data plane works; both tables are looked up by name.\<close>

definition with_throughput :: "probe_result \<Rightarrow> (pyfloat option \<times> bool) run \<Rightarrow> probe_result run" where
  "with_throughput p m = bind m (\<lambda>(mbps, throttled). ret (p\<lparr>pb_throughput_mbps := mbps, pb_throughput_throttled := throttled\<rparr>))"

definition tun_throughput_of :: "world \<Rightarrow> string \<Rightarrow> (pyfloat option \<times> bool) run" where
  "tun_throughput_of W name =
     (case (dict_get VPN_TUN_LISTENER_IPS name, dict_get TUN_ECHO_PORTS name) of
        (Some ip, Some port) \<Rightarrow> tunnel_throughput W ip port
      | _ \<Rightarrow> (\<lambda>h. (Exc name, h)))"

section \<open>OpenVPN\<close>

definition OVPN_BOILERPLATE_PREFIXES :: "string list" where
  "OVPN_BOILERPLATE_PREFIXES = [''  '', ''DEPRECATED OPTION:'', ''DEPRECATION:'', ''WARNING: '', ''Note: '',
     ''Current Parameter Settings:'', ''Connection profiles '', ''OpenVPN 2.'', ''library versions:'', ''DCO version:'',
     ''net_route_v'', ''net_iface_'']"

definition join_bars :: "string list \<Rightarrow> string" where
  "join_bars ls = concat (case ls of [] \<Rightarrow> [] | l # ls' \<Rightarrow> l # map (\<lambda>x. '' | '' @ x) ls')"

definition last_n :: "nat \<Rightarrow> 'a list \<Rightarrow> 'a list" where
  "last_n n xs = drop (length xs - n) xs"

definition error_line :: "string \<Rightarrow> bool" where
  "error_line line \<longleftrightarrow> (\<exists>k \<in> set [''ERROR'', ''error'', ''Cannot'', ''Operation not permitted'', ''denied'']. str_contains line k)"

definition boilerplate :: "string \<Rightarrow> bool" where
  "boilerplate line \<longleftrightarrow> (\<exists>p \<in> set OVPN_BOILERPLATE_PREFIXES. starts_with line p)"

definition summarise_openvpn_failure :: "string list \<Rightarrow> string" where
  "summarise_openvpn_failure tail =
     (case find error_line (rev tail) of
        Some line \<Rightarrow> take 600 line
      | None \<Rightarrow> (let filtered = filter (\<lambda>l. \<not> boilerplate l) tail;
                     kept = (if filtered = [] then tail else filtered)
                 in take 600 (join_bars (last_n 4 kept))))"

text \<open>The ring buffer of the last 15 lines.\<close>

definition push_line :: "string \<Rightarrow> string list \<Rightarrow> string list" where
  "push_line line tail = (if line = [] then tail else last_n 15 (tail @ [line]))"

fun openvpn_loop :: "nat \<Rightarrow> world \<Rightarrow> rat \<Rightarrow> string list \<Rightarrow> (rat option \<times> string list) run" where
  "openvpn_loop 0 W t0 tail h = (OutOfRounds, h)"
| "openvpn_loop (Suc n) W t0 tail h =
     (if fsub (wo_now W h) t0 < PROBE_TIMEOUT then
        let e = wo_line W h; h' = h @ [ReadLine e] in
        (case e of
           NoLine \<Rightarrow> openvpn_loop n W t0 tail h'
         | LineFails x \<Rightarrow> (Exc x, h')
         | LineEof \<Rightarrow> (Ret (None, tail), h')
         | OutLine text \<Rightarrow>
             (let line = str_rstrip text; tail' = push_line line tail in
              if text = [] then (Ret (None, tail), h')
              else if str_contains line ''Initialization Sequence Completed''
              then (Ret (Some (fmul (fsub (wo_now W h') t0) 1000), tail'), h')
              else openvpn_loop n W t0 tail' h'))
      else (Ret (None, tail), h))"

definition nl :: string where "nl = [CHR 0x0A]"

definition text_lines :: "string list \<Rightarrow> string" where
  "text_lines ls = concat (map (\<lambda>l. l @ nl) ls)"

definition openvpn_client_config :: "string \<Rightarrow> int \<Rightarrow> string \<Rightarrow> string" where
  "openvpn_client_config host port psk_path = text_lines
     [[], ''proto udp'', ''remote '' @ host @ '' '' @ str_of_int port, ''dev '' @ OVPN_CLI_IFACE, ''dev-type tun'',
      ''secret '' @ psk_path, ''ifconfig 10.200.0.2 10.200.0.1'', ''keepalive 10 60'', ''cipher AES-256-CBC'',
      ''resolv-retry infinite'', ''nobind'', ''verb 1'']"

definition openvpn_data_phase :: "world \<Rightarrow> probe_result \<Rightarrow> probe_result run" where
  "openvpn_data_phase W result =
     then_do (emit DrainStarted) (finally_do
       (let result = result\<lparr>pb_verdict := HANDSHAKE_ONLY\<rparr> in
        bind (ping_echo W ''10.200.0.1'' 3 3 2) (\<lambda>(ok, avg_rtt).
          if ok then with_throughput (result\<lparr>pb_data_ok := True, pb_verdict := OK\<rparr>) (tun_throughput_of W ''openvpn'')
          else ret result))
       (emit DrainStopped))"

definition openvpn_session :: "nat \<Rightarrow> world \<Rightarrow> probe_result run" where
  "openvpn_session n W h =
     bind (openvpn_loop n W (wo_now W h) []) (\<lambda>(rtt_ms, tail).
       case rtt_ms of
         None \<Rightarrow> ret (if tail \<noteq> [] then ProbeResult_default\<lparr>pb_error := Some (summarise_openvpn_failure tail)\<rparr>
             else ProbeResult_default)
       | Some rtt \<Rightarrow> openvpn_data_phase W (ProbeResult_default\<lparr>pb_handshake_ok := True, pb_rtt_ms := Some rtt\<rparr>)) h"

definition probe_openvpn :: "nat \<Rightarrow> world \<Rightarrow> string \<Rightarrow> int \<Rightarrow> string \<Rightarrow> probe_result run" where
  "probe_openvpn n W host port psk_pem =
     (if psk_pem = [] \<or> \<not> str_contains psk_pem ''BEGIN OpenVPN Static key'' then
        ret (ProbeResult_default\<lparr>pb_error := Some ''bad PSK: missing OpenVPN Static key V1 envelope''\<rparr>)
      else
        then_do (async_delete_iface W OVPN_CLI_IFACE)
        (then_do (write_file W (wo_dir W @ ''/static.key'') psk_pem)
        (then_do (write_file W (wo_dir W @ ''/client.conf'') (openvpn_client_config host port (wo_dir W @ ''/static.key'')))
        (then_do (spawn W [''openvpn'', ''--config'', wo_dir W @ ''/client.conf''])
          (finally_do (openvpn_session n W)
            (then_do (emit Terminated) (async_delete_iface W OVPN_CLI_IFACE)))))))"

section \<open>WireGuard and AmneziaWG\<close>

definition finite_of :: "pyfloat option \<Rightarrow> rat option" where
  "finite_of r = (case r of Some (Fin x) \<Rightarrow> Some x | _ \<Rightarrow> None)"

text \<open>
  The phase after the interface is up, which both probes have with their own tool, interface,
  address and name. The average that \<open>ping\<close> prints is a decimal; a text that reads as an infinity or as
  no number is treated as no average.
\<close>

definition wg_session :: "nat \<Rightarrow> world \<Rightarrow> string \<Rightarrow> string \<Rightarrow> string \<Rightarrow> string \<Rightarrow> probe_result run" where
  "wg_session n W tool iface ip name =
     bind (poll_wg_handshake n W tool iface PROBE_TIMEOUT) (\<lambda>hs_ok.
       if \<not> hs_ok then ret ProbeResult_default
       else let result = ProbeResult_default\<lparr>pb_handshake_ok := True, pb_verdict := HANDSHAKE_ONLY\<rparr> in
         bind (ping_echo W ip 3 3 2) (\<lambda>(ping_ok, ping_rtt).
           let result = (case finite_of ping_rtt of None \<Rightarrow> result | Some x \<Rightarrow> result\<lparr>pb_rtt_ms := Some x\<rparr>) in
           if \<not> ping_ok then ret result
           else bind (wg_peer_rx_bytes W tool iface) (\<lambda>rx.
             if rx = 0 then ret result
             else with_throughput (result\<lparr>pb_data_ok := True, pb_verdict := OK\<rparr>) (tun_throughput_of W name))))"

definition wireguard_client_config :: "string \<Rightarrow> int \<Rightarrow> string \<Rightarrow> string \<Rightarrow> string \<Rightarrow> string" where
  "wireguard_client_config host port server_public preshared private_key = text_lines
     [''[Interface]'', ''PrivateKey = '' @ private_key, ''Address = 10.202.0.2/24'', [],
      ''[Peer]'', ''PublicKey = '' @ server_public, ''PresharedKey = '' @ preshared,
      ''Endpoint = '' @ host @ '':'' @ str_of_int port, ''AllowedIPs = 10.202.0.1/32'', ''PersistentKeepalive = 25'']"

definition probe_wireguard :: "nat \<Rightarrow> world \<Rightarrow> string \<Rightarrow> int \<Rightarrow> string \<Rightarrow> string \<Rightarrow> string \<Rightarrow> probe_result run" where
  "probe_wireguard n W host port server_public preshared private_key =
     (if private_key = [] then ret (ProbeResult_default\<lparr>pb_error := Some ''Missing client private key''\<rparr>)
      else let conf = wo_dir W @ ''/'' @ WG_CLI_IFACE @ ''.conf'' in
        then_do (write_file W conf (wireguard_client_config host port server_public preshared private_key))
        (then_do (async_delete_iface W WG_CLI_IFACE)
        (bind (run_cmd W [''wg-quick'', ''up'', conf] PROBE_TIMEOUT) (\<lambda>(code, out, err).
          if code \<noteq> 0 then then_do (async_delete_iface W WG_CLI_IFACE)
            (ret (ProbeResult_default\<lparr>pb_error := Some (''wg-quick up failed: '' @ err)\<rparr>))
          else finally_do (wg_session n W ''wg'' WG_CLI_IFACE ''10.202.0.1'' ''wireguard'')
            (bind (run_cmd W [''wg-quick'', ''down'', conf] PROBE_TIMEOUT) (\<lambda>r. async_delete_iface W WG_CLI_IFACE))))))"

record amneziawg_obfuscation =
  ao_jc :: int
  ao_jmin :: int
  ao_jmax :: int
  ao_s1 :: int
  ao_s2 :: int
  ao_h1 :: int
  ao_h2 :: int
  ao_h3 :: int
  ao_h4 :: int

definition amneziawg_client_config :: "string \<Rightarrow> int \<Rightarrow> string \<Rightarrow> string \<Rightarrow> string \<Rightarrow> amneziawg_obfuscation \<Rightarrow> string" where
  "amneziawg_client_config host port server_public preshared private_key a = text_lines
     [''[Interface]'', ''PrivateKey = '' @ private_key, ''Address = 10.201.0.2/24'',
      ''Jc = '' @ str_of_int (ao_jc a), ''Jmin = '' @ str_of_int (ao_jmin a), ''Jmax = '' @ str_of_int (ao_jmax a),
      ''S1 = '' @ str_of_int (ao_s1 a), ''S2 = '' @ str_of_int (ao_s2 a), ''H1 = '' @ str_of_int (ao_h1 a),
      ''H2 = '' @ str_of_int (ao_h2 a), ''H3 = '' @ str_of_int (ao_h3 a), ''H4 = '' @ str_of_int (ao_h4 a), [],
      ''[Peer]'', ''PublicKey = '' @ server_public, ''PresharedKey = '' @ preshared,
      ''Endpoint = '' @ host @ '':'' @ str_of_int port, ''AllowedIPs = 10.201.0.1/32'', ''PersistentKeepalive = 25'']"

definition scrub_amneziawg :: "world \<Rightarrow> unit run" where
  "scrub_amneziawg W = then_do (async_delete_iface W AWG_CLI_IFACE) (async_rm_amneziawg_socket AWG_CLI_IFACE)"

definition probe_amneziawg ::
    "nat \<Rightarrow> world \<Rightarrow> string \<Rightarrow> int \<Rightarrow> string \<Rightarrow> string \<Rightarrow> string \<Rightarrow> amneziawg_obfuscation \<Rightarrow> probe_result run" where
  "probe_amneziawg n W host port server_public preshared private_key obfuscation =
     (if private_key = [] then ret (ProbeResult_default\<lparr>pb_error := Some ''Missing client private key''\<rparr>)
      else let conf = wo_dir W @ ''/'' @ AWG_CLI_IFACE @ ''.conf'' in
        then_do (write_file W conf (amneziawg_client_config host port server_public preshared private_key obfuscation))
        (then_do (scrub_amneziawg W)
        (bind (run_cmd W [''awg-quick'', ''up'', conf] PROBE_TIMEOUT) (\<lambda>(code, out, err).
          if code \<noteq> 0 then then_do (scrub_amneziawg W)
            (ret (ProbeResult_default\<lparr>pb_error := Some (''awg-quick up failed: '' @ err)\<rparr>))
          else finally_do (wg_session n W ''awg'' AWG_CLI_IFACE ''10.201.0.1'' ''amneziawg'')
            (bind (run_cmd W [''awg-quick'', ''down'', conf] PROBE_TIMEOUT) (\<lambda>r. scrub_amneziawg W))))))"

section \<open>The log of the program\<close>

definition HS_SUCCESS_TOKENS :: "string list" where
  "HS_SUCCESS_TOKENS = [''inbound connection'', ''connection established'', ''handshake complete'', ''tunnel established'',
     ''authenticated'', ''accepted tcp:'', ''client connected'', ''server connected'', ''new connection:'']"

definition HS_FAILURE_TOKENS :: "string list" where
  "HS_FAILURE_TOKENS = [''handshake failed'', ''connection refused'', ''no route to host'', ''i/o timeout'',
     ''context deadline exceeded'', ''tls: '', ''reality verify failed'', ''auth failed'', ''authentication failed'',
     ''dial tcp'', ''dial udp'']"

text \<open>The drain keeps the first \<open>max_bytes\<close> bytes of the chunks it reads and drops the rest.\<close>

definition drain_step :: "nat \<Rightarrow> string \<Rightarrow> string \<Rightarrow> string" where
  "drain_step max_bytes buf chunk =
     (let remaining = int max_bytes - int (length buf) in if 0 < remaining then buf @ take (nat remaining) chunk else buf)"

definition drained :: "nat \<Rightarrow> string list \<Rightarrow> string" where
  "drained max_bytes chunks = foldl (drain_step max_bytes) [] (takeWhile (\<lambda>c. c \<noteq> []) chunks)"

definition log_text :: "world \<Rightarrow> string run" where
  "log_text W h = (Ret (drained 65536 (wo_chunks W h)), h)"

definition classify_proxy_outcome :: "string \<Rightarrow> string \<Rightarrow> bool \<times> bool" where
  "classify_proxy_outcome status logged =
     (if status = ''ok'' then (True, False)
      else let low = str_lower logged;
               saw_success = (\<exists>tok \<in> set HS_SUCCESS_TOKENS. str_contains low tok);
               saw_failure = (\<exists>tok \<in> set HS_FAILURE_TOKENS. str_contains low tok)
        in if saw_success \<and> \<not> saw_failure then (True, True) else (False, False))"

section \<open>The local SOCKS proxy\<close>

fun wait_port_loop :: "nat \<Rightarrow> world \<Rightarrow> int \<Rightarrow> rat \<Rightarrow> bool run" where
  "wait_port_loop 0 W port deadline h = (OutOfRounds, h)"
| "wait_port_loop (Suc n) W port deadline h =
     (if wo_now W h < deadline then
        if wo_accepts W h port then (Ret True, h @ [Tried port True])
        else wait_port_loop n W port deadline (h @ [Tried port False, Slept (fl (1 / 20))])
      else (Ret False, h))"

definition wait_port_listening :: "nat \<Rightarrow> world \<Rightarrow> int \<Rightarrow> rat \<Rightarrow> bool run" where
  "wait_port_listening n W port timeout h = wait_port_loop n W port (fadd (wo_now W h) timeout) h"

definition proxy_echo :: "world \<Rightarrow> int \<Rightarrow> int \<Rightarrow> bool \<Rightarrow> (string \<times> rat option) run" where
  "proxy_echo W proxy_port echo_port socks_ready h =
     (let t0 = wo_now W h in
      bind (run_cmd W [''curl'', ''-s'', ''-o'', CURL_BODY_SINK, ''--max-time'', ''5.0'', ''-w'', ''%{http_code}'',
           ''-x'', socks_url proxy_port, local_url echo_port @ ''/ping''] 6) (\<lambda>(code, out, err) h'.
        (if code = 0 \<and> starts_with (str_strip out) ''2'' then Ret (''ok'', Some (fmul (fsub (wo_now W h') t0) 1000))
         else if code \<in> {5, 7} \<and> \<not> socks_ready then Ret (''blocked'', None)
         else Ret (''inconclusive'', None), h')) h)"

definition echo_port_of :: "string \<Rightarrow> int run" where
  "echo_port_of label h = (case dict_get ECHO_PORTS label of Some port \<Rightarrow> (Ret port, h) | None \<Rightarrow> (Exc label, h))"

definition populate_proxy_result :: "world \<Rightarrow> string \<Rightarrow> int \<Rightarrow> bool \<Rightarrow> probe_result \<Rightarrow> probe_result run" where
  "populate_proxy_result W proto_label local_port socks_ready result =
     bind (echo_port_of proto_label) (\<lambda>echo_port.
     bind (proxy_echo W local_port echo_port socks_ready) (\<lambda>(status, rtt).
     bind (log_text W) (\<lambda>logged.
       let (hs_ok, is_hs_only) = classify_proxy_outcome status logged in
       if status = ''ok'' then
         with_throughput (result\<lparr>pb_handshake_ok := True, pb_data_ok := True, pb_verdict := OK, pb_rtt_ms := rtt\<rparr>)
           (proxy_throughput W local_port echo_port)
       else if is_hs_only then ret (result\<lparr>pb_handshake_ok := True, pb_verdict := HANDSHAKE_ONLY\<rparr>)
       else ret (result\<lparr>pb_handshake_ok := hs_ok, pb_verdict := BLOCKED\<rparr>))))"

text \<open>The session of a started program; \<open>tool\<close> is its name in the error.\<close>

definition proxy_session :: "nat \<Rightarrow> world \<Rightarrow> string \<Rightarrow> string \<Rightarrow> unit run \<Rightarrow> probe_result run" where
  "proxy_session n W tool proto_label on_death =
     bind (wait_port_listening n W (wo_free_port W) PROBE_TIMEOUT) (\<lambda>socks_ready h.
       (if wo_died W h then
          then_do on_death (bind (log_text W) (\<lambda>logged.
            ret (ProbeResult_default\<lparr>pb_error := Some (tool @ '' failed to start: '' @ logged)\<rparr>)))
        else populate_proxy_result W proto_label (wo_free_port W) socks_ready ProbeResult_default) h)"

definition stop_program :: "unit run" where
  "stop_program = then_do (emit DrainStopped) (emit Terminated)"

definition tunnel_via_singbox_or_xray :: "nat \<Rightarrow> world \<Rightarrow> string list \<Rightarrow> string \<Rightarrow> (int \<Rightarrow> json) \<Rightarrow> probe_result run" where
  "tunnel_via_singbox_or_xray n W binary_cmd proto_label config_builder =
     (let conf = wo_dir W @ ''/config.json'';
          cmd = map (\<lambda>c. if c = ''{conf}'' then conf else c) binary_cmd
      in then_do (write_file W conf (wo_dumps W (config_builder (wo_free_port W))))
        (then_do (spawn W cmd)
        (then_do (emit DrainStarted)
          (finally_do (proxy_session n W (hd cmd) proto_label (ret ())) stop_program))))"

definition shadowsocks_client_config :: "string \<Rightarrow> int \<Rightarrow> string \<Rightarrow> string \<Rightarrow> int \<Rightarrow> json" where
  "shadowsocks_client_config host port cipher password_b64 local_port = JObj
     [(''log'', JObj [(''level'', JStr ''warn''), (''output'', JStr ''stdout''), (''timestamp'', JBool True)]),
      (''inbounds'', JList [JObj [(''type'', JStr ''socks''), (''tag'', JStr ''socks-in''), (''listen'', JStr ''127.0.0.1''),
         (''listen_port'', JInt local_port)]]),
      (''outbounds'', JList [JObj [(''type'', JStr ''shadowsocks''), (''tag'', JStr ''ss-out''), (''server'', JStr host),
         (''server_port'', JInt port), (''method'', JStr cipher), (''password'', JStr password_b64)]])]"

definition probe_shadowsocks :: "nat \<Rightarrow> world \<Rightarrow> string \<Rightarrow> int \<Rightarrow> string \<Rightarrow> string \<Rightarrow> probe_result run" where
  "probe_shadowsocks n W host port cipher password_b64 =
     tunnel_via_singbox_or_xray n W [''sing-box'', ''run'', ''-c'', ''{conf}''] ''shadowsocks''
       (shadowsocks_client_config host port cipher password_b64)"

definition vless_client_config :: "string \<Rightarrow> int \<Rightarrow> string \<Rightarrow> string \<Rightarrow> string \<Rightarrow> string \<Rightarrow> int \<Rightarrow> json" where
  "vless_client_config host port uuid public_key short_id server_name local_port = JObj
     [(''inbounds'', JList [JObj [(''port'', JInt local_port), (''listen'', JStr ''127.0.0.1''), (''protocol'', JStr ''socks''),
         (''settings'', JObj [(''udp'', JBool True)])]]),
      (''outbounds'', JList [JObj [(''protocol'', JStr ''vless''),
         (''settings'', JObj [(''vnext'', JList [JObj [(''address'', JStr host), (''port'', JInt port),
            (''users'', JList [JObj [(''id'', JStr uuid), (''encryption'', JStr ''none''), (''flow'', JStr ''xtls-rprx-vision'')]])]])]),
         (''streamSettings'', JObj [(''network'', JStr ''tcp''), (''security'', JStr ''reality''),
            (''realitySettings'', JObj [(''serverName'', JStr server_name), (''fingerprint'', JStr ''chrome''), (''show'', JBool False),
               (''publicKey'', JStr public_key), (''shortId'', JStr short_id), (''spiderX'', JStr [])])])]])]"

definition probe_vless_reality ::
    "nat \<Rightarrow> world \<Rightarrow> string \<Rightarrow> int \<Rightarrow> string \<Rightarrow> string \<Rightarrow> string \<Rightarrow> string \<Rightarrow> probe_result run" where
  "probe_vless_reality n W host port uuid public_key short_id server_name =
     tunnel_via_singbox_or_xray n W [''xray'', ''run'', ''-c'', ''{conf}''] ''vless_reality''
       (vless_client_config host port uuid public_key short_id server_name)"

definition hysteria2_client_config :: "string \<Rightarrow> int \<Rightarrow> string \<Rightarrow> string \<Rightarrow> int \<Rightarrow> string" where
  "hysteria2_client_config host port auth obfs_password local_port = text_lines
     [[], ''server: '' @ host @ '':'' @ str_of_int port, ''auth: '' @ auth, ''tls:'', ''  sni: censprobe-test'', ''  insecure: true'',
      ''obfs:'', ''  type: salamander'', ''  salamander:'', ''    password: '' @ obfs_password,
      ''bandwidth:'', ''  up: 100 mbps'', ''  down: 100 mbps'', ''socks5:'', ''  listen: 127.0.0.1:'' @ str_of_int local_port]"

text \<open>This probe has its own copy of the session, which stops the drain before it reports the log.\<close>

definition probe_hysteria2 :: "nat \<Rightarrow> world \<Rightarrow> string \<Rightarrow> int \<Rightarrow> string \<Rightarrow> string \<Rightarrow> probe_result run" where
  "probe_hysteria2 n W host port auth obfs_password =
     (let conf = wo_dir W @ ''/config.yaml'' in
      then_do (write_file W conf (hysteria2_client_config host port auth obfs_password (wo_free_port W)))
        (then_do (spawn W [''hysteria'', ''client'', ''-c'', conf])
        (then_do (emit DrainStarted)
          (finally_do (proxy_session n W ''hysteria'' ''hysteria2'' (emit DrainStopped)) stop_program))))"

section \<open>The probes behind the client's table\<close>

definition obfuscation_of :: "int list \<Rightarrow> amneziawg_obfuscation option" where
  "obfuscation_of os =
     (case os of
        [jc, jmin, jmax, s1, s2, h1, h2, h3, h4] \<Rightarrow> Some \<lparr>ao_jc = jc, ao_jmin = jmin, ao_jmax = jmax, ao_s1 = s1, ao_s2 = s2,
          ao_h1 = h1, ao_h2 = h2, ao_h3 = h3, ao_h4 = h4\<rparr>
      | _ \<Rightarrow> None)"

text \<open>The runs of the table's calls; the two MTProto probes run no tunnel.\<close>

definition tunnel_probe_of :: "nat \<Rightarrow> world \<Rightarrow> string \<Rightarrow> probe_call \<Rightarrow> probe_result run option" where
  "tunnel_probe_of n W host call =
     (case call of
        CallOpenVPN port psk \<Rightarrow> Some (probe_openvpn n W host port psk)
      | CallWireGuard port public preshared private \<Rightarrow> Some (probe_wireguard n W host port public preshared private)
      | CallAmneziaWG port public preshared private os \<Rightarrow>
          map_option (probe_amneziawg n W host port public preshared private) (obfuscation_of os)
      | CallShadowsocks port cipher password \<Rightarrow> Some (probe_shadowsocks n W host port cipher password)
      | CallVless port uuid pbk short_id server_name \<Rightarrow> Some (probe_vless_reality n W host port uuid pbk short_id server_name)
      | CallHysteria2 port auth obfs \<Rightarrow> Some (probe_hysteria2 n W host port auth obfs)
      | CallMtProxy port secret \<Rightarrow> None
      | CallMtOrig port secret \<Rightarrow> None)"

section \<open>Rules for runs\<close>

text \<open>What every value of a run satisfies.\<close>

definition gives :: "'a run \<Rightarrow> ('a \<Rightarrow> bool) \<Rightarrow> bool" where
  "gives m P \<longleftrightarrow> (\<forall>h a h'. m h = (Ret a, h') \<longrightarrow> P a)"

named_theorems gives_intros

lemma gives_ret [gives_intros]: "P a \<Longrightarrow> gives (ret a) P"
  by (simp add: gives_def ret_def)

lemma bind_Ret_E:
  assumes "bind m f h = (Ret b, h')"
  obtains a k where "m h = (Ret a, k)" "f a k = (Ret b, h')"
  using assms by (auto simp: bind_def split: prod.splits outcome.splits)

lemma gives_bind [gives_intros]: "(\<And>a. gives (f a) P) \<Longrightarrow> gives (bind m f) P"
  unfolding gives_def by (blast elim: bind_Ret_E)

lemma gives_then_do [gives_intros]: "gives n P \<Longrightarrow> gives (then_do m n) P"
  unfolding then_do_def by (auto intro: gives_intros)

lemma finally_Ret_E:
  assumes "finally_do m c h = (Ret a, h')"
  obtains k where "m h = (Ret a, k)" "c k = (Ret (), h')"
  using assms by (auto simp: finally_do_def split: prod.splits outcome.splits)

lemma gives_finally [gives_intros]: "gives m P \<Longrightarrow> gives (finally_do m c) P"
  unfolding gives_def by (blast elim: finally_Ret_E)

lemma gives_at: "(\<And>h. gives (\<lambda>k. f h k) P) \<Longrightarrow> gives (\<lambda>h. f h h) P"
  unfolding gives_def by blast

text \<open>Runs only add to the history.\<close>

definition extends :: "'a run \<Rightarrow> bool" where
  "extends m \<longleftrightarrow> (\<forall>h. set h \<subseteq> set (snd (m h)))"

named_theorems extends_intros

lemma extends_ret [extends_intros]: "extends (ret a)"
  by (simp add: extends_def ret_def)

lemma extends_emit [extends_intros]: "extends (emit e)"
  by (auto simp: extends_def emit_def)

lemma extends_bind [extends_intros]:
  assumes "extends m" "\<And>a. extends (f a)"
  shows "extends (bind m f)"
  unfolding extends_def
proof
  fix h
  obtain r k where k: "m h = (r, k)" by fastforce
  then have "set h \<subseteq> set k" using assms(1) unfolding extends_def by (metis snd_conv)
  then show "set h \<subseteq> set (snd (bind m f h))"
    using assms(2) k unfolding extends_def bind_def by (cases r) auto
qed

lemma extends_then_do [extends_intros]: "extends m \<Longrightarrow> extends n \<Longrightarrow> extends (then_do m n)"
  unfolding then_do_def by (auto intro: extends_intros)

lemma extends_run_cmd [extends_intros]: "extends (run_cmd W cmd t)"
  by (auto simp: extends_def run_cmd_def Let_def split: cmd_end.split)

lemma extends_of_measured [extends_intros]: "extends (of_measured r)"
  by (auto simp: extends_def of_measured_def split: sum.split)

lemma run_cmd_Ret_E:
  assumes "run_cmd W cmd t h = (Ret (code, out, err), h')"
  obtains "h' = h @ [Ran cmd t (Output code out err)]" | "code = -1" "out = []"
  using assms by (auto simp: run_cmd_def Let_def split: cmd_end.splits)

section \<open>The verdict says what was seen\<close>

text \<open>
  The verdict follows the two flags, there is no data without a handshake, and no throughput
  without data.
\<close>

definition signals_ok :: "probe_result \<Rightarrow> bool" where
  "signals_ok p \<longleftrightarrow>
     pb_verdict p = (if pb_data_ok p then OK else if pb_handshake_ok p then HANDSHAKE_ONLY else BLOCKED)
     \<and> (pb_data_ok p \<longrightarrow> pb_handshake_ok p)
     \<and> (pb_throughput_mbps p \<noteq> None \<or> pb_throughput_throttled p \<longrightarrow> pb_data_ok p)"

lemma gives_with_throughput [gives_intros]:
  "pb_verdict p = OK \<Longrightarrow> pb_data_ok p \<Longrightarrow> pb_handshake_ok p \<Longrightarrow> gives (with_throughput p m) signals_ok"
  unfolding with_throughput_def by (auto intro!: gives_intros simp: signals_ok_def)

lemma signals_ok_defaults [simp]:
  "signals_ok ProbeResult_default" "signals_ok (ProbeResult_default\<lparr>pb_error := e\<rparr>)"
  "signals_ok (ProbeResult_default\<lparr>pb_handshake_ok := True, pb_verdict := HANDSHAKE_ONLY\<rparr>)"
  "signals_ok (ProbeResult_default\<lparr>pb_handshake_ok := True, pb_rtt_ms := r, pb_verdict := HANDSHAKE_ONLY\<rparr>)"
  "signals_ok (ProbeResult_default\<lparr>pb_handshake_ok := True, pb_verdict := HANDSHAKE_ONLY, pb_rtt_ms := r\<rparr>)"
  "signals_ok (ProbeResult_default\<lparr>pb_handshake_ok := False, pb_verdict := BLOCKED\<rparr>)"
  by (simp_all add: signals_ok_def ProbeResult_default_def)

lemma openvpn_session_signals: "gives (openvpn_session n W) signals_ok"
  unfolding openvpn_session_def openvpn_data_phase_def Let_def
  by (rule gives_at) (auto intro!: gives_intros split: option.split)

lemma wg_session_signals: "gives (wg_session n W tool iface ip name) signals_ok"
  unfolding wg_session_def Let_def by (auto intro!: gives_intros split: option.split)

lemma classify_not_ok: "status \<noteq> ''ok'' \<Longrightarrow> classify_proxy_outcome status l \<in> {(True, True), (False, False)}"
  by (simp add: classify_proxy_outcome_def Let_def)

lemma populate_signals [gives_intros]: "gives (populate_proxy_result W label p ready ProbeResult_default) signals_ok"
proof -
  have "gives (let (hs_ok, is_hs_only) = classify_proxy_outcome status logged in
      if status = ''ok'' then with_throughput (ProbeResult_default\<lparr>pb_handshake_ok := True, pb_data_ok := True, pb_verdict := OK, pb_rtt_ms := rtt\<rparr>)
         (proxy_throughput W p echo_port)
      else if is_hs_only then ret (ProbeResult_default\<lparr>pb_handshake_ok := True, pb_verdict := HANDSHAKE_ONLY\<rparr>)
      else ret (ProbeResult_default\<lparr>pb_handshake_ok := hs_ok, pb_verdict := BLOCKED\<rparr>)) signals_ok" for status rtt logged echo_port
  proof (cases "status = ''ok''")
    case True
    then show ?thesis by (simp add: classify_proxy_outcome_def gives_with_throughput)
  next
    case False
    then show ?thesis using classify_not_ok [OF False, of logged] by (auto simp: gives_ret)
  qed
  then show ?thesis unfolding populate_proxy_result_def by (intro gives_bind) (auto intro: gives_bind)
qed

lemma proxy_session_signals [gives_intros]: "gives (proxy_session n W tool label d) signals_ok"
  unfolding proxy_session_def
  by (rule gives_bind, rule gives_at) (auto intro!: gives_intros)

lemma tunnel_probe_signals: "tunnel_probe_of n W host call = Some m \<Longrightarrow> gives m signals_ok"
  unfolding tunnel_probe_of_def probe_openvpn_def probe_wireguard_def probe_amneziawg_def probe_shadowsocks_def
    probe_vless_reality_def probe_hysteria2_def tunnel_via_singbox_or_xray_def Let_def
  by (auto split: probe_call.splits intro!: gives_intros openvpn_session_signals wg_session_signals)

text \<open>
  C23. In every result of the six tunnel probes the verdict says exactly what was seen: OK with data,
  \<open>HANDSHAKE_ONLY\<close> with a handshake and no data, BLOCKED without a handshake; data goes with a
  handshake and a throughput with data. No run ends in ERROR, a local failure is a BLOCKED with a text.
\<close>

theorem tunnel_verdict_is_what_was_seen:
  assumes "tunnel_probe_of n W host call = Some m" "m h = (Ret p, h')"
  shows "pb_verdict p = (if pb_data_ok p then OK else if pb_handshake_ok p then HANDSHAKE_ONLY else BLOCKED)
    \<and> (pb_data_ok p \<longrightarrow> pb_handshake_ok p)
    \<and> (pb_throughput_mbps p \<noteq> None \<or> pb_throughput_throttled p \<longrightarrow> pb_data_ok p)"
proof -
  have "signals_ok p" using tunnel_probe_signals [OF assms(1)] assms(2) unfolding gives_def by blast
  then show ?thesis unfolding signals_ok_def .
qed

section \<open>The interface does not survive\<close>

text \<open>The events after which the interface may exist, and those that came after the last of them.\<close>

fun brings_up :: "event \<Rightarrow> bool" where
  "brings_up (Ran (tool # c # args) t (NotStarted x)) = False"
| "brings_up (Ran (tool # c # args) t e) = (c = ''up'')"
| "brings_up (Spawned (p # args)) = (p = ''openvpn'')"
| "brings_up _ = False"

definition since_up :: "history \<Rightarrow> event list" where
  "since_up h = takeWhile (\<lambda>e. \<not> brings_up e) (rev h)"

text \<open>
  The interface is scrubbed when nothing brought it up, or since the last that did \<open>ip link del\<close> has run
  to its exit. A step of the teardown fails when the \<open>down\<close> of the tool or \<open>ip\<close> cannot be run to its exit.
\<close>

definition scrubbed :: "string \<Rightarrow> history \<Rightarrow> bool" where
  "scrubbed iface h \<longleftrightarrow> list_all (\<lambda>e. \<not> brings_up e) h \<or> DeletedIface iface IpExits \<in> set (since_up h)"

fun teardown_fails :: "string \<Rightarrow> event \<Rightarrow> bool" where
  "teardown_fails iface (DeletedIface i e) = (i = iface \<and> e \<noteq> IpExits)"
| "teardown_fails iface (Ran (tool # c # args) t (NotStarted x)) = (c = ''down'')"
| "teardown_fails iface (Ran (tool # c # args) t NoReturnCode) = (c = ''down'')"
| "teardown_fails iface _ = False"

text \<open>The race of \<open>_run_cmd\<close>: the last \<open>up\<close> ended without a return code, which raises before the \<open>try\<close>.\<close>

definition up_raised :: "history \<Rightarrow> bool" where
  "up_raised h \<longleftrightarrow> (case dropWhile (\<lambda>e. \<not> brings_up e) (rev h) of
     Ran cmd t NoReturnCode # es \<Rightarrow> True
   | _ \<Rightarrow> False)"

text \<open>Scrubbed, or with a reason why not.\<close>

definition gone :: "string \<Rightarrow> history \<Rightarrow> bool" where
  "gone iface h \<longleftrightarrow> scrubbed iface h \<or> list_ex (teardown_fails iface) (since_up h) \<or> up_raised h"

lemma since_up_snoc: "since_up (h @ [e]) = (if brings_up e then [] else e # since_up h)"
  by (simp add: since_up_def)

lemma gone_Nil [simp]: "gone i []" by (simp add: gone_def scrubbed_def)

lemma gone_deleted [simp]: "gone i (h @ [DeletedIface i e])"
  by (cases e) (simp_all add: gone_def scrubbed_def since_up_snoc)

lemma gone_other: "\<not> brings_up e \<Longrightarrow> gone i h \<Longrightarrow> gone i (h @ [e])"
  by (auto simp: gone_def scrubbed_def since_up_snoc up_raised_def)

lemma gone_raised: "brings_up (Ran cmd t NoReturnCode) \<Longrightarrow> gone i (h @ [Ran cmd t NoReturnCode])"
  by (simp add: gone_def up_raised_def)

lemma gone_down_fails: "teardown_fails i e \<Longrightarrow> \<not> brings_up e \<Longrightarrow> gone i (h @ [e])"
  by (simp add: gone_def since_up_snoc)

text \<open>A run after which, however it ends, the interface is gone when it was before; or that makes it go.\<close>

definition keeps_gone :: "string \<Rightarrow> 'a run \<Rightarrow> bool" where
  "keeps_gone i m \<longleftrightarrow> (\<forall>h r h'. m h = (r, h') \<longrightarrow> r \<noteq> OutOfRounds \<longrightarrow> gone i h \<longrightarrow> gone i h')"

definition makes_gone :: "string \<Rightarrow> 'a run \<Rightarrow> bool" where
  "makes_gone i m \<longleftrightarrow> (\<forall>h r h'. m h = (r, h') \<longrightarrow> r \<noteq> OutOfRounds \<longrightarrow> gone i h')"

named_theorems gone_intros

lemma bind_cases:
  assumes "bind m f h = (r, h')" "r \<noteq> OutOfRounds"
  obtains a k where "m h = (Ret a, k)" "f a k = (r, h')" | e where "m h = (Exc e, h')" "r = Exc e"
  using assms by (auto simp: bind_def split: prod.splits outcome.splits)

lemma finally_cases:
  assumes "finally_do m c h = (r, h')" "r \<noteq> OutOfRounds"
  obtains q k q' where "m h = (q, k)" "c k = (q', h')" "q' \<noteq> OutOfRounds"
  using assms by (auto simp: finally_do_def split: prod.splits outcome.splits)

lemma keeps_gone_ret [gone_intros]: "keeps_gone i (ret a)"
  by (simp add: keeps_gone_def ret_def)

lemma keeps_gone_bind [gone_intros]: "keeps_gone i m \<Longrightarrow> (\<And>a. keeps_gone i (f a)) \<Longrightarrow> keeps_gone i (bind m f)"
  unfolding keeps_gone_def by (blast elim: bind_cases)

lemma keeps_gone_then_do [gone_intros]: "keeps_gone i m \<Longrightarrow> keeps_gone i n \<Longrightarrow> keeps_gone i (then_do m n)"
  unfolding then_do_def by (auto intro: gone_intros)

lemma keeps_gone_write [gone_intros]: "keeps_gone i (write_file W path content)"
  by (auto simp: keeps_gone_def write_file_def intro: gone_other split: option.splits)

lemma keeps_gone_delete [gone_intros]: "keeps_gone i (async_delete_iface W i)"
  by (auto simp: keeps_gone_def async_delete_iface_def Let_def split: delete_end.splits)

lemma keeps_gone_rm [gone_intros]: "keeps_gone i (async_rm_amneziawg_socket iface)"
  by (auto simp: keeps_gone_def async_rm_amneziawg_socket_def emit_def intro: gone_other)

lemma makes_gone_delete [gone_intros]: "makes_gone i (async_delete_iface W i)"
  by (auto simp: makes_gone_def async_delete_iface_def Let_def split: delete_end.splits)

lemma makes_gone_then_keeps:
  "makes_gone i m \<Longrightarrow> (\<And>a. keeps_gone i (f a)) \<Longrightarrow> makes_gone i (bind m f)"
  unfolding makes_gone_def keeps_gone_def by (blast elim: bind_cases)

text \<open>A run that always gives a value, such as a command that starts, followed by one that makes it go.\<close>

lemma makes_gone_after:
  assumes "\<And>h. \<exists>a k. m h = (Ret a, k)" "\<And>a. makes_gone i (f a)"
  shows "makes_gone i (bind m f)"
  unfolding makes_gone_def
proof (intro allI impI)
  fix h r h' assume "bind m f h = (r, h')" "r \<noteq> OutOfRounds"
  moreover obtain a k where "m h = (Ret a, k)" using assms(1) by blast
  ultimately have "f a k = (r, h')" "r \<noteq> OutOfRounds" by (simp_all add: bind_def)
  then show "gone i h'" using assms(2) unfolding makes_gone_def by blast
qed

lemma makes_gone_finally [gone_intros]: "makes_gone i c \<Longrightarrow> makes_gone i (finally_do m c)"
  unfolding makes_gone_def by (blast elim: finally_cases)

text \<open>The step that brings the interface up: it fails, or what follows makes the interface go.\<close>

lemma keeps_gone_up:
  assumes "\<And>h e k. m h = (Exc e, k) \<Longrightarrow> gone i h \<Longrightarrow> gone i k" "\<And>a. makes_gone i (f a)"
  shows "keeps_gone i (bind m f)"
  unfolding keeps_gone_def
proof (intro allI impI)
  fix h r h' assume b: "bind m f h = (r, h')" "r \<noteq> OutOfRounds" "gone i h"
  from b(1,2) show "gone i h'"
  proof (cases rule: bind_cases)
    case (1 a k)
    then show ?thesis using assms(2) b(2) unfolding makes_gone_def by blast
  qed (use assms(1) b(3) in blast)
qed

lemma run_cmd_fails: "run_cmd W cmd t h = (Exc e, k) \<Longrightarrow> gone i h \<Longrightarrow> gone i k"
proof -
  assume run: "run_cmd W cmd t h = (Exc e, k)" and g: "gone i h"
  obtain q where q: "k = h @ [Ran cmd t q]" "q = NoReturnCode \<or> (\<exists>x. q = NotStarted x)"
    using run by (auto simp: run_cmd_def Let_def split: cmd_end.splits)
  have "\<not> brings_up (Ran cmd t (NotStarted x))" for x by (cases cmd; cases "tl cmd") auto
  then show "gone i k" using q g gone_raised gone_other by metis
qed

lemma spawn_fails: "spawn W cmd h = (Exc e, k) \<Longrightarrow> gone i h \<Longrightarrow> gone i k"
  by (auto simp: spawn_def split: option.splits)

text \<open>The \<open>down\<close> of a tool: when it raises that is the reason, else what follows makes the interface go.\<close>

lemma makes_gone_down:
  assumes "\<And>a. makes_gone i (f a)"
  shows "makes_gone i (bind (run_cmd W [tool, ''down'', conf] t) f)"
  unfolding makes_gone_def
proof (intro allI impI)
  fix h r h' assume b: "bind (run_cmd W [tool, ''down'', conf] t) f h = (r, h')" "r \<noteq> OutOfRounds"
  then show "gone i h'"
  proof (cases rule: bind_cases)
    case (1 a k)
    then show ?thesis using assms b(2) unfolding makes_gone_def by blast
  next
    case (2 e)
    then obtain q where q: "h' = h @ [Ran [tool, ''down'', conf] t q]" "q = NoReturnCode \<or> (\<exists>x. q = NotStarted x)"
      by (auto simp: run_cmd_def Let_def split: cmd_end.splits)
    then show ?thesis by (auto intro: gone_down_fails)
  qed
qed

lemma keeps_gone_openvpn: "keeps_gone OVPN_CLI_IFACE (probe_openvpn n W host port psk)"
proof -
  have last: "makes_gone OVPN_CLI_IFACE (then_do (emit Terminated) (async_delete_iface W OVPN_CLI_IFACE))"
    unfolding then_do_def by (rule makes_gone_after [OF _ makes_gone_delete]) (simp add: emit_def)
  have up: "keeps_gone OVPN_CLI_IFACE (then_do (spawn W cmd)
      (finally_do m (then_do (emit Terminated) (async_delete_iface W OVPN_CLI_IFACE))))" for cmd and m :: "probe_result run"
    unfolding then_do_def [of "spawn W cmd"] by (rule keeps_gone_up [OF spawn_fails makes_gone_finally [OF last]])
  show ?thesis
    unfolding probe_openvpn_def
    using keeps_gone_then_do [OF keeps_gone_delete keeps_gone_then_do [OF keeps_gone_write keeps_gone_then_do [OF keeps_gone_write up]]]
    by (simp add: keeps_gone_ret)
qed

text \<open>The shape that WireGuard and AmneziaWG share.\<close>

lemma keeps_gone_quick:
  assumes "makes_gone i scrub"
  shows "keeps_gone i (bind (run_cmd W up t) (\<lambda>(code, out, err).
    if code \<noteq> 0 then then_do scrub (ret (p err))
    else finally_do session (bind (run_cmd W [tool, ''down'', conf] t) (\<lambda>r. scrub))))"
proof (rule keeps_gone_up [OF run_cmd_fails])
  fix a :: "int \<times> string \<times> string"
  have "makes_gone i (then_do scrub (ret (p err)))" for err
    unfolding then_do_def by (rule makes_gone_then_keeps [OF assms keeps_gone_ret])
  moreover have "makes_gone i (finally_do session (bind (run_cmd W [tool, ''down'', conf] t) (\<lambda>r. scrub)))"
    by (rule makes_gone_finally, rule makes_gone_down, rule assms)
  ultimately show "makes_gone i (case a of (code, out, err) \<Rightarrow>
      if code \<noteq> 0 then then_do scrub (ret (p err))
      else finally_do session (bind (run_cmd W [tool, ''down'', conf] t) (\<lambda>r. scrub)))"
    by (simp split: prod.split)
qed

lemma keeps_gone_wireguard: "keeps_gone WG_CLI_IFACE (probe_wireguard n W host port a b c)"
proof (cases "c = []")
  case False
  show ?thesis unfolding probe_wireguard_def Let_def if_not_P [OF False]
    by (intro keeps_gone_then_do keeps_gone_write keeps_gone_delete keeps_gone_quick makes_gone_delete)
qed (simp add: probe_wireguard_def keeps_gone_ret)

lemma makes_gone_scrub: "makes_gone AWG_CLI_IFACE (scrub_amneziawg W)"
  unfolding scrub_amneziawg_def then_do_def by (rule makes_gone_then_keeps [OF makes_gone_delete keeps_gone_rm])

lemma keeps_gone_amneziawg: "keeps_gone AWG_CLI_IFACE (probe_amneziawg n W host port a b c d)"
proof (cases "c = []")
  case False
  have "keeps_gone AWG_CLI_IFACE (scrub_amneziawg W)"
    using makes_gone_scrub unfolding makes_gone_def keeps_gone_def by blast
  then show ?thesis unfolding probe_amneziawg_def Let_def if_not_P [OF False]
    by (intro keeps_gone_then_do keeps_gone_write keeps_gone_quick makes_gone_scrub)
qed (simp add: probe_amneziawg_def keeps_gone_ret)

text \<open>The OpenVPN probe runs no \<open>up\<close>: only the program itself makes its interface.\<close>

definition no_up :: "history \<Rightarrow> bool" where
  "no_up h \<longleftrightarrow> list_all (\<lambda>e. case e of Ran cmd t q \<Rightarrow> take 1 (drop 1 cmd) \<noteq> [''up''] | _ \<Rightarrow> True) h"

definition runs_no_up :: "'a run \<Rightarrow> bool" where
  "runs_no_up m \<longleftrightarrow> (\<forall>h. no_up h \<longrightarrow> no_up (snd (m h)))"

named_theorems no_up_intros

lemma runs_no_up_basic [no_up_intros]:
  "runs_no_up (ret a)" "runs_no_up (\<lambda>h. (r, h))" "runs_no_up (async_delete_iface W i)" "runs_no_up (write_file W path content)"
  "runs_no_up (spawn W cmd)" "runs_no_up (of_measured q)" "runs_no_up (emit DrainStarted)" "runs_no_up (emit DrainStopped)"
  "runs_no_up (emit Terminated)"
  by (auto simp: runs_no_up_def ret_def emit_def async_delete_iface_def write_file_def spawn_def of_measured_def no_up_def Let_def
      split: delete_end.split option.split sum.split)

lemma runs_no_up_cmd [no_up_intros]: "take 1 (drop 1 cmd) \<noteq> [''up''] \<Longrightarrow> runs_no_up (run_cmd W cmd t)"
  by (auto simp: runs_no_up_def run_cmd_def no_up_def Let_def split: cmd_end.split)

lemma runs_no_up_bind [no_up_intros]: "runs_no_up m \<Longrightarrow> (\<And>a. runs_no_up (f a)) \<Longrightarrow> runs_no_up (bind m f)"
  unfolding runs_no_up_def bind_def by (auto split: prod.split outcome.split)

lemma runs_no_up_then_do [no_up_intros]: "runs_no_up m \<Longrightarrow> runs_no_up n \<Longrightarrow> runs_no_up (then_do m n)"
  unfolding then_do_def by (rule runs_no_up_bind)

lemma runs_no_up_finally [no_up_intros]: "runs_no_up m \<Longrightarrow> runs_no_up c \<Longrightarrow> runs_no_up (finally_do m c)"
  unfolding runs_no_up_def finally_do_def by (auto split: prod.split outcome.split)

lemma runs_no_up_loop: "no_up h \<Longrightarrow> no_up (snd (openvpn_loop n W t0 tail h))"
  by (induction n W t0 tail h rule: openvpn_loop.induct) (auto simp: Let_def no_up_def split: line_end.split)

lemma openvpn_runs_no_up: "runs_no_up (probe_openvpn n W host port psk)"
proof -
  have tp: "runs_no_up (with_throughput p (tun_throughput_of W name))" for p name
    unfolding with_throughput_def tun_throughput_of_def tunnel_throughput_def throughput_cmd_def
    by (auto intro!: no_up_intros split: option.split)
  have "runs_no_up (openvpn_data_phase W p)" for p
    unfolding openvpn_data_phase_def ping_echo_def ping_cmd_def Let_def by (auto intro!: no_up_intros tp)
  moreover have "runs_no_up (openvpn_loop n W t0 tail)" for t0 tail by (simp add: runs_no_up_def runs_no_up_loop)
  ultimately have at: "runs_no_up (\<lambda>h. bind (openvpn_loop n W t0 []) (\<lambda>(rtt_ms, tail).
       case rtt_ms of
         None \<Rightarrow> ret (if tail \<noteq> [] then ProbeResult_default\<lparr>pb_error := Some (summarise_openvpn_failure tail)\<rparr>
             else ProbeResult_default)
       | Some rtt \<Rightarrow> openvpn_data_phase W (ProbeResult_default\<lparr>pb_handshake_ok := True, pb_rtt_ms := Some rtt\<rparr>)) h)" for t0
    by (auto intro!: no_up_intros split: option.split)
  then have "runs_no_up (openvpn_session n W)" unfolding runs_no_up_def openvpn_session_def by blast
  then show ?thesis unfolding probe_openvpn_def by (auto intro!: no_up_intros)
qed

lemma no_up_never_raised: "no_up h \<Longrightarrow> \<not> up_raised h"
proof
  assume n: "no_up h" and "up_raised h"
  then obtain cmd t es where d: "dropWhile (\<lambda>e. \<not> brings_up e) (rev h) = Ran cmd t NoReturnCode # es"
    by (auto simp: up_raised_def split: list.splits event.splits cmd_end.splits)
  then have "Ran cmd t NoReturnCode \<in> set h" by (metis list.set_intros(1) set_dropWhileD set_rev)
  moreover have "brings_up (Ran cmd t NoReturnCode)" using d by (metis hd_dropWhile list.distinct(1) list.sel(1))
  ultimately show False using n by (cases cmd; cases "tl cmd") (auto simp: no_up_def list_all_iff)
qed

lemma openvpn_never_raised: "probe_openvpn n W host port psk [] = (r, h) \<Longrightarrow> \<not> up_raised h"
proof -
  assume run: "probe_openvpn n W host port psk [] = (r, h)"
  have "no_up []" by (simp add: no_up_def)
  then have "no_up h" using openvpn_runs_no_up [of n W host port psk] run unfolding runs_no_up_def by (metis snd_conv)
  then show "\<not> up_raised h" by (rule no_up_never_raised)
qed

text \<open>
  C25. A probe leaves its interface behind only when its teardown itself fails: however a run of the
  OpenVPN, WireGuard or AmneziaWG probe ends, by a result or by an exception of any of its steps,
  \<open>ip link del\<close> has run to its exit for the interface after the last step that can have brought it up,
  unless since then the tool's \<open>down\<close> or \<open>ip\<close> itself could not be run to its exit, or the \<open>up\<close> of the
  WireGuard tools was the last step and ended without a return code. (A task cancelled from outside
  is not among the ends modelled.)
\<close>

theorem interfaces_do_not_survive:
  assumes "r \<noteq> OutOfRounds"
  shows "(probe_openvpn n W host port psk [] = (r, h) \<longrightarrow>
       scrubbed OVPN_CLI_IFACE h \<or> list_ex (teardown_fails OVPN_CLI_IFACE) (since_up h))
    \<and> (probe_wireguard n W host port public preshared private [] = (r, h) \<longrightarrow>
       scrubbed WG_CLI_IFACE h \<or> list_ex (teardown_fails WG_CLI_IFACE) (since_up h) \<or> up_raised h)
    \<and> (probe_amneziawg n W host port public preshared private obfuscation [] = (r, h) \<longrightarrow>
       scrubbed AWG_CLI_IFACE h \<or> list_ex (teardown_fails AWG_CLI_IFACE) (since_up h) \<or> up_raised h)"
  using keeps_gone_openvpn keeps_gone_wireguard keeps_gone_amneziawg assms openvpn_never_raised
  unfolding keeps_gone_def by (metis gone_Nil gone_def)

section \<open>What an OK rests on\<close>

lemma extends_ping [extends_intros]: "extends (ping_echo W ip t c r)"
  unfolding ping_echo_def by (auto intro!: extends_intros)

lemma extends_rx [extends_intros]: "extends (wg_peer_rx_bytes W tool iface)"
  unfolding wg_peer_rx_bytes_def by (auto intro!: extends_intros)

lemma extends_throughput [extends_intros]: "extends (tun_throughput_of W name)" "extends (proxy_throughput W p q)"
proof -
  have "extends (\<lambda>h. (Exc name, h))" by (simp add: extends_def)
  then show "extends (tun_throughput_of W name)"
    unfolding tun_throughput_of_def tunnel_throughput_def by (auto intro!: extends_intros split: option.split)
  show "extends (proxy_throughput W p q)" unfolding proxy_throughput_def by (auto intro!: extends_intros)
qed

lemma extends_with_throughput [extends_intros]: "extends m \<Longrightarrow> extends (with_throughput p m)"
  unfolding with_throughput_def by (auto intro!: extends_intros)

lemma extends_Ret: "extends m \<Longrightarrow> m h = (r, h') \<Longrightarrow> e \<in> set h \<Longrightarrow> e \<in> set h'"
  unfolding extends_def by (metis snd_conv subsetD)

text \<open>The three pieces of evidence for an interface, as events of the run.\<close>

definition saw_handshake :: "string \<Rightarrow> string \<Rightarrow> history \<Rightarrow> bool" where
  "saw_handshake tool iface h \<longleftrightarrow> (\<exists>e \<in> set h. case e of
     Ran cmd t (Output code out err) \<Rightarrow> cmd = [tool, ''show'', iface, ''latest-handshakes''] \<and> list_ex handshake_line (splitlines out)
   | _ \<Rightarrow> False)"

definition saw_pings :: "string \<Rightarrow> nat \<Rightarrow> history \<Rightarrow> bool" where
  "saw_pings ip k h \<longleftrightarrow> (\<exists>e \<in> set h. case e of
     Ran cmd t (Output code out err) \<Rightarrow> cmd = ping_cmd ip 3 3 \<and> code = 0 \<and> k \<le> parse_ping_received out
   | _ \<Rightarrow> False)"

definition saw_peer_bytes :: "string \<Rightarrow> string \<Rightarrow> history \<Rightarrow> bool" where
  "saw_peer_bytes tool iface h \<longleftrightarrow> (\<exists>e \<in> set h. case e of
     Ran cmd t (Output code out err) \<Rightarrow> cmd = [tool, ''show'', iface, ''transfer''] \<and> code = 0
       \<and> list_ex (\<lambda>l. 0 < rx_of_line l) (splitlines out)
   | _ \<Rightarrow> False)"

lemma poll_wg_evidence:
  "poll_wg_loop n W tool iface t t0 h = (Ret True, h') \<Longrightarrow> saw_handshake tool iface h'"
proof (induction n arbitrary: h)
  case (Suc n)
  let ?cmd = "[tool, ''show'', iface, ''latest-handshakes'']"
  from Suc.prems have "fsub (wo_now W h) t0 < t" by (auto split: if_splits)
  with Suc.prems have "bind (run_cmd W ?cmd 1) (\<lambda>(code, out, err).
        if \<exists>line \<in> set (splitlines out). handshake_line line then ret True
        else then_do (emit (Slept (1 / 2))) (poll_wg_loop n W tool iface t t0)) h = (Ret True, h')" by simp
  then obtain code out err k where k: "run_cmd W ?cmd 1 h = (Ret (code, out, err), k)"
    "(if \<exists>line \<in> set (splitlines out). handshake_line line then ret True
        else then_do (emit (Slept (1 / 2))) (poll_wg_loop n W tool iface t t0)) k = (Ret True, h')"
    by (auto elim!: bind_Ret_E)
  show ?case
  proof (cases "\<exists>line \<in> set (splitlines out). handshake_line line")
    case True
    then have "h' = k" using k(2) by (simp add: ret_def)
    moreover have "k = h @ [Ran ?cmd 1 (Output code out err)]"
      using k(1) True by (auto elim!: run_cmd_Ret_E simp: splitlines_def)
    ultimately show ?thesis using True by (auto simp: saw_handshake_def list_ex_iff)
  next
    case False
    then have "poll_wg_loop n W tool iface t t0 (k @ [Slept (1 / 2)]) = (Ret True, h')"
      using k(2) by (simp add: then_do_def bind_def emit_def)
    then show ?thesis by (rule Suc.IH)
  qed
qed simp

lemma ping_evidence:
  assumes "ping_echo W ip 3 3 2 h = (Ret (True, r), h')"
  shows "saw_pings ip 2 h'"
proof -
  obtain code out err where k: "run_cmd W (ping_cmd ip 3 3) (of_int (3 * max \<lfloor>3 :: rat\<rfloor> 1 + 2)) h = (Ret (code, out, err), h')"
    "code = 0" "2 \<le> int (parse_ping_received out)"
    using assms unfolding ping_echo_def by (auto elim!: bind_Ret_E simp: ret_def split: if_splits)
  then show ?thesis by (auto elim!: run_cmd_Ret_E simp: saw_pings_def)
qed

lemma foldl_best:
  "foldl (\<lambda>best line. if best < f line then f line else best) (b :: nat) ls \<noteq> 0 \<Longrightarrow> b \<noteq> 0 \<or> (\<exists>l \<in> set ls. 0 < f l)"
proof (induction ls arbitrary: b)
  case (Cons l ls)
  then show ?case using Cons.IH [of "if b < f l then f l else b"] by (cases "b < f l") auto
qed simp

lemma rx_evidence:
  assumes "wg_peer_rx_bytes W tool iface h = (Ret rx, h')" "rx \<noteq> 0"
  shows "saw_peer_bytes tool iface h'"
proof -
  obtain code out err where k: "run_cmd W [tool, ''show'', iface, ''transfer''] 2 h = (Ret (code, out, err), h')" "code = 0"
    "rx = foldl (\<lambda>best line. if best < rx_of_line line then rx_of_line line else best) 0 (splitlines out)"
    using assms unfolding wg_peer_rx_bytes_def by (auto elim!: bind_Ret_E simp: ret_def split: if_splits)
  then have "\<exists>l \<in> set (splitlines out). 0 < rx_of_line l" using foldl_best [of rx_of_line 0 "splitlines out"] assms(2) by simp
  then show ?thesis using k by (auto elim!: run_cmd_Ret_E simp: saw_peer_bytes_def list_ex_iff)
qed

text \<open>Evidence stays.\<close>

lemma saw_stays:
  assumes "set h \<subseteq> set h'"
  shows "saw_handshake tool iface h \<Longrightarrow> saw_handshake tool iface h'" "saw_pings ip k h \<Longrightarrow> saw_pings ip k h'"
    "saw_peer_bytes tool iface h \<Longrightarrow> saw_peer_bytes tool iface h'"
  using assms unfolding saw_handshake_def saw_pings_def saw_peer_bytes_def by blast+

lemma extends_delete [extends_intros]: "extends (async_delete_iface W i)" "extends (scrub_amneziawg W)"
proof -
  show d: "extends (async_delete_iface W j)" for j
    by (auto simp: extends_def async_delete_iface_def Let_def split: delete_end.split)
  show "extends (scrub_amneziawg W)"
    unfolding scrub_amneziawg_def async_rm_amneziawg_socket_def by (intro extends_intros d)
qed

lemma past_ret: "(if b then ret x else m) k = (Ret p, h') \<Longrightarrow> p \<noteq> x \<Longrightarrow> \<not> b \<and> m k = (Ret p, h')"
  by (auto simp: ret_def split: if_splits)

lemma wg_session_evidence:
  assumes "wg_session n W tool iface ip name h = (Ret p, h')" "pb_verdict p = OK"
  shows "saw_handshake tool iface h' \<and> saw_pings ip 2 h' \<and> saw_peer_bytes tool iface h'"
proof -
  have not_ok: "pb_verdict (ProbeResult_default\<lparr>pb_handshake_ok := True, pb_verdict := HANDSHAKE_ONLY, pb_rtt_ms := x\<rparr>) \<noteq> OK"
    "pb_verdict (ProbeResult_default\<lparr>pb_handshake_ok := True, pb_verdict := HANDSHAKE_ONLY\<rparr>) \<noteq> OK" "pb_verdict ProbeResult_default \<noteq> OK" for x
    by (simp_all add: ProbeResult_default_def)
  let ?result = "\<lambda>ping_rtt. case finite_of ping_rtt of None \<Rightarrow> ProbeResult_default\<lparr>pb_handshake_ok := True, pb_verdict := HANDSHAKE_ONLY\<rparr>
            | Some x \<Rightarrow> ProbeResult_default\<lparr>pb_handshake_ok := True, pb_verdict := HANDSHAKE_ONLY, pb_rtt_ms := Some x\<rparr>"
  let ?rest = "\<lambda>result. bind (wg_peer_rx_bytes W tool iface) (\<lambda>rx. if rx = 0 then ret result
        else with_throughput (result\<lparr>pb_data_ok := True, pb_verdict := OK\<rparr>) (tun_throughput_of W name))"
  have not_result: "pb_verdict (?result r) \<noteq> OK" for r using not_ok by (cases "finite_of r") auto
  obtain hs k1 where k1: "poll_wg_handshake n W tool iface PROBE_TIMEOUT h = (Ret hs, k1)"
    and rest0: "(if \<not> hs then ret ProbeResult_default else bind (ping_echo W ip 3 3 2) (\<lambda>(ping_ok, ping_rtt).
      if \<not> ping_ok then ret (?result ping_rtt) else ?rest (?result ping_rtt))) k1 = (Ret p, h')"
    using assms(1) unfolding wg_session_def Let_def by (rule bind_Ret_E)
  have hs: hs and rest1: "bind (ping_echo W ip 3 3 2) (\<lambda>(ping_ok, ping_rtt).
      if \<not> ping_ok then ret (?result ping_rtt) else ?rest (?result ping_rtt)) k1 = (Ret p, h')"
    using past_ret [OF rest0] assms(2) not_ok(3) by blast+
  obtain a k2 where a: "ping_echo W ip 3 3 2 k1 = (Ret a, k2)"
    "(case a of (ping_ok, ping_rtt) \<Rightarrow> if \<not> ping_ok then ret (?result ping_rtt) else ?rest (?result ping_rtt)) k2 = (Ret p, h')"
    using rest1 by (rule bind_Ret_E)
  obtain ping_ok r where r: "a = (ping_ok, r)" by fastforce
  have k2: "ping_echo W ip 3 3 2 k1 = (Ret (ping_ok, r), k2)"
    "(if \<not> ping_ok then ret (?result r) else ?rest (?result r)) k2 = (Ret p, h')" using a unfolding r prod.case by blast+
  have ok: ping_ok and rest2: "?rest (?result r) k2 = (Ret p, h')"
    using past_ret [OF k2(2)] assms(2) not_result by blast+
  obtain rx k3 where k3: "wg_peer_rx_bytes W tool iface k2 = (Ret rx, k3)"
    "(if rx = 0 then ret (?result r)
        else with_throughput ((?result r)\<lparr>pb_data_ok := True, pb_verdict := OK\<rparr>) (tun_throughput_of W name)) k3 = (Ret p, h')"
    using rest2 by (rule bind_Ret_E)
  have rx: "rx \<noteq> 0" and last: "with_throughput ((?result r)\<lparr>pb_data_ok := True, pb_verdict := OK\<rparr>) (tun_throughput_of W name) k3 = (Ret p, h')"
    using past_ret [OF k3(2)] assms(2) not_result by blast+
  have steps: "set k1 \<subseteq> set k2" "set k2 \<subseteq> set k3" "set k3 \<subseteq> set h'"
    using extends_Ret [OF extends_ping k2(1)] extends_Ret [OF extends_rx k3(1)]
      extends_Ret [OF extends_with_throughput [OF extends_throughput(1)] last] by blast+
  have all: "set k1 \<subseteq> set h'" "set k2 \<subseteq> set h'" using steps by (meson subset_trans)+
  have "saw_handshake tool iface k1" using k1 hs poll_wg_evidence unfolding poll_wg_handshake_def by fastforce
  moreover have "saw_pings ip 2 k2" using k2(1) ok ping_evidence by fastforce
  moreover have "saw_peer_bytes tool iface k3" by (rule rx_evidence [OF k3(1) rx])
  ultimately show ?thesis using saw_stays(1) [OF all(1)] saw_stays(2) [OF all(2)] saw_stays(3) [OF steps(3)] by simp
qed

lemma then_do_Ret_E:
  assumes "then_do m n h = (Ret b, h')"
  obtains u k where "m h = (Ret u, k)" "n k = (Ret b, h')"
  using assms unfolding then_do_def by (rule bind_Ret_E)

lemma quick_evidence:
  assumes "bind (run_cmd W up t) (\<lambda>(code, out, err).
      if code \<noteq> 0 then then_do scrub (ret (ProbeResult_default\<lparr>pb_error := e err\<rparr>))
      else finally_do (wg_session n W tool iface ip name) (bind (run_cmd W down t) (\<lambda>r. scrub))) h = (Ret p, h')"
    "pb_verdict p = OK" "extends scrub"
  shows "saw_handshake tool iface h' \<and> saw_pings ip 2 h' \<and> saw_peer_bytes tool iface h'"
proof -
  have not_ok: "pb_verdict (ProbeResult_default\<lparr>pb_error := x\<rparr>) \<noteq> OK" for x by (simp add: ProbeResult_default_def)
  obtain k where "finally_do (wg_session n W tool iface ip name) (bind (run_cmd W down t) (\<lambda>r. scrub)) k = (Ret p, h')"
    using assms(1,2) not_ok by (elim bind_Ret_E) (auto simp: ret_def then_do_def split: if_splits elim!: bind_Ret_E)
  then obtain l where l: "wg_session n W tool iface ip name k = (Ret p, l)" "bind (run_cmd W down t) (\<lambda>r. scrub) l = (Ret (), h')"
    by (rule finally_Ret_E)
  have "set l \<subseteq> set h'" using extends_Ret [OF extends_bind [OF extends_run_cmd assms(3)] l(2)] by blast
  then show ?thesis using wg_session_evidence [OF l(1) assms(2)] saw_stays by blast
qed

text \<open>
  C24. An OK of the WireGuard or AmneziaWG probe rests on three things seen in that run: the tool
  showed a handshake time that is not zero, \<open>ping\<close> succeeded with two or three replies through the
  tunnel, and the tool counted bytes received from the peer. Replies alone, which a host can fake,
  do not make an OK.
\<close>

theorem wireguard_ok_evidence:
  assumes "pb_verdict p = OK"
    "probe_wireguard n W host port public preshared secret h = (Ret p, h') \<and> tool = ''wg'' \<and> iface = WG_CLI_IFACE \<and> ip = ''10.202.0.1''
     \<or> probe_amneziawg n W host port public preshared secret obfuscation h = (Ret p, h') \<and> tool = ''awg'' \<and> iface = AWG_CLI_IFACE \<and> ip = ''10.201.0.1''"
  shows "saw_handshake tool iface h' \<and> saw_pings ip 2 h' \<and> saw_peer_bytes tool iface h'"
proof -
  have key: "secret \<noteq> []"
    using assms by (auto simp: probe_wireguard_def probe_amneziawg_def ret_def ProbeResult_default_def)
  from assms(2) show ?thesis
  proof (elim disjE conjE)
    assume r: "probe_wireguard n W host port public preshared secret h = (Ret p, h')" and t: "tool = ''wg''" "iface = WG_CLI_IFACE" "ip = ''10.202.0.1''"
    show ?thesis unfolding t
      using r unfolding probe_wireguard_def Let_def if_not_P [OF key]
      by (elim then_do_Ret_E) (erule quick_evidence [OF _ assms(1) extends_delete(1)])
  next
    assume r: "probe_amneziawg n W host port public preshared secret obfuscation h = (Ret p, h')" and t: "tool = ''awg''" "iface = AWG_CLI_IFACE" "ip = ''10.201.0.1''"
    show ?thesis unfolding t
      using r unfolding probe_amneziawg_def Let_def if_not_P [OF key]
      by (elim then_do_Ret_E) (erule quick_evidence [OF _ assms(1) extends_delete(2)])
  qed
qed

section \<open>The local port and the log\<close>

text \<open>Whether the caller had found the local port listening changes the status but not the result.\<close>

lemma classify_by_ok:
  "status \<noteq> ''ok'' \<Longrightarrow> status' \<noteq> ''ok'' \<Longrightarrow> classify_proxy_outcome status l = classify_proxy_outcome status' l"
  by (simp add: classify_proxy_outcome_def)

text \<open>
  The readiness of the local port does not matter: for the same answers of the outside the
  SOCKS-routed probes report the same result whether the port was seen listening or not, although
  only one of the two calls the outcome blocked.
\<close>

theorem socks_ready_is_irrelevant:
  "populate_proxy_result W proto_label local_port True result h = populate_proxy_result W proto_label local_port False result h"
proof -
  let ?tail = "\<lambda>echo_port (status, rtt). bind (log_text W) (\<lambda>logged.
       let (hs_ok, is_hs_only) = classify_proxy_outcome status logged in
       if status = ''ok'' then
         with_throughput (result\<lparr>pb_handshake_ok := True, pb_data_ok := True, pb_verdict := OK, pb_rtt_ms := rtt\<rparr>)
           (proxy_throughput W local_port echo_port)
       else if is_hs_only then ret (result\<lparr>pb_handshake_ok := True, pb_verdict := HANDSHAKE_ONLY\<rparr>)
       else ret (result\<lparr>pb_handshake_ok := hs_ok, pb_verdict := BLOCKED\<rparr>))"
  have same: "?tail q (''blocked'', None) k = ?tail q (''inconclusive'', None) k" for q k
    by (simp add: classify_by_ok [of "''blocked''" "''inconclusive''"])
  have "bind (proxy_echo W local_port q True) (?tail q) k = bind (proxy_echo W local_port q False) (?tail q) k" for q k
    using same [of q]
    by (auto simp: proxy_echo_def bind_def [of "run_cmd W c t" for c t] bind_def [of "proxy_echo W local_port q b" for b]
        run_cmd_def Let_def split: cmd_end.split)
  then show ?thesis
    unfolding populate_proxy_result_def by (auto simp: bind_def [of "echo_port_of l" for l] echo_port_of_def split: option.split)
qed

text \<open>The drained log is a prefix of what the program wrote before it closed its output.\<close>

lemma drain_step_take: "length buf \<le> m \<Longrightarrow> drain_step m buf c = take m (buf @ c)"
  by (auto simp: drain_step_def Let_def nat_diff_distrib)

lemma foldl_drain: "length buf \<le> m \<Longrightarrow> foldl (drain_step m) buf cs = take m (buf @ concat cs)"
proof (induction cs arbitrary: buf)
  case (Cons c cs)
  have "foldl (drain_step m) buf (c # cs) = foldl (drain_step m) (take m (buf @ c)) cs"
    using drain_step_take [OF Cons.prems] by simp
  also have "\<dots> = take m (take m (buf @ c) @ concat cs)" by (rule Cons.IH) simp
  also have "\<dots> = take m (buf @ concat (c # cs))" using Cons.prems by (auto simp: min_def)
  finally show ?case .
qed simp

lemma drained_is_prefix: "drained m cs = take m (concat (takeWhile (\<lambda>c. c \<noteq> []) cs))"
  unfolding drained_def using foldl_drain [of "[]" m] by simp

section \<open>Every probe ends\<close>

text \<open>
  The clock never goes back, and a sleep, or the second that a read of OpenVPN's output waits in vain
  for a line, takes half its time at least (timers may fire a little early). Reading a line that is
  there may take no time at all: how often that happens is up to how many lines OpenVPN prints. The
  clock is of a size at which floats resolve seconds when the probe starts its first steps.
\<close>

definition early :: "history \<Rightarrow> bool" where
  "early h \<longleftrightarrow> length h \<le> 10 \<and> list_all (\<lambda>e. case e of Slept d \<Rightarrow> False | _ \<Rightarrow> True) h"

definition clock_ok :: "world \<Rightarrow> bool" where
  "clock_ok W \<longleftrightarrow> (\<forall>h e. wo_now W h \<le> wo_now W (h @ [e])) \<and> (\<forall>h d. wo_now W h + d / 2 \<le> wo_now W (h @ [Slept d]))
     \<and> (\<forall>h. wo_now W h + 1 / 2 \<le> wo_now W (h @ [ReadLine NoLine])) \<and> 0 \<le> wo_now W [] \<and> (\<forall>h. early h \<longrightarrow> wo_now W h \<le> 2 ^ 40)"

definition lines_read :: "history \<Rightarrow> nat" where
  "lines_read h = length (filter (\<lambda>e. case e of ReadLine (OutLine text) \<Rightarrow> True | _ \<Rightarrow> False) h)"

definition prints_at_most :: "nat \<Rightarrow> world \<Rightarrow> bool" where
  "prints_at_most l W \<longleftrightarrow> (\<forall>h text. wo_line W h = OutLine text \<longrightarrow> lines_read h < l)"

text \<open>A run does not run out of rounds, and does not turn the clock back.\<close>

definition ends :: "world \<Rightarrow> 'a run \<Rightarrow> bool" where
  "ends W m \<longleftrightarrow> (\<forall>h. fst (m h) \<noteq> OutOfRounds)"

named_theorems ends_intros

lemma ends_ret [ends_intros]: "ends W (ret a)"
  by (simp add: ends_def ret_def)

lemma ends_bind [ends_intros]: "ends W m \<Longrightarrow> (\<And>a. ends W (f a)) \<Longrightarrow> ends W (bind m f)"
  unfolding ends_def bind_def by (auto split: prod.split outcome.split) (metis fst_conv)

lemma ends_bind_at: "fst (m h) \<noteq> OutOfRounds \<Longrightarrow> (\<And>a. ends W (f a)) \<Longrightarrow> fst (bind m f h) \<noteq> OutOfRounds"
  unfolding ends_def bind_def by (auto split: prod.split outcome.split)

lemma ends_then_do [ends_intros]: "ends W m \<Longrightarrow> ends W n \<Longrightarrow> ends W (then_do m n)"
  unfolding then_do_def by (rule ends_bind)

lemma ends_finally [ends_intros]: "ends W m \<Longrightarrow> ends W c \<Longrightarrow> ends W (finally_do m c)"
  unfolding ends_def finally_do_def by (auto split: prod.split outcome.split) (metis fst_conv)+

lemma ends_at: "(\<And>h. ends W (\<lambda>k. f h k)) \<Longrightarrow> ends W (\<lambda>h. f h h)"
  unfolding ends_def by blast

lemma ends_steps [ends_intros]:
  "ends W (emit e)" "ends W (run_cmd V cmd t)" "ends W (async_delete_iface V i)" "ends W (write_file V path content)"
  "ends W (spawn V cmd)" "ends W (of_measured r)" "ends W (log_text V)" "ends W (echo_port_of l)" "ends W (async_rm_amneziawg_socket i)"
  "ends W (\<lambda>h. (Exc x, h))"
  by (simp_all add: ends_def emit_def run_cmd_def async_delete_iface_def write_file_def spawn_def of_measured_def log_text_def
      echo_port_of_def async_rm_amneziawg_socket_def Let_def split: cmd_end.split delete_end.split option.split sum.split)

lemma fsub_bound:
  assumes "of_int m \<le> now - t0" "\<bar>m\<bar> \<le> 2 ^ 53"
  shows "of_int m \<le> fsub now t0"
  using fl_mono [OF assms(1)] fl_of_int [OF assms(2)] by (simp add: fsub_def)

lemma clock_two: "clock_ok W \<Longrightarrow> wo_now W h + d / 2 \<le> wo_now W ((h @ [e]) @ [Slept d])"
  unfolding clock_ok_def by (meson add_right_mono order_trans)

lemma poll_ends:
  assumes "clock_ok W" "t0 + 15 \<le> wo_now W h + of_nat n / 4"
  shows "fst (poll_wg_loop (Suc n) W tool iface PROBE_TIMEOUT t0 h) \<noteq> OutOfRounds"
  using assms(2)
proof (induction n arbitrary: h)
  case 0
  then have "15 \<le> fsub (wo_now W h) t0" using fsub_bound [of 15 "wo_now W h" t0] by simp
  then show ?case by (simp add: PROBE_TIMEOUT_def)
next
  case (Suc n)
  let ?cmd = "[tool, ''show'', iface, ''latest-handshakes'']"
  have step: "fst (poll_wg_loop (Suc n) W tool iface PROBE_TIMEOUT t0 ((h @ [Ran ?cmd 1 e]) @ [Slept (1 / 2)])) \<noteq> OutOfRounds" for e
  proof (rule Suc.IH)
    have "wo_now W h + (1 / 2) / 2 \<le> wo_now W ((h @ [Ran ?cmd 1 e]) @ [Slept (1 / 2)])" by (rule clock_two [OF assms(1)])
    then show "t0 + 15 \<le> wo_now W ((h @ [Ran ?cmd 1 e]) @ [Slept (1 / 2)]) + of_nat n / 4"
      using Suc.prems by (simp add: field_simps)
  qed
  show ?case
    by (subst poll_wg_loop.simps)
      (use step in \<open>auto simp: bind_def run_cmd_def then_do_def emit_def ret_def Let_def simp del: poll_wg_loop.simps split: cmd_end.split\<close>)
qed

lemma fl_twentieth: "1 / 32 \<le> fl (1 / 20)"
proof -
  have "fl (pow2 (- 5)) = pow2 (- 5)" by (rule fl_pow2) simp
  then have "fl (1 / 32) = 1 / 32" by (simp add: power_int_minus)
  then show ?thesis using fl_mono [of "1 / 32" "1 / 20"] by simp
qed

lemma wait_port_ends:
  assumes "clock_ok W" "deadline \<le> wo_now W h + of_nat n / 64"
  shows "fst (wait_port_loop (Suc n) W port deadline h) \<noteq> OutOfRounds"
  using assms(2)
proof (induction n arbitrary: h)
  case (Suc n)
  have "1 / 32 \<le> fl (1 / 20)" by (rule fl_twentieth)
  moreover have "wo_now W h + fl (1 / 20) / 2 \<le> wo_now W ((h @ [Tried port False]) @ [Slept (fl (1 / 20))])"
    by (rule clock_two [OF assms(1)])
  ultimately have "deadline \<le> wo_now W (h @ [Tried port False, Slept (fl (1 / 20))]) + of_nat n / 64"
    using Suc.prems by (simp add: field_simps)
  then show ?case by (subst wait_port_loop.simps) (use Suc.IH in \<open>auto simp del: wait_port_loop.simps\<close>)
qed simp

lemma openvpn_ends:
  assumes "clock_ok W" "prints_at_most l W" "t0 + 15 \<le> wo_now W h + of_nat k / 2" "l - lines_read h + k \<le> n"
  shows "fst (openvpn_loop (Suc n) W t0 tail h) \<noteq> OutOfRounds"
  using assms(3,4)
proof (induction n arbitrary: h k tail)
  case 0
  then have "15 \<le> fsub (wo_now W h) t0" using fsub_bound [of 15 "wo_now W h" t0] by simp
  then show ?case by (simp add: PROBE_TIMEOUT_def)
next
  case (Suc n)
  have late: "\<not> fsub (wo_now W h) t0 < PROBE_TIMEOUT" if "k = 0"
    using Suc.prems(1) that fsub_bound [of 15 "wo_now W h" t0] by (simp add: PROBE_TIMEOUT_def)
  have one_line: "fst (openvpn_loop (Suc n) W t0 tl (h @ [ReadLine (OutLine shown)])) \<noteq> OutOfRounds" if "wo_line W h = OutLine shown" for shown tl
  proof (rule Suc.IH)
    have "wo_now W h \<le> wo_now W (h @ [ReadLine (OutLine shown)])" using assms(1) by (simp add: clock_ok_def)
    then show "t0 + 15 \<le> wo_now W (h @ [ReadLine (OutLine shown)]) + of_nat k / 2" using Suc.prems(1) by linarith
    have "lines_read h < l" using assms(2) that by (simp add: prints_at_most_def)
    then show "l - lines_read (h @ [ReadLine (OutLine shown)]) + k \<le> n" using Suc.prems(2) by (simp add: lines_read_def)
  qed
  have none: "fst (openvpn_loop (Suc n) W t0 tail (h @ [ReadLine NoLine])) \<noteq> OutOfRounds" if "k \<noteq> 0"
  proof (rule Suc.IH [of _ "k - 1"])
    have "wo_now W h + 1 / 2 \<le> wo_now W (h @ [ReadLine NoLine])" using assms(1) by (simp add: clock_ok_def)
    then show "t0 + 15 \<le> wo_now W (h @ [ReadLine NoLine]) + of_nat (k - 1) / 2"
      using Suc.prems(1) that by (simp add: of_nat_diff field_simps)
    show "l - lines_read (h @ [ReadLine NoLine]) + (k - 1) \<le> n" using Suc.prems(2) that by (simp add: lines_read_def)
  qed
  show ?case
    by (subst openvpn_loop.simps) (use late one_line none in \<open>auto simp: Let_def simp del: openvpn_loop.simps split: line_end.split\<close>)
qed

lemma clock_nonneg: "clock_ok W \<Longrightarrow> 0 \<le> wo_now W h"
  by (induction h rule: rev_induct) (auto simp: clock_ok_def intro: order_trans)

lemma wait_listening_ends:
  assumes "clock_ok W" "early h" "1024 \<le> n"
  shows "fst (wait_port_listening (Suc n) W port PROBE_TIMEOUT h) \<noteq> OutOfRounds"
proof -
  let ?now = "wo_now W h"
  have now: "0 \<le> ?now" "?now \<le> 2 ^ 40" using clock_nonneg [OF assms(1)] assms(1,2) unfolding clock_ok_def by blast+
  have ints: "\<bar>\<lceil>?now\<rceil> + 15\<bar> \<le> 2 ^ 53"
  proof -
    have "\<lceil>?now\<rceil> \<le> 2 ^ 40" using now(2) by (simp add: ceiling_le_iff)
    moreover have "0 \<le> \<lceil>?now\<rceil>" using now(1) by simp
    ultimately show ?thesis by simp
  qed
  have "?now + 15 \<le> of_int (\<lceil>?now\<rceil> + 15)" by simp
  from fl_mono [OF this] have "fadd ?now 15 \<le> of_int \<lceil>?now\<rceil> + 15" using fl_of_int [OF ints] by (simp add: fadd_def)
  also have "\<dots> \<le> ?now + 16" using ceiling_correct [of ?now] by linarith
  also have "\<dots> \<le> ?now + of_nat n / 64" using assms(3) by simp
  finally show ?thesis unfolding wait_port_listening_def PROBE_TIMEOUT_def by (rule wait_port_ends [OF assms(1)])
qed

lemma session_ends_wg: "clock_ok W \<Longrightarrow> 60 \<le> n \<Longrightarrow> ends V (wg_session (Suc n) W tool iface ip name)"
proof -
  assume c: "clock_ok W" "60 \<le> n"
  have "fst (poll_wg_handshake (Suc n) W tool iface PROBE_TIMEOUT h) \<noteq> OutOfRounds" for h
    unfolding poll_wg_handshake_def by (rule poll_ends [OF c(1)]) (use c(2) in simp)
  then have "ends V (poll_wg_handshake (Suc n) W tool iface PROBE_TIMEOUT)" by (simp add: ends_def)
  then show ?thesis
    unfolding wg_session_def ping_echo_def wg_peer_rx_bytes_def with_throughput_def tun_throughput_of_def tunnel_throughput_def Let_def
    by (auto intro!: ends_intros split: option.split)
qed

lemma session_ends_openvpn: "clock_ok W \<Longrightarrow> prints_at_most l W \<Longrightarrow> l + 30 \<le> n \<Longrightarrow> ends V (openvpn_session (Suc n) W)"
proof -
  assume c: "clock_ok W" "prints_at_most l W" "l + 30 \<le> n"
  have loop: "fst (openvpn_loop (Suc n) W (wo_now W h) [] h) \<noteq> OutOfRounds" for h
    by (rule openvpn_ends [OF c(1,2), of _ _ 30]) (use c(3) in simp_all)
  have rest: "ends V (openvpn_data_phase W p)" for p
    unfolding openvpn_data_phase_def ping_echo_def with_throughput_def tun_throughput_of_def tunnel_throughput_def Let_def
    by (auto intro!: ends_intros split: option.split)
  show ?thesis
    unfolding ends_def openvpn_session_def
    by (intro allI ends_bind_at [of _ _ V] loop) (auto intro!: ends_intros rest split: option.split)
qed

lemma ends_proxy_echo [ends_intros]: "ends V (proxy_echo W p q b)"
  by (auto simp: ends_def proxy_echo_def bind_def run_cmd_def Let_def split: cmd_end.split)

lemma ends_populate: "ends V (populate_proxy_result W label p ready result)"
proof -
  have t: "ends V (with_throughput r (proxy_throughput W p q))" for r q
    unfolding with_throughput_def proxy_throughput_def by (auto intro!: ends_intros)
  show ?thesis unfolding populate_proxy_result_def Let_def by (auto intro!: ends_intros t split: prod.split)
qed

lemma session_ends_proxy:
  assumes "clock_ok W" "1024 \<le> n" "early h" "\<And>V. ends V d"
  shows "fst (proxy_session (Suc n) W tool label d h) \<noteq> OutOfRounds"
proof -
  have dead: "ends W (then_do d (bind (log_text W) (\<lambda>logged. ret (f logged))))" for f :: "string \<Rightarrow> probe_result"
    by (intro ends_intros assms(4))
  show ?thesis unfolding proxy_session_def
  proof (rule ends_bind_at [of _ _ W])
    show "fst (wait_port_listening (Suc n) W (wo_free_port W) PROBE_TIMEOUT h) \<noteq> OutOfRounds"
      by (rule wait_listening_ends [OF assms(1,3,2)])
  qed (use dead ends_populate [of W W label "wo_free_port W"] in \<open>simp add: ends_def\<close>)
qed

lemma started_session_ends:
  assumes "\<And>h. early h \<Longrightarrow> fst (session h) \<noteq> OutOfRounds"
  shows "fst (then_do (write_file W path content) (then_do (spawn W cmd) (then_do (emit DrainStarted)
    (finally_do session stop_program))) []) \<noteq> OutOfRounds"
proof -
  have stop: "ends W stop_program" unfolding stop_program_def by (intro ends_intros)
  have "fst (finally_do session stop_program h) \<noteq> OutOfRounds" if "early h" for h
  proof -
    obtain r k where k: "session h = (r, k)" by fastforce
    obtain q l where l: "stop_program k = (q, l)" by fastforce
    have "r \<noteq> OutOfRounds" "q \<noteq> OutOfRounds" using assms [OF that] stop k l unfolding ends_def by (metis fst_conv)+
    then show ?thesis using k l by (cases r; cases q) (simp_all add: finally_do_def)
  qed
  then show ?thesis
    by (auto simp: then_do_def bind_def write_file_def spawn_def emit_def early_def split: option.split)
qed

lemma proxy_probes_end:
  assumes "clock_ok W" "1024 \<le> n"
  shows "fst (tunnel_via_singbox_or_xray (Suc n) W cmd label builder []) \<noteq> OutOfRounds"
    "fst (probe_hysteria2 (Suc n) W host port auth obfs []) \<noteq> OutOfRounds"
  unfolding tunnel_via_singbox_or_xray_def probe_hysteria2_def Let_def
  by (rule started_session_ends, erule session_ends_proxy [OF assms], intro ends_intros)+

text \<open>
  C26. Every run of a tunnel probe ends, in a result or an exception: with a clock that moves on with
  sleeps and timeouts no probe runs out of rounds, whatever the tools answer and however often they
  stall; the loops take at most 1024 rounds, and the OpenVPN loop, whose reads of lines already
  printed may be instantaneous, as many more as OpenVPN prints lines.
\<close>

theorem tunnel_probes_end:
  assumes "clock_ok W" "prints_at_most l W" "l + 1025 \<le> n" "tunnel_probe_of n W host call = Some run"
  shows "fst (run []) \<noteq> OutOfRounds"
proof -
  obtain k where n: "n = Suc k" "l + 1024 \<le> k" using assms(3) by (cases n) auto
  have k: "60 \<le> k" "1024 \<le> k" "l + 30 \<le> k" using n(2) by simp_all
  have o: "ends W (probe_openvpn n W host port psk)" for port psk
    unfolding probe_openvpn_def n(1) by (auto intro!: ends_intros session_ends_openvpn [OF assms(1,2) k(3)])
  have down: "ends W (scrub_amneziawg W)" unfolding scrub_amneziawg_def by (intro ends_intros)
  have w: "ends W (probe_wireguard n W host port a b c)" for port a b c
    unfolding probe_wireguard_def n(1) Let_def by (auto intro!: ends_intros session_ends_wg [OF assms(1) k(1)])
  have a: "ends W (probe_amneziawg n W host port a b c d)" for port a b c d
    unfolding probe_amneziawg_def n(1) Let_def by (auto intro!: ends_intros down session_ends_wg [OF assms(1) k(1)])
  show ?thesis
    using assms(4) o w a proxy_probes_end [OF assms(1) k(2)]
    unfolding tunnel_probe_of_def probe_shadowsocks_def probe_vless_reality_def n(1)
    by (auto simp: ends_def split: probe_call.splits)
qed

section \<open>Concrete runs\<close>

text \<open>
  An outside in which all tools work: the handshake shows at the first look, two of three pings
  return, the peer has sent bytes, the page and the download arrive.
\<close>

fun event_time :: "event \<Rightarrow> rat" where
  "event_time (Slept d) = max d 0"
| "event_time (ReadLine NoLine) = 1"
| "event_time e = 0"

definition demo_answer :: "string list \<Rightarrow> cmd_end" where
  "demo_answer cmd =
     (if list_ex (\<lambda>a. a = ''latest-handshakes'') cmd then Output 0 ''key 1700000000'' []
      else if list_ex (\<lambda>a. a = ''transfer'') cmd then Output 0 ''key 180 92'' []
      else if hd cmd = ''ping'' then Output 0 ''3 packets transmitted, 2 received, 33% packet loss, time 600ms'' []
      else if hd cmd = ''curl'' then (if list_ex (\<lambda>a. a = throughput_format) cmd then Output 0 ''28 0 30.0 0.5'' [] else Output 0 ''200'' [])
      else Output 0 [] [])"

definition demo_world :: world where
  "demo_world = \<lparr>wo_cmd = (\<lambda>h. demo_answer), wo_spawn = (\<lambda>h cmd. None), wo_line = (\<lambda>h. OutLine ''Initialization Sequence Completed''),
     wo_accepts = (\<lambda>h port. True), wo_chunks = (\<lambda>h. []), wo_died = (\<lambda>h. False), wo_delete = (\<lambda>h i. IpExits), wo_write = (\<lambda>h path. None),
     wo_now = (\<lambda>h. sum_list (map event_time h)), wo_free_port = 50123, wo_dir = ''/tmp/x'', wo_str = (\<lambda>x. ''30.0''), wo_dumps = (\<lambda>j. []),
     wo_throughput = \<lparr>tp_enabled = False, tp_target_bytes = 8388608, tp_timeout_sec = 30\<rparr>\<rparr>"

lemma event_time_nonneg: "0 \<le> event_time e"
  by (cases e rule: event_time.cases) simp_all

lemma demo_clock: "clock_ok demo_world"
proof -
  have early: "sum_list (map event_time h) \<le> of_nat (length h)" if "list_all (\<lambda>e. case e of Slept d \<Rightarrow> False | _ \<Rightarrow> True) h" for h
    using that
  proof (induction h)
    case (Cons e h)
    have "event_time e \<le> 1" using Cons.prems by (cases e rule: event_time.cases) simp_all
    then show ?case using Cons by simp
  qed simp
  have "sum_list (map event_time h) \<le> 2 ^ 40" if "early h" for h
  proof -
    have "(of_nat (length h) :: rat) \<le> 10" using that by (simp add: early_def)
    then show ?thesis using early [of h] that by (simp add: early_def)
  qed
  moreover have "d / 2 \<le> max d 0" for d :: rat by (simp add: max_def)
  ultimately show ?thesis by (simp add: clock_ok_def demo_world_def event_time_nonneg)
qed

definition demo_ok :: "probe_result outcome \<times> history \<Rightarrow> bool" where
  "demo_ok x = (case fst x of Ret p \<Rightarrow> pb_verdict p = OK | _ \<Rightarrow> False)"

lemma demo_wireguard: "demo_ok (probe_wireguard 1 demo_world ''h'' 1 ''a'' ''b'' ''c'' [])"
  by code_simp

lemma demo_wireguard_run:
  obtains p h' where "probe_wireguard 1 demo_world ''h'' 1 ''a'' ''b'' ''c'' [] = (Ret p, h')" "pb_verdict p = OK"
  using demo_wireguard by (cases "probe_wireguard 1 demo_world ''h'' 1 ''a'' ''b'' ''c'' []") (auto simp: demo_ok_def split: outcome.splits)

theorem tunnel_verdict_is_what_was_seen_witness:
  "\<exists>p h'. probe_wireguard 1 demo_world ''h'' 1 ''a'' ''b'' ''c'' [] = (Ret p, h') \<and> pb_verdict p = OK
    \<and> pb_verdict p = (if pb_data_ok p then OK else if pb_handshake_ok p then HANDSHAKE_ONLY else BLOCKED)
    \<and> (pb_data_ok p \<longrightarrow> pb_handshake_ok p)
    \<and> (pb_throughput_mbps p \<noteq> None \<or> pb_throughput_throttled p \<longrightarrow> pb_data_ok p)"
proof -
  obtain p h' where p: "probe_wireguard 1 demo_world ''h'' 1 ''a'' ''b'' ''c'' [] = (Ret p, h')" "pb_verdict p = OK"
    by (rule demo_wireguard_run)
  have "tunnel_probe_of 1 demo_world ''h'' (CallWireGuard 1 ''a'' ''b'' ''c'') = Some (probe_wireguard 1 demo_world ''h'' 1 ''a'' ''b'' ''c'')"
    by (simp add: tunnel_probe_of_def)
  from tunnel_verdict_is_what_was_seen [OF this p(1)] p show ?thesis by blast
qed

theorem wireguard_ok_evidence_witness:
  "\<exists>p h'. probe_wireguard 1 demo_world ''h'' 1 ''a'' ''b'' ''c'' [] = (Ret p, h') \<and> pb_verdict p = OK
    \<and> saw_handshake ''wg'' WG_CLI_IFACE h' \<and> saw_pings ''10.202.0.1'' 2 h' \<and> saw_peer_bytes ''wg'' WG_CLI_IFACE h'"
proof -
  obtain p h' where p: "probe_wireguard 1 demo_world ''h'' 1 ''a'' ''b'' ''c'' [] = (Ret p, h')" "pb_verdict p = OK"
    by (rule demo_wireguard_run)
  from wireguard_ok_evidence [of p 1 demo_world "''h''" 1 "''a''" "''b''" "''c''" "[]" h'] p show ?thesis by blast
qed

theorem interfaces_do_not_survive_witness:
  "fst (probe_wireguard 1 demo_world ''h'' 1 ''a'' ''b'' ''c'' []) \<noteq> OutOfRounds
    \<and> scrubbed WG_CLI_IFACE (snd (probe_wireguard 1 demo_world ''h'' 1 ''a'' ''b'' ''c'' []))"
proof -
  obtain p h' where p: "probe_wireguard 1 demo_world ''h'' 1 ''a'' ''b'' ''c'' [] = (Ret p, h')" "pb_verdict p = OK"
    by (rule demo_wireguard_run)
  have "scrubbed WG_CLI_IFACE h' \<or> list_ex (teardown_fails WG_CLI_IFACE) (since_up h') \<or> up_raised h'"
    using interfaces_do_not_survive [of "Ret p" 1 demo_world "''h''" 1 "[]" h' "''a''" "''b''" "''c''" undefined] p(1) by simp
  moreover have "\<not> list_ex (teardown_fails WG_CLI_IFACE) (since_up (snd (probe_wireguard 1 demo_world ''h'' 1 ''a'' ''b'' ''c'' [])))"
    "\<not> up_raised (snd (probe_wireguard 1 demo_world ''h'' 1 ''a'' ''b'' ''c'' []))" by code_simp+
  ultimately show ?thesis using p(1) by simp
qed

text \<open>An OpenVPN that prints three lines at once and is then silent: the clock stands still for the lines.\<close>

definition chatty_world :: world where
  "chatty_world = demo_world\<lparr>wo_line := \<lambda>h. if lines_read h < 3 then OutLine ''Attempting to establish TCP connection'' else NoLine\<rparr>"

theorem tunnel_probes_end_witness:
  "fst (probe_openvpn 1028 chatty_world ''h'' 1 ''BEGIN OpenVPN Static key'' []) \<noteq> OutOfRounds"
proof (rule tunnel_probes_end [where l = 3 and call = "CallOpenVPN 1 ''BEGIN OpenVPN Static key''" and host = "''h''"])
  have "wo_now chatty_world = wo_now demo_world" by (simp add: chatty_world_def)
  then show "clock_ok chatty_world" using demo_clock by (simp add: clock_ok_def)
  show "prints_at_most 3 chatty_world" by (simp add: prints_at_most_def chatty_world_def)
qed (simp_all add: tunnel_probe_of_def)

section \<open>What the comments say otherwise\<close>

text \<open>A program that does not start, a key that is missing: not ERROR but BLOCKED.\<close>

lemma local_failures_report_blocked:
  "fst (probe_wireguard n W host port a b [] h) = Ret (ProbeResult_default\<lparr>pb_error := Some ''Missing client private key''\<rparr>)"
  "wait_port_listening n W (wo_free_port W) PROBE_TIMEOUT h = (Ret ready, k) \<Longrightarrow> wo_died W k \<Longrightarrow>
    fst (proxy_session n W tool label (ret ()) h)
      = Ret (ProbeResult_default\<lparr>pb_error := Some (tool @ '' failed to start: '' @ drained 65536 (wo_chunks W k))\<rparr>)"
  "pb_verdict (ProbeResult_default\<lparr>pb_error := e\<rparr>) = BLOCKED"
  by (simp_all add: probe_wireguard_def proxy_session_def bind_def then_do_def log_text_def ret_def) (simp add: ProbeResult_default_def)

text \<open>An error line of OpenVPN is pushed out of the ring buffer by the 15 lines of settings after it.\<close>

lemma openvpn_error_line_is_lost:
  "summarise_openvpn_failure (foldl (\<lambda>tail line. push_line line tail) [] (''ERROR: Cannot ioctl TUNSETIFF'' # replicate 15 ''  mode = 0''))
    = ''  mode = 0 |   mode = 0 |   mode = 0 |   mode = 0''"
  by code_simp

text \<open>A refusal counts as a completed handshake when its text contains a success marker.\<close>

lemma refusal_counts_as_handshake:
  "classify_proxy_outcome ''inconclusive'' ''server replied: unauthenticated'' = (True, True)"
  by code_simp

lemma proxy_echo_statuses:
  "gives (proxy_echo W p q b) (\<lambda>(status, rtt). status \<in> {''ok'', ''blocked'', ''inconclusive''})"
  by (auto simp: gives_def proxy_echo_def bind_def run_cmd_def Let_def split: cmd_end.splits if_splits)

text \<open>When the \<open>down\<close> of the tool cannot be started, the interface survives.\<close>

lemma failing_down_leaves_the_interface:
  "\<not> scrubbed WG_CLI_IFACE (snd (probe_wireguard 1
     (demo_world\<lparr>wo_cmd := \<lambda>h cmd. if list_ex (\<lambda>a. a = ''down'') cmd then NotStarted ''Resource temporarily unavailable'' else demo_answer cmd\<rparr>)
     ''h'' 1 ''a'' ''b'' ''c'' []))"
  by code_simp

end
