(* ===== verification/Spec2Isabelle.thy ===== *)
theory Spec2Isabelle
  imports Runner Utils ServerMeta Scoring Targets Session DnsProbe HttpProbe ThrottleProbe CloudflareProbe DashboardApi
    MtprotoProbe TunnelProbes
begin

text \<open>
  Censprobe measures Internet censorship: a \<^emph>\<open>solo\<close> run probes many targets from one vantage and
  scores it; a \<^emph>\<open>session\<close> lets a client behind the censor try nine tunnel protocols against a
  listener, and compares what both sides saw. This development models the decision logic of both
  (Python packages under \<^verbatim>\<open>src/packages\<close>); a theory per component, in the order the code calls them.

  \<^bold>\<open>Base\<close>
  \<^item> \<open>Prelude\<close>, \<open>PyFloat\<close>, \<open>PyJson\<close>, \<open>PyText\<close>: what the code uses of Python. Strings are lists of 8-bit
    characters (non-ASCII text as its UTF-8 bytes); insertion-ordered dictionaries are association
    lists with the laws of the locale \<open>dictionary\<close>; exceptions are the left part of a sum; a float is
    a rational rounded by \<open>fl\<close> after every operation (round to nearest, ties to even, 53 bits,
    exponents down to -1074), with the infinities and NaN where a value can be one; an int is an
    \<open>int\<close>, and a word where the code reads a machine field.

  \<^bold>\<open>The probe core\<close> (\<^verbatim>\<open>probe-core/src/censprobe_core\<close>)
  \<^item> \<open>Subcategories\<close> (\<^verbatim>\<open>subcategories.py\<close>), \<open>Registry\<close> (\<^verbatim>\<open>protocol_registry.py\<close>, \<^verbatim>\<open>echo_ports.py\<close>), \<open>Models\<close>
    (\<^verbatim>\<open>models.py\<close>), \<open>Config\<close> (\<^verbatim>\<open>config.py\<close>), \<open>Targets\<close> (\<^verbatim>\<open>targets.py\<close>): the data model, its validators and
    loaders.
  \<^item> \<open>Scoring\<close> (\<^verbatim>\<open>scoring.py\<close>): \<open>compute_scores\<close> and every helper, with the rounding of binary64. The
    lemmas show the bounds of all scores, monotonicity under repaired results, the closed form of
    the reachability loop, and the soundness and completeness of the recommendations.
  \<^item> \<open>Runner\<close> (\<^verbatim>\<open>runner.py\<close>, \<^verbatim>\<open>module_registry.py\<close>): which modules run, isolation of their failures, the
    summary.
  \<^item> \<open>ServerMeta\<close> (\<^verbatim>\<open>server_meta.py\<close>), \<open>Utils\<close> (\<^verbatim>\<open>utils.py\<close>, \<^verbatim>\<open>_privsep.py\<close>, \<^verbatim>\<open>_tcp_kernel_rtt.py\<close>,
    \<^verbatim>\<open>_evidence.py\<close>, \<^verbatim>\<open>diagnostic_notes.py\<close>), \<open>CredsReader\<close> (\<^verbatim>\<open>credentials_reader.py\<close>).

  \<^bold>\<open>The listener\<close> (\<^verbatim>\<open>listener/src/censprobe_listener\<close>)
  \<^item> \<open>Credentials\<close> (\<^verbatim>\<open>credentials.py\<close>): generation with rejection sampling (fuel: as many draws as the
    stream of random words supplies before it gives an accepted one; the theorem says when that
    is enough) and the served document, which the client's parser reads back field by field.
  \<^item> \<open>CredServer\<close> (\<^verbatim>\<open>cred_server.py\<close>): the request handlers as threads of atomic actions over the
    shared state, any number of them interleaved with the main thread by the inductive relation
    \<open>sys_step\<close>; the invariant \<open>sys_ok\<close> is kept by every step. At most seven actions end a thread.
  \<^item> \<open>Iptables\<close> (\<^verbatim>\<open>_iptables_counter.py\<close>), \<open>EchoServer\<close> (\<^verbatim>\<open>echo_server.py\<close>), \<open>Responders\<close> (\<^verbatim>\<open>*_responder.py\<close>,
    \<^verbatim>\<open>*_wrapper.py\<close>, \<^verbatim>\<open>_responder_base.py\<close>, \<^verbatim>\<open>_responder_dispatch.py\<close>): what is counted, and what a stopped
    responder still says. The locales \<open>responder_contract\<close> and \<open>frozen_contract\<close> state what the
    session relies on and are interpreted on every responder. The polling loop of the throughput
    measurement has fuel; \<open>measurement_terminates\<close> shows how much its deadline makes sufficient.
  \<^item> \<open>Preflight\<close> (\<^verbatim>\<open>preflight.py\<close>) and \<open>Listener\<close> (\<^verbatim>\<open>main.py\<close>): the environment checks, the start and the
    end of a session, with what handlers of the echo server still count after its stop.

  \<^bold>\<open>The client\<close> (\<^verbatim>\<open>client/src/censprobe_client\<close>)
  \<^item> \<open>Client\<close> (\<^verbatim>\<open>main.py\<close>, \<^verbatim>\<open>_probe_dispatch.py\<close>): the pinned exchange, its retries (recursion on the
    attempts left, so it always ends), the probe loop, the cross-verification table.
  \<^item> \<open>Session\<close>: the theorems that span both sides.

  \<^bold>\<open>The probe modules\<close> (\<^verbatim>\<open>probe-core/src/censprobe_core/modules\<close>)
  \<^item> \<open>Probing\<close>: what the modules share (a fresh result, slices of text, rounding, extrema of samples).
    \<open>Urls\<close>: the parts of a URL as \<^verbatim>\<open>urllib.parse\<close> splits and joins them.
  \<^item> \<open>DnsProbe\<close> (\<^verbatim>\<open>dns.py\<close>): the evidence of each resolver, the packets of DNS over TLS, certificate names,
    the verdict and the caches. \<open>TcpProbe\<close> (\<^verbatim>\<open>tcp.py\<close>): attempts, their vote over a linear order of the
    verdicts, the vantage gate. \<open>HttpProbe\<close> (\<^verbatim>\<open>http.py\<close>, \<^verbatim>\<open>middlebox.py\<close>): replies, failures, block pages
    and header tampering. \<open>ThrottleProbe\<close> (\<^verbatim>\<open>throttling.py\<close>): the measured speeds and their comparison.
    \<open>TlsProbe\<close> (\<^verbatim>\<open>tls.py\<close>): handshakes under the suspected and a neutral name, the ECH configuration of HTTPS
    records. \<open>TelegramProbe\<close> (\<^verbatim>\<open>telegram.py\<close>): data centres, sites, the health score. \<open>CloudflareProbe\<close>
    (\<^verbatim>\<open>cloudflare.py\<close>): the QUIC and WARP packets and how each end of a probe is reported.
    The lemmas show that no module reports interference without the evidence its method names.

  \<^bold>\<open>The protocol probes\<close> (\<^verbatim>\<open>protocol_probes.py\<close>, the asynchronous half of \<^verbatim>\<open>link_utils.py\<close>)
  \<^item> \<open>MtprotoProbe\<close>: the two MTProto probes byte by byte. The peer is a function from what it got to what
    it adds to the stream and what waiting for more then ends in; specifications of an honest proxy
    and of a resPQ answer say what the probes accept. Reading records recurs on the bytes left.
  \<^item> \<open>TunnelProbes\<close>: the six probes that run a tunnel program, as runs (a value, an exception, or out of
    rounds) over the history of what was done outside. Their loops take a number of rounds;
    \<open>tunnel_probes_end\<close> shows that 1025 and one for every line OpenVPN prints are enough when sleeps
    and timeouts move the clock on. Each interface is deleted unless the deletion itself fails.

  \<^bold>\<open>The dashboard\<close> (\<^verbatim>\<open>dashboard/sync-api/src/sync_api\<close>)
  \<^item> \<open>ReportParser\<close> (\<^verbatim>\<open>parser.py\<close>, the value migrations of \<^verbatim>\<open>db.py\<close>): solo and listener reports and the
    legacy verdicts. \<open>Importer\<close> (\<^verbatim>\<open>main.py\<close>): the pass over the report directories, the upserts, orphans
    and the scoring of a solo report; the tables keep their unique keys, and after any history of
    passes over files written once, a pass over complete files settles. \<open>DashboardApi\<close>: the documents of the endpoints.

  \<^bold>\<open>Arguments of the model.\<close> YAML and JSON decoding, pydantic's field decoding, TLS, SHA-256, random
  numbers, clocks, sockets, subprocesses and the file system are arguments of the definitions;
  what a theorem assumes of them (a decoder inverts its encoder on the document sent, a shuffle
  permutes) is a named hypothesis of it.

  \<^bold>\<open>Not modelled.\<close> Terminal output, logging, signal handling, process and interface set-up, files
  and certificates: they have no result the program decides on. The solo and sync front
  ends (\<^verbatim>\<open>solo/main.py\<close>, \<^verbatim>\<open>sync/main.py\<close>) and the ephemeral certificate drive these parts from a
  command line, a terminal and the openssl tool, and are left out for the same reason.
\<close>

end
